(* ===== verification/Prelude.thy ===== *)
theory Prelude
  imports Complex_Main "HOL-Library.AList" "HOL-Library.Sublist"
begin

text \<open>
  Shared vocabulary of the development.

  \<^item> Errors: every exception the modelled Python code raises is a value of \<open>py_error\<close>; the
    string is the fixed head of the source's message, so that two \<open>raise\<close> statements of the same
    class stay distinguishable. A fallible operation returns \<open>py_error + 'a\<close> and is composed with
    \<open>res_bind\<close>, which stops at the first error as an exception does.
  \<^item> Dictionaries: a Python \<open>dict\<close> keeps its keys in insertion order, and several of the modelled
    loops iterate over one. It is an association list with distinct keys; \<open>AList.update\<close> overwrites
    in place or appends, \<open>AList.delete\<close> removes, exactly as the dictionary does.
  \<^item> Proof vocabulary: the collections \<open>res_simps\<close> (inversion of successful runs) and
    \<open>dict_simps\<close> (lookups after updates), used by all component theories.
\<close>

named_theorems res_simps \<open>inversion rules for results of fallible operations\<close>
named_theorems dict_simps \<open>lookup after update and delete on association lists\<close>

section \<open>Errors as values\<close>

datatype py_error =
    ValueError string
  | PITDataError string
  | KeyError string
  | IndexError string
  | OverflowError string
  | ZeroDivisionError string
  | TemporalViolationError string
  | LiveExecutionNotReadyError string
  | DuplicateIntentError string
  | ProviderQuotaExhaustedError string
  | NotImplementedError string
  | InvalidOperation string
  | TypeError string
  | RuntimeError string
  | IntegrityError string

type_synonym 'a res = "py_error + 'a"

definition res_bind :: "'a res \<Rightarrow> ('a \<Rightarrow> 'b res) \<Rightarrow> 'b res" where
  "res_bind m f = (case m of Inl e \<Rightarrow> Inl e | Inr x \<Rightarrow> f x)"

text \<open>\<open>guard c e m\<close> is the statement \<open>if c: raise e\<close> followed by \<open>m\<close>.\<close>

definition guard :: "bool \<Rightarrow> py_error \<Rightarrow> 'a res \<Rightarrow> 'a res" where
  "guard c e m = (if c then Inl e else m)"

fun mapM :: "('a \<Rightarrow> 'b res) \<Rightarrow> 'a list \<Rightarrow> 'b list res" where
  "mapM f [] = Inr []"
| "mapM f (x # xs) = res_bind (f x) (\<lambda>y. res_bind (mapM f xs) (\<lambda>ys. Inr (y # ys)))"

fun foldM :: "('s \<Rightarrow> 'a \<Rightarrow> 's res) \<Rightarrow> 's \<Rightarrow> 'a list \<Rightarrow> 's res" where
  "foldM f s [] = Inr s"
| "foldM f s (x # xs) = res_bind (f s x) (\<lambda>s'. foldM f s' xs)"

lemma res_bind_simps [simp]:
  "res_bind (Inl e) f = Inl e"
  "res_bind (Inr x) f = f x"
  by (simp_all add: res_bind_def)

lemma res_bind_Inr_iff [res_simps]:
  "res_bind m f = Inr y \<longleftrightarrow> (\<exists>x. m = Inr x \<and> f x = Inr y)"
  by (cases m) auto

lemma res_bind_Inl_iff [res_simps]:
  "res_bind m f = Inl e \<longleftrightarrow> m = Inl e \<or> (\<exists>x. m = Inr x \<and> f x = Inl e)"
  by (cases m) auto

lemma guard_simps [simp]:
  "guard True e m = Inl e"
  "guard False e m = m"
  by (simp_all add: guard_def)

text \<open>Congruences for evaluation: the continuation waits for its argument, as in the program.\<close>

lemma res_bind_weak_cong: "m = m' \<Longrightarrow> res_bind m f = res_bind m' f"
  by simp

lemma guard_weak_cong: "c = c' \<Longrightarrow> guard c e m = guard c' e m"
  by simp

lemmas eval_congs = res_bind_weak_cong guard_weak_cong let_weak_cong

lemma guard_Inr_iff [res_simps]: "guard c e m = Inr y \<longleftrightarrow> \<not> c \<and> m = Inr y"
  by (simp add: guard_def)

lemma guard_Inl_iff [res_simps]: "guard c e m = Inl d \<longleftrightarrow> (c \<and> d = e) \<or> (\<not> c \<and> m = Inl d)"
  by (auto simp: guard_def)

lemma mapM_Inr_length: "mapM f xs = Inr ys \<Longrightarrow> length ys = length xs"
  by (induction xs arbitrary: ys) (auto simp: res_simps)

lemma mapM_Inr_list_all2: "mapM f xs = Inr ys \<longleftrightarrow> list_all2 (\<lambda>x y. f x = Inr y) xs ys"
  by (induction xs arbitrary: ys) (auto simp: res_simps list_all2_Cons1)

lemma mapM_Inr_all:
  "mapM f xs = Inr ys \<Longrightarrow> (\<And>x y. x \<in> set xs \<Longrightarrow> f x = Inr y \<Longrightarrow> P y) \<Longrightarrow> \<forall>y \<in> set ys. P y"
proof (induction xs arbitrary: ys)
  case (Cons x xs)
  then obtain y ys' where ys: "ys = y # ys'" "f x = Inr y" "mapM f xs = Inr ys'" by (auto simp: res_simps)
  have "\<forall>y \<in> set ys'. P y" by (rule Cons.IH [OF ys(3)]) (rule Cons.prems(2) [OF list.set_intros(2)])
  with Cons.prems(2) [OF _ ys(2)] ys(1) show ?case by simp
qed simp

text \<open>A loop whose body keeps a property keeps it as a whole.\<close>

lemma foldM_invariant:
  assumes "foldM f s xs = Inr s'" and "P s"
    and "\<And>s x s'. x \<in> set xs \<Longrightarrow> P s \<Longrightarrow> f s x = Inr s' \<Longrightarrow> P s'"
  shows "P s'"
  using assms
proof (induction xs arbitrary: s)
  case Nil
  then show ?case by simp
next
  case (Cons x xs)
  from Cons.prems(1) obtain t where t: "f s x = Inr t" "foldM f t xs = Inr s'"
    by (auto simp: res_simps)
  moreover have "P t" using Cons.prems t by (metis list.set_intros(1))
  ultimately show ?case using Cons.IH Cons.prems(3) by (meson list.set_intros(2))
qed

lemma foldM_append: "foldM f s (xs @ ys) = res_bind (foldM f s xs) (\<lambda>t. foldM f t ys)"
proof (induction xs arbitrary: s)
  case (Cons x xs)
  then show ?case by (cases "f s x") auto
qed simp

section \<open>Insertion-ordered dictionaries\<close>

type_synonym ('k, 'v) dict = "('k \<times> 'v) list"

definition dict_get :: "('k, 'v) dict \<Rightarrow> 'k \<Rightarrow> 'v \<Rightarrow> 'v" where
  "dict_get d k v0 = (case map_of d k of None \<Rightarrow> v0 | Some v \<Rightarrow> v)"

definition dict_keys :: "('k, 'v) dict \<Rightarrow> 'k list" where
  "dict_keys d = map fst d"

abbreviation dict_ok :: "('k, 'v) dict \<Rightarrow> bool" where
  "dict_ok d \<equiv> distinct (map fst d)"

lemma update_fresh: "k \<notin> fst ` set d \<Longrightarrow> AList.update k v d = d @ [(k, v)]"
  by (induction d) auto

lemma dict_get_Nil [simp, dict_simps]: "dict_get [] k v0 = v0"
  by (simp add: dict_get_def)

lemma dict_get_Cons [simp, dict_simps]:
  "dict_get (p # d) k v0 = (if fst p = k then snd p else dict_get d k v0)"
  by (cases p) (simp add: dict_get_def)

lemma dict_get_update [simp, dict_simps]:
  "dict_get (AList.update k v d) k' v0 = (if k' = k then v else dict_get d k' v0)"
  by (simp add: dict_get_def update_conv')

lemma dict_get_delete [simp, dict_simps]:
  "dict_get (AList.delete k d) k' v0 = (if k' = k then v0 else dict_get d k' v0)"
  by (simp add: dict_get_def delete_conv')

lemma dict_ok_update [simp]: "dict_ok d \<Longrightarrow> dict_ok (AList.update k v d)"
  by (rule distinct_update)

lemma dict_ok_delete [simp]: "dict_ok d \<Longrightarrow> dict_ok (AList.delete k d)"
  by (rule distinct_delete)

lemma dict_get_mem: "dict_get d k v0 \<noteq> v0 \<Longrightarrow> (k, dict_get d k v0) \<in> set d"
  by (auto simp: dict_get_def split: option.splits dest: map_of_SomeD)

lemma dict_get_in: "dict_ok d \<Longrightarrow> (k, v) \<in> set d \<Longrightarrow> dict_get d k v0 = v"
  by (simp add: dict_get_def)

lemma dict_get_notin: "k \<notin> fst ` set d \<Longrightarrow> dict_get d k v0 = v0"
  by (auto simp: dict_get_def split: option.splits dest: map_of_SomeD) (force dest: map_of_SomeD)

text \<open>Sums over the values of a dictionary change by the difference at the touched key.\<close>

definition dict_sum :: "('k, int) dict \<Rightarrow> int" where
  "dict_sum d = sum_list (map snd d)"

lemma dict_sum_simps [simp]:
  "dict_sum [] = 0"
  "dict_sum (p # d) = snd p + dict_sum d"
  by (simp_all add: dict_sum_def)

lemma dict_sum_update [simp]:
  "dict_sum (AList.update k v d) = dict_sum d + v - dict_get d k 0"
  by (induction d) auto

lemma dict_sum_delete:
  "dict_ok d \<Longrightarrow> dict_sum (AList.delete k d) = dict_sum d - dict_get d k 0"
proof (induction d)
  case (Cons p d)
  show ?case
  proof (cases "fst p = k")
    case True
    with Cons.prems have "k \<notin> fst ` set d" by auto
    with True show ?thesis by (simp add: delete_id)
  next
    case False
    with Cons show ?thesis by simp
  qed
qed simp

section \<open>Array indexing\<close>

text \<open>Indexing a sequence as Python does: a negative index counts from the end.\<close>

definition array_get :: "'a list \<Rightarrow> int \<Rightarrow> 'a res" where
  "array_get xs i = (if 0 \<le> i \<and> i < int (length xs) then Inr (xs ! nat i)
     else if - int (length xs) \<le> i \<and> i < 0 then Inr (xs ! nat (int (length xs) + i))
     else Inl (IndexError ''index out of bounds''))"

section \<open>Weighted sums over journals\<close>

text \<open>The sum of \<open>f\<close> over the elements that satisfy \<open>P\<close>, in list order.\<close>

definition sum_where :: "('a \<Rightarrow> bool) \<Rightarrow> ('a \<Rightarrow> int) \<Rightarrow> 'a list \<Rightarrow> int" where
  "sum_where P f xs = sum_list (map f (filter P xs))"

lemma sum_where_simps [simp]:
  "sum_where P f [] = 0"
  "sum_where P f (x # xs) = (if P x then f x else 0) + sum_where P f xs"
  "sum_where P f (xs @ ys) = sum_where P f xs + sum_where P f ys"
  by (simp_all add: sum_where_def)

lemma sum_where_True: "sum_where (\<lambda>_. True) f xs = sum_list (map f xs)"
  by (simp add: sum_where_def)

section \<open>Subsequences\<close>

lemma subseq_set: "subseq xs ys \<Longrightarrow> set xs \<subseteq> set ys"
  by (induction rule: list_emb.induct) auto

lemma subseq_sorted_wrt: "subseq ys xs \<Longrightarrow> sorted_wrt P xs \<Longrightarrow> sorted_wrt P ys"
  by (induction rule: list_emb.induct) (auto dest: list_emb_set)

end
