(* ===== verification/PyNum.thy ===== *)
theory PyNum
  imports Prelude "HOL-Library.Log_Nat"
begin

text \<open>
  Python's numbers as the code uses them.

  \<^item> \<open>int\<close> is unbounded: HOL's \<open>int\<close>; \<open>//\<close> and \<open>%\<close> are \<open>div\<close> and \<open>mod\<close> (both round down).
  \<^item> \<open>float\<close> is an IEEE 754 binary64: a rational with 53 binary digits and exponent at least -1074,
    or one of the three special values. Every operation is the exact one followed by
    \<open>round_sig 2 53 (-1074)\<close> (round to nearest, ties to even), with overflow to infinity.
  \<^item> \<open>Decimal\<close> in the default context keeps 28 significant decimal digits, ties to even: a product
    or quotient is the exact one followed by \<open>round_sig 10 28\<close>. Constructors are exact, and
    \<open>to_integral_value\<close> is an exact floor or ceiling. The code never reads a decimal's exponent
    (quantum), so a decimal is its rational value.
  \<^item> \<open>Decimal(str(x))\<close> of a float is the shortest decimal that reads back as \<open>x\<close>: \<open>repr_dec\<close>.

  One generic rounding function serves both formats; that it is monotone, odd, exact on
  representable values and sign preserving is proved once.
\<close>

section \<open>Rounding to the nearest integer, ties to even\<close>

definition rhe :: "rat \<Rightarrow> int" where
  "rhe x = (let f = \<lfloor>x\<rfloor>; d = x - of_int f in
     if d < 1 / 2 then f else if d > 1 / 2 then f + 1 else if even f then f else f + 1)"

lemma rhe_of_int [simp]: "rhe (of_int n) = n"
  by (simp add: rhe_def)

lemma rhe_0 [simp]: "rhe 0 = 0"
  using rhe_of_int [of 0] by simp

lemma rhe_ge_floor: "\<lfloor>x\<rfloor> \<le> rhe x"
  by (simp add: rhe_def Let_def)

lemma rhe_le_floor1: "rhe x \<le> \<lfloor>x\<rfloor> + 1"
  by (simp add: rhe_def Let_def)

lemma rhe_mono: "x \<le> y \<Longrightarrow> rhe x \<le> rhe y"
proof -
  assume le: "x \<le> y"
  then have fl: "\<lfloor>x\<rfloor> \<le> \<lfloor>y\<rfloor>" by (rule floor_mono)
  show ?thesis
  proof (cases "\<lfloor>x\<rfloor> = \<lfloor>y\<rfloor>")
    case True
    with le show ?thesis by (auto simp: rhe_def Let_def)
  next
    case False
    with fl have "\<lfloor>x\<rfloor> + 1 \<le> \<lfloor>y\<rfloor>" by simp
    then show ?thesis using rhe_le_floor1 [of x] rhe_ge_floor [of y] by linarith
  qed
qed

lemma rhe_ge_int: "of_int n \<le> x \<Longrightarrow> n \<le> rhe x"
  using rhe_mono [of "of_int n" x] by simp

lemma rhe_le_int: "x \<le> of_int n \<Longrightarrow> rhe x \<le> n"
  using rhe_mono [of x "of_int n"] by simp

lemma rhe_uminus: "rhe (- x) = - rhe x"
proof (cases "x = of_int \<lfloor>x\<rfloor>")
  case True
  then have "rhe (- x) = rhe (of_int (- \<lfloor>x\<rfloor>))" by simp
  also have "\<dots> = - rhe (of_int \<lfloor>x\<rfloor>)" by (simp only: rhe_of_int)
  finally show ?thesis using True by simp
next
  case False
  have lt: "of_int \<lfloor>x\<rfloor> < x" using False of_int_floor_le [of x] by linarith
  have ub: "x < of_int \<lfloor>x\<rfloor> + 1" by linarith
  have fl: "\<lfloor>- x\<rfloor> = - \<lfloor>x\<rfloor> - 1"
    by (rule floor_unique) (use lt ub in simp_all)
  show ?thesis
    using lt ub by (simp add: rhe_def fl Let_def)
qed

lemma rhe_dist: "\<bar>of_int (rhe x) - x\<bar> \<le> 1 / 2"
proof -
  have "of_int \<lfloor>x\<rfloor> \<le> x" "x < of_int \<lfloor>x\<rfloor> + 1" by linarith+
  then show ?thesis by (auto simp: rhe_def Let_def)
qed

section \<open>The position of the leading digit\<close>

text \<open>The number of base-\<open>b\<close> digits of a positive integer, by repeated division.\<close>

function ndigits :: "int \<Rightarrow> int \<Rightarrow> int" where
  "ndigits b n = (if n \<le> 0 \<or> b \<le> 1 then 0 else ndigits b (n div b) + 1)"
  by pat_completeness auto
termination
  by (relation "measure (\<lambda>(b, n). nat n)") (auto simp: nat_less_iff int_div_less_self)

declare ndigits.simps [simp del]

lemma ndigits_floorlog: "ndigits (int b) (int n) = int (floorlog b n)"
proof (induction n rule: less_induct)
  case (less n)
  show ?case
  proof (cases "0 < n \<and> 1 < b")
    case True
    then have "n div b < n" by simp
    from less.IH [OF this] True show ?thesis
      by (subst ndigits.simps, subst compute_floorlog) (simp flip: zdiv_int)
  next
    case False
    then show ?thesis by (subst ndigits.simps, subst compute_floorlog) auto
  qed
qed

definition ilog :: "nat \<Rightarrow> rat \<Rightarrow> int" where
  "ilog b x = (if 1 \<le> x then ndigits (int b) \<lfloor>x\<rfloor> - 1
               else - ndigits (int b) (\<lceil>1 / x\<rceil> - 1))"

abbreviation pw :: "nat \<Rightarrow> int \<Rightarrow> rat" where
  "pw b e \<equiv> power_int (of_nat b) e"

lemma pw_pos [simp]: "1 < b \<Longrightarrow> 0 < pw b e"
  by simp

lemma pw_mono: "1 < b \<Longrightarrow> d \<le> e \<Longrightarrow> pw b d \<le> pw b e"
  by (rule power_int_increasing) simp_all

lemma pw_less: "1 < b \<Longrightarrow> pw b d < pw b e \<Longrightarrow> d < e"
  using pw_mono [of b e d] by (meson not_le)

lemma pw_add: "1 < b \<Longrightarrow> pw b (d + e) = pw b d * pw b e"
  by (simp add: power_int_add)

lemma pw_nat: "pw b (int n) = of_nat (b ^ n)"
  by simp

lemma ilog_bounds:
  assumes b: "1 < b" and x: "0 < x"
  shows "pw b (ilog b x) \<le> x" and "x < pw b (ilog b x + 1)"
proof -
  have "pw b (ilog b x) \<le> x \<and> x < pw b (ilog b x + 1)"
  proof (cases "1 \<le> x")
    case True
    define n where "n = nat \<lfloor>x\<rfloor>"
    have n: "0 < n" "of_nat n \<le> x" "x < of_nat n + 1"
      using True by (simp_all add: n_def) linarith+
    from floorlog_bounds [OF n(1) b]
    have fb: "b ^ (floorlog b n - 1) \<le> n" "n + 1 \<le> b ^ floorlog b n" by simp_all
    have pos: "0 < floorlog b n" using n(1) b by (simp add: floorlog_def)
    have il: "ilog b x = int (floorlog b n - 1)"
      using True pos ndigits_floorlog [of b n] n(1) by (simp add: ilog_def n_def)
    have "pw b (ilog b x) = of_nat (b ^ (floorlog b n - 1))" by (simp only: il pw_nat)
    also have "\<dots> \<le> of_nat n" using fb(1) by (simp only: of_nat_le_iff)
    finally have lo: "pw b (ilog b x) \<le> x" using n(2) by linarith
    have "ilog b x + 1 = int (floorlog b n)" using il pos by simp
    then have "pw b (ilog b x + 1) = of_nat (b ^ floorlog b n)" by (simp only: pw_nat)
    moreover have "(of_nat (n + 1) :: rat) \<le> of_nat (b ^ floorlog b n)"
      using fb(2) by (simp only: of_nat_le_iff)
    ultimately show ?thesis using lo n(3) by simp
  next
    case False
    define z where "z = 1 / x"
    have z: "1 < z" using False x by (simp add: z_def)
    define n where "n = nat (\<lceil>z\<rceil> - 1)"
    have "1 < \<lceil>z\<rceil>" using z by (simp add: less_ceiling_iff)
    then have n: "0 < n" "of_nat n < z" "z \<le> of_nat n + 1"
      by (simp_all add: n_def) linarith+
    from floorlog_bounds [OF n(1) b]
    have fb: "b ^ (floorlog b n - 1) \<le> n" "n + 1 \<le> b ^ floorlog b n" by simp_all
    have pos: "0 < floorlog b n" using n(1) b by (simp add: floorlog_def)
    have il: "ilog b x = - int (floorlog b n)"
      using False ndigits_floorlog [of b n] n(1) x by (simp add: ilog_def n_def z_def)
    have "z \<le> of_nat (b ^ floorlog b n)"
    proof -
      have "(of_nat (n + 1) :: rat) \<le> of_nat (b ^ floorlog b n)"
        using fb(2) by (simp only: of_nat_le_iff)
      then show ?thesis using n(3) by simp
    qed
    then have lo: "pw b (ilog b x) \<le> x"
      using b x by (simp add: il power_int_minus z_def field_simps)
    have "(of_nat (b ^ (floorlog b n - 1)) :: rat) < z"
    proof -
      have "(of_nat (b ^ (floorlog b n - 1)) :: rat) \<le> of_nat n"
        using fb(1) by (simp only: of_nat_le_iff)
      then show ?thesis using n(2) by linarith
    qed
    moreover have "ilog b x + 1 = - int (floorlog b n - 1)" using il pos by simp
    ultimately have "x < pw b (ilog b x + 1)"
      using b x by (simp add: power_int_minus z_def field_simps)
    with lo show ?thesis ..
  qed
  then show "pw b (ilog b x) \<le> x" and "x < pw b (ilog b x + 1)" by simp_all
qed

lemma ilog_mono:
  assumes "1 < b" "0 < x" "x \<le> y"
  shows "ilog b x \<le> ilog b y"
proof -
  have "pw b (ilog b x) < pw b (ilog b y + 1)"
    using ilog_bounds(1) [of b x] ilog_bounds(2) [of b y] assms by linarith
  then show ?thesis using pw_less [OF assms(1)] by fastforce
qed

lemma ilog_eqI:
  assumes "1 < b" "pw b e \<le> x" "x < pw b (e + 1)"
  shows "ilog b x = e"
proof -
  have x: "0 < x" using assms pw_pos [of b e] by linarith
  have "pw b (ilog b x) < pw b (e + 1)" "pw b e < pw b (ilog b x + 1)"
    using ilog_bounds [OF assms(1) x] assms by linarith+
  then have "ilog b x < e + 1" "e < ilog b x + 1" by (simp_all only: pw_less [OF assms(1)])
  then show ?thesis by simp
qed

section \<open>Rounding to a given number of significant digits\<close>

definition round_exp :: "nat \<Rightarrow> nat \<Rightarrow> int \<Rightarrow> rat \<Rightarrow> int" where
  "round_exp b p emin x = max emin (ilog b \<bar>x\<bar> - (int p - 1))"

definition round_sig :: "nat \<Rightarrow> nat \<Rightarrow> int \<Rightarrow> rat \<Rightarrow> rat" where
  "round_sig b p emin x =
     (let u = pw b (round_exp b p emin x) in of_int (rhe (x / u)) * u)"

lemma round_sig_0 [simp]: "round_sig b p emin 0 = 0"
  by (simp add: round_sig_def)

lemma round_sig_uminus [simp]: "round_sig b p emin (- x) = - round_sig b p emin x"
  by (simp add: round_sig_def round_exp_def Let_def rhe_uminus)

lemma round_sig_nonneg:
  assumes "1 < b" "0 \<le> x"
  shows "0 \<le> round_sig b p emin x"
proof -
  have "0 \<le> x / pw b (round_exp b p emin x)" using assms by simp
  then have "0 \<le> rhe (x / pw b (round_exp b p emin x))" using rhe_ge_int [of 0] by simp
  then show ?thesis using assms(1) by (simp add: round_sig_def Let_def)
qed

text \<open>Rounding never more than doubles a non-negative amount, at any magnitude.\<close>

lemma rhe_le_double: "0 \<le> x \<Longrightarrow> of_int (rhe x) \<le> 2 * x"
proof (cases "x < 1 / 2")
  case True
  assume "0 \<le> x"
  with True have "\<lfloor>x\<rfloor> = 0" by (simp add: floor_eq_iff)
  with True \<open>0 \<le> x\<close> show ?thesis by (simp add: rhe_def)
next
  case False
  then show ?thesis using rhe_dist [of x] by linarith
qed

lemma round_sig_le_double:
  assumes "1 < b" "0 \<le> x"
  shows "round_sig b p emin x \<le> 2 * x"
proof -
  let ?u = "pw b (round_exp b p emin x)"
  have u: "0 < ?u" using assms(1) by simp
  have "of_int (rhe (x / ?u)) * ?u \<le> 2 * (x / ?u) * ?u"
    using u assms(2) by (intro mult_right_mono rhe_le_double) simp_all
  then show ?thesis using u assms(1) by (simp add: round_sig_def Let_def)
qed

lemma round_sig_nonpos:
  assumes "1 < b" "x \<le> 0"
  shows "round_sig b p emin x \<le> 0"
  using round_sig_nonneg [of b "- x" p emin] assms by simp

text \<open>Monotonicity: inside one exponent by \<open>rhe_mono\<close>, across exponents through the power of the
  base that separates them.\<close>

lemma round_sig_le_pw:
  assumes b: "1 < b" and x: "0 < x" and e: "round_exp b p emin x = e"
  shows "round_sig b p emin x \<le> pw b (e + int p)"
proof -
  have "ilog b x + 1 \<le> e + int p" using e x by (simp add: round_exp_def)
  then have "x < pw b (e + int p)"
    using ilog_bounds(2) [OF b x] pw_mono [OF b, of "ilog b x + 1" "e + int p"] by linarith
  then have "x / pw b e \<le> of_int (int (b ^ p))"
    using b by (simp add: pw_add field_simps)
  then have "rhe (x / pw b e) \<le> int (b ^ p)" by (rule rhe_le_int)
  then have "(of_int (rhe (x / pw b e)) :: rat) \<le> of_int (int (b ^ p))"
    by (simp only: of_int_le_iff)
  then have "of_int (rhe (x / pw b e)) * pw b e \<le> of_int (int (b ^ p)) * pw b e"
    using b by (simp add: mult_right_mono)
  then show ?thesis using b by (simp add: round_sig_def Let_def e pw_add mult.commute)
qed

lemma round_sig_ge_pw:
  assumes b: "1 < b" and x: "0 < x" and p: "0 < p" and e: "round_exp b p emin x = e"
    and emin: "emin < e"
  shows "pw b (e + int p - 1) \<le> round_sig b p emin x"
proof -
  have il: "ilog b x = e + int p - 1" using e emin x by (simp add: round_exp_def max_def split: if_splits)
  have pe: "pw b (e + int p - 1) = of_int (int (b ^ (p - 1))) * pw b e"
  proof -
    have "e + int p - 1 = int (p - 1) + e" using p by simp
    then have "pw b (e + int p - 1) = pw b (int (p - 1)) * pw b e" by (simp only: pw_add [OF b])
    then show ?thesis by simp
  qed
  have "of_int (int (b ^ (p - 1))) \<le> x / pw b e"
    using ilog_bounds(1) [OF b x] b by (simp add: il pe field_simps)
  then have "int (b ^ (p - 1)) \<le> rhe (x / pw b e)" by (rule rhe_ge_int)
  then have "(of_int (int (b ^ (p - 1))) :: rat) \<le> of_int (rhe (x / pw b e))"
    by (simp only: of_int_le_iff)
  then have "of_int (int (b ^ (p - 1))) * pw b e \<le> of_int (rhe (x / pw b e)) * pw b e"
    using b by (simp add: mult_right_mono)
  then show ?thesis by (simp add: round_sig_def Let_def e pe)
qed

lemma round_sig_mono_pos:
  assumes b: "1 < b" and p: "0 < p" and x: "0 < x" and xy: "x \<le> y"
  shows "round_sig b p emin x \<le> round_sig b p emin y"
proof -
  let ?ex = "round_exp b p emin x" and ?ey = "round_exp b p emin y"
  have y: "0 < y" using x xy by simp
  have le: "?ex \<le> ?ey" using ilog_mono [OF b x xy] x y by (simp add: round_exp_def)
  show ?thesis
  proof (cases "?ex = ?ey")
    case True
    have "x / pw b ?ey \<le> y / pw b ?ey" using b xy by (simp add: divide_right_mono)
    then have "rhe (x / pw b ?ey) \<le> rhe (y / pw b ?ey)" by (rule rhe_mono)
    then show ?thesis using b by (simp add: round_sig_def Let_def True mult_right_mono)
  next
    case False
    with le have lt: "?ex < ?ey" by simp
    then have emin: "emin < ?ey" by (simp add: round_exp_def)
    have "round_sig b p emin x \<le> pw b (?ex + int p)" by (rule round_sig_le_pw [OF b x refl])
    also have "\<dots> \<le> pw b (?ey + int p - 1)" using lt by (intro pw_mono [OF b]) simp
    also have "\<dots> \<le> round_sig b p emin y" by (rule round_sig_ge_pw [OF b y p refl emin])
    finally show ?thesis .
  qed
qed

lemma round_sig_mono:
  assumes b: "1 < b" and p: "0 < p" and xy: "x \<le> y"
  shows "round_sig b p emin x \<le> round_sig b p emin y"
proof -
  consider "0 < x" | "x \<le> 0" "0 \<le> y" | "y < 0" using xy by linarith
  then show ?thesis
  proof cases
    case 1
    then show ?thesis by (rule round_sig_mono_pos [OF b p _ xy])
  next
    case 2
    then show ?thesis using round_sig_nonneg [OF b, of y p emin] round_sig_nonpos [OF b, of x p emin]
      by linarith
  next
    case 3
    then show ?thesis using round_sig_mono_pos [OF b p, of "- y" "- x" emin] xy by simp
  qed
qed

text \<open>A value \<open>m * b ^ e\<close> whose digits fit is rounded to itself.\<close>

lemma round_sig_exact:
  assumes b: "1 < b" and p: "0 < p" and m: "\<bar>m\<bar> < int (b ^ p)" and e: "emin \<le> e"
  shows "round_sig b p emin (of_int m * pw b e) = of_int m * pw b e"
proof (cases "m = 0")
  case False
  let ?x = "of_int m * pw b e :: rat"
  let ?r = "round_exp b p emin ?x"
  have ax: "\<bar>?x\<bar> = of_int \<bar>m\<bar> * pw b e" using b by (simp add: abs_mult)
  have pos: "0 < \<bar>?x\<bar>" using False b by (simp add: ax)
  have "(of_int \<bar>m\<bar> :: rat) < of_int (int (b ^ p))" using m by (simp only: of_int_less_iff)
  then have "\<bar>?x\<bar> < pw b (int p) * pw b e" using b by (simp add: ax)
  then have "pw b (ilog b \<bar>?x\<bar>) < pw b (e + int p)"
    using ilog_bounds(1) [OF b pos] b by (simp add: pw_add mult.commute)
  then have "ilog b \<bar>?x\<bar> < e + int p" by (rule pw_less [OF b])
  then have r: "?r \<le> e" using e by (simp add: round_exp_def)
  define k where "k = nat (e - ?r)"
  have "pw b e = pw b (int k) * pw b ?r" using b r by (simp add: k_def flip: pw_add)
  then have "?x / pw b ?r = of_int (m * int (b ^ k))" using b by (simp add: field_simps)
  then have "rhe (?x / pw b ?r) = m * int (b ^ k)" by (simp only: rhe_of_int)
  then show ?thesis
    using b \<open>pw b e = pw b (int k) * pw b ?r\<close> by (simp add: round_sig_def Let_def)
qed simp

lemma round_sig_of_int:
  assumes "1 < b" "0 < p" "\<bar>n\<bar> < int (b ^ p)" "emin \<le> 0"
  shows "round_sig b p emin (of_int n) = of_int n"
  using round_sig_exact [OF assms] by simp

text \<open>Rounding again changes nothing.\<close>

lemma round_sig_idem_pos:
  assumes b: "1 < b" and p: "0 < p" and x: "0 < x"
  shows "round_sig b p emin (round_sig b p emin x) = round_sig b p emin x"
proof -
  let ?e = "round_exp b p emin x"
  let ?m = "rhe (x / pw b ?e)"
  have eq: "round_sig b p emin x = of_int ?m * pw b ?e" by (simp add: round_sig_def Let_def)
  have emin: "emin \<le> ?e" by (simp add: round_exp_def)
  have m0: "0 \<le> ?m" using x b rhe_ge_int [of 0 "x / pw b ?e"] by simp
  have "round_sig b p emin x \<le> pw b (?e + int p)" by (rule round_sig_le_pw [OF b x refl])
  then have "of_int ?m * pw b ?e \<le> pw b (int p) * pw b ?e" using eq b by (simp add: pw_add mult.commute)
  then have "(of_int ?m :: rat) \<le> of_int (int (b ^ p))" using b by simp
  then have mle: "?m \<le> int (b ^ p)" by (simp only: of_int_le_iff)
  show ?thesis
  proof (cases "?m < int (b ^ p)")
    case True
    with m0 show ?thesis using round_sig_exact [OF b p _ emin, of ?m] by (simp add: eq)
  next
    case False
    with mle have "?m = int (b ^ p)" by simp
    then have "round_sig b p emin x = of_int 1 * pw b (?e + int p)"
      using eq b by (simp add: pw_add mult.commute)
    moreover have "\<bar>1\<bar> < int (b ^ p)" using b p by (simp add: one_less_power)
    moreover have "emin \<le> ?e + int p" using emin by simp
    ultimately show ?thesis using round_sig_exact [OF b p, of 1 emin "?e + int p"] by simp
  qed
qed

lemma round_sig_idem:
  assumes b: "1 < b" and p: "0 < p"
  shows "round_sig b p emin (round_sig b p emin x) = round_sig b p emin x"
proof -
  consider "0 < x" | "x = 0" | "0 < - x" by linarith
  then show ?thesis
  proof cases
    case 3
    then show ?thesis using round_sig_idem_pos [OF b p, of "- x" emin] by simp
  qed (simp_all add: round_sig_idem_pos [OF b p])
qed

section \<open>Decimal\<close>

text \<open>
  The default \<open>decimal\<close> context: \<open>prec = 28\<close>, \<open>ROUND_HALF_EVEN\<close>, \<open>Etiny = -1000026\<close>. Results with
  an exponent above \<open>Emax = 999999\<close> (which raise in Python) are out of reach of whole-KRW amounts
  and are not modelled.
\<close>

type_synonym decimal = rat

definition dec_round :: "rat \<Rightarrow> decimal" where
  "dec_round = round_sig 10 28 (- 1000026)"

definition dec_mul :: "decimal \<Rightarrow> decimal \<Rightarrow> decimal" where
  "dec_mul x y = dec_round (x * y)"

definition dec_add :: "decimal \<Rightarrow> decimal \<Rightarrow> decimal" where
  "dec_add x y = dec_round (x + y)"

definition dec_div :: "decimal \<Rightarrow> decimal \<Rightarrow> decimal res" where
  "dec_div x y = (if y = 0 then Inl (ZeroDivisionError ''decimal division'') else Inr (dec_round (x / y)))"

text \<open>\<open>int(x.to_integral_value(rounding=ROUND_FLOOR))\<close> and \<open>ROUND_CEILING\<close>.\<close>

definition dec_floor :: "decimal \<Rightarrow> int" where
  "dec_floor x = \<lfloor>x\<rfloor>"

definition dec_ceiling :: "decimal \<Rightarrow> int" where
  "dec_ceiling x = \<lceil>x\<rceil>"

section \<open>Binary floating point\<close>

datatype pyfloat = Fin rat | PInf | NInf | NaN

definition fl_round :: "rat \<Rightarrow> rat" where
  "fl_round = round_sig 2 53 (- 1074)"

definition to_float :: "rat \<Rightarrow> pyfloat" where
  "to_float x = (let r = fl_round x in
     if r = 0 \<or> ilog 2 \<bar>r\<bar> < 1024 then Fin r else if 0 < r then PInf else NInf)"

text \<open>The rationals that are binary64 values; every finite result is one.\<close>

definition is_double :: "rat \<Rightarrow> bool" where
  "is_double x \<longleftrightarrow> to_float x = Fin x"

fun is_finite :: "pyfloat \<Rightarrow> bool" where
  "is_finite (Fin x) = True"
| "is_finite _ = False"

fun wf_float :: "pyfloat \<Rightarrow> bool" where
  "wf_float (Fin x) = is_double x"
| "wf_float _ = True"

definition inf_of_sign :: "rat \<Rightarrow> pyfloat" where
  "inf_of_sign s = (if s = 0 then NaN else if 0 < s then PInf else NInf)"

fun fneg :: "pyfloat \<Rightarrow> pyfloat" where
  "fneg (Fin x) = Fin (- x)"
| "fneg PInf = NInf"
| "fneg NInf = PInf"
| "fneg NaN = NaN"

fun fadd :: "pyfloat \<Rightarrow> pyfloat \<Rightarrow> pyfloat" where
  "fadd (Fin x) (Fin y) = to_float (x + y)"
| "fadd NaN _ = NaN"
| "fadd _ NaN = NaN"
| "fadd PInf NInf = NaN"
| "fadd NInf PInf = NaN"
| "fadd PInf _ = PInf"
| "fadd _ PInf = PInf"
| "fadd NInf _ = NInf"
| "fadd _ NInf = NInf"

definition fsub :: "pyfloat \<Rightarrow> pyfloat \<Rightarrow> pyfloat" where
  "fsub a b = fadd a (fneg b)"

fun fmul :: "pyfloat \<Rightarrow> pyfloat \<Rightarrow> pyfloat" where
  "fmul (Fin x) (Fin y) = to_float (x * y)"
| "fmul NaN _ = NaN"
| "fmul _ NaN = NaN"
| "fmul PInf PInf = PInf"
| "fmul PInf NInf = NInf"
| "fmul NInf PInf = NInf"
| "fmul NInf NInf = PInf"
| "fmul PInf (Fin y) = inf_of_sign y"
| "fmul NInf (Fin y) = inf_of_sign (- y)"
| "fmul (Fin x) PInf = inf_of_sign x"
| "fmul (Fin x) NInf = inf_of_sign (- x)"

fun fdiv :: "pyfloat \<Rightarrow> pyfloat \<Rightarrow> pyfloat res" where
  "fdiv (Fin x) (Fin y) =
     (if y = 0 then Inl (ZeroDivisionError ''float division by zero'') else Inr (to_float (x / y)))"
| "fdiv PInf (Fin y) =
     (if y = 0 then Inl (ZeroDivisionError ''float division by zero'') else Inr (inf_of_sign y))"
| "fdiv NInf (Fin y) =
     (if y = 0 then Inl (ZeroDivisionError ''float division by zero'') else Inr (inf_of_sign (- y)))"
| "fdiv NaN (Fin y) =
     (if y = 0 then Inl (ZeroDivisionError ''float division by zero'') else Inr NaN)"
| "fdiv (Fin x) PInf = Inr (Fin 0)"
| "fdiv (Fin x) NInf = Inr (Fin 0)"
| "fdiv _ _ = Inr NaN"

fun fless :: "pyfloat \<Rightarrow> pyfloat \<Rightarrow> bool" where
  "fless (Fin x) (Fin y) = (x < y)"
| "fless NaN _ = False"
| "fless _ NaN = False"
| "fless NInf b = (b \<noteq> NInf)"
| "fless a PInf = (a \<noteq> PInf)"
| "fless _ _ = False"

definition fle :: "pyfloat \<Rightarrow> pyfloat \<Rightarrow> bool" where
  "fle a b \<longleftrightarrow> fless a b \<or> (a = b \<and> a \<noteq> NaN)"

text \<open>\<open>float(n)\<close> of an integer: out of range raises.\<close>

definition float_of_int :: "int \<Rightarrow> pyfloat res" where
  "float_of_int n = (case to_float (of_int n) of Fin x \<Rightarrow> Inr (Fin x)
     | _ \<Rightarrow> Inl (OverflowError ''int too large to convert to float''))"

fun math_floor :: "pyfloat \<Rightarrow> int res" where
  "math_floor (Fin x) = Inr \<lfloor>x\<rfloor>"
| "math_floor NaN = Inl (ValueError ''cannot convert float NaN to integer'')"
| "math_floor _ = Inl (OverflowError ''cannot convert float infinity to integer'')"

fun math_ceil :: "pyfloat \<Rightarrow> int res" where
  "math_ceil (Fin x) = Inr \<lceil>x\<rceil>"
| "math_ceil NaN = Inl (ValueError ''cannot convert float NaN to integer'')"
| "math_ceil _ = Inl (OverflowError ''cannot convert float infinity to integer'')"

text \<open>\<open>int(x)\<close> of a float truncates toward zero.\<close>

fun int_of_float :: "pyfloat \<Rightarrow> int res" where
  "int_of_float (Fin x) = Inr (if 0 \<le> x then \<lfloor>x\<rfloor> else \<lceil>x\<rceil>)"
| "int_of_float NaN = Inl (ValueError ''cannot convert float NaN to integer'')"
| "int_of_float _ = Inl (OverflowError ''cannot convert float infinity to integer'')"

text \<open>
  \<open>math.sqrt\<close> is correctly rounded. The integer part \<open>m\<close> of the root is taken at a scale where it has
  at least 55 binary digits; a non-square then lies strictly between \<open>m\<close> and \<open>m + 1\<close>, on the same side
  of every rounding boundary as \<open>m + 1/2\<close>.
\<close>

function isqrt :: "int \<Rightarrow> int" where
  "isqrt n = (if n \<le> 0 then 0
     else let r = 2 * isqrt (n div 4) in if (r + 1) * (r + 1) \<le> n then r + 1 else r)"
  by pat_completeness auto
termination
  by (relation "measure nat") (auto simp: nat_less_iff int_div_less_self)

declare isqrt.simps [simp del]

definition sqrt_round :: "rat \<Rightarrow> rat" where
  "sqrt_round x = (if x \<le> 0 then 0 else
     let e = ilog 2 x div 2 - 54; s = x / pw 4 e; m = isqrt \<lfloor>s\<rfloor>
     in fl_round ((if of_int (m * m) = s then of_int m else of_int m + 1 / 2) * pw 2 e))"

fun math_sqrt :: "pyfloat \<Rightarrow> pyfloat res" where
  "math_sqrt (Fin x) = (if x < 0 then Inl (ValueError ''math domain error'') else Inr (Fin (sqrt_round x)))"
| "math_sqrt PInf = Inr PInf"
| "math_sqrt NInf = Inl (ValueError ''math domain error'')"
| "math_sqrt NaN = Inr NaN"

section \<open>The shortest decimal of a float\<close>

text \<open>
  \<open>str(x)\<close> prints the shortest digit string that reads back as \<open>x\<close>. For \<open>n = 1, 2, \<dots>, 17\<close> digits the
  nearest \<open>n\<close>-digit decimal is tried first, then its neighbour on the other side of \<open>x\<close> (next to a
  power of two only the farther one may read back). Seventeen digits always suffice; the last equation
  of \<open>repr_search\<close> returns \<open>x\<close> itself, whose expansion is finite, so that \<open>repr_dec\<close> reads back by
  construction.
\<close>

definition repr_candidates :: "nat \<Rightarrow> rat \<Rightarrow> rat list" where
  "repr_candidates n x = (let u = pw 10 (ilog 10 \<bar>x\<bar> - (int n - 1)); near = of_int (rhe (x / u)) * u
     in [near, if near \<le> x then near + u else near - u])"

fun repr_search :: "nat \<Rightarrow> nat \<Rightarrow> rat \<Rightarrow> rat" where
  "repr_search 0 n x = x"
| "repr_search (Suc k) n x =
     (case find (\<lambda>c. to_float c = Fin x) (repr_candidates n x) of
        Some c \<Rightarrow> c | None \<Rightarrow> repr_search k (Suc n) x)"

definition repr_dec :: "rat \<Rightarrow> decimal" where
  "repr_dec x = (if x = 0 then 0 else repr_search 17 1 x)"

section \<open>Laws of Decimal\<close>

lemma dec_round_mono: "x \<le> y \<Longrightarrow> dec_round x \<le> dec_round y"
  unfolding dec_round_def by (rule round_sig_mono) simp_all

lemma dec_round_nonneg: "0 \<le> x \<Longrightarrow> 0 \<le> dec_round x"
  unfolding dec_round_def by (rule round_sig_nonneg) simp_all

lemma dec_round_0 [simp]: "dec_round 0 = 0"
  by (simp add: dec_round_def)

lemma dec_round_of_int: "\<bar>n\<bar> < 10 ^ 28 \<Longrightarrow> dec_round (of_int n) = of_int n"
  unfolding dec_round_def by (rule round_sig_of_int) simp_all

text \<open>A value \<open>m / 10^k\<close> with at most 28 digits is exact.\<close>

lemma dec_round_exact:
  assumes "\<bar>m\<bar> < 10 ^ 28" and "k \<le> 1000026"
  shows "dec_round (of_int m / 10 ^ k) = of_int m / 10 ^ k"
proof -
  have "(of_int m / 10 ^ k :: rat) = of_int m * pw 10 (- int k)"
    by (simp add: power_int_minus divide_inverse)
  then show ?thesis
    unfolding dec_round_def using assms round_sig_exact [of 10 28 m "- 1000026" "- int k"] by simp
qed

lemma dec_mul_nonneg: "0 \<le> x \<Longrightarrow> 0 \<le> y \<Longrightarrow> 0 \<le> dec_mul x y"
  by (simp add: dec_mul_def dec_round_nonneg)

lemma dec_mul_mono:
  "0 \<le> y \<Longrightarrow> x \<le> x' \<Longrightarrow> dec_mul x y \<le> dec_mul x' y"
  by (simp add: dec_mul_def dec_round_mono mult_right_mono)

lemma dec_mul_mono2:
  "0 \<le> x \<Longrightarrow> 0 \<le> y' \<Longrightarrow> x \<le> x' \<Longrightarrow> y \<le> y' \<Longrightarrow> dec_mul x y \<le> dec_mul x' y'"
  unfolding dec_mul_def by (rule dec_round_mono) (meson mult_left_mono mult_right_mono order_trans)

lemma dec_mul_0 [simp]: "dec_mul 0 y = 0" "dec_mul x 0 = 0"
  by (simp_all add: dec_mul_def)

lemma dec_round_le_double: "0 \<le> x \<Longrightarrow> dec_round x \<le> 2 * x"
  unfolding dec_round_def by (rule round_sig_le_double) simp_all

lemma dec_mul_quarter:
  assumes "0 \<le> a" "0 \<le> r" "r \<le> 1 / 4"
  shows "dec_mul a r \<le> a / 2"
proof -
  have "a * r \<le> a * (1 / 4)" using assms by (intro mult_left_mono) simp_all
  moreover have "dec_mul a r \<le> 2 * (a * r)"
    unfolding dec_mul_def using assms by (intro dec_round_le_double) simp
  ultimately show ?thesis by simp
qed

lemma dec_floor_mono: "x \<le> y \<Longrightarrow> dec_floor x \<le> dec_floor y"
  by (simp add: dec_floor_def floor_mono)

lemma dec_ceiling_mono: "x \<le> y \<Longrightarrow> dec_ceiling x \<le> dec_ceiling y"
  by (simp add: dec_ceiling_def ceiling_mono)

text \<open>A fraction of a whole amount of at most 28 digits never exceeds the amount, rounding included.\<close>

lemma dec_mul_fraction_le:
  assumes "0 \<le> n" "n < 10 ^ 28" "r \<le> 1"
  shows "dec_mul (of_int n) r \<le> of_int n"
proof -
  have "of_int n * r \<le> (of_int n :: rat)" using assms by (simp add: mult_left_le)
  then have "dec_round (of_int n * r) \<le> dec_round (of_int n)" by (rule dec_round_mono)
  then show ?thesis using assms by (simp add: dec_mul_def dec_round_of_int)
qed

lemma dec_floor_fraction_bounds:
  assumes "0 \<le> n" "n < 10 ^ 28" "0 \<le> r" "r \<le> 1"
  shows "0 \<le> dec_floor (dec_mul (of_int n) r)" and "dec_floor (dec_mul (of_int n) r) \<le> n"
proof -
  show "0 \<le> dec_floor (dec_mul (of_int n) r)"
    using assms by (simp add: dec_floor_def dec_mul_nonneg)
  have "dec_floor (dec_mul (of_int n) r) \<le> dec_floor (of_int n)"
    using assms by (intro dec_floor_mono dec_mul_fraction_le)
  then show "dec_floor (dec_mul (of_int n) r) \<le> n" by (simp add: dec_floor_def)
qed

section \<open>Laws of float\<close>

lemma fl_round_mono: "x \<le> y \<Longrightarrow> fl_round x \<le> fl_round y"
  unfolding fl_round_def by (rule round_sig_mono) simp_all

lemma fl_round_0 [simp]: "fl_round 0 = 0"
  by (simp add: fl_round_def)

lemma fl_round_le_double: "0 \<le> x \<Longrightarrow> fl_round x \<le> 2 * x"
  unfolding fl_round_def by (rule round_sig_le_double) simp_all

lemma fl_round_nonneg: "0 \<le> x \<Longrightarrow> 0 \<le> fl_round x"
  unfolding fl_round_def by (rule round_sig_nonneg) simp_all

lemma fl_round_of_int: "\<bar>n\<bar> < 2 ^ 53 \<Longrightarrow> fl_round (of_int n) = of_int n"
  unfolding fl_round_def by (rule round_sig_of_int) simp_all

lemma ilog_less_iff: "1 < b \<Longrightarrow> 0 < x \<Longrightarrow> ilog b x < e \<longleftrightarrow> x < pw b e"
proof -
  assume b: "1 < b" and x: "0 < x"
  show ?thesis
  proof
    assume "ilog b x < e"
    then have "pw b (ilog b x + 1) \<le> pw b e" by (intro pw_mono [OF b]) simp
    then show "x < pw b e" using ilog_bounds(2) [OF b x] by linarith
  next
    assume "x < pw b e"
    then have "pw b (ilog b x) < pw b e" using ilog_bounds(1) [OF b x] by linarith
    then show "ilog b x < e" by (rule pw_less [OF b])
  qed
qed

lemma to_float_alt:
  "to_float x = (if 2 ^ 1024 \<le> fl_round x then PInf
     else if fl_round x \<le> - (2 ^ 1024) then NInf else Fin (fl_round x))"
  using ilog_less_iff [of 2 "\<bar>fl_round x\<bar>" 1024]
  by (auto simp: to_float_def Let_def)

lemma is_double_fl_round: "is_double x \<Longrightarrow> fl_round x = x"
  by (auto simp: is_double_def to_float_alt split: if_splits)

lemma to_float_Fin: "to_float x = Fin y \<longleftrightarrow> y = fl_round x \<and> \<bar>fl_round x\<bar> < 2 ^ 1024"
  by (auto simp: to_float_alt split: if_splits)

lemma is_double_of_int: "\<bar>n\<bar> < 2 ^ 53 \<Longrightarrow> is_double (of_int n)"
proof -
  assume n: "\<bar>n\<bar> < 2 ^ 53"
  then have "(of_int \<bar>n\<bar> :: rat) < of_int (2 ^ 1024)" by (simp only: of_int_less_iff) simp
  then show ?thesis using n by (simp add: is_double_def to_float_Fin fl_round_of_int)
qed

lemma to_float_double: "to_float x = Fin y \<Longrightarrow> is_double y"
  by (auto simp: is_double_def to_float_Fin fl_round_def round_sig_idem)

lemma to_float_mono:
  "to_float x = Fin a \<Longrightarrow> to_float y = Fin b \<Longrightarrow> x \<le> y \<Longrightarrow> a \<le> b"
  by (simp add: to_float_Fin fl_round_mono)

lemma to_float_nonneg: "to_float x = Fin a \<Longrightarrow> 0 \<le> x \<Longrightarrow> 0 \<le> a"
  by (simp add: to_float_Fin fl_round_nonneg)

lemma to_float_lower: "to_float x = Fin a \<Longrightarrow> is_double y \<Longrightarrow> y \<le> x \<Longrightarrow> y \<le> a"
  using fl_round_mono [of y x] by (simp add: to_float_Fin is_double_fl_round)

lemma to_float_upper: "to_float x = Fin a \<Longrightarrow> is_double y \<Longrightarrow> x \<le> y \<Longrightarrow> a \<le> y"
  using fl_round_mono [of x y] by (simp add: to_float_Fin is_double_fl_round)

text \<open>Values between two doubles never overflow.\<close>

lemma to_float_between:
  assumes "is_double l" "is_double u" "l \<le> x" "x \<le> u"
  shows "\<exists>a. to_float x = Fin a \<and> l \<le> a \<and> a \<le> u"
proof -
  have "l \<le> fl_round x" "fl_round x \<le> u"
    using assms fl_round_mono [of l x] fl_round_mono [of x u] by (simp_all add: is_double_fl_round)
  moreover have "\<bar>l\<bar> < 2 ^ 1024" "\<bar>u\<bar> < 2 ^ 1024"
    using assms by (auto simp: is_double_def to_float_Fin)
  ultimately show ?thesis by (auto simp: to_float_Fin)
qed

text \<open>A double at least \<open>2^53\<close> is an integer, so the floor of a double is always a double.\<close>

lemma fl_round_large_int:
  assumes "2 ^ 53 \<le> x"
  shows "fl_round x \<in> range of_int"
proof -
  have "\<not> ilog 2 x < 53" using assms ilog_less_iff [of 2 x 53] by simp
  then have e: "0 \<le> round_exp 2 53 (- 1074) x" using assms by (simp add: round_exp_def)
  then have "pw 2 (round_exp 2 53 (- 1074) x) = of_int (2 ^ nat (round_exp 2 53 (- 1074) x))"
    by (simp add: power_int_def)
  then have "fl_round x = of_int (rhe (x / pw 2 (round_exp 2 53 (- 1074) x)) * 2 ^ nat (round_exp 2 53 (- 1074) x))"
    by (simp add: fl_round_def round_sig_def Let_def)
  then show ?thesis by (metis rangeI)
qed

lemma is_double_floor:
  assumes "is_double x" "0 \<le> x"
  shows "is_double (of_int \<lfloor>x\<rfloor>)"
proof (cases "2 ^ 53 \<le> x")
  case True
  then have "x \<in> range of_int" using fl_round_large_int is_double_fl_round [OF assms(1)] by metis
  then have "of_int \<lfloor>x\<rfloor> = x" by (metis floor_of_int imageE)
  then show ?thesis using assms(1) by metis
next
  case False
  then have "\<lfloor>x\<rfloor> < 2 ^ 53" by (simp add: floor_less_iff)
  then show ?thesis using assms(2) by (intro is_double_of_int) simp
qed

lemma float_of_int_floor:
  "is_double x \<Longrightarrow> 0 \<le> x \<Longrightarrow> float_of_int \<lfloor>x\<rfloor> = Inr (Fin (of_int \<lfloor>x\<rfloor>))"
  using is_double_floor [of x] by (simp add: float_of_int_def is_double_def)

lemma float_of_int_Inr: "float_of_int n = Inr v \<Longrightarrow> \<exists>x. v = Fin x \<and> to_float (of_int n) = Fin x"
  by (cases "to_float (of_int n)") (auto simp: float_of_int_def)

lemma float_of_int_exact: "\<bar>n\<bar> < 2 ^ 53 \<Longrightarrow> float_of_int n = Inr (Fin (of_int n))"
  using is_double_of_int [of n] by (simp add: float_of_int_def is_double_def)

section \<open>The integer square root\<close>

lemma isqrt_spec: "0 \<le> n \<Longrightarrow> 0 \<le> isqrt n \<and> isqrt n * isqrt n \<le> n \<and> n < (isqrt n + 1) * (isqrt n + 1)"
proof (induction n rule: isqrt.induct)
  case (1 n)
  show ?case
  proof (cases "n \<le> 0")
    case True
    with "1.prems" have "n = 0" by simp
    then show ?thesis by (simp add: isqrt.simps [of 0])
  next
    case False
    define k where "k = isqrt (n div 4)"
    have IH: "0 \<le> k" "k * k \<le> n div 4" "n div 4 < (k + 1) * (k + 1)"
      using "1.IH" False by (auto simp: k_def)
    have "4 * (n div 4) \<le> n" "n < 4 * (n div 4) + 4" by linarith+
    with IH have "2 * k * (2 * k) \<le> n" "n < (2 * k + 2) * (2 * k + 2)"
      by (simp_all add: algebra_simps)
    with IH(1) False show ?thesis
      by (simp add: isqrt.simps [of n] Let_def algebra_simps flip: k_def)
  qed
qed

lemma isqrt_nonneg: "0 \<le> isqrt n"
  using isqrt_spec [of n] by (cases "0 \<le> n") (auto simp: isqrt.simps [of n])

lemma sqrt_round_nonneg: "0 \<le> sqrt_round x"
  using isqrt_nonneg by (auto simp: sqrt_round_def Let_def intro!: fl_round_nonneg)

section \<open>Reading back the shortest decimal\<close>

lemma repr_search_roundtrip: "is_double x \<Longrightarrow> to_float (repr_search k n x) = Fin x"
proof (induction k arbitrary: n)
  case (Suc k)
  then show ?case
    by (auto split: option.split simp: find_Some_iff)
qed (simp add: is_double_def)

theorem repr_dec_roundtrip: "is_double x \<Longrightarrow> to_float (repr_dec x) = Fin x"
  by (cases "x = 0") (simp_all add: repr_dec_def repr_search_roundtrip, simp add: is_double_def)

lemma repr_dec_0 [simp]: "repr_dec 0 = 0"
  by (simp add: repr_dec_def)

lemma repr_dec_strict_mono:
  assumes "is_double x" "is_double y" "x < y"
  shows "repr_dec x < repr_dec y"
proof (rule ccontr)
  assume "\<not> ?thesis"
  then have "y \<le> x"
    using to_float_mono [OF repr_dec_roundtrip [OF assms(2)] repr_dec_roundtrip [OF assms(1)]] by simp
  with assms show False by simp
qed

lemma is_double_0 [simp]: "is_double 0"
  using is_double_of_int [of 0] by simp

lemma is_double_1 [simp]: "is_double 1"
  using is_double_of_int [of 1] by simp

lemma repr_dec_pos: "is_double x \<Longrightarrow> 0 < x \<Longrightarrow> 0 < repr_dec x"
  using repr_dec_strict_mono [of 0 x] by simp

text \<open>The printed decimal of a non-negative number is non-negative, binary64 or not: a candidate below
  its nearest multiple of the unit is only taken above zero.\<close>

lemma repr_candidates_nonneg:
  assumes "0 \<le> x" "c \<in> set (repr_candidates n x)"
  shows "0 \<le> c"
proof -
  define u where "u = pw 10 (ilog 10 \<bar>x\<bar> - (int n - 1))"
  define m where "m = rhe (x / u)"
  have u: "0 < u" by (simp add: u_def)
  have m: "0 \<le> m" using assms(1) u rhe_ge_int [of 0 "x / u"] by (simp add: m_def)
  have "c = of_int m * u \<or> (\<not> of_int m * u \<le> x \<and> c = of_int m * u - u) \<or> c = of_int m * u + u"
    using assms(2) by (auto simp: repr_candidates_def Let_def u_def m_def split: if_splits)
  moreover have "\<not> of_int m * u \<le> x \<Longrightarrow> 1 \<le> m" using assms(1) m by (cases "m = 0") auto
  moreover have "1 \<le> m \<Longrightarrow> u \<le> of_int m * u" using u by simp
  ultimately show ?thesis using m u by force
qed

lemma repr_search_nonneg: "0 \<le> x \<Longrightarrow> 0 \<le> repr_search k n x"
proof (induction k arbitrary: n)
  case (Suc k)
  then show ?case
    using repr_candidates_nonneg [of x _ n] by (auto split: option.split simp: find_Some_iff)
qed simp

lemma repr_dec_nonneg: "0 \<le> x \<Longrightarrow> 0 \<le> repr_dec x"
  by (simp add: repr_dec_def repr_search_nonneg)

lemma repr_dec_mono: "is_double x \<Longrightarrow> is_double y \<Longrightarrow> x \<le> y \<Longrightarrow> repr_dec x \<le> repr_dec y"
  using repr_dec_strict_mono [of x y] by (cases "x = y") auto

section \<open>Evaluation\<close>

text \<open>
  Rewrite rules that evaluate the arithmetic on literals by simplification: every intermediate value is an
  argument of a function, so that it is computed once, and floors of literal quotients become integer
  divisions.
\<close>

lemma rat_floor_numeral:
  "\<lfloor>numeral a / numeral b :: rat\<rfloor> = numeral a div numeral b"
  "\<lfloor>1 / numeral b :: rat\<rfloor> = 1 div numeral b"
  "\<lfloor>- (numeral a / numeral b) :: rat\<rfloor> = - numeral a div numeral b"
  "\<lfloor>- (1 / numeral b) :: rat\<rfloor> = - 1 div numeral b"
  using floor_divide_of_int_eq [of "numeral a" "numeral b", where 'a = rat]
    floor_divide_of_int_eq [of 1 "numeral b", where 'a = rat]
    floor_divide_of_int_eq [of "- numeral a" "numeral b", where 'a = rat]
    floor_divide_of_int_eq [of "- 1" "numeral b", where 'a = rat]
  by simp_all

lemma rat_ceiling_numeral:
  "\<lceil>numeral a / numeral b :: rat\<rceil> = - (- numeral a div numeral b)"
  "\<lceil>1 / numeral b :: rat\<rceil> = - (- 1 div numeral b)"
  "\<lceil>- (numeral a / numeral b) :: rat\<rceil> = - (numeral a div numeral b)"
  "\<lceil>- (1 / numeral b) :: rat\<rceil> = - (1 div numeral b)"
  by (simp_all add: ceiling_def rat_floor_numeral)

definition rhe_at :: "rat \<Rightarrow> int \<Rightarrow> int" where
  "rhe_at d f = (if d < 1 / 2 then f else if 1 / 2 < d then f + 1 else if even f then f else f + 1)"

definition rhe_floor :: "rat \<Rightarrow> int \<Rightarrow> int" where
  "rhe_floor x f = rhe_at (x - of_int f) f"

lemma rhe_eval: "rhe x = rhe_floor x \<lfloor>x\<rfloor>"
  by (simp add: rhe_def rhe_floor_def rhe_at_def Let_def)

definition round_to :: "rat \<Rightarrow> rat \<Rightarrow> rat" where
  "round_to u x = of_int (rhe (x / u)) * u"

lemma round_sig_eval: "round_sig b p emin x = round_to (pw b (round_exp b p emin x)) x"
  by (simp add: round_sig_def round_to_def Let_def)

definition clip_float :: "rat \<Rightarrow> pyfloat" where
  "clip_float r = (if r = 0 \<or> ilog 2 \<bar>r\<bar> < 1024 then Fin r else if 0 < r then PInf else NInf)"

lemma to_float_eval: "to_float x = clip_float (fl_round x)"
  by (simp add: to_float_def clip_float_def Let_def)

definition repr_pair :: "rat \<Rightarrow> rat \<Rightarrow> rat \<Rightarrow> rat list" where
  "repr_pair x u near = [near, if near \<le> x then near + u else near - u]"

definition repr_unit :: "rat \<Rightarrow> rat \<Rightarrow> rat list" where
  "repr_unit x u = repr_pair x u (round_to u x)"

lemma repr_candidates_eval:
  "repr_candidates n x = repr_unit x (pw 10 (ilog 10 \<bar>x\<bar> - (int n - 1)))"
  by (simp add: repr_candidates_def repr_unit_def repr_pair_def round_to_def Let_def)

fun repr_pick :: "rat \<Rightarrow> rat list \<Rightarrow> rat option" where
  "repr_pick x [] = None"
| "repr_pick x (c # cs) = (if to_float c = Fin x then Some c else repr_pick x cs)"

fun repr_first :: "nat \<Rightarrow> nat \<Rightarrow> rat \<Rightarrow> rat option \<Rightarrow> rat" where
  "repr_first k n x (Some c) = c"
| "repr_first k n x None = repr_search k (Suc n) x"

lemma repr_pick_find: "repr_pick x cs = find (\<lambda>c. to_float c = Fin x) cs"
  by (induction cs) auto

lemma repr_search_eval:
  "repr_search (numeral k) n x = repr_first (pred_numeral k) n x (repr_pick x (repr_candidates n x))"
  "repr_search (Suc 0) n x = repr_first 0 n x (repr_pick x (repr_candidates n x))"
  by (auto simp: numeral_eq_Suc repr_pick_find split: option.split)

lemmas num_eval = to_float_eval clip_float_def fl_round_def round_sig_eval round_to_def round_exp_def ilog_def
  ndigits.simps rhe_eval rhe_floor_def rhe_at_def rat_floor_numeral rat_ceiling_numeral power_int_minus
  power_int_numeral dec_mul_def dec_add_def dec_round_def dec_floor_def dec_ceiling_def
  repr_dec_def repr_search_eval repr_candidates_eval repr_unit_def repr_pair_def
  is_double_def float_of_int_def fsub_def fle_def

end
