(* ===== verification/Costs.thy ===== *)
theory Costs
  imports PyNum
begin

text \<open>
  Broker commission, statutory sell tax, dividend withholding and square-root market impact
  (\<open>src/backtest/costs.py\<close>). Amounts are whole KRW; rates are exact decimals, truncated after a
  product in the 28-digit decimal context.
\<close>

datatype side = SideBUY | SideSELL

record cost_config =
  commission_rate :: decimal
  impact_k :: pyfloat
  dividend_withholding_rate :: decimal
  auction_slippage_ticks :: pyfloat
  extra_slippage :: pyfloat
  cash_yield_tax_rate :: decimal

record fill_cost_t =
  fc_commission :: int
  fc_sell_tax :: int

text \<open>\<open>CostConfig.__post_init__\<close>: the checks in source order; the commission rate and the impact
  coefficient are not validated there.\<close>

definition finite_nonneg :: "pyfloat \<Rightarrow> bool" where
  "finite_nonneg v \<longleftrightarrow> is_finite v \<and> \<not> fless v (Fin 0)"

definition cost_config_init :: "cost_config \<Rightarrow> cost_config res" where
  "cost_config_init c =
     guard (\<not> (0 \<le> dividend_withholding_rate c \<and> dividend_withholding_rate c < 1))
       (ValueError ''dividend_withholding_rate must be in [0, 1)'') (
     guard (\<not> finite_nonneg (auction_slippage_ticks c))
       (ValueError ''auction_slippage_ticks must be a finite number >= 0'') (
     guard (\<not> finite_nonneg (extra_slippage c))
       (ValueError ''extra_slippage must be a finite number >= 0'') (
     guard (\<not> (0 \<le> cash_yield_tax_rate c \<and> cash_yield_tax_rate c < 1))
       (ValueError ''cash_yield_tax_rate must be in [0, 1)'') (
     Inr c))))"

definition fill_cost :: "side \<Rightarrow> int \<Rightarrow> int \<Rightarrow> decimal \<Rightarrow> cost_config \<Rightarrow> fill_cost_t" where
  "fill_cost sd quantity price sell_tax_rate config =
     (let notional = of_int (quantity * price) in
      \<lparr> fc_commission = dec_floor (dec_mul notional (commission_rate config)),
        fc_sell_tax = (if sd = SideSELL then dec_floor (dec_mul notional sell_tax_rate) else 0) \<rparr>)"

definition dividend_withholding :: "int \<Rightarrow> cost_config \<Rightarrow> int res" where
  "dividend_withholding gross_krw config =
     guard (gross_krw < 0) (ValueError ''gross_krw must be >= 0'')
       (Inr (dec_floor (dec_mul (of_int gross_krw) (dividend_withholding_rate config))))"

text \<open>\<open>k * vol60 * sqrt(notional / adtv20)\<close>, every product rounded; the guard excludes a zero divisor.\<close>

definition impact_fraction :: "pyfloat \<Rightarrow> pyfloat \<Rightarrow> pyfloat \<Rightarrow> cost_config \<Rightarrow> pyfloat res" where
  "impact_fraction notional adtv20 vol60 config =
     guard (\<not> is_finite notional \<or> \<not> is_finite adtv20 \<or> \<not> is_finite vol60
            \<or> fle adtv20 (Fin 0) \<or> fless notional (Fin 0) \<or> fless vol60 (Fin 0))
       (ValueError ''impact inputs must be finite with adtv20 > 0'')
       (res_bind (fdiv notional adtv20) (\<lambda>ratio.
        res_bind (math_sqrt ratio) (\<lambda>root.
        Inr (fmul (fmul (impact_k config) vol60) root))))"

section \<open>Bounds\<close>

lemma fill_cost_commission_bounds:
  assumes "0 \<le> quantity" "0 \<le> price" "quantity * price < 10 ^ 28"
    and "0 \<le> commission_rate config" "commission_rate config \<le> 1"
  shows "0 \<le> fc_commission (fill_cost sd quantity price tax config)"
    and "fc_commission (fill_cost sd quantity price tax config) \<le> quantity * price"
  using assms dec_floor_fraction_bounds [of "quantity * price" "commission_rate config"]
  by (simp_all add: fill_cost_def Let_def)

lemma fill_cost_commission_mono:
  assumes "0 \<le> commission_rate config" "q \<le> q'" "0 \<le> price"
  shows "fc_commission (fill_cost sd q price tax config) \<le> fc_commission (fill_cost sd q' price tax config)"
proof -
  have "(of_int (q * price) :: rat) \<le> of_int (q' * price)"
    using assms by (simp only: of_int_le_iff mult_right_mono)
  then show ?thesis
    using assms by (simp add: fill_cost_def Let_def dec_floor_mono dec_mul_mono)
qed

lemma fill_cost_commission_nonneg:
  "0 \<le> commission_rate config \<Longrightarrow> 0 \<le> q * price \<Longrightarrow> 0 \<le> fc_commission (fill_cost sd q price tax config)"
proof -
  assume "0 \<le> commission_rate config" "0 \<le> q * price"
  then have "0 \<le> dec_mul (of_int (q * price)) (commission_rate config)"
    by (intro dec_mul_nonneg) (simp_all only: of_int_0_le_iff)
  then show ?thesis by (simp add: fill_cost_def Let_def dec_floor_def)
qed

lemma dividend_withholding_bounds:
  assumes "dividend_withholding gross config = Inr w" "gross < 10 ^ 28"
    and "0 \<le> dividend_withholding_rate config" "dividend_withholding_rate config < 1"
  shows "0 \<le> w \<and> w \<le> gross"
  using assms dec_floor_fraction_bounds [of gross "dividend_withholding_rate config"]
  by (auto simp: dividend_withholding_def res_simps)

text \<open>Without a bound on the amount a rate of at most a quarter still leaves part of the dividend.\<close>

lemma dividend_withholding_quarter:
  assumes "dividend_withholding gross config = Inr w"
    and "0 \<le> dividend_withholding_rate config" "dividend_withholding_rate config \<le> 1 / 4"
  shows "w \<le> gross"
proof -
  from assms(1) have w: "0 \<le> gross" "w = \<lfloor>dec_mul (of_int gross) (dividend_withholding_rate config)\<rfloor>"
    by (auto simp: dividend_withholding_def res_simps dec_floor_def)
  have "(0 :: rat) \<le> of_int gross" using w(1) by simp
  then have "dec_mul (of_int gross) (dividend_withholding_rate config) \<le> of_int gross"
    using dec_mul_quarter [of "of_int gross" "dividend_withholding_rate config"] assms(2,3) by linarith
  then have "\<lfloor>dec_mul (of_int gross) (dividend_withholding_rate config)\<rfloor> \<le> \<lfloor>of_int gross :: rat\<rfloor>"
    by (rule floor_mono)
  then show ?thesis using w(2) by simp
qed

end
