(* ===== verification/Dates.thy ===== *)
theory Dates
  imports Prelude
begin

text \<open>
  The proleptic Gregorian calendar of Python's \<open>datetime.date\<close>: a date is its year, month and day;
  dates are ordered as those triples are; \<open>toordinal\<close> counts days from 0001-01-01 (day 1) and
  \<open>weekday\<close> is 0 on Monday. \<open>date(y, m, d)\<close> raises on a day that does not exist (\<open>mk_date\<close>).
\<close>

section \<open>Dates and their order\<close>

datatype date = Date (year: int) (month: int) (day: int)

instantiation date :: linorder
begin

definition less_eq_date :: "date \<Rightarrow> date \<Rightarrow> bool" where
  "less_eq_date a b \<longleftrightarrow> year a < year b \<or> (year a = year b \<and>
     (month a < month b \<or> (month a = month b \<and> day a \<le> day b)))"

definition less_date :: "date \<Rightarrow> date \<Rightarrow> bool" where
  "less_date a b \<longleftrightarrow> year a < year b \<or> (year a = year b \<and>
     (month a < month b \<or> (month a = month b \<and> day a < day b)))"

instance
proof
  fix x y z :: date
  show "x < y \<longleftrightarrow> x \<le> y \<and> \<not> y \<le> x" by (auto simp: less_eq_date_def less_date_def)
  show "x \<le> x" by (simp add: less_eq_date_def)
  show "x \<le> y \<Longrightarrow> y \<le> z \<Longrightarrow> x \<le> z" by (auto simp: less_eq_date_def)
  show "x \<le> y \<Longrightarrow> y \<le> x \<Longrightarrow> x = y" by (auto simp: less_eq_date_def date.expand)
  show "x \<le> y \<or> y \<le> x" by (auto simp: less_eq_date_def)
qed

end

section \<open>Calendar arithmetic\<close>

definition is_leap :: "int \<Rightarrow> bool" where
  "is_leap y \<longleftrightarrow> y mod 4 = 0 \<and> (y mod 100 \<noteq> 0 \<or> y mod 400 = 0)"

definition days_in_month :: "int \<Rightarrow> int \<Rightarrow> int" where
  "days_in_month y m =
     (if m = 2 then (if is_leap y then 29 else 28)
      else if m = 4 \<or> m = 6 \<or> m = 9 \<or> m = 11 then 30 else 31)"

definition valid_date :: "date \<Rightarrow> bool" where
  "valid_date d \<longleftrightarrow> 1 \<le> year d \<and> year d \<le> 9999 \<and> 1 \<le> month d \<and> month d \<le> 12 \<and>
     1 \<le> day d \<and> day d \<le> days_in_month (year d) (month d)"

definition mk_date :: "int \<Rightarrow> int \<Rightarrow> int \<Rightarrow> date res" where
  "mk_date y m d = (if valid_date (Date y m d) then Inr (Date y m d)
     else Inl (ValueError ''day is out of range''))"

definition days_before_year :: "int \<Rightarrow> int" where
  "days_before_year y = (let n = y - 1 in n * 365 + n div 4 - n div 100 + n div 400)"

fun days_before_month_from :: "int \<Rightarrow> int \<Rightarrow> nat \<Rightarrow> int" where
  "days_before_month_from y m 0 = 0"
| "days_before_month_from y m (Suc k) =
     (if m \<le> 1 then 0 else days_in_month y (m - 1) + days_before_month_from y (m - 1) k)"

definition days_before_month :: "int \<Rightarrow> int \<Rightarrow> int" where
  "days_before_month y m = days_before_month_from y m 12"

definition toordinal :: "date \<Rightarrow> int" where
  "toordinal d = days_before_year (year d) + days_before_month (year d) (month d) + day d"

definition weekday :: "date \<Rightarrow> int" where
  "weekday d = (toordinal d + 6) mod 7"

lemma weekday_range: "0 \<le> weekday d \<and> weekday d < 7"
  by (simp add: weekday_def)

text \<open>Moving inside one month moves the weekday by the same number of days.\<close>

lemma toordinal_shift: "toordinal (Date y m (d + k)) = toordinal (Date y m d) + k"
  by (simp add: toordinal_def)

lemma weekday_shift: "weekday (Date y m (d + k)) = (weekday (Date y m d) + k) mod 7"
  by (simp add: weekday_def toordinal_shift) presburger

lemma days_in_month_bounds: "28 \<le> days_in_month y m \<and> days_in_month y m \<le> 31"
  by (simp add: days_in_month_def)

section \<open>Dates from ordinals\<close>

definition days_in_year :: "int \<Rightarrow> int" where
  "days_in_year y = (if is_leap y then 366 else 365)"

text \<open>The year of an ordinal, by skipping whole years, and the month, by skipping whole months.\<close>

function find_year :: "int \<Rightarrow> int \<Rightarrow> int \<times> int" where
  "find_year y n = (if n \<le> days_in_year y then (y, n) else find_year (y + 1) (n - days_in_year y))"
  by pat_completeness auto
termination
  by (relation "measure (\<lambda>(y, n). nat n)") (auto simp: days_in_year_def split: if_splits)

declare find_year.simps [simp del]

fun find_month :: "nat \<Rightarrow> int \<Rightarrow> int \<Rightarrow> int \<Rightarrow> int \<times> int" where
  "find_month 0 y m n = (m, n)"
| "find_month (Suc k) y m n =
     (if n \<le> days_in_month y m then (m, n) else find_month k y (m + 1) (n - days_in_month y m))"

definition date_of_ordinal :: "int \<Rightarrow> date" where
  "date_of_ordinal n = (let (y, r) = find_year 1 n; (m, d) = find_month 11 y 1 r in Date y m d)"

lemma is_leap_div: "(if is_leap y then 1 else 0) = y div 4 - (y - 1) div 4 - (y div 100 - (y - 1) div 100)
    + (y div 400 - (y - 1) div 400)"
proof -
  have step: "y div k - (y - 1) div k = (if y mod k = 0 then 1 else 0)" if "1 < k" for k :: int
  proof (cases "y mod k = 0")
    case True
    then have "y - 1 = k * (y div k - 1) + (k - 1)"
      using mult_div_mod_eq [of k y] by (simp add: algebra_simps)
    then have "(y - 1) div k = y div k - 1" by (rule int_div_pos_eq) (use that in auto)
    with True show ?thesis by simp
  next
    case False
    have "y - 1 = k * (y div k) + (y mod k - 1)" by simp
    moreover have "0 < y mod k" "y mod k < k"
      using False that pos_mod_sign [of k y] pos_mod_bound [of k y] by linarith+
    ultimately have "(y - 1) div k = y div k" by (intro int_div_pos_eq [of _ _ _ "y mod k - 1"]) auto
    with False show ?thesis by simp
  qed
  have i1: "y mod 400 = 0 \<longrightarrow> y mod 100 = 0"
    using mod_mod_cancel [of 100 400 y] by (intro impI) (simp only: mod_0, simp)
  have i2: "y mod 100 = 0 \<longrightarrow> y mod 4 = 0"
    using mod_mod_cancel [of 4 100 y] by (intro impI) (simp only: mod_0, simp)
  have eqs: "y div 4 - (y - 1) div 4 = (if y mod 4 = 0 then 1 else 0)"
    "y div 100 - (y - 1) div 100 = (if y mod 100 = 0 then 1 else 0)"
    "y div 400 - (y - 1) div 400 = (if y mod 400 = 0 then 1 else 0)"
    by (rule step, simp)+
  have "(if a \<and> (\<not> b \<or> c) then 1 else 0) = (if a then 1 else 0) - (if b then 1 else 0) + (if c then 1 else 0 :: int)"
    if "c \<longrightarrow> b" "b \<longrightarrow> a" for a b c
    using that by (cases a; cases b; cases c) simp_all
  from this [OF i1 i2] show ?thesis unfolding eqs is_leap_def .
qed

lemma days_before_year_Suc: "days_before_year (y + 1) = days_before_year y + days_in_year y"
proof -
  have "y * 365 + a - b + c = (y - 1) * 365 + a' - b' + c' + (365 + l)"
    if "l = a - a' - (b - b') + (c - c')" for a a' b b' c c' l :: int
    using that by (simp add: algebra_simps)
  note eq = this [OF is_leap_div [of y]]
  have leap: "365 + (if is_leap y then 1 else 0) = days_in_year y" by (simp add: days_in_year_def)
  show ?thesis
    using eq by (simp only: days_before_year_def Let_def add_diff_cancel_right' leap)
qed

lemma find_year_spec:
  "find_year y n = (y', n') \<Longrightarrow>
   days_before_year y' + n' = days_before_year y + n \<and> n' \<le> days_in_year y' \<and> y \<le> y' \<and> (1 \<le> n \<longrightarrow> 1 \<le> n')"
proof (induction y n rule: find_year.induct)
  case (1 y n)
  show ?case
  proof (cases "n \<le> days_in_year y")
    case True
    with 1 show ?thesis by (subst (asm) find_year.simps) auto
  next
    case False
    then have "find_year (y + 1) (n - days_in_year y) = (y', n')"
      using "1.prems" by (subst (asm) find_year.simps) simp
    from "1.IH" [OF False this] False show ?thesis by (auto simp: days_before_year_Suc)
  qed
qed

lemma days_before_month_from_Suc:
  "1 \<le> m \<Longrightarrow> days_before_month_from y (m + 1) (Suc k) = days_in_month y m + days_before_month_from y m k"
  by simp

text \<open>The month table, once for ordinary and once for leap years.\<close>

lemma days_before_month_table:
  "days_before_month y 1 = 0" "days_before_month y 2 = 31"
  "days_before_month y 3 = 31 + days_in_month y 2" "days_before_month y 4 = 62 + days_in_month y 2"
  "days_before_month y 5 = 92 + days_in_month y 2" "days_before_month y 6 = 123 + days_in_month y 2"
  "days_before_month y 7 = 153 + days_in_month y 2" "days_before_month y 8 = 184 + days_in_month y 2"
  "days_before_month y 9 = 215 + days_in_month y 2" "days_before_month y 10 = 245 + days_in_month y 2"
  "days_before_month y 11 = 276 + days_in_month y 2" "days_before_month y 12 = 306 + days_in_month y 2"
  by (simp_all add: days_before_month_def eval_nat_numeral days_in_month_def)

lemma month_cases:
  fixes m :: int
  assumes "1 \<le> m" "m \<le> 12"
  shows "m = 1 \<or> m = 2 \<or> m = 3 \<or> m = 4 \<or> m = 5 \<or> m = 6 \<or> m = 7 \<or> m = 8 \<or> m = 9 \<or> m = 10 \<or> m = 11 \<or> m = 12"
  using assms by presburger

lemma days_before_month_Suc:
  assumes "1 \<le> m" "m \<le> 11"
  shows "days_before_month y (m + 1) = days_before_month y m + days_in_month y m"
proof -
  from assms month_cases [of m] have "m = 1 \<or> m = 2 \<or> m = 3 \<or> m = 4 \<or> m = 5 \<or> m = 6 \<or> m = 7 \<or> m = 8
    \<or> m = 9 \<or> m = 10 \<or> m = 11" by auto
  then show ?thesis by (elim disjE) (simp_all add: days_before_month_table days_in_month_def)
qed

lemma find_month_spec:
  "find_month k y m n = (m', n') \<Longrightarrow> 1 \<le> m \<Longrightarrow> m + int k \<le> 12 \<Longrightarrow> 1 \<le> n \<Longrightarrow>
   days_before_month y m' + n' = days_before_month y m + n \<and> m \<le> m' \<and> m' \<le> m + int k \<and> 1 \<le> n'
   \<and> (m' < m + int k \<longrightarrow> n' \<le> days_in_month y m')"
proof (induction k arbitrary: m n)
  case (Suc k)
  show ?case
  proof (cases "n \<le> days_in_month y m")
    case True
    with Suc.prems show ?thesis by auto
  next
    case False
    with Suc.prems have "find_month k y (m + 1) (n - days_in_month y m) = (m', n')" by simp
    from Suc.IH [OF this] False Suc.prems show ?thesis
      by (auto simp: days_before_month_Suc)
  qed
qed auto

text \<open>\<open>date_of_ordinal\<close> inverts \<open>toordinal\<close> and yields a real day of the month.\<close>

lemma toordinal_date_of_ordinal:
  assumes "1 \<le> n"
  shows "toordinal (date_of_ordinal n) = n"
    and "1 \<le> month (date_of_ordinal n)" "month (date_of_ordinal n) \<le> 12" "1 \<le> day (date_of_ordinal n)"
    and "day (date_of_ordinal n) \<le> days_in_month (year (date_of_ordinal n)) (month (date_of_ordinal n))"
proof -
  obtain y r where y: "find_year 1 n = (y, r)" by force
  note ys = find_year_spec [OF y]
  then have r: "1 \<le> r" "r \<le> days_in_year y" using assms by simp_all
  obtain m d where m: "find_month 11 y 1 r = (m, d)" by force
  note ms = find_month_spec [OF m _ _ r(1)]
  have eq: "date_of_ordinal n = Date y m d" by (simp add: date_of_ordinal_def y m)
  have "days_before_year 1 = 0" by (simp add: days_before_year_def)
  with ys ms eq show "toordinal (date_of_ordinal n) = n" "1 \<le> month (date_of_ordinal n)"
      "month (date_of_ordinal n) \<le> 12" "1 \<le> day (date_of_ordinal n)"
    by (simp_all add: toordinal_def days_before_month_table)
  have "d \<le> days_in_month y m"
  proof (cases "m < 12")
    case False
    with ms have "m = 12" by simp
    with ms r show ?thesis by (auto simp: days_before_month_table days_in_month_def days_in_year_def split: if_splits)
  qed (use ms in simp)
  with eq show "day (date_of_ordinal n) \<le> days_in_month (year (date_of_ordinal n)) (month (date_of_ordinal n))"
    by simp
qed

section \<open>Ordinals determine dates\<close>

lemma days_before_year_mono: "y \<le> y' \<Longrightarrow> days_before_year y \<le> days_before_year y'"
proof (induction y' rule: int_ge_induct)
  case (step y')
  then show ?case using days_before_year_Suc [of y'] by (simp add: days_in_year_def split: if_splits)
qed simp

lemma days_before_month_mono: "m \<le> m' \<Longrightarrow> 1 \<le> m \<Longrightarrow> m' \<le> 12 \<Longrightarrow> days_before_month y m \<le> days_before_month y m'"
proof (induction m' rule: int_ge_induct)
  case (step m')
  then show ?case using days_before_month_Suc [of m' y] days_in_month_bounds [of y m'] by simp
qed simp

definition date_in_month :: "date \<Rightarrow> bool" where
  "date_in_month d \<longleftrightarrow> 1 \<le> month d \<and> month d \<le> 12 \<and> 1 \<le> day d \<and> day d \<le> days_in_month (year d) (month d)"

lemma ordinal_in_year:
  assumes "date_in_month d"
  shows "days_before_year (year d) < toordinal d \<and> toordinal d \<le> days_before_year (year d + 1)"
proof -
  have "days_before_month (year d) 12 + 31 = days_in_year (year d)"
    by (simp add: days_before_month_table days_in_year_def days_in_month_def)
  moreover have "days_before_month (year d) (month d) + day d \<le> days_before_month (year d) 12 + 31"
  proof (cases "month d = 12")
    case True
    then show ?thesis using assms days_in_month_bounds [of "year d" 12] by (simp add: date_in_month_def)
  next
    case False
    then have "days_before_month (year d) (month d) + day d \<le> days_before_month (year d) (month d + 1)"
      using assms days_before_month_Suc [of "month d" "year d"] by (simp add: date_in_month_def)
    also have "\<dots> \<le> days_before_month (year d) 12"
      using False assms by (intro days_before_month_mono) (auto simp: date_in_month_def)
    finally show ?thesis by simp
  qed
  moreover have "0 \<le> days_before_month (year d) (month d)"
    using assms days_before_month_mono [of 1 "month d" "year d"] by (simp add: date_in_month_def days_before_month_table)
  ultimately show ?thesis using assms by (simp add: toordinal_def days_before_year_Suc date_in_month_def)
qed

lemma toordinal_inj:
  assumes "date_in_month d" "date_in_month e" "toordinal d = toordinal e"
  shows "d = e"
proof -
  have "\<not> year a < year b" if "date_in_month a" "date_in_month b" "toordinal a = toordinal b" for a b
    using ordinal_in_year [OF that(1)] ordinal_in_year [OF that(2)] that(3) days_before_year_mono [of "year a + 1" "year b"] by auto
  then have y: "year d = year e" using assms by (metis linorder_neqE)
  have "\<not> month a < month b" if "date_in_month a" "date_in_month b" "toordinal a = toordinal b" "year a = year b" for a b
    using that days_before_month_Suc [of "month a" "year b"] days_before_month_mono [of "month a + 1" "month b" "year b"]
    by (auto simp: date_in_month_def toordinal_def)
  then have "month d = month e" using assms y by (metis linorder_neqE)
  with y assms(3) show ?thesis by (cases d; cases e) (simp add: toordinal_def)
qed

lemma date_of_ordinal_toordinal: "date_in_month d \<Longrightarrow> 1 \<le> toordinal d \<Longrightarrow> date_of_ordinal (toordinal d) = d"
  by (rule toordinal_inj) (auto simp: toordinal_date_of_ordinal date_in_month_def)

end
