(* ===== verification/Overlay.thy ===== *)
theory Overlay
  imports PyNum Dates "HOL-Library.List_Lexorder" "HOL-Library.Char_ord"
begin

text \<open>
  Terms of the index-futures and inverse-ETF overlay (\<open>src/backtest/overlay.py\<close>): contract terms and
  their validation, the exact ceiling of a product of decimals, the margin reserve, leg names and
  targets, and the futures expiry calendar. Leg names are compared as Python compares strings, code
  point by code point: the lexicographic order on \<open>char list\<close>.
\<close>

section \<open>Data\<close>

record derivative_config =
  contract_multiplier_krw :: int
  initial_margin_rate :: rat
  margin_buffer_rate :: rat
  margin_topup_trigger_fraction :: rat
  futures_cost_rate :: rat
  inverse_cost_rate :: rat
  futures_tax_rate :: decimal
  futures_annual_deduction_krw :: int
  inverse_tax_rate :: decimal

text \<open>
  \<open>DerivativeConfig.__post_init__\<close>. The five float fields arrive as floats; the checks reject the
  special values, so the validated record keeps their finite values.
\<close>

record derivative_input =
  in_multiplier :: int
  in_margin_rate :: pyfloat
  in_buffer_rate :: pyfloat
  in_trigger :: pyfloat
  in_futures_cost :: pyfloat
  in_inverse_cost :: pyfloat
  in_futures_tax :: decimal
  in_deduction :: int
  in_inverse_tax :: decimal

fun check_rate :: "(rat \<Rightarrow> bool) \<Rightarrow> string \<Rightarrow> pyfloat \<Rightarrow> rat res" where
  "check_rate P msg (Fin x) = (if P x then Inr x else Inl (ValueError msg))"
| "check_rate P msg _ = Inl (ValueError msg)"

definition open_unit :: "rat \<Rightarrow> bool" where "open_unit x \<longleftrightarrow> 0 < x \<and> x < 1"
definition half_open_unit :: "rat \<Rightarrow> bool" where "half_open_unit x \<longleftrightarrow> 0 \<le> x \<and> x < 1"
definition trigger_unit :: "rat \<Rightarrow> bool" where "trigger_unit x \<longleftrightarrow> 0 < x \<and> x \<le> 1"

definition derivative_config_init :: "derivative_input \<Rightarrow> derivative_config res" where
  "derivative_config_init d =
     guard (in_multiplier d \<le> 0) (ValueError ''contract_multiplier_krw must be a positive integer'') (
     res_bind (check_rate open_unit ''initial_margin_rate must be in (0, 1)'' (in_margin_rate d)) (\<lambda>im.
     res_bind (check_rate open_unit ''margin_buffer_rate must be in (0, 1)'' (in_buffer_rate d)) (\<lambda>mb.
     res_bind (check_rate trigger_unit ''margin_topup_trigger_fraction must be in (0, 1]'' (in_trigger d)) (\<lambda>tr.
     res_bind (check_rate half_open_unit ''futures_cost_rate must be in [0, 1)'' (in_futures_cost d)) (\<lambda>fc.
     res_bind (check_rate half_open_unit ''inverse_cost_rate must be in [0, 1)'' (in_inverse_cost d)) (\<lambda>ic.
     guard (\<not> half_open_unit (in_futures_tax d)) (ValueError ''futures_tax_rate must be in [0, 1)'') (
     guard (\<not> half_open_unit (in_inverse_tax d)) (ValueError ''inverse_tax_rate must be in [0, 1)'') (
     guard (in_deduction d < 0) (ValueError ''futures_annual_deduction_krw must be >= 0'') (
     Inr \<lparr> contract_multiplier_krw = in_multiplier d, initial_margin_rate = im, margin_buffer_rate = mb,
           margin_topup_trigger_fraction = tr, futures_cost_rate = fc, inverse_cost_rate = ic,
           futures_tax_rate = in_futures_tax d, futures_annual_deduction_krw = in_deduction d,
           inverse_tax_rate = in_inverse_tax d \<rparr>)))))))))"

text \<open>What the validation establishes, with the float fields being binary64 values.\<close>

definition derivative_ok :: "derivative_config \<Rightarrow> bool" where
  "derivative_ok c \<longleftrightarrow> 0 < contract_multiplier_krw c
     \<and> open_unit (initial_margin_rate c) \<and> is_double (initial_margin_rate c)
     \<and> open_unit (margin_buffer_rate c) \<and> is_double (margin_buffer_rate c)
     \<and> trigger_unit (margin_topup_trigger_fraction c) \<and> is_double (margin_topup_trigger_fraction c)
     \<and> half_open_unit (futures_cost_rate c) \<and> is_double (futures_cost_rate c)
     \<and> half_open_unit (inverse_cost_rate c) \<and> is_double (inverse_cost_rate c)
     \<and> half_open_unit (futures_tax_rate c) \<and> half_open_unit (inverse_tax_rate c)
     \<and> 0 \<le> futures_annual_deduction_krw c"

definition PRIMARY_LEG :: string where
  "PRIMARY_LEG = ''primary''"

definition check_leg_name :: "string \<Rightarrow> unit res" where
  "check_leg_name name = guard (name = [] \<or> name = PRIMARY_LEG) (ValueError ''invalid leg name'') (Inr ())"

fun check_leg_pairs_from :: "string option \<Rightarrow> (string \<times> int) list \<Rightarrow> unit res" where
  "check_leg_pairs_from prev [] = Inr ()"
| "check_leg_pairs_from prev ((name, count) # rest) =
     res_bind (check_leg_name name) (\<lambda>_.
     guard (prev = Some name) (ValueError ''duplicate leg name'') (
     guard (\<exists>p \<in> set_option prev. name < p) (ValueError ''must be sorted by name'') (
     check_leg_pairs_from (Some name) rest)))"

definition check_leg_pairs :: "(string \<times> int) list \<Rightarrow> unit res" where
  "check_leg_pairs pairs = check_leg_pairs_from None pairs"

record overlay_target =
  ot_contracts :: int
  ot_inverse_value_krw :: int
  ot_legs :: "(string \<times> int) list"

definition overlay_target_init :: "overlay_target \<Rightarrow> overlay_target res" where
  "overlay_target_init t =
     guard (ot_inverse_value_krw t < 0) (ValueError ''inverse_value_krw must be >= 0'') (
     res_bind (check_leg_pairs (ot_legs t)) (\<lambda>_. Inr t))"

section \<open>Exact amounts\<close>

text \<open>A factor of \<open>ceil_amount_krw\<close>: a decimal is used as it is, an integer or a float through
  \<open>Decimal(str(x))\<close>, which is exact for an integer and the shortest decimal of a float.\<close>

datatype amount = ADec decimal | AInt int | AFloat rat

fun amount_dec :: "amount \<Rightarrow> decimal" where
  "amount_dec (ADec d) = d"
| "amount_dec (AInt n) = of_int n"
| "amount_dec (AFloat x) = repr_dec x"

definition ceil_amount_krw :: "amount \<Rightarrow> amount list \<Rightarrow> int" where
  "ceil_amount_krw rate factors =
     dec_ceiling (foldl (\<lambda>product factor. dec_mul product (amount_dec factor)) (amount_dec rate) factors)"

fun checked_index_level :: "pyfloat \<Rightarrow> rat res" where
  "checked_index_level (Fin x) =
     (if 0 < x then Inr x else Inl (PITDataError ''index level must be finite and positive''))"
| "checked_index_level _ = Inl (PITDataError ''index level must be finite and positive'')"

definition reserve_rate :: "derivative_config \<Rightarrow> decimal" where
  "reserve_rate config = dec_add (repr_dec (initial_margin_rate config)) (repr_dec (margin_buffer_rate config))"

definition required_reserve_krw :: "int \<Rightarrow> pyfloat \<Rightarrow> derivative_config \<Rightarrow> int res" where
  "required_reserve_krw contracts level config =
     (if contracts = 0 then Inr 0
      else res_bind (checked_index_level level) (\<lambda>level_f.
        Inr (ceil_amount_krw (ADec (reserve_rate config))
               [AInt \<bar>contracts\<bar>, AInt (contract_multiplier_krw config), AFloat level_f])))"

section \<open>Expiry calendar\<close>

text \<open>\<open>date(year, month, 1 + offset + 7)\<close> cannot raise for a valid year and month: the day is at
  most 14.\<close>

definition second_thursday :: "int \<Rightarrow> int \<Rightarrow> date" where
  "second_thursday y m = (let offset = (3 - weekday (Date y m 1)) mod 7 in Date y m (1 + offset + 7))"

text \<open>\<open>bisect.bisect_right\<close> on the session list.\<close>

definition bisect_right :: "'a::linorder list \<Rightarrow> 'a \<Rightarrow> nat" where
  "bisect_right xs v = length (takeWhile (\<lambda>x. x \<le> v) xs)"

definition expiry_row :: "date list \<Rightarrow> date \<Rightarrow> nat list" where
  "expiry_row ordered expiry =
     (if expiry < hd ordered \<or> last ordered < expiry then []
      else let b = bisect_right ordered expiry in if 1 \<le> b then [b - 1] else [])"

definition futures_expiry_rows :: "date list \<Rightarrow> nat set" where
  "futures_expiry_rows ordered =
     (if ordered = [] then {}
      else set (concat (map (\<lambda>y. concat (map (\<lambda>m. expiry_row ordered (second_thursday y m)) [3, 6, 9, 12]))
                            [year (hd ordered) .. year (last ordered)])))"

section \<open>Laws\<close>

lemma half_open_unit_0 [simp]: "half_open_unit 0"
  by (simp add: half_open_unit_def)

lemma check_rate_Inr [res_simps]: "check_rate P msg v = Inr x \<longleftrightarrow> v = Fin x \<and> P x"
  by (cases v) auto

lemma derivative_config_init_ok:
  assumes "derivative_config_init d = Inr c"
    and "wf_float (in_margin_rate d)" "wf_float (in_buffer_rate d)" "wf_float (in_trigger d)"
    and "wf_float (in_futures_cost d)" "wf_float (in_inverse_cost d)"
  shows "derivative_ok c"
  using assms by (auto simp: derivative_config_init_def derivative_ok_def res_simps)

text \<open>Ceilings of products are non-negative and monotone in a non-negative factor.\<close>

lemma foldl_dec_mul_nonneg:
  "0 \<le> acc \<Longrightarrow> \<forall>f \<in> set fs. 0 \<le> amount_dec f \<Longrightarrow>
   0 \<le> foldl (\<lambda>p f. dec_mul p (amount_dec f)) acc fs"
  by (induction fs arbitrary: acc) (auto simp: dec_mul_nonneg)

lemma ceil_amount_nonneg:
  "0 \<le> amount_dec r \<Longrightarrow> \<forall>f \<in> set fs. 0 \<le> amount_dec f \<Longrightarrow> 0 \<le> ceil_amount_krw r fs"
  using foldl_dec_mul_nonneg [of "amount_dec r" fs]
  by (simp add: ceil_amount_krw_def dec_ceiling_def)

lemma foldl_dec_mul_mono:
  "0 \<le> acc \<Longrightarrow> acc \<le> acc' \<Longrightarrow> list_all2 (\<lambda>f g. 0 \<le> amount_dec f \<and> amount_dec f \<le> amount_dec g) fs gs \<Longrightarrow>
   foldl (\<lambda>p f. dec_mul p (amount_dec f)) acc fs \<le> foldl (\<lambda>p f. dec_mul p (amount_dec f)) acc' gs"
proof (induction fs arbitrary: acc acc' gs)
  case (Cons f fs)
  then obtain g gs' where gs: "gs = g # gs'" "0 \<le> amount_dec f" "amount_dec f \<le> amount_dec g"
    "list_all2 (\<lambda>f g. 0 \<le> amount_dec f \<and> amount_dec f \<le> amount_dec g) fs gs'"
    by (auto simp: list_all2_Cons1)
  have "dec_mul acc (amount_dec f) \<le> dec_mul acc' (amount_dec g)"
    using Cons.prems gs by (intro dec_mul_mono2) auto
  then show ?case using Cons.IH [of "dec_mul acc (amount_dec f)" _ gs'] Cons.prems gs
    by (simp add: dec_mul_nonneg)
qed simp

lemma ceil_amount_mono:
  assumes "0 \<le> amount_dec r" "amount_dec r \<le> amount_dec r'"
    and "list_all2 (\<lambda>f g. 0 \<le> amount_dec f \<and> amount_dec f \<le> amount_dec g) fs gs"
  shows "ceil_amount_krw r fs \<le> ceil_amount_krw r' gs"
  using foldl_dec_mul_mono [OF assms] by (simp add: ceil_amount_krw_def dec_ceiling_mono)

lemma ceil_amount_zero: "ceil_amount_krw (AInt 0) fs = 0"
proof -
  have "foldl (\<lambda>p f. dec_mul p (amount_dec f)) 0 fs = 0" by (induction fs) simp_all
  then show ?thesis by (simp add: ceil_amount_krw_def dec_ceiling_def)
qed

lemma reserve_rate_nonneg: "derivative_ok c \<Longrightarrow> 0 \<le> reserve_rate c"
  by (auto simp: derivative_ok_def open_unit_def reserve_rate_def dec_add_def
      intro!: dec_round_nonneg add_nonneg_nonneg repr_dec_nonneg)

lemma required_reserve_0 [simp]: "required_reserve_krw 0 level c = Inr 0"
  by (simp add: required_reserve_krw_def)

lemma required_reserve_total:
  "0 < x \<Longrightarrow> \<exists>r. required_reserve_krw k (Fin x) c = Inr r"
  by (simp add: required_reserve_krw_def)

lemma required_reserve_nonneg:
  assumes "derivative_ok c" "is_double x" "required_reserve_krw k (Fin x) c = Inr r"
  shows "0 \<le> r"
  using assms reserve_rate_nonneg [OF assms(1)]
  by (auto simp: required_reserve_krw_def res_simps derivative_ok_def repr_dec_nonneg
      split: if_splits intro!: ceil_amount_nonneg)

lemma required_reserve_mono:
  assumes "derivative_ok c" "is_double x" "\<bar>k\<bar> \<le> \<bar>k'\<bar>"
    and "required_reserve_krw k (Fin x) c = Inr r" "required_reserve_krw k' (Fin x) c = Inr r'"
  shows "r \<le> r'"
proof (cases "k = 0")
  case True
  then show ?thesis using assms required_reserve_nonneg [OF assms(1,2,5)] by simp
next
  case False
  with assms have k': "k' \<noteq> 0" by auto
  have "(of_int \<bar>k\<bar> :: rat) \<le> of_int \<bar>k'\<bar>" using assms(3) by (simp only: of_int_le_iff)
  then show ?thesis
    using assms False k' reserve_rate_nonneg [OF assms(1)]
    by (auto simp: required_reserve_krw_def res_simps derivative_ok_def repr_dec_nonneg
        split: if_splits intro!: ceil_amount_mono)
qed

lemma check_leg_pairs_sorted_from:
  "check_leg_pairs_from prev pairs = Inr () \<Longrightarrow>
   sorted_wrt (<) (map fst pairs) \<and> (\<forall>p \<in> set pairs. fst p \<noteq> [] \<and> fst p \<noteq> PRIMARY_LEG)
   \<and> (\<forall>q p. prev = Some q \<and> p \<in> set pairs \<longrightarrow> q < fst p)"
proof (induction prev pairs rule: check_leg_pairs_from.induct)
  case (2 prev name count rest)
  then show ?case
    by (cases prev) (auto simp: res_simps check_leg_name_def not_less order.strict_iff_order)
qed simp

lemma check_leg_pairs_sorted:
  "check_leg_pairs pairs = Inr () \<Longrightarrow>
   sorted_wrt (<) (map fst pairs) \<and> (\<forall>p \<in> set pairs. fst p \<noteq> [] \<and> fst p \<noteq> PRIMARY_LEG)"
  using check_leg_pairs_sorted_from [of None pairs] by (simp add: check_leg_pairs_def)

lemma second_thursday_day: "8 \<le> day (second_thursday y m) \<and> day (second_thursday y m) \<le> 14"
  by (simp add: second_thursday_def Let_def)

lemma second_thursday_weekday: "weekday (second_thursday y m) = 3"
proof -
  let ?w = "weekday (Date y m 1)"
  have "weekday (second_thursday y m) = (?w + ((3 - ?w) mod 7 + 7)) mod 7"
    using weekday_shift [of y m 1 "(3 - ?w) mod 7 + 7"] by (simp add: second_thursday_def Let_def add.assoc)
  also have "\<dots> = 3" by presburger
  finally show ?thesis .
qed

lemma takeWhile_le_sorted:
  assumes "sorted xs" "i < length xs"
  shows "i < length (takeWhile (\<lambda>x. x \<le> v) xs) \<longleftrightarrow> xs ! i \<le> v"
  using assms
proof (induction xs arbitrary: i)
  case (Cons x xs)
  show ?case
  proof (cases i)
    case (Suc j)
    then show ?thesis using Cons by (auto simp: nth_mem dest: order_trans)
  qed simp
qed simp

lemma bisect_right_sorted:
  "sorted xs \<Longrightarrow> i < length xs \<Longrightarrow> i < bisect_right xs v \<longleftrightarrow> xs ! i \<le> v"
  by (simp add: bisect_right_def takeWhile_le_sorted)

lemma bisect_right_le: "bisect_right xs v \<le> length xs"
  by (simp add: bisect_right_def length_takeWhile_le)

text \<open>The running product of \<open>ceil_amount_krw\<close> by recursion, for evaluation.\<close>

fun amount_product :: "decimal \<Rightarrow> amount list \<Rightarrow> decimal" where
  "amount_product acc [] = acc"
| "amount_product acc (f # fs) = amount_product (dec_mul acc (amount_dec f)) fs"

lemma amount_product_foldl: "amount_product acc fs = foldl (\<lambda>p f. dec_mul p (amount_dec f)) acc fs"
  by (induction fs arbitrary: acc) auto

lemma ceil_amount_eval: "ceil_amount_krw rate factors = dec_ceiling (amount_product (amount_dec rate) factors)"
  by (simp add: ceil_amount_krw_def amount_product_foldl)

end
