(* ===== verification/Ledger.thy ===== *)
theory Ledger
  imports Costs Overlay
begin

text \<open>
  The exact cash-and-shares ledger (\<open>src/backtest/ledger.py\<close>): its state, every method that changes
  it, the close mark, and the invariants that tie the balances to the journal.

  Each method is a function from the ledger (and its keyword arguments, in source order) to
  \<open>py_error + ledger\<close>, paired with the returned integer where the method returns one. All of a method's
  checks come before its first assignment, so an error leaves no half-made change behind (in
  \<open>settle_dividends\<close> the due amount is popped before \<open>dividend_withholding\<close> may reject a negative one;
  no entitlement of a long position is negative). Arguments
  annotated \<open>int\<close> are HOL integers and \<open>float\<close> arguments are \<open>pyfloat\<close> values: the \<open>isinstance\<close> tests
  that reject other types cannot fail here, the range tests are kept.
\<close>

section \<open>State\<close>

datatype ledger_account = CASH | MARGIN | PAYABLE

datatype journal_kind =
    DEPOSIT | BUY | SELL | COMMISSION | SELL_TAX | CASH_IN_LIEU | DIVIDEND | DIVIDEND_TAX
  | EXIT_PROCEEDS | CASH_YIELD | CASH_YIELD_TAX | TAX_PAYMENT | MARGIN_TRANSFER | VARIATION_MARGIN
  | FUTURES_TRADE | FUTURES_COMMISSION | FUTURES_ROLL | FUTURES_TAX | INVERSE_BUY | INVERSE_SELL
  | INVERSE_COMMISSION | INVERSE_TAX

record journal_entry =
  je_session :: int
  je_kind :: journal_kind
  je_instrument :: "int option"
  je_cash :: int
  je_qty :: int
  je_account :: ledger_account
  je_leg :: "string option"

record nav_record =
  nr_session :: int
  nr_cash :: int
  nr_dividend_receivable :: int
  nr_market_value :: int
  nr_nav :: int
  nr_external_flow :: int
  nr_margin :: int
  nr_inverse_value :: int
  nr_tax_payable :: int

record dividend_event =
  de_instrument :: int
  de_ex_session :: int
  de_pay_session :: int
  de_dps_krw :: int

record ledger =
  l_initial_cash :: int
  l_cash :: int
  l_positions :: "(int, int) dict"
  l_receivable :: int
  l_receivable_by_pay :: "(int, int) dict"
  l_external_flow :: int
  l_journal :: "journal_entry list"
  l_ytd_cash_yield :: int
  l_tax_payable :: int
  l_margin :: int
  l_contracts :: int
  l_secondary_contracts :: "(string, int) dict"
  l_inverse_units :: int
  l_inverse_basis :: int
  l_ytd_futures_pnl :: int

definition jentry :: "int \<Rightarrow> journal_kind \<Rightarrow> int option \<Rightarrow> int \<Rightarrow> int \<Rightarrow> journal_entry" where
  "jentry s k i c q = \<lparr>je_session = s, je_kind = k, je_instrument = i, je_cash = c, je_qty = q,
     je_account = CASH, je_leg = None\<rparr>"

definition jentry_acct ::
  "int \<Rightarrow> journal_kind \<Rightarrow> int \<Rightarrow> int \<Rightarrow> ledger_account \<Rightarrow> string option \<Rightarrow> journal_entry" where
  "jentry_acct s k c q a leg = \<lparr>je_session = s, je_kind = k, je_instrument = None, je_cash = c, je_qty = q,
     je_account = a, je_leg = leg\<rparr>"

definition book :: "ledger \<Rightarrow> journal_entry list \<Rightarrow> ledger" where
  "book l es = l\<lparr>l_journal := l_journal l @ es\<rparr>"

section \<open>Argument checks\<close>

definition checked_int :: "int \<Rightarrow> string \<Rightarrow> int \<Rightarrow> int res" where
  "checked_int v what minimum = guard (v < minimum) (ValueError what) (Inr v)"

fun checked_level :: "pyfloat \<Rightarrow> string \<Rightarrow> rat res" where
  "checked_level (Fin x) what = (if 0 < x then Inr x else Inl (PITDataError what))"
| "checked_level _ what = Inl (PITDataError what)"

fun checked_cost_rate :: "pyfloat \<Rightarrow> string \<Rightarrow> rat res" where
  "checked_cost_rate (Fin x) what = (if 0 \<le> x \<and> x < 1 then Inr x else Inl (ValueError what))"
| "checked_cost_rate _ what = Inl (ValueError what)"

definition floored_mark :: "int \<Rightarrow> int \<Rightarrow> rat \<Rightarrow> int" where
  "floored_mark contracts multiplier level = - ceil_amount_krw (AInt (contracts * multiplier)) [AFloat level]"

section \<open>Construction, stock trades and corporate actions\<close>

definition ledger_init :: "int \<Rightarrow> ledger res" where
  "ledger_init initial_cash = res_bind (checked_int initial_cash ''initial_cash'' 0) (\<lambda>c.
     Inr \<lparr>l_initial_cash = c, l_cash = c, l_positions = [], l_receivable = 0, l_receivable_by_pay = [],
       l_external_flow = 0, l_journal = [], l_ytd_cash_yield = 0, l_tax_payable = 0, l_margin = 0,
       l_contracts = 0, l_secondary_contracts = [], l_inverse_units = 0, l_inverse_basis = 0,
       l_ytd_futures_pnl = 0\<rparr>)"

definition deposit :: "ledger \<Rightarrow> int \<Rightarrow> int \<Rightarrow> ledger res" where
  "deposit l session_idx amount = res_bind (checked_int amount ''amount'' 1) (\<lambda>amount.
     Inr (book (l\<lparr>l_cash := l_cash l + amount, l_external_flow := l_external_flow l + amount\<rparr>)
       [jentry session_idx DEPOSIT None amount 0]))"

definition buy :: "ledger \<Rightarrow> int \<Rightarrow> int \<Rightarrow> int \<Rightarrow> int \<Rightarrow> int \<Rightarrow> ledger res" where
  "buy l session_idx instrument_idx quantity price commission =
     res_bind (checked_int instrument_idx ''instrument_idx'' 0) (\<lambda>instrument_idx.
     res_bind (checked_int quantity ''quantity'' 1) (\<lambda>quantity.
     res_bind (checked_int price ''price'' 1) (\<lambda>price.
     res_bind (checked_int commission ''commission'' 0) (\<lambda>commission.
     let total = quantity * price + commission in
     guard (l_cash l < total) (ValueError ''buy costs more than cash'') (
     Inr (book (l\<lparr>l_cash := l_cash l - total,
            l_positions := AList.update instrument_idx
              (dict_get (l_positions l) instrument_idx 0 + quantity) (l_positions l)\<rparr>)
          [jentry session_idx BUY (Some instrument_idx) (- quantity * price) quantity,
           jentry session_idx COMMISSION (Some instrument_idx) (- commission) 0]))))))"

definition set_position :: "ledger \<Rightarrow> int \<Rightarrow> int \<Rightarrow> (int, int) dict" where
  "set_position l instrument_idx quantity =
     (if quantity \<noteq> 0 then AList.update instrument_idx quantity (l_positions l)
      else AList.delete instrument_idx (l_positions l))"

definition sell :: "ledger \<Rightarrow> int \<Rightarrow> int \<Rightarrow> int \<Rightarrow> int \<Rightarrow> int \<Rightarrow> int \<Rightarrow> ledger res" where
  "sell l session_idx instrument_idx quantity price commission sell_tax =
     res_bind (checked_int instrument_idx ''instrument_idx'' 0) (\<lambda>instrument_idx.
     res_bind (checked_int quantity ''quantity'' 1) (\<lambda>quantity.
     res_bind (checked_int price ''price'' 1) (\<lambda>price.
     res_bind (checked_int commission ''commission'' 0) (\<lambda>commission.
     res_bind (checked_int sell_tax ''sell_tax'' 0) (\<lambda>sell_tax.
     let held = dict_get (l_positions l) instrument_idx 0 in
     guard (held < quantity) (ValueError ''sell exceeds holding'') (
     Inr (book (l\<lparr>l_positions := set_position l instrument_idx (held - quantity),
            l_cash := l_cash l + (quantity * price - commission - sell_tax)\<rparr>)
          [jentry session_idx SELL (Some instrument_idx) (quantity * price) (- quantity),
           jentry session_idx COMMISSION (Some instrument_idx) (- commission) 0,
           jentry session_idx SELL_TAX (Some instrument_idx) (- sell_tax) 0])))))))"

text \<open>The share factor is applied in floating point: \<open>scaled = held * factor\<close>, whole shares by
  \<open>floor\<close>, the fraction paid out at the base price.\<close>

definition apply_share_factor :: "ledger \<Rightarrow> int \<Rightarrow> int \<Rightarrow> pyfloat \<Rightarrow> int \<Rightarrow> ledger res" where
  "apply_share_factor l session_idx instrument_idx factor base_price =
     res_bind (checked_int instrument_idx ''instrument_idx'' 0) (\<lambda>instrument_idx.
     let held = dict_get (l_positions l) instrument_idx 0 in
     if held = 0 then Inr l else
     res_bind (float_of_int held) (\<lambda>h.
     let scaled = fmul h factor in
     res_bind (math_floor scaled) (\<lambda>new_quantity.
     res_bind (float_of_int new_quantity) (\<lambda>nq.
     res_bind (float_of_int base_price) (\<lambda>bp.
     res_bind (math_floor (fmul (fsub scaled nq) bp)) (\<lambda>cash_in_lieu.
     Inr (book (l\<lparr>l_positions := set_position l instrument_idx new_quantity,
            l_cash := l_cash l + cash_in_lieu\<rparr>)
          [jentry session_idx CASH_IN_LIEU (Some instrument_idx) cash_in_lieu (new_quantity - held)])))))))"

definition record_one_entitlement :: "ledger \<Rightarrow> dividend_event \<Rightarrow> ledger" where
  "record_one_entitlement l event =
     (let amount = dict_get (l_positions l) (de_instrument event) 0 * de_dps_krw event;
          pay_idx = de_pay_session event
      in l\<lparr>l_receivable := l_receivable l + amount,
           l_receivable_by_pay := AList.update pay_idx
             (dict_get (l_receivable_by_pay l) pay_idx 0 + amount) (l_receivable_by_pay l)\<rparr>)"

definition record_dividend_entitlements :: "ledger \<Rightarrow> int \<Rightarrow> dividend_event list \<Rightarrow> ledger" where
  "record_dividend_entitlements l session_idx events = foldl record_one_entitlement l events"

definition settle_dividends :: "ledger \<Rightarrow> int \<Rightarrow> cost_config \<Rightarrow> ledger res" where
  "settle_dividends l session_idx config =
     (let due = dict_get (l_receivable_by_pay l) session_idx 0;
          l1 = l\<lparr>l_receivable_by_pay := AList.delete session_idx (l_receivable_by_pay l)\<rparr>
      in if due = 0 then Inr l1
         else res_bind (dividend_withholding due config) (\<lambda>tax.
           Inr (book (l1\<lparr>l_receivable := l_receivable l1 - due, l_cash := l_cash l1 + (due - tax)\<rparr>)
             [jentry session_idx DIVIDEND None due 0, jentry session_idx DIVIDEND_TAX None (- tax) 0])))"

definition close_exit :: "ledger \<Rightarrow> int \<Rightarrow> int \<Rightarrow> int \<Rightarrow> ledger res" where
  "close_exit l session_idx instrument_idx price =
     res_bind (checked_int instrument_idx ''instrument_idx'' 0) (\<lambda>instrument_idx.
     res_bind (checked_int price ''price'' 0) (\<lambda>price.
     let quantity = dict_get (l_positions l) instrument_idx 0; proceeds = quantity * price in
     Inr (book (l\<lparr>l_positions := AList.delete instrument_idx (l_positions l), l_cash := l_cash l + proceeds\<rparr>)
       [jentry session_idx EXIT_PROCEEDS (Some instrument_idx) proceeds (- quantity)])))"

section \<open>Cash sweep and its tax\<close>

fun checked_gross_return :: "pyfloat \<Rightarrow> rat res" where
  "checked_gross_return (Fin x) =
     (if - 1 < x then Inr x else Inl (ValueError ''gross_return must be a finite number > -1''))"
| "checked_gross_return _ = Inl (ValueError ''gross_return must be a finite number > -1'')"

definition accrue_cash_yield :: "ledger \<Rightarrow> int \<Rightarrow> pyfloat \<Rightarrow> (ledger \<times> int) res" where
  "accrue_cash_yield l session_idx gross_return =
     res_bind (checked_gross_return gross_return) (\<lambda>rate.
     if l_cash l \<le> 0 then Inr (l, 0) else
     res_bind (float_of_int (l_cash l)) (\<lambda>c.
     res_bind (math_floor (fmul c (Fin rate))) (\<lambda>amount.
     if amount = 0 then Inr (l, 0) else
     Inr (book (l\<lparr>l_cash := l_cash l + amount, l_ytd_cash_yield := l_ytd_cash_yield l + amount\<rparr>)
            [jentry session_idx CASH_YIELD None amount 0], amount))))"

text \<open>\<open>if paid\<close> and \<open>if unpaid\<close> book an entry only for a non-zero amount.\<close>

definition settle_cash_yield_tax :: "ledger \<Rightarrow> int \<Rightarrow> cost_config \<Rightarrow> ledger \<times> int" where
  "settle_cash_yield_tax l session_idx config =
     (let ytd = l_ytd_cash_yield l; l1 = l\<lparr>l_ytd_cash_yield := 0\<rparr> in
      if ytd \<le> 0 then (l1, 0) else
      let tax = dec_floor (dec_mul (of_int ytd) (cash_yield_tax_rate config)) in
      if tax \<le> 0 then (l1, 0) else
      let paid = min tax (max (l_cash l1) 0);
          l2 = (if paid \<noteq> 0
                then book (l1\<lparr>l_cash := l_cash l1 - paid\<rparr>) [jentry session_idx CASH_YIELD_TAX None (- paid) 0]
                else l1);
          unpaid = tax - paid;
          l3 = (if unpaid \<noteq> 0
                then book (l2\<lparr>l_tax_payable := l_tax_payable l2 + unpaid\<rparr>)
                  [jentry_acct session_idx CASH_YIELD_TAX (- unpaid) 0 PAYABLE None]
                else l2)
      in (l3, tax))"

definition settle_tax_payable :: "ledger \<Rightarrow> int \<Rightarrow> ledger \<times> int" where
  "settle_tax_payable l session_idx =
     (let due = l_tax_payable l in
      if due \<le> 0 then (l, 0) else
      let paid = min due (max (l_cash l) 0) in
      if paid \<le> 0 then (l, 0) else
      (book (l\<lparr>l_tax_payable := l_tax_payable l - paid, l_cash := l_cash l - paid\<rparr>)
         [jentry session_idx TAX_PAYMENT None (- paid) 0,
          jentry_acct session_idx TAX_PAYMENT paid 0 PAYABLE None], paid))"

section \<open>Futures and margin\<close>

definition transfer_margin :: "ledger \<Rightarrow> int \<Rightarrow> int \<Rightarrow> ledger res" where
  "transfer_margin l session_idx delta =
     (if delta = 0 then Inr l else
      guard (l_cash l - delta < 0) (ValueError ''margin transfer exceeds cash'') (
      Inr (book (l\<lparr>l_cash := l_cash l - delta, l_margin := l_margin l + delta\<rparr>)
        [jentry_acct session_idx MARGIN_TRANSFER (- delta) 0 CASH None,
         jentry_acct session_idx MARGIN_TRANSFER delta 0 MARGIN None])))"

definition leg_contracts :: "ledger \<Rightarrow> string \<Rightarrow> int" where
  "leg_contracts l leg = (if leg = PRIMARY_LEG then l_contracts l else dict_get (l_secondary_contracts l) leg 0)"

definition journal_leg :: "string \<Rightarrow> string option" where
  "journal_leg leg = (if leg = PRIMARY_LEG then None else Some leg)"

definition settle_variation ::
  "ledger \<Rightarrow> int \<Rightarrow> pyfloat \<Rightarrow> pyfloat \<Rightarrow> int \<Rightarrow> string \<Rightarrow> (ledger \<times> int) res" where
  "settle_variation l session_idx prev_level level multiplier leg =
     res_bind (checked_int multiplier ''multiplier'' 1) (\<lambda>mult.
     let held = leg_contracts l leg in
     if held = 0 then Inr (l, 0) else
     res_bind (checked_level prev_level ''prev_level'') (\<lambda>prev.
     res_bind (checked_level level ''level'') (\<lambda>cur.
     let delta = floored_mark held mult cur - floored_mark held mult prev in
     if delta = 0 then Inr (l, 0) else
     Inr (book (l\<lparr>l_margin := l_margin l + delta, l_ytd_futures_pnl := l_ytd_futures_pnl l + delta\<rparr>)
            [jentry_acct session_idx VARIATION_MARGIN delta 0 MARGIN (journal_leg leg)], delta))))"

definition set_leg_contracts :: "ledger \<Rightarrow> string \<Rightarrow> int \<Rightarrow> ledger" where
  "set_leg_contracts l leg target =
     (if leg = PRIMARY_LEG then l\<lparr>l_contracts := target\<rparr>
      else if target \<noteq> 0 then l\<lparr>l_secondary_contracts := AList.update leg target (l_secondary_contracts l)\<rparr>
      else l\<lparr>l_secondary_contracts := AList.delete leg (l_secondary_contracts l)\<rparr>)"

definition trade_futures ::
  "ledger \<Rightarrow> int \<Rightarrow> int \<Rightarrow> pyfloat \<Rightarrow> int \<Rightarrow> pyfloat \<Rightarrow> string \<Rightarrow> ledger res" where
  "trade_futures l session_idx target level multiplier cost_rate leg =
     res_bind (checked_int multiplier ''multiplier'' 1) (\<lambda>mult.
     res_bind (checked_cost_rate cost_rate ''cost_rate'') (\<lambda>rate.
     res_bind (checked_level level ''level'') (\<lambda>mark_level.
     let delta = target - leg_contracts l leg in
     if delta = 0 then Inr l else
     let l1 = book (set_leg_contracts l leg target)
                [jentry_acct session_idx FUTURES_TRADE 0 delta CASH (journal_leg leg)];
         commission = ceil_amount_krw (AFloat rate) [AInt \<bar>delta\<bar>, AInt mult, AFloat mark_level]
     in if 0 < commission
        then Inr (book (l1\<lparr>l_margin := l_margin l1 - commission\<rparr>)
               [jentry_acct session_idx FUTURES_COMMISSION (- commission) 0 MARGIN (journal_leg leg)])
        else Inr l1)))"

text \<open>\<open>2.0 * rate\<close> is a float product; it cannot overflow below 2.\<close>

definition roll_futures ::
  "ledger \<Rightarrow> int \<Rightarrow> pyfloat \<Rightarrow> int \<Rightarrow> pyfloat \<Rightarrow> string \<Rightarrow> ledger res" where
  "roll_futures l session_idx level multiplier cost_rate leg =
     res_bind (checked_int multiplier ''multiplier'' 1) (\<lambda>mult.
     res_bind (checked_cost_rate cost_rate ''cost_rate'') (\<lambda>rate.
     res_bind (checked_level level ''level'') (\<lambda>mark_level.
     let held = leg_contracts l leg in
     if held = 0 then Inr l else
     let cost = ceil_amount_krw (AFloat (fl_round (2 * rate))) [AInt \<bar>held\<bar>, AInt mult, AFloat mark_level] in
     if cost \<le> 0 then Inr l else
     Inr (book (l\<lparr>l_margin := l_margin l - cost\<rparr>)
       [jentry_acct session_idx FUTURES_ROLL (- cost) 0 MARGIN (journal_leg leg)]))))"

definition settle_futures_tax :: "ledger \<Rightarrow> int \<Rightarrow> derivative_config \<Rightarrow> ledger \<times> int" where
  "settle_futures_tax l session_idx config =
     (let ytd = l_ytd_futures_pnl l; l1 = l\<lparr>l_ytd_futures_pnl := 0\<rparr>;
          taxable = ytd - futures_annual_deduction_krw config
      in if taxable \<le> 0 then (l1, 0) else
      let tax = dec_floor (dec_mul (of_int taxable) (futures_tax_rate config)) in
      if tax \<le> 0 then (l1, 0) else
      (book (l1\<lparr>l_margin := l_margin l1 - tax\<rparr>) [jentry_acct session_idx FUTURES_TAX (- tax) 0 MARGIN None], tax))"

section \<open>Inverse ETF\<close>

definition buy_inverse :: "ledger \<Rightarrow> int \<Rightarrow> int \<Rightarrow> int \<Rightarrow> pyfloat \<Rightarrow> ledger res" where
  "buy_inverse l session_idx units price cost_rate =
     res_bind (checked_int units ''units'' 1) (\<lambda>quantity.
     res_bind (checked_int price ''price'' 1) (\<lambda>px.
     res_bind (checked_cost_rate cost_rate ''cost_rate'') (\<lambda>rate.
     let commission = ceil_amount_krw (AFloat rate) [AInt quantity, AInt px];
         total = quantity * px + commission in
     guard (l_cash l < total) (ValueError ''inverse buy costs more than cash'') (
     Inr (book (l\<lparr>l_cash := l_cash l - total, l_inverse_units := l_inverse_units l + quantity,
                  l_inverse_basis := l_inverse_basis l + quantity * px\<rparr>)
          (jentry session_idx INVERSE_BUY None (- quantity * px) quantity #
           (if 0 < commission then [jentry session_idx INVERSE_COMMISSION None (- commission) 0] else [])))))))"

definition sell_inverse ::
  "ledger \<Rightarrow> int \<Rightarrow> int \<Rightarrow> int \<Rightarrow> pyfloat \<Rightarrow> decimal \<Rightarrow> (ledger \<times> int) res" where
  "sell_inverse l session_idx units price cost_rate tax_rate =
     res_bind (checked_int units ''units'' 1) (\<lambda>quantity.
     res_bind (checked_int price ''price'' 1) (\<lambda>px.
     res_bind (checked_cost_rate cost_rate ''cost_rate'') (\<lambda>rate.
     guard (\<not> (0 \<le> tax_rate \<and> tax_rate < 1)) (ValueError ''tax_rate must be in [0, 1)'') (
     guard (l_inverse_units l < quantity) (ValueError ''sell exceeds inverse holding'') (
     let proceeds = quantity * px;
         commission = ceil_amount_krw (AFloat rate) [AInt proceeds];
         basis_sold = (l_inverse_basis l * quantity) div l_inverse_units l;
         gain = proceeds - basis_sold;
         tax = (if 0 < gain then dec_floor (dec_mul (of_int gain) tax_rate) else 0)
     in Inr (book (l\<lparr>l_inverse_units := l_inverse_units l - quantity,
                     l_inverse_basis := l_inverse_basis l - basis_sold,
                     l_cash := l_cash l + (proceeds - commission - tax)\<rparr>)
              (jentry session_idx INVERSE_SELL None proceeds (- quantity) #
               (if 0 < commission then [jentry session_idx INVERSE_COMMISSION None (- commission) 0] else []) @
               (if 0 < tax then [jentry session_idx INVERSE_TAX None (- tax) 0] else [])), tax))))))"

section \<open>Reading the ledger\<close>

text \<open>\<open>legs\<close>: the secondary legs with a non-zero position, sorted by name (keys are distinct, so the
  counts never decide).\<close>

definition legs :: "ledger \<Rightarrow> (string \<times> int) list" where
  "legs l = sort_key fst (filter (\<lambda>(k, v). v \<noteq> 0) (l_secondary_contracts l))"

definition mark_position :: "int list \<Rightarrow> bool list \<Rightarrow> int \<Rightarrow> int \<times> int \<Rightarrow> int res" where
  "mark_position close present market_value p =
     (case p of (instrument_idx, quantity) \<Rightarrow>
      res_bind (array_get present instrument_idx) (\<lambda>here.
      guard (\<not> here) (PITDataError ''cannot mark missing instrument'') (
      res_bind (array_get close instrument_idx) (\<lambda>c. Inr (market_value + quantity * c)))))"

definition inverse_mark :: "ledger \<Rightarrow> int option \<Rightarrow> int res" where
  "inverse_mark l inverse_price =
     (if 0 < l_inverse_units l then
        (case inverse_price of
           None \<Rightarrow> Inl (PITDataError ''cannot mark inverse holding without a price'')
         | Some px \<Rightarrow> guard (px < 0) (PITDataError ''invalid inverse price'') (Inr (l_inverse_units l * px)))
      else Inr 0)"

definition mark :: "ledger \<Rightarrow> int \<Rightarrow> int list \<Rightarrow> bool list \<Rightarrow> int option \<Rightarrow> nav_record res" where
  "mark l session_idx close present inverse_price =
     res_bind (foldM (mark_position close present) 0 (l_positions l)) (\<lambda>market_value.
     res_bind (inverse_mark l inverse_price) (\<lambda>inverse_value.
     Inr \<lparr>nr_session = session_idx, nr_cash = l_cash l, nr_dividend_receivable = l_receivable l,
       nr_market_value = market_value,
       nr_nav = l_cash l + l_receivable l + market_value + l_margin l + inverse_value - l_tax_payable l,
       nr_external_flow = l_external_flow l, nr_margin = l_margin l, nr_inverse_value = inverse_value,
       nr_tax_payable = l_tax_payable l\<rparr>))"

definition journal_size :: "ledger \<Rightarrow> nat" where
  "journal_size l = length (l_journal l)"

definition journal_since :: "ledger \<Rightarrow> nat \<Rightarrow> journal_entry list" where
  "journal_since l index = drop index (l_journal l)"

end
