(* ===== verification/LedgerLaws.thy ===== *)
theory LedgerLaws
  imports Ledger
begin

text \<open>
  Laws of the ledger: every method books exactly what it moves. The interface \<open>journaled\<close> says what
  a client of an append-only journal relies on (a step appends entries and moves a balance by their
  weights); its lemmas lift that to whole runs. It is interpreted once per balance of the ledger:
  cash, margin, payable, share positions, futures legs, inverse units and external flow.
\<close>

section \<open>The interface of a journaled balance\<close>

locale journaled =
  fixes step :: "'s \<Rightarrow> 'op \<Rightarrow> 's res"
    and journal :: "'s \<Rightarrow> 'e list"
    and balance :: "'s \<Rightarrow> int"
    and weight :: "'e \<Rightarrow> int"
  assumes step_books:
    "step s op = Inr s' \<Longrightarrow>
     \<exists>es. journal s' = journal s @ es \<and> balance s' = balance s + sum_list (map weight es)"
begin

lemma run_books:
  "foldM step s ops = Inr s' \<Longrightarrow>
   \<exists>es. journal s' = journal s @ es \<and> balance s' = balance s + sum_list (map weight es)"
proof (induction ops arbitrary: s)
  case (Cons op ops)
  then obtain t where t: "step s op = Inr t" "foldM step t ops = Inr s'" by (auto simp: res_simps)
  from step_books [OF t(1)] Cons.IH [OF t(2)] show ?case by force
qed simp

lemma run_balance_since:
  assumes "foldM step s ops = Inr s'"
  shows "balance s' = balance s + sum_list (map weight (drop (length (journal s)) (journal s')))"
  using run_books [OF assms] by auto

lemma run_append_only:
  assumes "foldM step s ops = Inr s'"
  shows "take (length (journal s)) (journal s') = journal s"
  using run_books [OF assms] by auto

lemma run_balance_from_empty:
  assumes "foldM step s ops = Inr s'" "journal s = []"
  shows "balance s' = balance s + sum_list (map weight (journal s'))"
  using run_balance_since [OF assms(1)] assms(2) by simp

end

section \<open>Operations as data\<close>

datatype ledger_op =
    OpDeposit int int
  | OpBuy int int int int int
  | OpSell int int int int int int
  | OpShareFactor int int pyfloat int
  | OpEntitlements int "dividend_event list"
  | OpSettleDividends int cost_config
  | OpCloseExit int int int
  | OpCashYield int pyfloat
  | OpCashYieldTax int cost_config
  | OpTaxPayable int
  | OpTransferMargin int int
  | OpVariation int pyfloat pyfloat int string
  | OpTradeFutures int int pyfloat int pyfloat string
  | OpRollFutures int pyfloat int pyfloat string
  | OpFuturesTax int derivative_config
  | OpBuyInverse int int int pyfloat
  | OpSellInverse int int int pyfloat decimal

fun ledger_apply :: "ledger \<Rightarrow> ledger_op \<Rightarrow> ledger res" where
  "ledger_apply l (OpDeposit t a) = deposit l t a"
| "ledger_apply l (OpBuy t i q p c) = buy l t i q p c"
| "ledger_apply l (OpSell t i q p c x) = sell l t i q p c x"
| "ledger_apply l (OpShareFactor t i f b) = apply_share_factor l t i f b"
| "ledger_apply l (OpEntitlements t es) = Inr (record_dividend_entitlements l t es)"
| "ledger_apply l (OpSettleDividends t c) = settle_dividends l t c"
| "ledger_apply l (OpCloseExit t i p) = close_exit l t i p"
| "ledger_apply l (OpCashYield t r) = map_sum id fst (accrue_cash_yield l t r)"
| "ledger_apply l (OpCashYieldTax t c) = Inr (fst (settle_cash_yield_tax l t c))"
| "ledger_apply l (OpTaxPayable t) = Inr (fst (settle_tax_payable l t))"
| "ledger_apply l (OpTransferMargin t a) = transfer_margin l t a"
| "ledger_apply l (OpVariation t p c m leg) = map_sum id fst (settle_variation l t p c m leg)"
| "ledger_apply l (OpTradeFutures t k v m r leg) = trade_futures l t k v m r leg"
| "ledger_apply l (OpRollFutures t v m r leg) = roll_futures l t v m r leg"
| "ledger_apply l (OpFuturesTax t c) = Inr (fst (settle_futures_tax l t c))"
| "ledger_apply l (OpBuyInverse t u p r) = buy_inverse l t u p r"
| "ledger_apply l (OpSellInverse t u p r x) = map_sum id fst (sell_inverse l t u p r x)"

abbreviation ledger_run :: "ledger \<Rightarrow> ledger_op list \<Rightarrow> ledger res" where
  "ledger_run \<equiv> foldM ledger_apply"

section \<open>What an entry moves\<close>

definition cash_weight :: "journal_entry \<Rightarrow> int" where
  "cash_weight e = (if je_account e = CASH then je_cash e else 0)"

definition margin_weight :: "journal_entry \<Rightarrow> int" where
  "margin_weight e = (if je_account e = MARGIN then je_cash e else 0)"

definition payable_weight :: "journal_entry \<Rightarrow> int" where
  "payable_weight e = (if je_account e = PAYABLE then je_cash e else 0)"

definition flow_weight :: "journal_entry \<Rightarrow> int" where
  "flow_weight e = (if je_kind e = DEPOSIT then je_cash e else 0)"

definition share_weight :: "int \<Rightarrow> journal_entry \<Rightarrow> int" where
  "share_weight i e = (if je_instrument e = Some i then je_qty e else 0)"

definition leg_weight :: "string \<Rightarrow> journal_entry \<Rightarrow> int" where
  "leg_weight leg e = (if je_kind e = FUTURES_TRADE \<and> je_leg e = journal_leg leg then je_qty e else 0)"

definition inverse_weight :: "journal_entry \<Rightarrow> int" where
  "inverse_weight e = (if je_kind e = INVERSE_BUY \<or> je_kind e = INVERSE_SELL then je_qty e else 0)"

abbreviation total :: "(journal_entry \<Rightarrow> int) \<Rightarrow> journal_entry list \<Rightarrow> int" where
  "total w es \<equiv> sum_list (map w es)"

lemmas weight_defs = cash_weight_def margin_weight_def payable_weight_def flow_weight_def
  share_weight_def leg_weight_def inverse_weight_def jentry_def jentry_acct_def

text \<open>\<open>books l l'\<close>: the move from \<open>l\<close> to \<open>l'\<close> is exactly the entries it appended.\<close>

abbreviation new_entries :: "ledger \<Rightarrow> ledger \<Rightarrow> journal_entry list" where
  "new_entries l l' \<equiv> drop (length (l_journal l)) (l_journal l')"

definition books :: "ledger \<Rightarrow> ledger \<Rightarrow> bool" where
  "books l l' \<longleftrightarrow> l_journal l' = l_journal l @ new_entries l l'
     \<and> l_initial_cash l' = l_initial_cash l
     \<and> l_cash l' = l_cash l + total cash_weight (new_entries l l')
     \<and> l_margin l' = l_margin l + total margin_weight (new_entries l l')
     \<and> - l_tax_payable l' = - l_tax_payable l + total payable_weight (new_entries l l')
     \<and> l_external_flow l' = l_external_flow l + total flow_weight (new_entries l l')
     \<and> l_inverse_units l' = l_inverse_units l + total inverse_weight (new_entries l l')
     \<and> (\<forall>i. dict_get (l_positions l') i 0 = dict_get (l_positions l) i 0 + total (share_weight i) (new_entries l l'))
     \<and> (\<forall>leg. leg_contracts l' leg = leg_contracts l leg + total (leg_weight leg) (new_entries l l'))"

lemma journal_leg_eq [simp]: "journal_leg a = journal_leg b \<longleftrightarrow> a = b"
  by (simp add: journal_leg_def)

lemma leg_contracts_frame [simp]:
  "leg_contracts (l\<lparr>l_cash := a\<rparr>) leg = leg_contracts l leg"
  "leg_contracts (l\<lparr>l_margin := a\<rparr>) leg = leg_contracts l leg"
  "leg_contracts (l\<lparr>l_journal := j\<rparr>) leg = leg_contracts l leg"
  "leg_contracts (l\<lparr>l_positions := d\<rparr>) leg = leg_contracts l leg"
  "leg_contracts (l\<lparr>l_external_flow := a\<rparr>) leg = leg_contracts l leg"
  "leg_contracts (l\<lparr>l_receivable := a\<rparr>) leg = leg_contracts l leg"
  "leg_contracts (l\<lparr>l_receivable_by_pay := d\<rparr>) leg = leg_contracts l leg"
  "leg_contracts (l\<lparr>l_ytd_cash_yield := a\<rparr>) leg = leg_contracts l leg"
  "leg_contracts (l\<lparr>l_ytd_futures_pnl := a\<rparr>) leg = leg_contracts l leg"
  "leg_contracts (l\<lparr>l_tax_payable := a\<rparr>) leg = leg_contracts l leg"
  "leg_contracts (l\<lparr>l_inverse_units := a\<rparr>) leg = leg_contracts l leg"
  "leg_contracts (l\<lparr>l_inverse_basis := a\<rparr>) leg = leg_contracts l leg"
  by (simp_all add: leg_contracts_def)

lemma leg_contracts_set [simp]:
  "leg_contracts (set_leg_contracts l leg k) leg' = (if leg' = leg then k else leg_contracts l leg')"
  by (simp add: leg_contracts_def set_leg_contracts_def)

lemma set_leg_contracts_frame [simp]:
  "l_cash (set_leg_contracts l leg k) = l_cash l"
  "l_margin (set_leg_contracts l leg k) = l_margin l"
  "l_journal (set_leg_contracts l leg k) = l_journal l"
  "l_positions (set_leg_contracts l leg k) = l_positions l"
  "l_tax_payable (set_leg_contracts l leg k) = l_tax_payable l"
  "l_external_flow (set_leg_contracts l leg k) = l_external_flow l"
  "l_initial_cash (set_leg_contracts l leg k) = l_initial_cash l"
  "l_inverse_units (set_leg_contracts l leg k) = l_inverse_units l"
  "l_inverse_basis (set_leg_contracts l leg k) = l_inverse_basis l"
  "l_receivable (set_leg_contracts l leg k) = l_receivable l"
  "l_receivable_by_pay (set_leg_contracts l leg k) = l_receivable_by_pay l"
  "l_ytd_cash_yield (set_leg_contracts l leg k) = l_ytd_cash_yield l"
  "l_ytd_futures_pnl (set_leg_contracts l leg k) = l_ytd_futures_pnl l"
  by (simp_all add: set_leg_contracts_def)

lemma dict_get_set_position [simp]:
  "dict_get (set_position l i q) j 0 = (if j = i then q else dict_get (l_positions l) j 0)"
  by (simp add: set_position_def)

lemma books_refl [simp]: "books l l"
  by (simp add: books_def)

lemma books_trans: "books l l' \<Longrightarrow> books l' l'' \<Longrightarrow> books l l''"
proof -
  assume a: "books l l'" and b: "books l' l''"
  define es es' where "es = new_entries l l'" and "es' = new_entries l' l''"
  have j: "l_journal l' = l_journal l @ es" "l_journal l'' = l_journal l' @ es'"
    using a b by (simp_all add: books_def es_def es'_def)
  then have "new_entries l l'' = es @ es'" by simp
  with a b show ?thesis by (simp add: books_def flip: es_def es'_def) (simp add: j)
qed

lemmas booking_simps = books_def book_def checked_int_def weight_defs Let_def

section \<open>Every method books what it moves\<close>

lemma deposit_books: "deposit l t a = Inr l' \<Longrightarrow> books l l'"
  by (auto simp: deposit_def res_simps booking_simps)

lemma buy_books: "buy l t i q p c = Inr l' \<Longrightarrow> books l l'"
  by (auto simp: buy_def res_simps booking_simps)

lemma sell_books: "sell l t i q p c x = Inr l' \<Longrightarrow> books l l'"
  by (auto simp: sell_def res_simps booking_simps)

lemma apply_share_factor_books:
  assumes "apply_share_factor l t i f b = Inr l'"
  shows "books l l'"
  using assms by (auto simp: apply_share_factor_def res_simps booking_simps split: if_splits)

lemma record_one_entitlement_books: "books l (record_one_entitlement l e)"
  by (simp add: booking_simps record_one_entitlement_def)

lemma record_dividend_entitlements_books: "books l (record_dividend_entitlements l t es)"
proof (induction es arbitrary: l)
  case (Cons e es)
  show ?case
    using books_trans [OF record_one_entitlement_books Cons.IH]
    by (simp add: record_dividend_entitlements_def)
qed (simp add: record_dividend_entitlements_def)

lemma settle_dividends_books: "settle_dividends l t c = Inr l' \<Longrightarrow> books l l'"
  by (auto simp: settle_dividends_def res_simps booking_simps split: if_splits)

lemma close_exit_books: "close_exit l t i p = Inr l' \<Longrightarrow> books l l'"
  by (auto simp: close_exit_def res_simps booking_simps)

lemma accrue_cash_yield_cases:
  assumes "accrue_cash_yield l t r = Inr (l', a)"
  obtains (none) "l' = l" "a = 0"
  | (some) rate c where "r = Fin rate" "- 1 < rate" "0 < l_cash l" "float_of_int (l_cash l) = Inr c"
      "math_floor (fmul c (Fin rate)) = Inr a"
      "l' = book (l\<lparr>l_cash := l_cash l + a, l_ytd_cash_yield := l_ytd_cash_yield l + a\<rparr>)
             [jentry t CASH_YIELD None a 0]"
proof -
  from assms obtain rate where rate: "checked_gross_return r = Inr rate"
    by (auto simp: accrue_cash_yield_def res_simps)
  then have r: "r = Fin rate" "- 1 < rate" by (cases r; simp split: if_splits)+
  show thesis
  proof (cases "l_cash l \<le> 0")
    case True
    with assms rate show thesis by (intro none) (auto simp: accrue_cash_yield_def)
  next
    case False
    with assms rate obtain c x where "float_of_int (l_cash l) = Inr c" "math_floor (fmul c (Fin rate)) = Inr x"
      "(if x = 0 then Inr (l, 0) else Inr (book (l\<lparr>l_cash := l_cash l + x, l_ytd_cash_yield := l_ytd_cash_yield l + x\<rparr>)
             [jentry t CASH_YIELD None x 0], x)) = (Inr (l', a) :: (ledger \<times> int) res)"
      by (auto simp: accrue_cash_yield_def res_simps)
    with r False show thesis by (cases "x = 0") (auto intro: none some)
  qed
qed

lemma accrue_cash_yield_books:
  assumes "accrue_cash_yield l t r = Inr (l', a)"
  shows "books l l'"
  using assms by (cases rule: accrue_cash_yield_cases) (auto simp: booking_simps)

text \<open>The sweep tax books the part paid on cash and the rest on the payable account.\<close>

lemma settle_cash_yield_tax_cases:
  assumes "settle_cash_yield_tax l t c = (l', tax)"
  obtains (none) "tax = 0" "l' = l\<lparr>l_ytd_cash_yield := 0\<rparr>"
  | (some) paid es where "0 < tax" "paid = min tax (max (l_cash l) 0)"
      "tax = dec_floor (dec_mul (of_int (l_ytd_cash_yield l)) (cash_yield_tax_rate c))"
      "es = (if paid \<noteq> 0 then [jentry t CASH_YIELD_TAX None (- paid) 0] else []) @
            (if tax \<noteq> paid then [jentry_acct t CASH_YIELD_TAX (paid - tax) 0 PAYABLE None] else [])"
      "l' = l\<lparr>l_ytd_cash_yield := 0, l_cash := l_cash l - paid,
              l_tax_payable := l_tax_payable l + (tax - paid), l_journal := l_journal l @ es\<rparr>"
proof (cases "l_ytd_cash_yield l \<le> 0 \<or> dec_floor (dec_mul (of_int (l_ytd_cash_yield l)) (cash_yield_tax_rate c)) \<le> 0")
  case True
  with assms show ?thesis
    by (intro none) (auto simp: settle_cash_yield_tax_def Let_def split: if_splits)
next
  case False
  then have tax: "tax = dec_floor (dec_mul (of_int (l_ytd_cash_yield l)) (cash_yield_tax_rate c))" "0 < tax"
    using assms by (auto simp: settle_cash_yield_tax_def Let_def split: if_splits)
  define paid where "paid = min tax (max (l_cash l) 0)"
  have "l' = fst (settle_cash_yield_tax l t c)" using assms by simp
  also have "\<dots> = l\<lparr>l_ytd_cash_yield := 0, l_cash := l_cash l - paid,
      l_tax_payable := l_tax_payable l + (tax - paid), l_journal := l_journal l @
        ((if paid \<noteq> 0 then [jentry t CASH_YIELD_TAX None (- paid) 0] else []) @
         (if tax \<noteq> paid then [jentry_acct t CASH_YIELD_TAX (paid - tax) 0 PAYABLE None] else []))\<rparr>"
    using False
    by (simp add: settle_cash_yield_tax_def book_def Let_def paid_def flip: tax(1))
  finally show ?thesis by (rule some [OF tax(2) paid_def tax(1) refl])
qed

lemma settle_cash_yield_tax_books:
  assumes "settle_cash_yield_tax l t c = (l', tax)"
  shows "books l l'"
  using assms by (cases rule: settle_cash_yield_tax_cases) (auto simp: booking_simps)

lemma settle_tax_payable_books: "books l (fst (settle_tax_payable l t))"
  by (auto simp: settle_tax_payable_def booking_simps split: if_splits)

lemma transfer_margin_books: "transfer_margin l t a = Inr l' \<Longrightarrow> books l l'"
  by (auto simp: transfer_margin_def res_simps booking_simps split: if_splits)

lemma settle_variation_books: "settle_variation l t p c m leg = Inr (l', d) \<Longrightarrow> books l l'"
  by (auto simp: settle_variation_def res_simps booking_simps split: if_splits)

lemma trade_futures_books: "trade_futures l t k v m r leg = Inr l' \<Longrightarrow> books l l'"
  by (auto simp: trade_futures_def res_simps booking_simps split: if_splits)

lemma roll_futures_books: "roll_futures l t v m r leg = Inr l' \<Longrightarrow> books l l'"
  by (auto simp: roll_futures_def res_simps booking_simps split: if_splits)

lemma settle_futures_tax_books: "books l (fst (settle_futures_tax l t c))"
  by (auto simp: settle_futures_tax_def booking_simps split: if_splits)

lemma buy_inverse_books:
  assumes "buy_inverse l t u p r = Inr l'"
  shows "books l l'"
proof -
  from assms obtain x where x: "r = Fin x" "0 \<le> x" "1 \<le> u" "1 \<le> p"
    by (cases r) (auto simp: buy_inverse_def res_simps checked_int_def split: if_splits)
  then have "0 \<le> ceil_amount_krw (AFloat x) [AInt u, AInt p]"
    by (intro ceil_amount_nonneg) (auto simp: repr_dec_nonneg)
  with assms x show ?thesis
    by (auto simp: buy_inverse_def res_simps booking_simps split: if_splits)
qed

lemma sell_inverse_cases:
  assumes "sell_inverse l t u p r x = Inr (l', tax)"
  obtains y com basis gain where "r = Fin y" "0 \<le> y" "y < 1" "1 \<le> u" "1 \<le> p"
    "0 \<le> x" "x < 1" "u \<le> l_inverse_units l"
    "com = ceil_amount_krw (AFloat y) [AInt (u * p)]" "0 \<le> com"
    "basis = (l_inverse_basis l * u) div l_inverse_units l" "gain = u * p - basis"
    "tax = (if 0 < gain then dec_floor (dec_mul (of_int gain) x) else 0)" "0 \<le> tax"
    "l' = book (l\<lparr>l_inverse_units := l_inverse_units l - u, l_inverse_basis := l_inverse_basis l - basis,
                  l_cash := l_cash l + (u * p - com - tax)\<rparr>)
           (jentry t INVERSE_SELL None (u * p) (- u) #
            (if 0 < com then [jentry t INVERSE_COMMISSION None (- com) 0] else []) @
            (if 0 < tax then [jentry t INVERSE_TAX None (- tax) 0] else []))"
proof -
  from assms obtain y where y: "r = Fin y" "0 \<le> y" "y < 1" "1 \<le> u" "1 \<le> p"
      "0 \<le> x" "x < 1" "u \<le> l_inverse_units l"
    by (cases r) (auto simp: sell_inverse_def res_simps checked_int_def split: if_splits)
  have com: "0 \<le> ceil_amount_krw (AFloat y) [AInt (u * p)]"
    using y by (intro ceil_amount_nonneg) (auto simp: repr_dec_nonneg)
  have tax: "0 \<le> (if 0 < g then dec_floor (dec_mul (of_int g) x) else 0)" for g
    using y by (simp add: dec_floor_def dec_mul_nonneg)
  have checks: "(u < 1) = False" "(p < 1) = False" "(0 \<le> y \<and> y < 1) = True"
      "(0 \<le> x \<and> x < 1) = True" "(l_inverse_units l < u) = False"
    using y by auto
  have "(l', tax) = (case sell_inverse l t u p r x of Inr v \<Rightarrow> v)" using assms by simp
  note eqs = this [unfolded sell_inverse_def y(1) checked_int_def checked_cost_rate.simps checks
      guard_simps if_True res_bind_simps not_True_eq_False Let_def sum.case prod.inject]
  note tax_eq = eqs [THEN conjunct2]
  have "0 \<le> tax" unfolding tax_eq by (rule tax)
  then show thesis
    by (rule that [OF y refl com refl refl tax_eq _ eqs [THEN conjunct1, folded tax_eq]])
qed

lemma sell_inverse_books:
  assumes "sell_inverse l t u p r x = Inr (l', tax)"
  shows "books l l'"
  using assms by (cases rule: sell_inverse_cases) (auto simp: booking_simps)

end
