(* ===== verification/LedgerInv.thy ===== *)
theory LedgerInv
  imports LedgerLaws
begin

text \<open>
  Invariants of whole ledger runs: balances equal journal sums (interpretations of \<open>journaled\<close>), the
  well-formedness of the dictionaries and non-negative liabilities, solvency of free cash, the value
  identities of the close mark, and the exactness of daily futures settlement.
\<close>

section \<open>Balances equal journal sums\<close>

lemma map_sum_fst_Inr [res_simps]: "map_sum id fst m = Inr x \<longleftrightarrow> (\<exists>y. m = Inr (x, y))"
  by (cases m) auto

lemma settle_cash_yield_tax_books_fst: "books l (fst (settle_cash_yield_tax l t c))"
  by (rule settle_cash_yield_tax_books [OF surjective_pairing])

lemma ledger_apply_books: "ledger_apply l op = Inr l' \<Longrightarrow> books l l'"
  by (cases op)
    (auto simp: map_sum_fst_Inr settle_cash_yield_tax_books_fst settle_tax_payable_books
        settle_futures_tax_books record_dividend_entitlements_books
      intro: deposit_books buy_books sell_books apply_share_factor_books settle_dividends_books
        close_exit_books accrue_cash_yield_books transfer_margin_books settle_variation_books
        trade_futures_books roll_futures_books buy_inverse_books sell_inverse_books)

lemma booksD:
  assumes "books l l'"
  shows "l_journal l' = l_journal l @ new_entries l l'"
    and "l_cash l' = l_cash l + total cash_weight (new_entries l l')"
    and "l_margin l' = l_margin l + total margin_weight (new_entries l l')"
    and "- l_tax_payable l' = - l_tax_payable l + total payable_weight (new_entries l l')"
    and "l_external_flow l' = l_external_flow l + total flow_weight (new_entries l l')"
    and "l_inverse_units l' = l_inverse_units l + total inverse_weight (new_entries l l')"
    and "dict_get (l_positions l') i 0 = dict_get (l_positions l) i 0 + total (share_weight i) (new_entries l l')"
    and "leg_contracts l' leg = leg_contracts l leg + total (leg_weight leg) (new_entries l l')"
  using assms unfolding books_def by blast+

interpretation cash_book: journaled ledger_apply l_journal l_cash cash_weight
  by unfold_locales (blast dest: ledger_apply_books intro: booksD)

interpretation margin_book: journaled ledger_apply l_journal l_margin margin_weight
  by unfold_locales (blast dest: ledger_apply_books intro: booksD)

interpretation payable_book: journaled ledger_apply l_journal "\<lambda>l. - l_tax_payable l" payable_weight
  by unfold_locales (blast dest: ledger_apply_books intro: booksD)

interpretation flow_book: journaled ledger_apply l_journal l_external_flow flow_weight
  by unfold_locales (blast dest: ledger_apply_books intro: booksD)

interpretation inverse_book: journaled ledger_apply l_journal l_inverse_units inverse_weight
  by unfold_locales (blast dest: ledger_apply_books intro: booksD)

interpretation share_book: journaled ledger_apply l_journal
  "\<lambda>l. dict_get (l_positions l) i 0" "share_weight i" for i
  by unfold_locales (blast dest: ledger_apply_books intro: booksD)

interpretation leg_book: journaled ledger_apply l_journal "\<lambda>l. leg_contracts l leg" "leg_weight leg" for leg
  by unfold_locales (blast dest: ledger_apply_books intro: booksD)

section \<open>Well-formed ledgers\<close>

definition positions_ok :: "(int, int) dict \<Rightarrow> bool" where
  "positions_ok d \<longleftrightarrow> dict_ok d \<and> (\<forall>(i, q) \<in> set d. 0 \<le> i \<and> 0 < q)"

definition receivables_ok :: "(int, int) dict \<Rightarrow> bool" where
  "receivables_ok d \<longleftrightarrow> dict_ok d \<and> (\<forall>(i, a) \<in> set d. 0 \<le> a)"

definition legs_ok :: "(string, int) dict \<Rightarrow> bool" where
  "legs_ok d \<longleftrightarrow> dict_ok d \<and> (\<forall>(k, n) \<in> set d. k \<noteq> PRIMARY_LEG \<and> n \<noteq> 0)"

definition ledger_wf :: "ledger \<Rightarrow> bool" where
  "ledger_wf l \<longleftrightarrow> positions_ok (l_positions l)
     \<and> receivables_ok (l_receivable_by_pay l) \<and> l_receivable l = dict_sum (l_receivable_by_pay l)
     \<and> legs_ok (l_secondary_contracts l)
     \<and> 0 \<le> l_tax_payable l \<and> 0 \<le> l_inverse_units l \<and> 0 \<le> l_inverse_basis l
     \<and> (l_inverse_units l = 0 \<longrightarrow> l_inverse_basis l = 0)"

lemma set_dict_update: "p \<in> set (AList.update k v d) \<Longrightarrow> p = (k, v) \<or> p \<in> set d"
  by (induction d) (auto split: if_splits)

lemma set_dict_delete: "p \<in> set (AList.delete k d) \<Longrightarrow> p \<in> set d"
  by (simp add: AList.delete_eq)

lemma dict_ok_values:
  assumes "dict_ok d" "\<forall>(k, v) \<in> set d. P k v"
  shows "P k v \<Longrightarrow> \<forall>(k', v') \<in> set (AList.update k v d). P k' v'"
    and "\<forall>(k', v') \<in> set (AList.delete k d). P k' v'"
  using assms by (auto dest: set_dict_update set_dict_delete)

lemma positions_ok_simps [simp]:
  "positions_ok []"
  "positions_ok d \<Longrightarrow> 0 \<le> i \<Longrightarrow> 0 < q \<Longrightarrow> positions_ok (AList.update i q d)"
  "positions_ok d \<Longrightarrow> positions_ok (AList.delete i d)"
  by (auto simp: positions_ok_def dest: set_dict_update set_dict_delete)

lemma receivables_ok_simps [simp]:
  "receivables_ok []"
  "receivables_ok d \<Longrightarrow> 0 \<le> q \<Longrightarrow> receivables_ok (AList.update i q d)"
  "receivables_ok d \<Longrightarrow> receivables_ok (AList.delete i d)"
  by (auto simp: receivables_ok_def dest: set_dict_update set_dict_delete)

lemma legs_ok_simps [simp]:
  "legs_ok []"
  "legs_ok d \<Longrightarrow> k \<noteq> PRIMARY_LEG \<Longrightarrow> n \<noteq> 0 \<Longrightarrow> legs_ok (AList.update k n d)"
  "legs_ok d \<Longrightarrow> legs_ok (AList.delete k d)"
  by (auto simp: legs_ok_def dest: set_dict_update set_dict_delete)

lemma position_nonneg: "positions_ok d \<Longrightarrow> 0 \<le> dict_get d i 0"
  using dict_get_mem [of d i 0] by (cases "dict_get d i 0 = 0") (auto simp: positions_ok_def)

lemma receivable_nonneg: "receivables_ok d \<Longrightarrow> 0 \<le> dict_get d i 0"
  using dict_get_mem [of d i 0] by (cases "dict_get d i 0 = 0") (auto simp: receivables_ok_def)

lemma positions_ok_set_position:
  "positions_ok (l_positions l) \<Longrightarrow> 0 \<le> i \<Longrightarrow> 0 \<le> q \<Longrightarrow> positions_ok (set_position l i q)"
  by (simp add: set_position_def)

lemma legs_ok_set_leg:
  "legs_ok (l_secondary_contracts l) \<Longrightarrow> legs_ok (l_secondary_contracts (set_leg_contracts l leg k))"
  by (simp add: set_leg_contracts_def)

section \<open>Admissible operations\<close>

text \<open>
  What a caller owes the ledger beyond the checks of its methods: a share factor that is a finite
  non-negative float with a non-negative base price, dividends per share that are not negative, cost
  rates of the configured range, and a sale whose costs do not exceed its proceeds. Rates of at most a
  quarter need no bound on the amounts, since rounding at most doubles a product; a larger withholding
  or a larger sweep loss needs amounts inside the exact range (28 digits, binary64).
\<close>

fun op_ok :: "ledger \<Rightarrow> ledger_op \<Rightarrow> bool" where
  "op_ok l (OpSell t i q p c x) \<longleftrightarrow> c + x \<le> q * p"
| "op_ok l (OpShareFactor t i f b) \<longleftrightarrow> 0 \<le> b \<and> (case f of Fin x \<Rightarrow> 0 \<le> x | _ \<Rightarrow> True)"
| "op_ok l (OpEntitlements t es) \<longleftrightarrow> (\<forall>e \<in> set es. 0 \<le> de_dps_krw e)"
| "op_ok l (OpSettleDividends t c) \<longleftrightarrow> half_open_unit (dividend_withholding_rate c)
     \<and> (dividend_withholding_rate c \<le> 1 / 4 \<or> dict_get (l_receivable_by_pay l) t 0 < 10 ^ 28)"
| "op_ok l (OpCashYield t r) \<longleftrightarrow> l_cash l < 2 ^ 53 \<or> (case r of Fin y \<Rightarrow> - 1 / 4 \<le> y | _ \<Rightarrow> True)"
| "op_ok l (OpSellInverse t u p r x) \<longleftrightarrow> (case r of Fin y \<Rightarrow> is_double y \<and> y \<le> 1 / 4 | _ \<Rightarrow> True) \<and> x \<le> 1 / 4"
| "op_ok l op \<longleftrightarrow> True"

text \<open>The ledgers a client can reach from a fresh one.\<close>

inductive reachable :: "ledger \<Rightarrow> bool" where
  init: "ledger_init c = Inr l \<Longrightarrow> reachable l"
| step: "reachable l \<Longrightarrow> op_ok l op \<Longrightarrow> ledger_apply l op = Inr l' \<Longrightarrow> reachable l'"

section \<open>Each method keeps well-formedness and solvency\<close>

definition ledger_ok :: "ledger \<Rightarrow> bool" where
  "ledger_ok l \<longleftrightarrow> ledger_wf l \<and> 0 \<le> l_cash l"

lemmas ok_simps = ledger_ok_def ledger_wf_def book_def checked_int_def Let_def

lemma ledger_init_ok: "ledger_init c = Inr l \<Longrightarrow> ledger_ok l"
  by (auto simp: ledger_init_def res_simps ok_simps)

lemma deposit_ok: "deposit l t a = Inr l' \<Longrightarrow> ledger_ok l \<Longrightarrow> ledger_ok l'"
  by (auto simp: deposit_def res_simps ok_simps)

lemma buy_ok: "buy l t i q p c = Inr l' \<Longrightarrow> ledger_ok l \<Longrightarrow> ledger_ok l'"
  using position_nonneg [of "l_positions l" i] by (auto simp: buy_def res_simps ok_simps)

lemma sell_ok: "sell l t i q p c x = Inr l' \<Longrightarrow> c + x \<le> q * p \<Longrightarrow> ledger_ok l \<Longrightarrow> ledger_ok l'"
  by (auto simp: sell_def res_simps ok_simps intro!: positions_ok_set_position)

lemma math_floor_Inr [res_simps]: "math_floor v = Inr n \<longleftrightarrow> (\<exists>x. v = Fin x \<and> n = \<lfloor>x\<rfloor>)"
  by (cases v) auto

text \<open>A finite product of non-negative finite floats is a non-negative double.\<close>

lemma share_factor_quantities:
  assumes "0 \<le> held" "0 \<le> b" "case f of Fin x \<Rightarrow> 0 \<le> x | _ \<Rightarrow> True"
    and "float_of_int held = Inr h" "math_floor (fmul h f) = Inr n"
    and "float_of_int n = Inr nq" "float_of_int b = Inr bp"
    and "math_floor (fmul (fsub (fmul h f) nq) bp) = Inr c"
  shows "0 \<le> n" "0 \<le> c"
proof -
  from assms(4) obtain x where x: "h = Fin x" "to_float (of_int held) = Fin x"
    by (auto dest: float_of_int_Inr)
  then have x0: "0 \<le> x" using assms(1) to_float_nonneg by fastforce
  from assms(5) obtain s where s: "fmul h f = Fin s" "n = \<lfloor>s\<rfloor>" by (auto simp: res_simps)
  obtain y where y: "f = Fin y"
    using s(1) x(1) by (cases f) (auto simp: inf_of_sign_def split: if_splits)
  have st: "to_float (x * y) = Fin s" using s(1) x(1) y by simp
  have s0: "0 \<le> s" "is_double s"
    using to_float_nonneg [OF st] to_float_double [OF st] x0 assms(3) y by simp_all
  show n: "0 \<le> n" using s0 s(2) by simp
  have nq: "nq = Fin (of_int n)" using assms(6) float_of_int_floor [OF s0(2,1)] s(2) by simp
  from assms(7) obtain z where z: "bp = Fin z" "to_float (of_int b) = Fin z"
    by (auto dest: float_of_int_Inr)
  then have z0: "0 \<le> z" using assms(2) to_float_nonneg by fastforce
  have "of_int n \<le> s" using s(2) by simp
  from assms(8) obtain w where w: "fmul (fsub (Fin s) nq) bp = Fin w" "c = \<lfloor>w\<rfloor>"
    by (auto simp: res_simps s)
  obtain d where d: "to_float (s - of_int n) = Fin d"
    using w(1) nq z(1) by (cases "to_float (s - of_int n)") (auto simp: fsub_def inf_of_sign_def to_float_alt split: if_splits)
  have "0 \<le> d" using to_float_nonneg [OF d] \<open>of_int n \<le> s\<close> by simp
  moreover have "to_float (d * z) = Fin w" using w(1) nq z(1) d by (simp add: fsub_def)
  ultimately have "0 \<le> w" using z0 to_float_nonneg by fastforce
  then show "0 \<le> c" using w(2) by simp
qed

lemma apply_share_factor_ok:
  assumes "apply_share_factor l t i f b = Inr l'" "op_ok l (OpShareFactor t i f b)" "ledger_ok l"
  shows "ledger_ok l'"
proof (cases "dict_get (l_positions l) i 0 = 0")
  case True
  with assms show ?thesis by (auto simp: apply_share_factor_def res_simps ok_simps)
next
  case False
  with assms(1) obtain h n nq bp c where steps: "0 \<le> i"
    "float_of_int (dict_get (l_positions l) i 0) = Inr h" "math_floor (fmul h f) = Inr n"
    "float_of_int n = Inr nq" "float_of_int b = Inr bp"
    "math_floor (fmul (fsub (fmul h f) nq) bp) = Inr c"
    "l' = book (l\<lparr>l_positions := set_position l i n, l_cash := l_cash l + c\<rparr>)
          [jentry t CASH_IN_LIEU (Some i) c (n - dict_get (l_positions l) i 0)]"
    by (auto simp: apply_share_factor_def checked_int_def Let_def res_bind_Inr_iff guard_Inr_iff)
  have held: "0 \<le> dict_get (l_positions l) i 0"
    using assms(3) by (intro position_nonneg) (simp add: ok_simps)
  have "0 \<le> b" "case f of Fin x \<Rightarrow> 0 \<le> x | _ \<Rightarrow> True" using assms(2) by simp_all
  from share_factor_quantities [OF held this steps(2-6)] have "0 \<le> n" "0 \<le> c" .
  then show ?thesis using assms(3) steps by (simp add: ok_simps positions_ok_set_position)
qed

lemma record_one_entitlement_ok: "0 \<le> de_dps_krw e \<Longrightarrow> ledger_ok l \<Longrightarrow> ledger_ok (record_one_entitlement l e)"
  using position_nonneg [of "l_positions l" "de_instrument e"]
    receivable_nonneg [of "l_receivable_by_pay l" "de_pay_session e"]
  by (simp add: record_one_entitlement_def ok_simps)

lemma record_dividend_entitlements_ok:
  "\<forall>e \<in> set es. 0 \<le> de_dps_krw e \<Longrightarrow> ledger_ok l \<Longrightarrow> ledger_ok (record_dividend_entitlements l t es)"
  by (induction es arbitrary: l) (simp_all add: record_dividend_entitlements_def record_one_entitlement_ok)

lemma settle_dividends_ok:
  assumes "settle_dividends l t c = Inr l'" "op_ok l (OpSettleDividends t c)" "ledger_ok l"
  shows "ledger_ok l'"
proof -
  let ?due = "dict_get (l_receivable_by_pay l) t 0"
  have wf: "dict_ok (l_receivable_by_pay l)"
    using assms(3) by (simp add: ok_simps receivables_ok_def)
  have "tax \<le> ?due" if "dividend_withholding ?due c = Inr tax" for tax
    using dividend_withholding_bounds [OF that] dividend_withholding_quarter [OF that] assms(2)
    by (auto simp: half_open_unit_def)
  then show ?thesis
    using assms wf by (auto simp: settle_dividends_def res_simps ok_simps dict_sum_delete split: if_splits)
qed

lemma close_exit_ok: "close_exit l t i p = Inr l' \<Longrightarrow> ledger_ok l \<Longrightarrow> ledger_ok l'"
  using position_nonneg [of "l_positions l" i] by (auto simp: close_exit_def res_simps ok_simps)

text \<open>A sweep return above \<open>-1\<close> never takes more than the cash it is applied to: \<open>- cash\<close> is itself a
  double, so rounding the product cannot pass it.\<close>

lemma sweep_loss_exact:
  assumes "0 \<le> n" "n < 2 ^ 53" "- 1 < rate" "float_of_int n = Inr c" "math_floor (fmul c (Fin rate)) = Inr a"
  shows "- n \<le> a"
proof -
  have d: "is_double (of_int n)" "is_double (of_int (- n))" using assms by (intro is_double_of_int; simp)+
  then have c: "c = Fin (of_int n)" using assms(4) by (simp add: float_of_int_def is_double_def)
  with assms(5) obtain w where w: "to_float (of_int n * rate) = Fin w" "a = \<lfloor>w\<rfloor>" by (auto simp: res_simps)
  have "of_int n * (- 1) \<le> of_int n * rate" using assms by (intro mult_left_mono) simp_all
  then have "of_int (- n) \<le> w" by (intro to_float_lower [OF w(1) d(2)]) simp
  then show ?thesis using w(2) by (simp only: le_floor_iff)
qed

text \<open>A loss of at most a quarter stays below the cash although both roundings may double it.\<close>

lemma sweep_loss_quarter:
  assumes "0 \<le> n" "- 1 / 4 \<le> rate" "float_of_int n = Inr c" "math_floor (fmul c (Fin rate)) = Inr a"
  shows "- n \<le> a"
proof -
  from assms(3) obtain x where x: "c = Fin x" "x = fl_round (of_int n)"
    by (auto dest!: float_of_int_Inr simp: to_float_Fin)
  have x0: "0 \<le> x" "x \<le> 2 * of_int n"
    using fl_round_nonneg [of "of_int n"] fl_round_le_double [of "of_int n"] assms(1) x(2) by simp_all
  from assms(4) x(1) obtain w where w: "w = fl_round (x * rate)" "a = \<lfloor>w\<rfloor>"
    by (auto simp: res_simps to_float_Fin)
  have "fl_round (x * (- 1 / 4)) \<le> w" unfolding w(1) using assms(2) x0(1) by (intro fl_round_mono mult_left_mono)
  moreover have "fl_round (x * (- 1 / 4)) = - fl_round (x / 4)" by (simp add: fl_round_def)
  moreover have "fl_round (x / 4) \<le> of_int n"
    using fl_round_le_double [of "x / 4"] x0 by (simp add: field_simps)
  ultimately have "of_int (- n) \<le> w" by simp
  then show ?thesis using w(2) by (simp only: le_floor_iff)
qed

lemma accrue_cash_yield_ok:
  assumes "accrue_cash_yield l t r = Inr (l', a)" "op_ok l (OpCashYield t r)" "ledger_ok l"
  shows "ledger_ok l'"
  using assms(1)
proof (cases rule: accrue_cash_yield_cases)
  case (some rate c)
  have "- l_cash l \<le> a"
    using sweep_loss_exact [OF _ _ some(2,4,5)] sweep_loss_quarter [OF _ _ some(4,5)] some assms(2) by auto
  then show ?thesis using assms(3) some by (simp add: ok_simps)
qed (use assms in simp)

lemma settle_cash_yield_tax_ok:
  assumes "settle_cash_yield_tax l t c = (l', tax)" "ledger_ok l"
  shows "ledger_ok l'"
  using assms(1) by (cases rule: settle_cash_yield_tax_cases) (use assms(2) in \<open>auto simp: ok_simps\<close>)

lemma settle_tax_payable_ok: "ledger_ok l \<Longrightarrow> ledger_ok (fst (settle_tax_payable l t))"
  by (auto simp: settle_tax_payable_def ok_simps)

lemma transfer_margin_ok: "transfer_margin l t a = Inr l' \<Longrightarrow> ledger_ok l \<Longrightarrow> ledger_ok l'"
  by (auto simp: transfer_margin_def res_simps ok_simps split: if_splits)

text \<open>The futures methods touch only the margin side of the record.\<close>

lemma ledger_ok_frame [simp]:
  "ledger_ok (l\<lparr>l_margin := m\<rparr>) = ledger_ok l"
  "ledger_ok (l\<lparr>l_ytd_futures_pnl := y\<rparr>) = ledger_ok l"
  "ledger_ok (l\<lparr>l_contracts := k\<rparr>) = ledger_ok l"
  "ledger_ok (book l es) = ledger_ok l"
  by (simp_all add: ledger_ok_def ledger_wf_def book_def)

lemma ledger_ok_set_leg: "ledger_ok l \<Longrightarrow> ledger_ok (set_leg_contracts l leg k)"
  using legs_ok_set_leg [of l leg k] by (simp add: ledger_ok_def ledger_wf_def)

lemma settle_variation_ok: "settle_variation l t p c m leg = Inr (l', d) \<Longrightarrow> ledger_ok l \<Longrightarrow> ledger_ok l'"
  by (auto simp: settle_variation_def res_simps Let_def split: if_splits)

lemma trade_futures_ok: "trade_futures l t k v m r leg = Inr l' \<Longrightarrow> ledger_ok l \<Longrightarrow> ledger_ok l'"
  by (auto simp: trade_futures_def res_simps Let_def ledger_ok_set_leg split: if_splits)

lemma roll_futures_ok: "roll_futures l t v m r leg = Inr l' \<Longrightarrow> ledger_ok l \<Longrightarrow> ledger_ok l'"
  by (auto simp: roll_futures_def res_simps Let_def split: if_splits)

lemma settle_futures_tax_ok: "ledger_ok l \<Longrightarrow> ledger_ok (fst (settle_futures_tax l t c))"
  by (simp add: settle_futures_tax_def Let_def)

lemma buy_inverse_ok:
  assumes "buy_inverse l t u p r = Inr l'" "ledger_ok l"
  shows "ledger_ok l'"
proof -
  from assms(1) obtain com es where l': "1 \<le> u" "1 \<le> p" "u * p + com \<le> l_cash l"
    "l' = book (l\<lparr>l_cash := l_cash l - (u * p + com), l_inverse_units := l_inverse_units l + u,
                  l_inverse_basis := l_inverse_basis l + u * p\<rparr>) es"
    unfolding buy_inverse_def checked_int_def Let_def by (auto simp: res_simps not_less)
  then have "0 \<le> u * p" by simp
  with l' assms(2) show ?thesis by (simp add: ok_simps)
qed

text \<open>Costs at rates of at most a quarter take at most half the proceeds each, at any magnitude.\<close>

lemma ceiling_plus_floor_half: "\<lceil>of_int n / (2 :: rat)\<rceil> + \<lfloor>of_int n / (2 :: rat)\<rfloor> = n"
  using floor_divide_of_int_eq [of n 2, where 'a = rat] ceiling_divide_eq_div [of n 2, where 'a = rat]
  by simp

lemma dec_floor_quarter:
  assumes "0 \<le> n" "0 \<le> x" "x \<le> 1 / 4" "g \<le> n"
  shows "(if 0 < g then dec_floor (dec_mul (of_int g) x) else 0) \<le> \<lfloor>of_int n / (2 :: rat)\<rfloor>"
proof (cases "0 < g")
  case True
  have "(of_int g :: rat) / 2 \<le> of_int n / 2" using assms(4) by simp
  then have "dec_mul (of_int g) x \<le> of_int n / 2"
    using dec_mul_quarter [of "of_int g" x] assms True by simp
  then show ?thesis using True by (simp add: dec_floor_def floor_mono)
qed (use assms in simp)

lemma quarter_costs_covered:
  assumes "0 \<le> n" "g \<le> n" "0 \<le> y" "y \<le> 1 / 4" "is_double y" "0 \<le> x" "x \<le> 1 / 4"
  shows "ceil_amount_krw (AFloat y) [AInt n] + (if 0 < g then dec_floor (dec_mul (of_int g) x) else 0) \<le> n"
proof -
  have "is_double (1 / 4)" "repr_dec (1 / 4) = 1 / 4" by (simp_all add: num_eval)
  then have "repr_dec y \<le> 1 / 4" using repr_dec_mono [of y "1 / 4"] assms by simp
  then have "dec_mul (of_int n) (repr_dec y) \<le> of_int n / 2"
    using assms by (intro dec_mul_quarter) (simp_all add: repr_dec_nonneg)
  then have "ceil_amount_krw (AFloat y) [AInt n] \<le> \<lceil>of_int n / (2 :: rat)\<rceil>"
    by (simp add: ceil_amount_krw_def dec_ceiling_def ceiling_mono dec_mul_def mult.commute)
  then show ?thesis using dec_floor_quarter [OF assms(1,6,7,2)] ceiling_plus_floor_half [of n] by linarith
qed

lemma sell_inverse_ok:
  assumes "sell_inverse l t u p r x = Inr (l', tax)" "op_ok l (OpSellInverse t u p r x)" "ledger_ok l"
  shows "ledger_ok l'"
  using assms(1)
proof (cases rule: sell_inverse_cases)
  case (1 y com basis gain)
  have inv: "0 \<le> l_inverse_basis l" "0 < l_inverse_units l" using assms(3) 1 by (simp_all add: ok_simps)
  have "l_inverse_basis l * u \<le> l_inverse_basis l * l_inverse_units l"
    using inv 1 by (intro mult_left_mono) simp_all
  then have "basis \<le> (l_inverse_basis l * l_inverse_units l) div l_inverse_units l"
    using 1 inv by (simp only: zdiv_mono1)
  then have basis: "0 \<le> basis" "basis \<le> l_inverse_basis l"
    using inv 1 by (simp_all add: pos_imp_zdiv_nonneg_iff)
  have full: "basis = l_inverse_basis l" if "u = l_inverse_units l" using that 1 inv by simp
  have "0 \<le> u * p" "gain \<le> u * p" using 1 basis by simp_all
  then have "com + tax \<le> u * p"
    unfolding 1 using assms(2) 1 by (intro quarter_costs_covered) simp_all
  with 1 basis full assms(3) show ?thesis by (simp add: ok_simps)
qed

lemma op_preserves_ok:
  assumes "ledger_apply l op = Inr l'" "op_ok l op" "ledger_ok l"
  shows "ledger_ok l'"
proof (cases op)
  case (OpCashYieldTax t c)
  with assms settle_cash_yield_tax_ok [OF surjective_pairing] show ?thesis by auto
qed (use assms in \<open>auto simp: map_sum_fst_Inr settle_tax_payable_ok settle_futures_tax_ok
    dest: deposit_ok buy_ok sell_ok apply_share_factor_ok record_dividend_entitlements_ok
      settle_dividends_ok close_exit_ok accrue_cash_yield_ok transfer_margin_ok settle_variation_ok
      trade_futures_ok roll_futures_ok buy_inverse_ok sell_inverse_ok\<close>)

lemma reachable_ok: "reachable l \<Longrightarrow> ledger_ok l"
  by (induction rule: reachable.induct) (auto intro: ledger_init_ok op_preserves_ok)

end
