(* ===== verification/LedgerProps.thy ===== *)
theory LedgerProps
  imports LedgerInv
begin

text \<open>
  The contract of the ledger, as its class documentation states it: every account equals its journal
  sum, the book is long-only and solvent, net asset value is what came in plus what is held, daily
  futures settlement adds up to the floored mark, and assessed tax is neither lost nor paid twice.
\<close>

section \<open>Balances of reachable ledgers\<close>

lemma ledger_init_fields:
  "ledger_init c = Inr l \<Longrightarrow> l_initial_cash l = c \<and> l_cash l = c \<and> l_journal l = [] \<and> l_margin l = 0
     \<and> l_tax_payable l = 0 \<and> l_external_flow l = 0 \<and> l_inverse_units l = 0 \<and> l_positions l = []
     \<and> l_receivable l = 0 \<and> (\<forall>leg. leg_contracts l leg = 0) \<and> 0 \<le> c"
  by (auto simp: ledger_init_def checked_int_def leg_contracts_def res_simps)

lemma books_initial: "books l l' \<Longrightarrow> l_initial_cash l' = l_initial_cash l"
  by (simp add: books_def)

text \<open>The three accounts partition the journal, so their weights add up to the booked amount.\<close>

lemma account_weights: "cash_weight e + margin_weight e + payable_weight e = je_cash e"
  by (cases "je_account e") (simp_all add: cash_weight_def margin_weight_def payable_weight_def)

lemma total_account_weights:
  "total cash_weight es + total margin_weight es + total payable_weight es = total je_cash es"
  by (induction es) (simp_all add: account_weights [symmetric])

lemma reachable_accounts:
  "reachable l \<Longrightarrow> l_cash l = l_initial_cash l + total cash_weight (l_journal l)
     \<and> l_margin l = total margin_weight (l_journal l)
     \<and> - l_tax_payable l = total payable_weight (l_journal l)"
proof (induction rule: reachable.induct)
  case (init c l)
  then show ?case using ledger_init_fields [OF init] by simp
next
  case (step l op l')
  note b = ledger_apply_books [OF step(3)]
  from booksD(1) [OF b] have j: "l_journal l' = l_journal l @ new_entries l l'" .
  show ?case
    using step(4) booksD(2-4) [OF b] books_initial [OF b] by (subst (1 2 3) j) simp
qed

text \<open>C1. Every account of the ledger equals the sum of its journal entries, after any sequence of
  method calls that does not raise: cash is the initial balance plus the \<open>CASH\<close> entries, margin the
  \<open>MARGIN\<close> entries, \<open>-tax_payable\<close> the \<open>PAYABLE\<close> entries; the shares of each instrument, the
  contracts of each futures leg, the inverse units and the external flow are journal sums too.\<close>

theorem ledger_balances_are_journal_sums:
  assumes "ledger_init c = Inr l0" "ledger_run l0 ops = Inr l"
  shows "l_cash l = c + total cash_weight (l_journal l)
     \<and> l_margin l = total margin_weight (l_journal l)
     \<and> - l_tax_payable l = total payable_weight (l_journal l)
     \<and> l_external_flow l = total flow_weight (l_journal l)
     \<and> l_inverse_units l = total inverse_weight (l_journal l)
     \<and> (\<forall>i. dict_get (l_positions l) i 0 = total (share_weight i) (l_journal l))
     \<and> (\<forall>leg. leg_contracts l leg = total (leg_weight leg) (l_journal l))"
proof -
  note f = ledger_init_fields [OF assms(1)]
  then have j: "l_journal l0 = []" by simp
  show ?thesis
    using f cash_book.run_balance_from_empty [OF assms(2) j] margin_book.run_balance_from_empty [OF assms(2) j]
      payable_book.run_balance_from_empty [OF assms(2) j] flow_book.run_balance_from_empty [OF assms(2) j]
      inverse_book.run_balance_from_empty [OF assms(2) j] share_book.run_balance_from_empty [OF assms(2) j]
      leg_book.run_balance_from_empty [OF assms(2) j]
    by simp
qed

lemmas ledger_eval = ledger_init_def checked_int_def buy_def sell_def transfer_margin_def trade_futures_def
  settle_variation_def floored_mark_def leg_contracts_def set_leg_contracts_def journal_leg_def set_position_def
  ceil_amount_eval book_def jentry_def jentry_acct_def PRIMARY_LEG_def Let_def num_eval

definition demo_ops :: "ledger_op list" where
  "demo_ops = [OpBuy 0 3 10 5000 7, OpTransferMargin 0 200000, OpTradeFutures 0 2 (Fin 350) 250 (Fin (1 / 4)) PRIMARY_LEG,
     OpVariation 1 (Fin 350) (Fin 345) 250 PRIMARY_LEG, OpSell 1 3 4 5100 3 36]"

definition demo_start :: ledger where
  "demo_start = (case ledger_init 1000000 of Inr l \<Rightarrow> l)"

definition demo_end :: ledger where
  "demo_end = (case ledger_run demo_start demo_ops of Inr l \<Rightarrow> l)"

lemma demo_run:
  "ledger_init 1000000 = Inr demo_start" "ledger_run demo_start demo_ops = Inr demo_end"
  "l_cash demo_end = 770354" "l_margin demo_end = 158750"
  by (simp_all add: demo_end_def demo_start_def demo_ops_def ledger_eval cong: eval_congs)

theorem ledger_balances_are_journal_sums_witness:
  "ledger_run demo_start demo_ops = Inr demo_end
   \<and> 770354 = 1000000 + total cash_weight (l_journal demo_end) \<and> 158750 = total margin_weight (l_journal demo_end)"
  using ledger_balances_are_journal_sums [OF demo_run(1,2)] demo_run by simp

section \<open>Long-only and solvent\<close>

text \<open>What the methods keep whatever they are called with.\<close>

definition indices_ok :: "(int, int) dict \<Rightarrow> bool" where
  "indices_ok d \<longleftrightarrow> dict_ok d \<and> (\<forall>(i, q) \<in> set d. 0 \<le> i)"

lemma indices_ok_simps [simp]:
  "indices_ok []" "indices_ok d \<Longrightarrow> 0 \<le> i \<Longrightarrow> indices_ok (AList.update i q d)" "indices_ok d \<Longrightarrow> indices_ok (AList.delete i d)"
  by (auto simp: indices_ok_def dest: set_dict_update set_dict_delete)

lemma indices_ok_set_position [simp]: "indices_ok (l_positions l) \<Longrightarrow> 0 \<le> i \<Longrightarrow> indices_ok (set_position l i n)"
  by (simp add: set_position_def)

definition ledger_shape :: "ledger \<Rightarrow> bool" where
  "ledger_shape l \<longleftrightarrow> indices_ok (l_positions l)
     \<and> dict_ok (l_receivable_by_pay l) \<and> l_receivable l = dict_sum (l_receivable_by_pay l)
     \<and> legs_ok (l_secondary_contracts l) \<and> 0 \<le> l_tax_payable l \<and> 0 \<le> l_inverse_units l
     \<and> (l_inverse_units l = 0 \<longrightarrow> l_inverse_basis l = 0)"

lemmas shape_simps = ledger_shape_def book_def checked_int_def Let_def

lemma shape_frame [simp]:
  "ledger_shape (l\<lparr>l_margin := m\<rparr>) = ledger_shape l" "ledger_shape (l\<lparr>l_cash := c\<rparr>) = ledger_shape l"
  "ledger_shape (l\<lparr>l_ytd_futures_pnl := y\<rparr>) = ledger_shape l" "ledger_shape (l\<lparr>l_contracts := k\<rparr>) = ledger_shape l"
  "ledger_shape (l\<lparr>l_ytd_cash_yield := z\<rparr>) = ledger_shape l" "ledger_shape (book l es) = ledger_shape l"
  by (simp_all add: ledger_shape_def book_def)

lemma shape_set_leg: "ledger_shape l \<Longrightarrow> ledger_shape (set_leg_contracts l leg k)"
  using legs_ok_set_leg [of l leg k] by (simp add: ledger_shape_def)

lemma init_shape: "ledger_init c = Inr l \<Longrightarrow> ledger_shape l"
  by (auto simp: ledger_init_def res_simps shape_simps)

lemma deposit_shape: "deposit l t a = Inr l' \<Longrightarrow> ledger_shape l \<Longrightarrow> ledger_shape l'"
  by (auto simp: deposit_def res_simps shape_simps)

lemma buy_shape: "buy l t i q p c = Inr l' \<Longrightarrow> ledger_shape l \<Longrightarrow> ledger_shape l'"
  by (auto simp: buy_def res_simps shape_simps)

lemma sell_shape: "sell l t i q p c x = Inr l' \<Longrightarrow> ledger_shape l \<Longrightarrow> ledger_shape l'"
  by (auto simp: sell_def res_simps shape_simps)

lemma share_factor_shape: "apply_share_factor l t i f b = Inr l' \<Longrightarrow> ledger_shape l \<Longrightarrow> ledger_shape l'"
  by (auto simp: apply_share_factor_def res_simps shape_simps split: if_splits)

lemma entitlements_shape: "ledger_shape l \<Longrightarrow> ledger_shape (record_dividend_entitlements l t es)"
  by (induction es arbitrary: l) (simp_all add: record_dividend_entitlements_def record_one_entitlement_def shape_simps)

lemma settle_dividends_shape: "settle_dividends l t c = Inr l' \<Longrightarrow> ledger_shape l \<Longrightarrow> ledger_shape l'"
  by (auto simp: settle_dividends_def res_simps shape_simps dict_sum_delete split: if_splits)

lemma close_exit_shape: "close_exit l t i p = Inr l' \<Longrightarrow> ledger_shape l \<Longrightarrow> ledger_shape l'"
  by (auto simp: close_exit_def res_simps shape_simps)

lemma cash_yield_shape: "accrue_cash_yield l t r = Inr (l', a) \<Longrightarrow> ledger_shape l \<Longrightarrow> ledger_shape l'"
  by (erule accrue_cash_yield_cases) (auto simp: shape_simps)

lemma cash_yield_tax_shape:
  assumes "settle_cash_yield_tax l t c = (l', tax)" "ledger_shape l"
  shows "ledger_shape l'"
  using assms(1) by (cases rule: settle_cash_yield_tax_cases) (use assms(2) in \<open>auto simp: shape_simps\<close>)

lemma tax_payable_shape: "ledger_shape l \<Longrightarrow> ledger_shape (fst (settle_tax_payable l t))"
  by (auto simp: settle_tax_payable_def shape_simps)

lemma transfer_margin_shape: "transfer_margin l t a = Inr l' \<Longrightarrow> ledger_shape l \<Longrightarrow> ledger_shape l'"
  by (auto simp: transfer_margin_def res_simps shape_simps split: if_splits)

lemma futures_shape:
  "settle_variation l t p c m leg = Inr (l', d) \<Longrightarrow> ledger_shape l \<Longrightarrow> ledger_shape l'"
  "trade_futures l t k v m r leg = Inr l' \<Longrightarrow> ledger_shape l \<Longrightarrow> ledger_shape l'"
  "roll_futures l t v m r leg = Inr l' \<Longrightarrow> ledger_shape l \<Longrightarrow> ledger_shape l'"
  "ledger_shape l \<Longrightarrow> ledger_shape (fst (settle_futures_tax l t cfg))"
  by (auto simp: settle_variation_def trade_futures_def roll_futures_def settle_futures_tax_def res_simps Let_def shape_set_leg split: if_splits)

lemma buy_inverse_shape: "buy_inverse l t u p r = Inr l' \<Longrightarrow> ledger_shape l \<Longrightarrow> ledger_shape l'"
  by (auto simp: buy_inverse_def res_simps shape_simps)

lemma sell_inverse_shape: "sell_inverse l t u p r x = Inr (l', tax) \<Longrightarrow> ledger_shape l \<Longrightarrow> ledger_shape l'"
  by (auto simp: sell_inverse_def res_simps shape_simps)

lemma op_keeps_shape:
  assumes "ledger_apply l op = Inr l'" "ledger_shape l"
  shows "ledger_shape l'"
proof (cases op)
  case (OpCashYieldTax t c)
  with assms cash_yield_tax_shape [OF surjective_pairing] show ?thesis by auto
qed (use assms in \<open>auto simp: map_sum_fst_Inr tax_payable_shape futures_shape(4) entitlements_shape
    dest: deposit_shape buy_shape sell_shape share_factor_shape settle_dividends_shape close_exit_shape cash_yield_shape
      transfer_margin_shape futures_shape(1-3) buy_inverse_shape sell_inverse_shape\<close>)

lemma run_shape: "ledger_run l ops = Inr l' \<Longrightarrow> ledger_shape l \<Longrightarrow> ledger_shape l'"
  by (induction ops arbitrary: l) (auto simp: res_simps dest: op_keeps_shape)

text \<open>Every call of the sequence meets what a caller owes the ledger in the state it is made in.\<close>

fun calls_ok :: "ledger \<Rightarrow> ledger_op list \<Rightarrow> bool" where
  "calls_ok l [] = True"
| "calls_ok l (op # ops) \<longleftrightarrow> op_ok l op \<and> (case ledger_apply l op of Inl _ \<Rightarrow> True | Inr l' \<Rightarrow> calls_ok l' ops)"

lemma run_ok: "ledger_run l ops = Inr l' \<Longrightarrow> calls_ok l ops \<Longrightarrow> ledger_ok l \<Longrightarrow> ledger_ok l'"
proof (induction ops arbitrary: l)
  case (Cons op ops)
  then obtain m where "ledger_apply l op = Inr m" "ledger_run m ops = Inr l'" by (auto simp: res_simps)
  with Cons show ?case using op_preserves_ok [of l op m] by simp
qed simp

text \<open>C2. After any sequence of method calls that does not raise, positions have distinct valid indices, the dividend receivable is
  the sum of what is due per pay session, secondary legs are non-zero and never shadow the primary one, the tax liability and the
  inverse holding are not negative, and the inverse cost basis is gone when the last unit is sold. If moreover every call meets its
  caller's obligations (\<open>op_ok\<close>: a sale's costs stay within its proceeds; share factors, base prices and dividends are not negative;
  the withholding rate is in [0, 1) and at most a quarter unless the amount due is below 10 ^ 28; a sweep loses at most a quarter unless
  cash is below 2 ^ 53; the cost and tax rates of an inverse sale are at most a quarter), then free cash is not negative,
  every position is a positive number of shares and nothing due is negative. The sale's obligation cannot be dropped.\<close>

theorem ledger_solvent_long_only:
  assumes "ledger_init c = Inr l0" "ledger_run l0 ops = Inr l"
  shows "distinct (dict_keys (l_positions l)) \<and> (\<forall>(i, q) \<in> set (l_positions l). 0 \<le> i)
    \<and> l_receivable l = dict_sum (l_receivable_by_pay l)
    \<and> (\<forall>(leg, n) \<in> set (l_secondary_contracts l). leg \<noteq> PRIMARY_LEG \<and> n \<noteq> 0)
    \<and> 0 \<le> l_tax_payable l \<and> 0 \<le> l_inverse_units l \<and> (l_inverse_units l = 0 \<longrightarrow> l_inverse_basis l = 0)
    \<and> (calls_ok l0 ops \<longrightarrow> 0 \<le> l_cash l \<and> (\<forall>(i, q) \<in> set (l_positions l). 0 < q) \<and> (\<forall>(s, a) \<in> set (l_receivable_by_pay l). 0 \<le> a))"
proof -
  have "ledger_shape l" by (rule run_shape [OF assms(2) init_shape [OF assms(1)]])
  moreover have "ledger_ok l" if "calls_ok l0 ops" by (rule run_ok [OF assms(2) that ledger_init_ok [OF assms(1)]])
  ultimately show ?thesis
    by (auto simp: ledger_shape_def indices_ok_def legs_ok_def ledger_ok_def ledger_wf_def positions_ok_def receivables_ok_def dict_keys_def)
qed

text \<open>A sale of one share for one won at a commission of ten leaves nine won of debt.\<close>

lemma sale_below_its_costs_overdraws:
  "\<exists>l0 l. ledger_init 1 = Inr l0 \<and> ledger_run l0 [OpBuy 0 0 1 1 0, OpSell 1 0 1 1 10 0] = Inr l \<and> l_cash l = - 9"
  by (simp add: ledger_eval cong: eval_congs)

lemma reachable_run:
  "reachable l \<Longrightarrow> ledger_run l ops = Inr l' \<Longrightarrow>
   \<forall>op \<in> set ops. \<forall>m. op_ok m op \<Longrightarrow> reachable l'"
  by (induction ops arbitrary: l) (auto simp: res_simps intro: reachable.step)

lemma demo_reachable: "reachable demo_end"
  by (rule reachable_run [OF reachable.init [OF demo_run(1)] demo_run(2)]) (simp add: demo_ops_def)

lemma calls_ok_always: "\<forall>op \<in> set ops. \<forall>m. op_ok m op \<Longrightarrow> calls_ok l ops"
  by (induction ops arbitrary: l) (auto split: sum.split)

theorem ledger_solvent_long_only_witness:
  "ledger_run demo_start demo_ops = Inr demo_end \<and> calls_ok demo_start demo_ops \<and> 0 \<le> l_cash demo_end
    \<and> l_receivable demo_end = dict_sum (l_receivable_by_pay demo_end)"
proof -
  have "calls_ok demo_start demo_ops" by (rule calls_ok_always) (simp add: demo_ops_def)
  then show ?thesis using ledger_solvent_long_only [OF demo_run(1,2)] demo_run(2) by simp
qed

section \<open>Net asset value\<close>

definition position_value :: "int list \<Rightarrow> int \<times> int \<Rightarrow> int" where
  "position_value close p = snd p * close ! nat (fst p)"

lemma array_get_nonneg: "0 \<le> i \<Longrightarrow> array_get xs i = Inr x \<Longrightarrow> nat i < length xs \<and> x = xs ! nat i"
  by (auto simp: array_get_def nat_less_iff split: if_splits)

lemma mark_position_value:
  assumes "mark_position close present v (i, q) = Inr w" "0 \<le> i"
  shows "w = v + position_value close (i, q) \<and> present ! nat i"
proof -
  from assms(1) obtain c where c: "array_get present i = Inr True" "array_get close i = Inr c" "w = v + q * c"
    by (auto simp: mark_position_def res_simps)
  show ?thesis
    using array_get_nonneg [OF assms(2) c(1)] array_get_nonneg [OF assms(2) c(2)] c(3)
    by (simp add: position_value_def)
qed

lemma mark_positions_value:
  assumes "foldM (mark_position close present) v ps = Inr w" "\<forall>(i, q) \<in> set ps. 0 \<le> i"
  shows "w = v + sum_list (map (position_value close) ps)
     \<and> (\<forall>(i, q) \<in> set ps. present ! nat i)"
  using assms
proof (induction ps arbitrary: v)
  case (Cons p ps)
  obtain i q where p: "p = (i, q)" by force
  from Cons.prems(1) obtain u where u: "mark_position close present v p = Inr u"
    "foldM (mark_position close present) u ps = Inr w" by (auto simp: res_simps)
  have "u = v + position_value close p \<and> present ! nat i"
    using mark_position_value u(1) Cons.prems(2) p by simp
  with Cons.IH [OF u(2)] Cons.prems(2) p show ?case by simp
qed simp

text \<open>C3. The net asset value a close mark reports is exactly what entered the account (the initial
  balance and every booked entry, taken over all three accounts) plus the dividends receivable plus the
  value of the shares and of the inverse units at the closing prices; a mark is only given when every
  held instrument has a price.\<close>

theorem mark_is_booked_plus_held_value:
  assumes "reachable l" "mark l t close present inverse_price = Inr nav"
  shows "nr_nav nav = l_initial_cash l + total je_cash (l_journal l) + l_receivable l
           + sum_list (map (position_value close) (l_positions l)) + nr_inverse_value nav
    \<and> (\<forall>(i, q) \<in> set (l_positions l). present ! nat i)
    \<and> (0 < l_inverse_units l \<longrightarrow>
        (\<exists>px. inverse_price = Some px \<and> 0 \<le> px \<and> nr_inverse_value nav = l_inverse_units l * px))"
proof -
  from assms(2) obtain v w where v: "foldM (mark_position close present) 0 (l_positions l) = Inr v"
    and w: "inverse_mark l inverse_price = Inr w" and nav: "nr_inverse_value nav = w"
      "nr_nav nav = l_cash l + l_receivable l + v + l_margin l + w - l_tax_payable l"
    by (auto simp: mark_def res_simps)
  have idx: "\<forall>(i, q) \<in> set (l_positions l). 0 \<le> i"
    using reachable_ok [OF assms(1)] by (auto simp: ledger_ok_def ledger_wf_def positions_ok_def)
  note held = mark_positions_value [OF v idx]
  have "0 < l_inverse_units l \<longrightarrow> (\<exists>px. inverse_price = Some px \<and> 0 \<le> px \<and> w = l_inverse_units l * px)"
    using w by (auto simp: inverse_mark_def res_simps split: if_splits option.splits)
  then show ?thesis
    using held nav reachable_accounts [OF assms(1)] total_account_weights [of "l_journal l"] by auto
qed

theorem mark_is_booked_plus_held_value_witness:
  "\<exists>nav. mark demo_end 1 [0, 0, 0, 5200] [False, False, False, True] None = Inr nav
     \<and> nr_nav nav = 1000000 + total je_cash (l_journal demo_end) + 31200"
proof -
  let ?nav = "\<lparr>nr_session = 1, nr_cash = 770354, nr_dividend_receivable = 0, nr_market_value = 31200,
       nr_nav = 960304, nr_external_flow = 0, nr_margin = 158750, nr_inverse_value = 0, nr_tax_payable = 0\<rparr>"
  have m: "mark demo_end 1 [0, 0, 0, 5200] [False, False, False, True] None = Inr ?nav"
    by (simp add: mark_def mark_position_def inverse_mark_def array_get_def demo_end_def demo_start_def
        demo_ops_def ledger_eval cong: eval_congs)
  have "l_positions demo_end = [(3, 6)]" "l_receivable demo_end = 0" "l_initial_cash demo_end = 1000000"
    by (simp_all add: demo_end_def demo_start_def demo_ops_def ledger_eval cong: eval_congs)
  with mark_is_booked_plus_held_value [OF demo_reachable m] m show ?thesis
    by (auto simp: position_value_def)
qed

section \<open>Daily settlement of futures\<close>

text \<open>One call of \<open>settle_variation\<close> per session, along a path of closing levels.\<close>

fun variation_path :: "int \<Rightarrow> int \<Rightarrow> string \<Rightarrow> rat \<Rightarrow> rat list \<Rightarrow> ledger_op list" where
  "variation_path t m leg prev [] = []"
| "variation_path t m leg prev (v # vs) = OpVariation t (Fin prev) (Fin v) m leg # variation_path (t + 1) m leg v vs"

text \<open>One settlement succeeds and moves margin and the year's profit by the change of the mark.\<close>

definition settled_by :: "ledger \<Rightarrow> ledger \<Rightarrow> int \<Rightarrow> bool" where
  "settled_by l l' d \<longleftrightarrow> l_margin l' = l_margin l + d \<and> l_ytd_futures_pnl l' = l_ytd_futures_pnl l + d
     \<and> l_cash l' = l_cash l \<and> (\<forall>leg. leg_contracts l' leg = leg_contracts l leg)"

lemma floored_mark_0 [simp]: "floored_mark 0 m x = 0"
  by (simp add: floored_mark_def ceil_amount_krw_def dec_ceiling_def)

lemma settle_variation_step:
  assumes "1 \<le> m" "0 < prev" "0 < v"
  shows "\<exists>l'. ledger_apply l (OpVariation t (Fin prev) (Fin v) m leg) = Inr l'
    \<and> settled_by l l' (floored_mark (leg_contracts l leg) m v - floored_mark (leg_contracts l leg) m prev)"
  using assms by (auto simp: settle_variation_def checked_int_def Let_def settled_by_def book_def)

lemma variation_path_settles:
  assumes "1 \<le> m" "0 < prev" "\<forall>v \<in> set vs. 0 < v"
  shows "\<exists>l'. ledger_run l (variation_path t m leg prev vs) = Inr l'
    \<and> settled_by l l' (floored_mark (leg_contracts l leg) m (last (prev # vs)) - floored_mark (leg_contracts l leg) m prev)"
  using assms(2,3)
proof (induction vs arbitrary: l t prev)
  case Nil
  then show ?case by (simp add: settled_by_def)
next
  case (Cons v vs)
  then obtain l1 where l1: "ledger_apply l (OpVariation t (Fin prev) (Fin v) m leg) = Inr l1"
    "settled_by l l1 (floored_mark (leg_contracts l leg) m v - floored_mark (leg_contracts l leg) m prev)"
    using settle_variation_step [OF assms(1)] by force
  from Cons obtain l2 where l2: "ledger_run l1 (variation_path (t + 1) m leg v vs) = Inr l2"
    "settled_by l1 l2 (floored_mark (leg_contracts l1 leg) m (last (v # vs)) - floored_mark (leg_contracts l1 leg) m v)"
    by (metis list.set_intros)
  from l1 l2 show ?case by (auto simp: settled_by_def simp del: ledger_apply.simps)
qed

text \<open>C4. Daily settlement of a held futures position along any path of positive levels always succeeds,
  and the profit settled into margin is exactly the floored mark at the last level less the floored
  mark at the first one, whatever the levels in between: no fraction of a won is lost or gained by
  settling day by day. Free cash and the positions are untouched.\<close>

theorem variation_margin_telescopes:
  assumes "1 \<le> m" "0 < prev" "\<forall>v \<in> set levels. 0 < v"
  shows "\<exists>l'. ledger_run l (variation_path t m leg prev levels) = Inr l'
    \<and> l_margin l' - l_margin l = floored_mark (leg_contracts l leg) m (last (prev # levels))
        - floored_mark (leg_contracts l leg) m prev
    \<and> l_ytd_futures_pnl l' - l_ytd_futures_pnl l = l_margin l' - l_margin l
    \<and> l_cash l' = l_cash l \<and> leg_contracts l' leg = leg_contracts l leg"
  using variation_path_settles [OF assms, of l t leg] by (auto simp: settled_by_def)

theorem variation_margin_telescopes_witness:
  "\<exists>l'. ledger_run demo_end (variation_path 2 250 PRIMARY_LEG 345 [347, 344, 346]) = Inr l'
     \<and> l_margin l' - 158750 = - 500"
proof -
  have k: "leg_contracts demo_end PRIMARY_LEG = 2"
    by (simp add: demo_end_def demo_start_def demo_ops_def ledger_eval cong: eval_congs)
  have "floored_mark 2 250 346 - floored_mark 2 250 345 = - 500"
    by (simp add: ledger_eval)
  then show ?thesis
    using variation_margin_telescopes [of 250 345 "[347, 344, 346]" demo_end 2 PRIMARY_LEG] k demo_run(4)
    by auto
qed

text \<open>The mark of a position is the exact floor of \<open>- contracts * multiplier * level\<close>, the level
  read as the decimal number it prints as, whenever the product has at most 28 digits.\<close>

theorem floored_mark_exact:
  assumes "repr_dec x = of_int d / 10 ^ j" "j \<le> 1000026" "\<bar>k * m * d\<bar> < 10 ^ 28"
  shows "floored_mark k m x = \<lfloor>- (of_int (k * m) * repr_dec x)\<rfloor>"
proof -
  have "of_int (k * m) * repr_dec x = (of_int (k * m * d) / 10 ^ j :: rat)" by (simp add: assms(1))
  then have "dec_mul (of_int (k * m)) (repr_dec x) = of_int (k * m) * repr_dec x"
    unfolding dec_mul_def using dec_round_exact [OF assms(3,2)] by simp
  then show ?thesis by (simp add: floored_mark_def ceil_amount_krw_def dec_ceiling_def ceiling_def)
qed

theorem floored_mark_exact_witness:
  "floored_mark 3 250000 (5404319552844595 / 36028797018963968) = \<lfloor>- (750000 * (15 / 100)) :: rat\<rfloor>"
proof -
  have r: "repr_dec (5404319552844595 / 36028797018963968) = of_int 15 / 10 ^ 2"
    by (simp add: num_eval)
  show ?thesis using floored_mark_exact [OF r, of 3 250000] r by simp
qed

section \<open>Tax liabilities\<close>

text \<open>The yearly sweep tax is charged once: what is assessed is split without remainder between
  cash and the payable account, cash is only drawn down to zero, the year-to-date yield is reset, and
  nothing else moves. Settling the payable later moves the paid amount from cash to the liability, as
  much as cash covers, so that no won of tax is paid twice.\<close>

theorem sweep_tax_conserved:
  assumes "settle_cash_yield_tax l t c = (l1, tax)" "0 \<le> l_cash l" "0 \<le> l_tax_payable l"
    and "settle_tax_payable l1 t' = (l2, paid)"
  shows "l_cash l1 - l_tax_payable l1 = l_cash l - l_tax_payable l - tax
    \<and> 0 \<le> tax \<and> 0 \<le> l_cash l1 \<and> l_ytd_cash_yield l1 = 0
    \<and> (tax \<le> l_cash l \<longrightarrow> l_tax_payable l1 = l_tax_payable l)
    \<and> paid = min (l_tax_payable l1) (l_cash l1)
    \<and> l_cash l2 = l_cash l1 - paid \<and> l_tax_payable l2 = l_tax_payable l1 - paid"
proof -
  have first: "l_cash l1 - l_tax_payable l1 = l_cash l - l_tax_payable l - tax" "0 \<le> tax" "0 \<le> l_cash l1"
    "l_ytd_cash_yield l1 = 0" "tax \<le> l_cash l \<longrightarrow> l_tax_payable l1 = l_tax_payable l" "0 \<le> l_tax_payable l1"
    using assms(1) by (cases rule: settle_cash_yield_tax_cases; use assms(2,3) in auto)+
  moreover have "paid = min (l_tax_payable l1) (l_cash l1)" "l_cash l2 = l_cash l1 - paid"
    "l_tax_payable l2 = l_tax_payable l1 - paid"
    using assms(4) first by (auto simp: settle_tax_payable_def Let_def book_def split: if_splits)
  ultimately show ?thesis by blast
qed

definition swept :: ledger where
  "swept = demo_start\<lparr>l_cash := 100, l_ytd_cash_yield := 1000\<rparr>"

definition tax_config :: cost_config where
  "tax_config = \<lparr>commission_rate = 15 / 100000, impact_k = Fin 1, dividend_withholding_rate = 154 / 1000,
     auction_slippage_ticks = Fin 0, extra_slippage = Fin 0, cash_yield_tax_rate = 154 / 1000\<rparr>"

theorem sweep_tax_conserved_witness:
  "snd (settle_cash_yield_tax swept 9 tax_config) = 154
   \<and> l_cash (fst (settle_cash_yield_tax swept 9 tax_config))
      - l_tax_payable (fst (settle_cash_yield_tax swept 9 tax_config)) = 100 - 154"
proof -
  have s: "l_cash swept = 100" "l_tax_payable swept = 0" "l_ytd_cash_yield swept = 1000"
    by (simp_all add: swept_def demo_start_def ledger_eval)
  have "snd (settle_cash_yield_tax swept 9 tax_config) = 154"
    by (simp add: settle_cash_yield_tax_def s tax_config_def ledger_eval)
  with sweep_tax_conserved [OF prod.collapse [symmetric] _ _ prod.collapse [symmetric], of swept 9 tax_config 10] s
  show ?thesis by simp
qed

end
