(* ===== verification/PyText.thy ===== *)
theory PyText
  imports PyNum Dates
begin

text \<open>
  The text readers of the standard library that the rules parser relies on, on ASCII text:
  \<open>Decimal(s)\<close> (surrounding blanks and underscores dropped, a sign, digits with an optional point and
  exponent, or an infinity or a NaN) and \<open>date.fromisoformat(s)\<close> (calendar and ISO week dates, with or
  without dashes, read digit by digit at fixed positions). An exact decimal text reads to its rational
  value.
\<close>

section \<open>Digits\<close>

definition is_digit :: "char \<Rightarrow> bool" where
  "is_digit c \<longleftrightarrow> 48 \<le> (of_char c :: nat) \<and> (of_char c :: nat) \<le> 57"

definition digit_val :: "char \<Rightarrow> int" where
  "digit_val c = of_char c - 48"

definition digits_val :: "string \<Rightarrow> int" where
  "digits_val ds = foldl (\<lambda>acc c. acc * 10 + digit_val c) 0 ds"

definition lower_char :: "char \<Rightarrow> char" where
  "lower_char c = (if 65 \<le> (of_char c :: nat) \<and> (of_char c :: nat) \<le> 90
     then char_of ((of_char c :: nat) + 32) else c)"

definition is_space :: "char \<Rightarrow> bool" where
  "is_space c \<longleftrightarrow> c = CHR '' '' \<or> (9 \<le> (of_char c :: nat) \<and> (of_char c :: nat) \<le> 13)
     \<or> (28 \<le> (of_char c :: nat) \<and> (of_char c :: nat) \<le> 31)"

definition strip :: "string \<Rightarrow> string" where
  "strip s = rev (dropWhile is_space (rev (dropWhile is_space s)))"

section \<open>Decimals\<close>

datatype dec_value = DecFin decimal | DecInf | DecNegInf | DecNaN

definition take_sign :: "string \<Rightarrow> bool \<times> string" where
  "take_sign s = (case s of c # r \<Rightarrow> if c = CHR ''-'' then (True, r) else if c = CHR ''+'' then (False, r) else (False, s)
     | [] \<Rightarrow> (False, s))"

definition read_exponent :: "string \<Rightarrow> int option" where
  "read_exponent s = (case s of [] \<Rightarrow> Some 0
     | c # r \<Rightarrow> (case take_sign r of (neg, ds) \<Rightarrow>
         if c = CHR ''e'' \<and> ds \<noteq> [] \<and> list_all is_digit ds
         then Some (if neg then - digits_val ds else digits_val ds) else None))"

definition read_fraction :: "string \<Rightarrow> string \<times> string" where
  "read_fraction s = (case s of [] \<Rightarrow> ([], s)
     | c # r \<Rightarrow> if c = CHR ''.'' then (takeWhile is_digit r, dropWhile is_digit r) else ([], s))"

text \<open>At least one digit before or after the point.\<close>

definition read_number :: "string \<Rightarrow> rat option" where
  "read_number s = (let ip = takeWhile is_digit s; (fp, rest) = read_fraction (dropWhile is_digit s) in
     if ip = [] \<and> fp = [] then None
     else map_option (\<lambda>e. of_int (digits_val (ip @ fp)) * power_int 10 (e - int (length fp))) (read_exponent rest))"

definition is_nan_text :: "string \<Rightarrow> bool" where
  "is_nan_text s \<longleftrightarrow> (let t = (if take 1 s = ''s'' then drop 1 s else s) in
     take 3 t = ''nan'' \<and> list_all is_digit (drop 3 t))"

definition read_decimal :: "string \<Rightarrow> dec_value res" where
  "read_decimal s = (case take_sign (map lower_char (filter (\<lambda>c. c \<noteq> CHR ''_'') (strip s))) of (neg, t) \<Rightarrow>
     if t = ''inf'' \<or> t = ''infinity'' then Inr (if neg then DecNegInf else DecInf)
     else if is_nan_text t then Inr DecNaN
     else case read_number t of
        Some x \<Rightarrow> Inr (DecFin (if neg then - x else x))
      | None \<Rightarrow> Inl (InvalidOperation ''ConversionSyntax''))"

text \<open>Order comparisons with a NaN signal; the infinities compare as usual.\<close>

fun dec_less :: "dec_value \<Rightarrow> dec_value \<Rightarrow> bool res" where
  "dec_less (DecFin x) (DecFin y) = Inr (x < y)"
| "dec_less DecNaN _ = Inl (InvalidOperation ''comparison involving NaN'')"
| "dec_less _ DecNaN = Inl (InvalidOperation ''comparison involving NaN'')"
| "dec_less DecNegInf b = Inr (b \<noteq> DecNegInf)"
| "dec_less a DecInf = Inr (a \<noteq> DecInf)"
| "dec_less _ _ = Inr False"

definition dec_le :: "dec_value \<Rightarrow> dec_value \<Rightarrow> bool res" where
  "dec_le a b = res_bind (dec_less b a) (\<lambda>gt. Inr (\<not> gt))"

section \<open>ISO dates\<close>

text \<open>\<open>take_digits n s\<close> reads exactly \<open>n\<close> digits.\<close>

definition take_digits :: "nat \<Rightarrow> string \<Rightarrow> (int \<times> string) option" where
  "take_digits n s = (if n \<le> length s \<and> list_all is_digit (take n s) then Some (digits_val (take n s), drop n s) else None)"

definition take_dash :: "bool \<Rightarrow> string \<Rightarrow> string option" where
  "take_dash wanted s = (if \<not> wanted then Some s
     else case s of c # r \<Rightarrow> if c = CHR ''-'' then Some r else None | [] \<Rightarrow> None)"

definition iso_week1_monday :: "int \<Rightarrow> int" where
  "iso_week1_monday y = (let first = toordinal (Date y 1 1); wd = weekday (Date y 1 1); monday = first - wd
     in if wd > 3 then monday + 7 else monday)"

text \<open>Week 53 exists only in a year that starts on a Thursday, or on a Wednesday when it is a leap year.\<close>

definition iso_to_date :: "int \<Rightarrow> int \<Rightarrow> int \<Rightarrow> date res" where
  "iso_to_date y week dayno =
     guard (y < 1 \<or> 9999 < y) (ValueError ''Year is out of range'') (
     guard (\<not> (0 < week \<and> week < 53) \<and> \<not> (week = 53 \<and>
         (weekday (Date y 1 1) = 3 \<or> (weekday (Date y 1 1) = 2 \<and> is_leap y)))) (ValueError ''Invalid week'') (
     guard (\<not> (0 < dayno \<and> dayno < 8)) (ValueError ''Invalid weekday'') (
     let d = date_of_ordinal (iso_week1_monday y + (week - 1) * 7 + (dayno - 1))
     in mk_date (year d) (month d) (day d))))"

definition iso_week_rest :: "int \<Rightarrow> bool \<Rightarrow> string \<Rightarrow> date option" where
  "iso_week_rest y dash s = (case take_digits 2 s of None \<Rightarrow> None
     | Some (week, r) \<Rightarrow>
        (if r = [] then (case iso_to_date y week 1 of Inr d \<Rightarrow> Some d | Inl _ \<Rightarrow> None)
         else case take_dash dash r of None \<Rightarrow> None
            | Some r2 \<Rightarrow> (case take_digits 1 r2 of None \<Rightarrow> None
               | Some (dayno, _) \<Rightarrow> (case iso_to_date y week dayno of Inr d \<Rightarrow> Some d | Inl _ \<Rightarrow> None))))"

definition iso_month_rest :: "int \<Rightarrow> bool \<Rightarrow> string \<Rightarrow> date option" where
  "iso_month_rest y dash s = (case take_digits 2 s of None \<Rightarrow> None
     | Some (m, r) \<Rightarrow> (case take_dash dash r of None \<Rightarrow> None
        | Some r2 \<Rightarrow> (case take_digits 2 r2 of None \<Rightarrow> None
           | Some (d, _) \<Rightarrow> (case mk_date y m d of Inr dt \<Rightarrow> Some dt | Inl _ \<Rightarrow> None))))"

definition fromisoformat :: "string \<Rightarrow> date res" where
  "fromisoformat s =
     guard (length s \<noteq> 7 \<and> length s \<noteq> 8 \<and> length s \<noteq> 10) (ValueError ''Invalid isoformat string'') (
     case take_digits 4 s of None \<Rightarrow> Inl (ValueError ''Invalid isoformat string'')
     | Some (y, r) \<Rightarrow>
        (let dash = (take 1 r = ''-''); r1 = (if dash then drop 1 r else r);
             parsed = (if take 1 r1 = ''W'' then iso_week_rest y dash (drop 1 r1) else iso_month_rest y dash r1)
         in case parsed of None \<Rightarrow> Inl (ValueError ''Invalid isoformat string'') | Some d \<Rightarrow> Inr d))"

lemma fromisoformat_error: "fromisoformat s = Inl e \<Longrightarrow> e = ValueError ''Invalid isoformat string''"
  by (auto simp: fromisoformat_def res_simps Let_def split: option.splits if_splits)

end
