(* ===== verification/MarketRules.thy ===== *)
theory MarketRules
  imports PyText
begin

text \<open>
  Date-effective KRX equity rules (\<open>src/core/market_rules.py\<close>): the regimes, the lookups by session
  date, the tick size, the daily price limits, and the validation of a decoded rules document.

  A decoded TOML document is a value of \<open>pyval\<close>; the parser rejects every shape the source rejects,
  with the exception class the source raises. The four lookup loops of the source are the same loop
  (keep the last entry that applies, stop at the first that does not) on different lists; it is
  \<open>scan_last\<close>.
\<close>

section \<open>Data\<close>

datatype krx_market = KOSPI | KOSDAQ

record tick_band =
  lower_price_inclusive :: int
  band_tick :: int

record tick_regime =
  tick_effective_from :: date
  tick_bands :: "(krx_market, tick_band list) dict"

record sell_tax_regime =
  tax_effective_from :: date
  tax_rates :: "(krx_market, decimal) dict"

record price_limit_regime =
  limit_effective_from :: date
  limit_ratio :: decimal

record krx_market_rules =
  rules_version :: string
  tick_regimes :: "tick_regime list"
  sell_tax_regimes :: "sell_tax_regime list"
  price_limit_regimes :: "price_limit_regime list"

definition REVISION :: string where
  "REVISION = ''krx-market-rules-v1''"

section \<open>Lookups\<close>

fun scan_last :: "('a \<Rightarrow> bool) \<Rightarrow> 'a option \<Rightarrow> 'a list \<Rightarrow> 'a option" where
  "scan_last P chosen [] = chosen"
| "scan_last P chosen (x # xs) = (if P x then scan_last P (Some x) xs else chosen)"

definition regime_or_fail :: "string \<Rightarrow> 'r option \<Rightarrow> 'r res" where
  "regime_or_fail what r = (case r of None \<Rightarrow> Inl (PITDataError what) | Some x \<Rightarrow> Inr x)"

definition tick_regime_at :: "krx_market_rules \<Rightarrow> date \<Rightarrow> tick_regime res" where
  "tick_regime_at rules session = regime_or_fail ''no tick coverage''
     (scan_last (\<lambda>r. tick_effective_from r \<le> session) None (tick_regimes rules))"

definition sell_tax_regime_at :: "krx_market_rules \<Rightarrow> date \<Rightarrow> sell_tax_regime res" where
  "sell_tax_regime_at rules session = regime_or_fail ''no sell-tax coverage''
     (scan_last (\<lambda>r. tax_effective_from r \<le> session) None (sell_tax_regimes rules))"

definition price_limit_regime_at :: "krx_market_rules \<Rightarrow> date \<Rightarrow> price_limit_regime res" where
  "price_limit_regime_at rules session = regime_or_fail ''no price-limit coverage''
     (scan_last (\<lambda>r. limit_effective_from r \<le> session) None (price_limit_regimes rules))"

definition dict_index :: "('k, 'v) dict \<Rightarrow> 'k \<Rightarrow> 'v res" where
  "dict_index d k = (case map_of d k of None \<Rightarrow> Inl (KeyError ''missing key'') | Some v \<Rightarrow> Inr v)"

text \<open>The band loop starts from the first band.\<close>

definition choose_band :: "tick_band list \<Rightarrow> int \<Rightarrow> tick_band res" where
  "choose_band bands price = (case bands of [] \<Rightarrow> Inl (IndexError ''tuple index out of range'')
     | b # _ \<Rightarrow> (case scan_last (\<lambda>x. lower_price_inclusive x \<le> price) (Some b) bands of
         Some c \<Rightarrow> Inr c | None \<Rightarrow> Inr b))"

definition tick_size :: "krx_market_rules \<Rightarrow> date \<Rightarrow> krx_market \<Rightarrow> int \<Rightarrow> int res" where
  "tick_size rules session market price =
     guard (price \<le> 0) (PITDataError ''price must be a positive int'') (
     res_bind (tick_regime_at rules session) (\<lambda>regime.
     res_bind (dict_index (tick_bands regime) market) (\<lambda>bands.
     res_bind (choose_band bands price) (\<lambda>chosen. Inr (band_tick chosen)))))"

definition sell_tax_rate :: "krx_market_rules \<Rightarrow> date \<Rightarrow> krx_market \<Rightarrow> decimal res" where
  "sell_tax_rate rules session market =
     res_bind (sell_tax_regime_at rules session) (\<lambda>regime. dict_index (tax_rates regime) market)"

definition limit_width :: "int \<Rightarrow> decimal \<Rightarrow> int \<Rightarrow> int res" where
  "limit_width base_price ratio base_tick =
     res_bind (dec_div (dec_mul (of_int base_price) ratio) (of_int base_tick)) (\<lambda>q. Inr (dec_floor q * base_tick))"

definition price_limits :: "krx_market_rules \<Rightarrow> date \<Rightarrow> krx_market \<Rightarrow> int \<Rightarrow> (int \<times> int) res" where
  "price_limits rules session market base_price =
     guard (base_price \<le> 0) (PITDataError ''base_price must be a positive int'') (
     res_bind (price_limit_regime_at rules session) (\<lambda>limit.
     res_bind (tick_size rules session market base_price) (\<lambda>base_tick.
     res_bind (limit_width base_price (limit_ratio limit) base_tick) (\<lambda>width.
     let raw_upper = base_price + width; raw_lower = base_price - width in
     res_bind (tick_size rules session market raw_upper) (\<lambda>upper_tick.
     res_bind (tick_size rules session market raw_lower) (\<lambda>lower_tick.
     let upper = (raw_upper div upper_tick) * upper_tick;
         snapped_lower = - ((- raw_lower) div lower_tick) * lower_tick;
         lower = (if snapped_lower \<ge> lower_tick then snapped_lower else lower_tick)
     in Inr (upper, lower)))))))"

section \<open>Reading a rules document\<close>

text \<open>A decoded document value; \<open>PDateTime\<close> carries the date part, \<open>POther\<close> is any other object.\<close>

datatype pyval = PBool bool | PInt int | PFloat pyfloat | PStr string | PDate date | PDateTime date
  | PList "pyval list" | PMap "(string \<times> pyval) list" | POther

fun parse_date :: "pyval \<Rightarrow> date res" where
  "parse_date (PDateTime d) = Inr d"
| "parse_date (PDate d) = Inr d"
| "parse_date (PStr s) = (case fromisoformat s of Inr d \<Rightarrow> Inr d | Inl _ \<Rightarrow> Inl (PITDataError ''invalid effective_from''))"
| "parse_date _ = Inl (PITDataError ''invalid effective_from'')"

fun parse_decimal :: "pyval \<Rightarrow> dec_value res" where
  "parse_decimal (PInt n) = Inr (DecFin (of_int n))"
| "parse_decimal (PStr s) = (case read_decimal s of Inr d \<Rightarrow> Inr d | Inl _ \<Rightarrow> Inl (PITDataError ''invalid decimal''))"
| "parse_decimal _ = Inl (PITDataError ''invalid decimal'')"

definition band_of :: "pyval \<Rightarrow> pyval \<Rightarrow> tick_band res" where
  "band_of lower tick =
     (case lower of PInt l \<Rightarrow>
        guard (l < 0) (PITDataError ''invalid band lower'') (
        case tick of PInt t \<Rightarrow> guard (t \<le> 0) (PITDataError ''invalid band tick'')
             (Inr \<lparr>lower_price_inclusive = l, band_tick = t\<rparr>)
        | _ \<Rightarrow> Inl (PITDataError ''invalid band tick''))
      | _ \<Rightarrow> Inl (PITDataError ''invalid band lower''))"

definition map_item :: "(string \<times> pyval) list \<Rightarrow> string \<Rightarrow> pyval" where
  "map_item d k = dict_get d k POther"

definition key_set :: "(string \<times> pyval) list \<Rightarrow> string set" where
  "key_set d = set (map fst d)"

fun parse_band_entry :: "pyval \<Rightarrow> tick_band res" where
  "parse_band_entry (PMap d) =
     (if key_set d = {''lower'', ''tick''} then band_of (map_item d ''lower'') (map_item d ''tick'')
      else if key_set d = {''lower_price_inclusive'', ''tick''}
      then band_of (map_item d ''lower_price_inclusive'') (map_item d ''tick'')
      else Inl (PITDataError ''invalid tick band keys''))"
| "parse_band_entry (PList [lower, tick]) = band_of lower tick"
| "parse_band_entry _ = Inl (PITDataError ''invalid tick band entry'')"

fun check_ascending :: "tick_band list \<Rightarrow> unit res" where
  "check_ascending (prev # cur # rest) =
     guard (lower_price_inclusive cur \<le> lower_price_inclusive prev)
       (PITDataError ''tick bands must be strictly ascending'') (check_ascending (cur # rest))"
| "check_ascending _ = Inr ()"

definition nonempty_list :: "string \<Rightarrow> pyval \<Rightarrow> pyval list res" where
  "nonempty_list what v = (case v of PList xs \<Rightarrow> guard (xs = []) (PITDataError what) (Inr xs) | _ \<Rightarrow> Inl (PITDataError what))"

definition parse_tick_bands :: "pyval \<Rightarrow> tick_band list res" where
  "parse_tick_bands v =
     res_bind (nonempty_list ''invalid tick bands'' v) (\<lambda>entries.
     res_bind (mapM parse_band_entry entries) (\<lambda>bands.
     guard (lower_price_inclusive (hd bands) \<noteq> 0) (PITDataError ''tick bands must start at 0'') (
     res_bind (check_ascending bands) (\<lambda>_. Inr bands))))"

text \<open>The frame of the three regime loops: a mapping with exactly the given keys and a date after the
  previous one; the rest of the entry is read by \<open>body\<close>.\<close>

fun parse_regimes ::
  "string set \<Rightarrow> (date \<Rightarrow> (string \<times> pyval) list \<Rightarrow> 'r res) \<Rightarrow> date option \<Rightarrow> pyval list \<Rightarrow> 'r list res" where
  "parse_regimes keys body prev [] = Inr []"
| "parse_regimes keys body prev (raw # rest) =
     (case raw of PMap d \<Rightarrow>
        guard (key_set d \<noteq> keys) (PITDataError ''invalid regime keys'') (
        res_bind (parse_date (map_item d ''effective_from'')) (\<lambda>when.
        guard (\<exists>p \<in> set_option prev. when \<le> p) (PITDataError ''regimes must be strictly ascending'') (
        res_bind (body when d) (\<lambda>r.
        res_bind (parse_regimes keys body (Some when) rest) (\<lambda>rs. Inr (r # rs))))))
      | _ \<Rightarrow> Inl (PITDataError ''invalid regime''))"

definition market_keys :: "string set" where
  "market_keys = {''effective_from'', ''KOSPI'', ''KOSDAQ''}"

definition tick_regime_body :: "date \<Rightarrow> (string \<times> pyval) list \<Rightarrow> tick_regime res" where
  "tick_regime_body when d =
     res_bind (parse_tick_bands (map_item d ''KOSPI'')) (\<lambda>b1.
     res_bind (parse_tick_bands (map_item d ''KOSDAQ'')) (\<lambda>b2.
     Inr \<lparr>tick_effective_from = when, tick_bands = [(KOSPI, b1), (KOSDAQ, b2)]\<rparr>))"

definition parse_tick_regimes :: "pyval \<Rightarrow> tick_regime list res" where
  "parse_tick_regimes v = res_bind (nonempty_list ''tick_regimes must be a non-empty list'' v)
     (parse_regimes market_keys tick_regime_body None)"

definition parse_tax_rate :: "pyval \<Rightarrow> decimal res" where
  "parse_tax_rate v =
     res_bind (parse_decimal v) (\<lambda>rate.
     res_bind (dec_less rate (DecFin 0)) (\<lambda>low.
     res_bind (if low then Inr True else dec_less (DecFin (1 / 100)) rate) (\<lambda>bad.
     guard bad (PITDataError ''sell-tax rate out of range'') (
     case rate of DecFin x \<Rightarrow> Inr x | _ \<Rightarrow> Inl (PITDataError ''sell-tax rate out of range'')))))"

definition tax_regime_body :: "date \<Rightarrow> (string \<times> pyval) list \<Rightarrow> sell_tax_regime res" where
  "tax_regime_body when d =
     res_bind (parse_tax_rate (map_item d ''KOSPI'')) (\<lambda>r1.
     res_bind (parse_tax_rate (map_item d ''KOSDAQ'')) (\<lambda>r2.
     Inr \<lparr>tax_effective_from = when, tax_rates = [(KOSPI, r1), (KOSDAQ, r2)]\<rparr>))"

definition parse_sell_tax_regimes :: "pyval \<Rightarrow> sell_tax_regime list res" where
  "parse_sell_tax_regimes v = res_bind (nonempty_list ''sell_tax_regimes must be a non-empty list'' v)
     (parse_regimes market_keys tax_regime_body None)"

definition limit_regime_body :: "date \<Rightarrow> (string \<times> pyval) list \<Rightarrow> price_limit_regime res" where
  "limit_regime_body when d =
     res_bind (parse_decimal (map_item d ''ratio'')) (\<lambda>ratio.
     res_bind (dec_le ratio (DecFin 0)) (\<lambda>low.
     res_bind (if low then Inr True else dec_le (DecFin 1) ratio) (\<lambda>bad.
     guard bad (PITDataError ''price-limit ratio out of range'') (
     case ratio of DecFin x \<Rightarrow> Inr \<lparr>limit_effective_from = when, limit_ratio = x\<rparr>
     | _ \<Rightarrow> Inl (PITDataError ''price-limit ratio out of range'')))))"

definition parse_price_limit_regimes :: "pyval \<Rightarrow> price_limit_regime list res" where
  "parse_price_limit_regimes v = res_bind (nonempty_list ''price_limit_regimes must be a non-empty list'' v)
     (parse_regimes {''effective_from'', ''ratio''} limit_regime_body None)"

definition top_level_keys :: "string set" where
  "top_level_keys = {''version'', ''sources'', ''tick_regimes'', ''sell_tax_regimes'', ''price_limit_regimes''}"

fun citation_ok :: "pyval \<Rightarrow> bool" where
  "citation_ok (PStr s) \<longleftrightarrow> s \<noteq> []"
| "citation_ok _ \<longleftrightarrow> False"

definition parse_krx_market_rules :: "pyval \<Rightarrow> krx_market_rules res" where
  "parse_krx_market_rules document =
     (case document of PMap d \<Rightarrow>
        guard (key_set d \<noteq> top_level_keys) (PITDataError ''invalid top-level keys'') (
        guard (map_item d ''version'' \<noteq> PStr REVISION) (PITDataError ''unsupported version'') (
        res_bind (nonempty_list ''sources must be a non-empty list of citations'' (map_item d ''sources'')) (\<lambda>sources.
        guard (\<not> list_all citation_ok sources) (PITDataError ''sources must be a non-empty list of citations'') (
        res_bind (parse_tick_regimes (map_item d ''tick_regimes'')) (\<lambda>ticks.
        res_bind (parse_sell_tax_regimes (map_item d ''sell_tax_regimes'')) (\<lambda>taxes.
        res_bind (parse_price_limit_regimes (map_item d ''price_limit_regimes'')) (\<lambda>limits.
        Inr \<lparr>rules_version = REVISION, tick_regimes = ticks, sell_tax_regimes = taxes,
             price_limit_regimes = limits\<rparr>)))))))
      | _ \<Rightarrow> Inl (PITDataError ''rules document must be a mapping''))"

end
