(* ===== verification/RulesProps.thy ===== *)
theory RulesProps
  imports MarketRules
begin

text \<open>
  What the validated rules guarantee: the parser only lets well-formed regimes through, a tick lookup
  finds the one band of the price, and the daily price limits lie on the quoting grid around the base
  price, with exactly the truncated width of the regime ratio.
\<close>

section \<open>Well-formed rules\<close>

definition bands_ok :: "tick_band list \<Rightarrow> bool" where
  "bands_ok bs \<longleftrightarrow> bs \<noteq> [] \<and> lower_price_inclusive (hd bs) = 0
     \<and> sorted_wrt (<) (map lower_price_inclusive bs) \<and> (\<forall>b \<in> set bs. 0 < band_tick b)"

definition tick_regime_ok :: "tick_regime \<Rightarrow> bool" where
  "tick_regime_ok r \<longleftrightarrow> (\<forall>m. \<exists>bs. map_of (tick_bands r) m = Some bs \<and> bands_ok bs)"

definition tax_regime_ok :: "sell_tax_regime \<Rightarrow> bool" where
  "tax_regime_ok r \<longleftrightarrow> (\<forall>m. \<exists>x. map_of (tax_rates r) m = Some x \<and> 0 \<le> x \<and> x \<le> 1 / 100)"

definition limit_regime_ok :: "price_limit_regime \<Rightarrow> bool" where
  "limit_regime_ok r \<longleftrightarrow> 0 < limit_ratio r \<and> limit_ratio r < 1"

definition schedule_ok :: "('r \<Rightarrow> date) \<Rightarrow> ('r \<Rightarrow> bool) \<Rightarrow> 'r list \<Rightarrow> bool" where
  "schedule_ok start ok rs \<longleftrightarrow> rs \<noteq> [] \<and> sorted_wrt (<) (map start rs) \<and> (\<forall>r \<in> set rs. ok r)"

definition rules_ok :: "krx_market_rules \<Rightarrow> bool" where
  "rules_ok rules \<longleftrightarrow> schedule_ok tick_effective_from tick_regime_ok (tick_regimes rules)
     \<and> schedule_ok tax_effective_from tax_regime_ok (sell_tax_regimes rules)
     \<and> schedule_ok limit_effective_from limit_regime_ok (price_limit_regimes rules)"

section \<open>The parser establishes them\<close>

lemma nonempty_list_Inr [res_simps]: "nonempty_list what v = Inr xs \<longleftrightarrow> v = PList xs \<and> xs \<noteq> []"
  by (cases v) (auto simp: nonempty_list_def res_simps)

lemma band_of_ok: "band_of l t = Inr b \<Longrightarrow> 0 < band_tick b"
  by (auto simp: band_of_def res_simps split: pyval.splits)

lemma parse_band_entry_ok: "parse_band_entry v = Inr b \<Longrightarrow> 0 < band_tick b"
  by (induction v rule: parse_band_entry.induct) (auto intro: band_of_ok split: if_splits)

lemma check_ascending_sorted:
  "check_ascending bs = Inr () \<Longrightarrow> sorted_wrt (<) (map lower_price_inclusive bs)"
proof (induction bs rule: check_ascending.induct)
  case (1 prev cur rest)
  then have "lower_price_inclusive prev < lower_price_inclusive cur"
    and s: "sorted_wrt (<) (map lower_price_inclusive (cur # rest))"
    by (auto simp: res_simps)
  then show ?case by auto
qed auto

lemma parse_tick_bands_ok: "parse_tick_bands v = Inr bs \<Longrightarrow> bands_ok bs"
proof -
  assume p: "parse_tick_bands v = Inr bs"
  then obtain es where es: "es \<noteq> []" "mapM parse_band_entry es = Inr bs"
    "lower_price_inclusive (hd bs) = 0" "check_ascending bs = Inr ()"
    by (auto simp: parse_tick_bands_def res_simps)
  have "bs \<noteq> []" using mapM_Inr_length [OF es(2)] es(1) by auto
  moreover have "\<forall>b \<in> set bs. 0 < band_tick b"
    using es(2) parse_band_entry_ok
    by (fastforce simp: mapM_Inr_list_all2 list_all2_conv_all_nth in_set_conv_nth)
  ultimately show ?thesis using es check_ascending_sorted by (simp add: bands_ok_def)
qed

lemma parse_regimes_ok:
  assumes "parse_regimes keys body prev vs = Inr rs"
    and "\<And>w d r. body w d = Inr r \<Longrightarrow> start r = w \<and> ok r"
  shows "length rs = length vs \<and> sorted_wrt (<) (map start rs) \<and> (\<forall>r \<in> set rs. ok r)
    \<and> (\<forall>r \<in> set rs. \<forall>p \<in> set_option prev. p < start r)"
  using assms(1)
proof (induction vs arbitrary: prev rs)
  case (Cons v vs)
  then obtain d w r rs' where v: "v = PMap d" "\<not> (\<exists>p \<in> set_option prev. w \<le> p)" "body w d = Inr r"
    "parse_regimes keys body (Some w) vs = Inr rs'" "rs = r # rs'"
    by (auto simp: res_simps split: pyval.splits)
  from Cons.IH [OF v(4)] assms(2) [OF v(3)] v(2,5) show ?case by (fastforce simp: not_le)
qed simp

lemma parse_schedule_ok:
  assumes "res_bind (nonempty_list what v) (parse_regimes keys body None) = Inr rs"
    and "\<And>w d r. body w d = Inr r \<Longrightarrow> start r = w \<and> ok r"
  shows "schedule_ok start ok rs"
proof -
  from assms(1) obtain vs where vs: "vs \<noteq> []" "parse_regimes keys body None vs = Inr rs"
    by (auto simp: res_simps)
  from parse_regimes_ok [where start = start and ok = ok, OF vs(2)] assms(2)
  have "length rs = length vs \<and> sorted_wrt (<) (map start rs) \<and> (\<forall>r \<in> set rs. ok r)" by blast
  with vs(1) show ?thesis by (auto simp: schedule_ok_def)
qed

lemma krx_market_all: "(\<forall>m. P m) \<longleftrightarrow> P KOSPI \<and> P KOSDAQ"
  by (metis krx_market.exhaust)

lemma tick_regime_body_ok: "tick_regime_body w d = Inr r \<Longrightarrow> tick_effective_from r = w \<and> tick_regime_ok r"
  by (auto simp: tick_regime_body_def res_simps tick_regime_ok_def krx_market_all dest: parse_tick_bands_ok)

lemma parse_tax_rate_ok: "parse_tax_rate v = Inr x \<Longrightarrow> 0 \<le> x \<and> x \<le> 1 / 100"
proof -
  assume p: "parse_tax_rate v = Inr x"
  then obtain r where r: "parse_decimal v = Inr r" by (auto simp: parse_tax_rate_def res_simps)
  with p show ?thesis by (cases r) (auto simp: parse_tax_rate_def res_simps split: if_splits)
qed

lemma tax_regime_body_ok: "tax_regime_body w d = Inr r \<Longrightarrow> tax_effective_from r = w \<and> tax_regime_ok r"
  by (auto simp: tax_regime_body_def res_simps tax_regime_ok_def krx_market_all dest: parse_tax_rate_ok)

lemma limit_regime_body_ok: "limit_regime_body w d = Inr r \<Longrightarrow> limit_effective_from r = w \<and> limit_regime_ok r"
proof -
  assume p: "limit_regime_body w d = Inr r"
  then obtain v where v: "parse_decimal (map_item d ''ratio'') = Inr v"
    by (auto simp: limit_regime_body_def res_simps)
  with p show ?thesis
    by (cases v) (auto simp: limit_regime_body_def dec_le_def res_simps limit_regime_ok_def split: if_splits)
qed

lemma parse_tick_regimes_ok:
  "parse_tick_regimes v = Inr rs \<Longrightarrow> schedule_ok tick_effective_from tick_regime_ok rs"
  unfolding parse_tick_regimes_def by (erule parse_schedule_ok) (rule tick_regime_body_ok)

lemma parse_sell_tax_regimes_ok:
  "parse_sell_tax_regimes v = Inr rs \<Longrightarrow> schedule_ok tax_effective_from tax_regime_ok rs"
  unfolding parse_sell_tax_regimes_def by (erule parse_schedule_ok) (rule tax_regime_body_ok)

lemma parse_price_limit_regimes_ok:
  "parse_price_limit_regimes v = Inr rs \<Longrightarrow> schedule_ok limit_effective_from limit_regime_ok rs"
  unfolding parse_price_limit_regimes_def by (erule parse_schedule_ok) (rule limit_regime_body_ok)

lemma parse_rules_ok:
  assumes "parse_krx_market_rules document = Inr rules"
  shows "rules_ok rules \<and> rules_version rules = REVISION"
proof -
  from assms obtain d where "parse_tick_regimes (map_item d ''tick_regimes'') = Inr (tick_regimes rules)"
    "parse_sell_tax_regimes (map_item d ''sell_tax_regimes'') = Inr (sell_tax_regimes rules)"
    "parse_price_limit_regimes (map_item d ''price_limit_regimes'') = Inr (price_limit_regimes rules)"
    "rules_version rules = REVISION"
    by (auto simp: parse_krx_market_rules_def res_simps split: pyval.splits)
  then show ?thesis
    by (simp add: rules_ok_def parse_tick_regimes_ok parse_sell_tax_regimes_ok parse_price_limit_regimes_ok)
qed

text \<open>C29. A document the parser accepts yields rules with non-empty schedules in strictly ascending date
  order, both markets in every regime, tick bands that start at price 0 and ascend strictly with
  positive ticks, sell-tax rates in [0, 0.01] and limit ratios in (0, 1), under the supported
  revision.\<close>

theorem parse_accepts_only_valid_rules:
  assumes "parse_krx_market_rules document = Inr rules"
  shows "rules_ok rules \<and> rules_version rules = REVISION"
  using assms by (rule parse_rules_ok)

section \<open>Lookups find the entry in force\<close>

lemma scan_last_takeWhile:
  "scan_last P c xs = (if takeWhile P xs = [] then c else Some (last (takeWhile P xs)))"
  by (induction xs arbitrary: c) auto

text \<open>The band of a price, by position.\<close>

definition band_index :: "tick_band list \<Rightarrow> int \<Rightarrow> nat" where
  "band_index bs p = length (takeWhile (\<lambda>b. lower_price_inclusive b \<le> p) bs) - 1"

definition tick_at :: "tick_band list \<Rightarrow> int \<Rightarrow> int" where
  "tick_at bs p = band_tick (bs ! band_index bs p)"

abbreviation lower_of :: "tick_band list \<Rightarrow> nat \<Rightarrow> int" where
  "lower_of bs k \<equiv> lower_price_inclusive (bs ! k)"

lemma takeWhile_band_nonempty:
  "bands_ok bs \<Longrightarrow> 0 \<le> p \<Longrightarrow> takeWhile (\<lambda>b. lower_price_inclusive b \<le> p) bs \<noteq> []"
  by (cases bs) (auto simp: bands_ok_def)

lemma band_index_bounds:
  assumes "bands_ok bs" "0 \<le> p"
  shows "band_index bs p < length bs" "lower_of bs (band_index bs p) \<le> p"
    and "Suc (band_index bs p) < length bs \<Longrightarrow> p < lower_of bs (Suc (band_index bs p))"
proof -
  let ?P = "\<lambda>b. lower_price_inclusive b \<le> p"
  let ?n = "length (takeWhile ?P bs)"
  have n: "0 < ?n" using takeWhile_band_nonempty [OF assms] by simp
  have le: "?n \<le> length bs" by (rule length_takeWhile_le)
  show "band_index bs p < length bs" unfolding band_index_def using n le by linarith
  have "?P (takeWhile ?P bs ! (?n - 1))" using n set_takeWhileD nth_mem by (metis diff_less zero_less_one)
  moreover have "takeWhile ?P bs ! (?n - 1) = bs ! (?n - 1)" using n by (intro takeWhile_nth) simp
  ultimately show "lower_of bs (band_index bs p) \<le> p" by (simp add: band_index_def)
  assume "Suc (band_index bs p) < length bs"
  then have "?n < length bs" using n by (simp add: band_index_def)
  then show "p < lower_of bs (Suc (band_index bs p))"
    using nth_length_takeWhile [of ?P bs] n by (simp add: band_index_def not_le)
qed

lemma lower_of_mono:
  assumes "bands_ok bs" "i < j" "j < length bs"
  shows "lower_of bs i < lower_of bs j"
  using assms by (auto simp: bands_ok_def sorted_wrt_iff_nth_less)

text \<open>The band is determined by its bounds, and a higher price never has an earlier band.\<close>

lemma band_index_mono:
  assumes "bands_ok bs" "0 \<le> p" "p \<le> q"
  shows "band_index bs p \<le> band_index bs q"
proof (rule ccontr)
  assume "\<not> band_index bs p \<le> band_index bs q"
  then have lt: "Suc (band_index bs q) \<le> band_index bs p" by simp
  have p: "band_index bs p < length bs" "lower_of bs (band_index bs p) \<le> p"
    using band_index_bounds [OF assms(1,2)] by simp_all
  have "q < lower_of bs (Suc (band_index bs q))"
    using band_index_bounds(3) [OF assms(1), of q] assms(2,3) lt p(1) by simp
  also have "\<dots> \<le> lower_of bs (band_index bs p)"
    using lower_of_mono [OF assms(1), of "Suc (band_index bs q)" "band_index bs p"] lt p(1)
    by (cases "Suc (band_index bs q) = band_index bs p") auto
  finally show False using p(2) assms(3) by simp
qed

lemma band_index_eqI:
  assumes "bands_ok bs" "0 \<le> p" "k < length bs" "lower_of bs k \<le> p"
    and "Suc k < length bs \<Longrightarrow> p < lower_of bs (Suc k)"
  shows "band_index bs p = k"
proof (rule linorder_cases [of "band_index bs p" k])
  assume lt: "band_index bs p < k"
  then have "Suc (band_index bs p) < length bs" using assms(3) by simp
  then have "p < lower_of bs (Suc (band_index bs p))" by (rule band_index_bounds(3) [OF assms(1,2)])
  also have "\<dots> \<le> lower_of bs k"
    using lower_of_mono [OF assms(1), of "Suc (band_index bs p)" k] lt assms(3)
    by (cases "Suc (band_index bs p) = k") auto
  finally show ?thesis using assms(4) by simp
next
  assume lt: "k < band_index bs p"
  note b = band_index_bounds [OF assms(1,2)]
  have "p < lower_of bs (Suc k)" using assms(5) lt b(1) by simp
  also have "\<dots> \<le> lower_of bs (band_index bs p)"
    using lower_of_mono [OF assms(1), of "Suc k" "band_index bs p"] lt b(1)
    by (cases "Suc k = band_index bs p") auto
  finally show ?thesis using b(2) by simp
qed

lemma tick_at_pos: "bands_ok bs \<Longrightarrow> 0 \<le> p \<Longrightarrow> 0 < tick_at bs p"
  using band_index_bounds(1) [of bs p] by (simp add: tick_at_def bands_ok_def)

lemma choose_band_index:
  assumes "bands_ok bs" "0 \<le> p"
  shows "choose_band bs p = Inr (bs ! band_index bs p)"
proof -
  let ?t = "takeWhile (\<lambda>b. lower_price_inclusive b \<le> p) bs"
  have ne: "?t \<noteq> []" by (rule takeWhile_band_nonempty [OF assms])
  then have "last ?t = bs ! band_index bs p"
    by (simp add: last_conv_nth band_index_def takeWhile_nth)
  with ne show ?thesis by (cases bs) (auto simp: choose_band_def scan_last_takeWhile split: if_splits)
qed

text \<open>The entry in force on a date is the last one that has started.\<close>

lemma scan_last_cases:
  assumes "sorted_wrt (\<lambda>a b. start a < start b) rs"
  shows "case scan_last (\<lambda>r. start r \<le> s) c rs of
      None \<Rightarrow> c = None \<and> (\<forall>r \<in> set rs. \<not> start r \<le> (s::date))
    | Some r \<Rightarrow> (c = Some r \<and> (\<forall>r' \<in> set rs. \<not> start r' \<le> s))
        \<or> (r \<in> set rs \<and> start r \<le> s \<and> (\<forall>r' \<in> set rs. start r' \<le> s \<longrightarrow> start r' \<le> start r))"
  using assms
proof (induction rs arbitrary: c)
  case (Cons x xs)
  show ?case
  proof (cases "start x \<le> s")
    case True
    have ih: "case scan_last (\<lambda>r. start r \<le> s) (Some x) xs of None \<Rightarrow> False
      | Some r \<Rightarrow> (x = r \<and> (\<forall>r' \<in> set xs. \<not> start r' \<le> s))
          \<or> (r \<in> set xs \<and> start r \<le> s \<and> (\<forall>r' \<in> set xs. start r' \<le> s \<longrightarrow> start r' \<le> start r))"
      using Cons.IH [of "Some x"] Cons.prems by (simp split: option.splits)
    have "\<forall>r \<in> set xs. start x \<le> start r" using Cons.prems by (simp add: less_imp_le)
    with True ih show ?thesis by (auto split: option.splits)
  next
    case False
    with Cons.prems show ?thesis by (fastforce split: option.split dest: less_le_trans)
  qed
qed (simp split: option.split)

lemma schedule_lookup:
  assumes "schedule_ok start ok rs" "start (hd rs) \<le> s"
  obtains r where "scan_last (\<lambda>r. start r \<le> s) None rs = Some r" "r \<in> set rs" "ok r" "start r \<le> s"
    "\<forall>r' \<in> set rs. start r' \<le> s \<longrightarrow> start r' \<le> start r"
proof -
  have "sorted_wrt (\<lambda>a b. start a < start b) rs" using assms(1) by (simp add: schedule_ok_def sorted_wrt_map)
  note c = scan_last_cases [where s = s and c = None, OF this]
  have "hd rs \<in> set rs" using assms(1) by (simp add: schedule_ok_def)
  with c assms show thesis by (auto simp: schedule_ok_def split: option.splits intro: that)
qed

lemma schedule_uncovered:
  assumes "schedule_ok start ok rs" "s < start (hd rs)"
  shows "scan_last (\<lambda>r. start r \<le> s) None rs = None"
  using assms by (cases rs) (auto simp: schedule_ok_def)

section \<open>Tick sizes\<close>

abbreviation tick_covered :: "krx_market_rules \<Rightarrow> date \<Rightarrow> bool" where
  "tick_covered rules s \<equiv> tick_effective_from (hd (tick_regimes rules)) \<le> s"

text \<open>The band table in force on a session.\<close>

definition table_at :: "krx_market_rules \<Rightarrow> date \<Rightarrow> krx_market \<Rightarrow> tick_band list" where
  "table_at rules s m = (case scan_last (\<lambda>r. tick_effective_from r \<le> s) None (tick_regimes rules) of
     Some r \<Rightarrow> (case map_of (tick_bands r) m of Some bs \<Rightarrow> bs | None \<Rightarrow> []) | None \<Rightarrow> [])"

lemma tick_size_table:
  assumes "rules_ok rules" "tick_covered rules s"
  shows "bands_ok (table_at rules s m)"
    and "0 < p \<Longrightarrow> tick_size rules s m p = Inr (tick_at (table_at rules s m) p)"
proof -
  have "schedule_ok tick_effective_from tick_regime_ok (tick_regimes rules)"
    using assms(1) by (simp add: rules_ok_def)
  then obtain r where r: "scan_last (\<lambda>r. tick_effective_from r \<le> s) None (tick_regimes rules) = Some r"
    "tick_regime_ok r" using assms(2) by (rule schedule_lookup)
  then obtain bs where bs: "map_of (tick_bands r) m = Some bs" "bands_ok bs" by (auto simp: tick_regime_ok_def)
  with r show "bands_ok (table_at rules s m)" by (simp add: table_at_def)
  assume "0 < p"
  with r bs show "tick_size rules s m p = Inr (tick_at (table_at rules s m) p)"
    by (simp add: tick_size_def tick_regime_at_def regime_or_fail_def dict_index_def choose_band_index
        table_at_def tick_at_def)
qed

text \<open>On a covered session the tick of a positive price is the tick of the one band whose price range
  holds it, in the table of the latest regime that has started; before coverage, or for a price that is
  not positive, the lookup fails with a data error.\<close>

theorem tick_size_is_the_band_of_the_price:
  assumes "rules_ok rules"
  shows "(tick_covered rules s \<and> 0 < p \<longrightarrow>
      (\<exists>regime \<in> set (tick_regimes rules). \<exists>bs k.
          tick_effective_from regime \<le> s
          \<and> (\<forall>r' \<in> set (tick_regimes rules). tick_effective_from r' \<le> s \<longrightarrow> tick_effective_from r' \<le> tick_effective_from regime)
          \<and> map_of (tick_bands regime) m = Some bs \<and> k < length bs \<and> lower_of bs k \<le> p
          \<and> (Suc k < length bs \<longrightarrow> p < lower_of bs (Suc k))
          \<and> tick_size rules s m p = Inr (band_tick (bs ! k)) \<and> 0 < band_tick (bs ! k)))
    \<and> (\<not> tick_covered rules s \<or> p \<le> 0 \<longrightarrow> (\<exists>msg. tick_size rules s m p = Inl (PITDataError msg)))"
proof (intro conjI impI)
  have sch: "schedule_ok tick_effective_from tick_regime_ok (tick_regimes rules)"
    using assms by (simp add: rules_ok_def)
  assume c: "tick_covered rules s \<and> 0 < p"
  then obtain r where r: "scan_last (\<lambda>r. tick_effective_from r \<le> s) None (tick_regimes rules) = Some r"
    "r \<in> set (tick_regimes rules)" "tick_regime_ok r" "tick_effective_from r \<le> s"
    "\<forall>r' \<in> set (tick_regimes rules). tick_effective_from r' \<le> s \<longrightarrow> tick_effective_from r' \<le> tick_effective_from r"
    using schedule_lookup [OF sch] by metis
  then obtain bs where bs: "map_of (tick_bands r) m = Some bs" "bands_ok bs" by (auto simp: tick_regime_ok_def)
  have "tick_size rules s m p = Inr (band_tick (bs ! band_index bs p))"
    using tick_size_table(2) [OF assms] c r bs by (simp add: table_at_def tick_at_def)
  moreover have "0 < band_tick (bs ! band_index bs p)" using tick_at_pos [OF bs(2), of p] c by (simp add: tick_at_def)
  ultimately show "\<exists>regime \<in> set (tick_regimes rules). \<exists>bs k.
          tick_effective_from regime \<le> s
          \<and> (\<forall>r' \<in> set (tick_regimes rules). tick_effective_from r' \<le> s \<longrightarrow> tick_effective_from r' \<le> tick_effective_from regime)
          \<and> map_of (tick_bands regime) m = Some bs \<and> k < length bs \<and> lower_of bs k \<le> p
          \<and> (Suc k < length bs \<longrightarrow> p < lower_of bs (Suc k))
          \<and> tick_size rules s m p = Inr (band_tick (bs ! k)) \<and> 0 < band_tick (bs ! k)"
    using r bs band_index_bounds [OF bs(2), of p] c by (intro bexI [of _ r] exI [of _ bs] exI [of _ "band_index bs p"]) auto
next
  assume "\<not> tick_covered rules s \<or> p \<le> 0"
  then show "\<exists>msg. tick_size rules s m p = Inl (PITDataError msg)"
    using assms schedule_uncovered [of tick_effective_from tick_regime_ok "tick_regimes rules" s]
    by (cases "p \<le> 0") (auto simp: tick_size_def rules_ok_def tick_regime_at_def regime_or_fail_def)
qed

section \<open>The quoting grid\<close>

text \<open>A table is aligned when every band starts on its own grid and on the grid of the band below, as the
  published KRX tables do.\<close>

definition aligned :: "tick_band list \<Rightarrow> bool" where
  "aligned bs \<longleftrightarrow> (\<forall>k < length bs. band_tick (bs ! k) dvd lower_of bs k
     \<and> (Suc k < length bs \<longrightarrow> band_tick (bs ! k) dvd lower_of bs (Suc k)))"

definition on_grid :: "tick_band list \<Rightarrow> int \<Rightarrow> bool" where
  "on_grid bs p \<longleftrightarrow> tick_at bs p dvd p"

definition floor_grid :: "tick_band list \<Rightarrow> int \<Rightarrow> int" where
  "floor_grid bs p = (p div tick_at bs p) * tick_at bs p"

definition ceil_grid :: "tick_band list \<Rightarrow> int \<Rightarrow> int" where
  "ceil_grid bs p = - ((- p) div tick_at bs p) * tick_at bs p"

lemma floor_multiple_le: "0 < t \<Longrightarrow> (p div t) * t \<le> (p::int)"
  by (metis div_mult_mod_eq le_add_same_cancel1 pos_mod_sign)

lemma floor_multiple_ge:
  assumes "0 < t" "t dvd (m::int)" "m \<le> p"
  shows "m \<le> (p div t) * t"
proof -
  obtain k where k: "m = t * k" using assms(2) by (auto simp: dvd_def)
  then have "k \<le> p div t" using zdiv_mono1 [OF assms(3,1)] assms(1) by simp
  then show ?thesis using k assms(1) by (simp add: mult_right_mono ac_simps)
qed

lemma ceil_multiple_ge: "0 < t \<Longrightarrow> (p::int) \<le> - ((- p) div t) * t"
  using floor_multiple_le [of t "- p"] by simp

lemma ceil_multiple_le:
  "0 < t \<Longrightarrow> t dvd (m::int) \<Longrightarrow> p \<le> m \<Longrightarrow> - ((- p) div t) * t \<le> m"
  using floor_multiple_ge [of t "- m" "- p"] by simp

lemma floor_grid_band:
  assumes "bands_ok bs" "aligned bs" "0 \<le> p"
  shows "band_index bs (floor_grid bs p) = band_index bs p" "0 \<le> floor_grid bs p" "floor_grid bs p \<le> p"
    and "lower_of bs (band_index bs p) \<le> floor_grid bs p"
proof -
  note b = band_index_bounds [OF assms(1,3)]
  have t: "0 < tick_at bs p" using tick_at_pos [OF assms(1,3)] .
  have "tick_at bs p dvd lower_of bs (band_index bs p)"
    using assms(2) b(1) by (simp add: aligned_def tick_at_def)
  then show lo: "lower_of bs (band_index bs p) \<le> floor_grid bs p"
    unfolding floor_grid_def using floor_multiple_ge [OF t] b(2) by blast
  show up: "floor_grid bs p \<le> p" unfolding floor_grid_def by (rule floor_multiple_le [OF t])
  show nn: "0 \<le> floor_grid bs p"
    unfolding floor_grid_def using t assms(3) by (simp add: pos_imp_zdiv_nonneg_iff)
  show "band_index bs (floor_grid bs p) = band_index bs p"
    using b lo up nn by (intro band_index_eqI [OF assms(1)]) fastforce+
qed

lemma floor_grid_on_grid: "bands_ok bs \<Longrightarrow> aligned bs \<Longrightarrow> 0 \<le> p \<Longrightarrow> on_grid bs (floor_grid bs p)"
  using floor_grid_band(1) [of bs p] by (simp add: on_grid_def tick_at_def) (simp add: floor_grid_def tick_at_def)

lemma floor_grid_ge_base:
  assumes "bands_ok bs" "aligned bs" "0 \<le> b" "b \<le> p" "on_grid bs b"
  shows "b \<le> floor_grid bs p"
proof (cases "band_index bs b = band_index bs p")
  case True
  have p: "0 \<le> p" using assms by simp
  then have "0 < tick_at bs p" by (rule tick_at_pos [OF assms(1)])
  moreover have "tick_at bs p dvd b" using True assms(5) by (simp add: on_grid_def tick_at_def)
  ultimately show ?thesis unfolding floor_grid_def using assms(4) by (intro floor_multiple_ge)
next
  case False
  have p: "0 \<le> p" using assms by simp
  have lt: "band_index bs b < band_index bs p"
    using False band_index_mono [OF assms(1,3,4)] by simp
  then have "b < lower_of bs (Suc (band_index bs b))"
    using band_index_bounds(3) [OF assms(1,3)] band_index_bounds(1) [OF assms(1) p] by simp
  also have "\<dots> \<le> lower_of bs (band_index bs p)"
    using lower_of_mono [OF assms(1), of "Suc (band_index bs b)" "band_index bs p"] lt
      band_index_bounds(1) [OF assms(1) p]
    by (cases "Suc (band_index bs b) = band_index bs p") auto
  also have "\<dots> \<le> floor_grid bs p" by (rule floor_grid_band(4) [OF assms(1,2) p])
  finally show ?thesis by simp
qed

lemma ceil_grid_bounds:
  assumes "bands_ok bs" "aligned bs" "0 \<le> p"
  shows "p \<le> ceil_grid bs p" "tick_at bs p dvd ceil_grid bs p"
    and "Suc (band_index bs p) < length bs \<Longrightarrow> ceil_grid bs p \<le> lower_of bs (Suc (band_index bs p))"
proof -
  have t: "0 < tick_at bs p" using tick_at_pos [OF assms(1,3)] .
  show "p \<le> ceil_grid bs p" unfolding ceil_grid_def by (rule ceil_multiple_ge [OF t])
  show "tick_at bs p dvd ceil_grid bs p" by (simp add: ceil_grid_def)
  assume s: "Suc (band_index bs p) < length bs"
  then have "tick_at bs p dvd lower_of bs (Suc (band_index bs p))"
    using assms(2) by (simp add: aligned_def tick_at_def)
  moreover have "p \<le> lower_of bs (Suc (band_index bs p))"
    using band_index_bounds(3) [OF assms(1,3) s] by simp
  ultimately show "ceil_grid bs p \<le> lower_of bs (Suc (band_index bs p))"
    unfolding ceil_grid_def by (intro ceil_multiple_le [OF t])
qed

lemma ceil_grid_on_grid:
  assumes "bands_ok bs" "aligned bs" "0 \<le> p"
  shows "on_grid bs (ceil_grid bs p)"
proof -
  let ?k = "band_index bs p" and ?c = "ceil_grid bs p"
  note c = ceil_grid_bounds [OF assms] and b = band_index_bounds [OF assms(1,3)]
  have c0: "0 \<le> ?c" using c(1) assms(3) by simp
  show ?thesis
  proof (cases "Suc ?k < length bs \<and> ?c = lower_of bs (Suc ?k)")
    case True
    have "band_index bs ?c = Suc ?k"
      using True lower_of_mono [OF assms(1), of "Suc ?k" "Suc (Suc ?k)"]
      by (intro band_index_eqI [OF assms(1) c0]) auto
    then show ?thesis using assms(2) True by (simp add: on_grid_def tick_at_def aligned_def)
  next
    case False
    have "band_index bs ?c = ?k"
      using False c b by (intro band_index_eqI [OF assms(1) c0]) fastforce+
    then show ?thesis using c(2) by (simp add: on_grid_def tick_at_def)
  qed
qed

lemma ceil_grid_le_base:
  assumes "bands_ok bs" "aligned bs" "0 \<le> p" "p \<le> b" "on_grid bs b"
  shows "ceil_grid bs p \<le> b"
proof (cases "band_index bs p = band_index bs b")
  case True
  then have "tick_at bs p dvd b" using assms(5) by (simp add: on_grid_def tick_at_def)
  then show ?thesis unfolding ceil_grid_def
    by (rule ceil_multiple_le [OF tick_at_pos [OF assms(1,3)] _ assms(4)])
next
  case False
  have b: "0 \<le> b" using assms by simp
  have lt: "band_index bs p < band_index bs b"
    using False band_index_mono [OF assms(1,3,4)] by simp
  then have s: "Suc (band_index bs p) < length bs"
    using band_index_bounds(1) [OF assms(1) b] by simp
  have "ceil_grid bs p \<le> lower_of bs (Suc (band_index bs p))"
    by (rule ceil_grid_bounds(3) [OF assms(1-3) s])
  also have "\<dots> \<le> lower_of bs (band_index bs b)"
    using lower_of_mono [OF assms(1), of "Suc (band_index bs p)" "band_index bs b"] lt
      band_index_bounds(1) [OF assms(1) b]
    by (cases "Suc (band_index bs p) = band_index bs b") auto
  also have "\<dots> \<le> b" by (rule band_index_bounds(2) [OF assms(1) b])
  finally show ?thesis .
qed

section \<open>Daily price limits\<close>

text \<open>With a ratio of at most four decimals the decimal quotient truncates exactly as the integer
  quotient does: the 28-digit rounding never reaches the next whole tick.\<close>

lemma dec_div_floor_exact:
  assumes "0 \<le> N" "N < 10 ^ 16" "0 < t" "t \<le> 10 ^ 6"
  shows "\<lfloor>dec_round (of_int N / 10 ^ 4 / of_int t)\<rfloor> = N div (10 ^ 4 * t)"
proof -
  define n where "n = N div (10 ^ 4 * t)"
  let ?q = "of_int N / 10 ^ 4 / (of_int t :: rat)"
  have T: "0 < 10 ^ 4 * t" using assms by simp
  have N: "N = 10 ^ 4 * t * n + N mod (10 ^ 4 * t)" by (simp add: n_def)
  have m: "0 \<le> N mod (10 ^ 4 * t)" "N mod (10 ^ 4 * t) < 10 ^ 4 * t" using T by simp_all
  have n0: "0 \<le> n" using assms(1) T by (simp add: n_def pos_imp_zdiv_nonneg_iff)
  have "1 * n \<le> 10 ^ 4 * t * n" using T n0 by (intro mult_right_mono) simp_all
  then have n1: "n < 10 ^ 16" using N m assms(2) by linarith
  have "of_int (10 ^ 4 * t * n) \<le> (of_int N :: rat)" using N m by (simp only: of_int_le_iff)
  then have "of_int n \<le> ?q" using assms(3) by (simp add: field_simps)
  then have "dec_round (of_int n) \<le> dec_round ?q" by (rule dec_round_mono)
  then have lo: "of_int n \<le> dec_round ?q" using n0 n1 by (simp add: dec_round_of_int)
  have "N \<le> 10 ^ 4 * t * (n + 1) - 1" using N m by (simp add: algebra_simps)
  then have "(of_int N :: rat) \<le> of_int (10 ^ 4 * t * (n + 1) - 1)" by (simp only: of_int_le_iff)
  then have "?q \<le> of_int n + 1 - 1 / (10 ^ 4 * of_int t)" using assms(3) by (simp add: field_simps)
  also have "\<dots> \<le> of_int n + 1 - 1 / 10 ^ 10"
  proof -
    have "(of_int t :: rat) \<le> of_int (10 ^ 6)" using assms(4) by (simp only: of_int_le_iff)
    then show ?thesis using assms(3) by (simp add: field_simps)
  qed
  also have "\<dots> = of_int ((n + 1) * 10 ^ 10 - 1) / 10 ^ 10" by (simp add: field_simps)
  finally have "dec_round ?q \<le> dec_round (of_int ((n + 1) * 10 ^ 10 - 1) / 10 ^ 10)" by (rule dec_round_mono)
  also have "\<dots> = of_int ((n + 1) * 10 ^ 10 - 1) / 10 ^ 10"
    using n0 n1 by (intro dec_round_exact) simp_all
  also have "\<dots> < of_int n + 1" by (simp add: field_simps)
  finally have "dec_round ?q < of_int n + 1" .
  with lo have "\<lfloor>dec_round ?q\<rfloor> = n" by (simp only: floor_eq_iff)
  then show ?thesis by (simp only: n_def)
qed

lemma limit_width_exact:
  assumes "0 < base" "base < 10 ^ 12" "0 < r" "r < 10 ^ 4" "0 < t" "t \<le> 10 ^ 6"
  shows "limit_width base (of_int r / 10 ^ 4) t = Inr ((base * r) div (10 ^ 4 * t) * t)"
proof -
  have N: "0 \<le> base * r" "base * r < 10 ^ 16"
    using assms mult_strict_mono [of base "10 ^ 12" r "10 ^ 4"] by simp_all
  then have mul: "dec_mul (of_int base) (of_int r / 10 ^ 4) = of_int (base * r) / 10 ^ 4"
    using dec_round_exact [of "base * r" 4] by (simp add: dec_mul_def)
  show ?thesis
    using dec_div_floor_exact [OF N assms(5,6)] assms(5)
    unfolding limit_width_def mul by (simp add: dec_div_def dec_floor_def)
qed

lemma limit_width_bounds:
  fixes base r t :: int
  assumes "0 < base" "0 < r" "r < 10 ^ 4" "0 < t"
  defines "w \<equiv> (base * r) div (10 ^ 4 * t) * t"
  shows "0 \<le> w" "w < base" "w * 10 ^ 4 \<le> base * r" "t dvd w"
proof -
  have T: "0 < 10 ^ 4 * t" using assms by simp
  show "0 \<le> w" using assms T by (simp add: w_def pos_imp_zdiv_nonneg_iff)
  show le: "w * 10 ^ 4 \<le> base * r"
    using floor_multiple_le [OF T, of "base * r"] by (simp add: w_def ac_simps)
  have "base * r < base * 10 ^ 4" using assms by (intro mult_strict_left_mono)
  then show "w < base" using le by simp
  show "t dvd w" by (simp add: w_def)
qed

lemma limit_in_force_ok:
  assumes "rules_ok rules" "price_limit_regime_at rules s = Inr limit"
  shows "limit_regime_ok limit"
proof -
  have sch: "schedule_ok limit_effective_from limit_regime_ok (price_limit_regimes rules)"
    using assms(1) by (simp add: rules_ok_def)
  have scan: "scan_last (\<lambda>r. limit_effective_from r \<le> s) None (price_limit_regimes rules) = Some limit"
    using assms(2) by (auto simp: price_limit_regime_at_def regime_or_fail_def split: option.splits)
  with schedule_uncovered [OF sch] have "limit_effective_from (hd (price_limit_regimes rules)) \<le> s"
    by (metis linorder_not_le option.distinct(1))
  from schedule_lookup [OF sch this] scan show ?thesis by (metis option.inject)
qed

text \<open>Bounds around a base price on the grid, snapped inward, stay around it and on the grid.\<close>

lemma snapped_bounds:
  assumes ok: "bands_ok bs" "aligned bs" and base: "on_grid bs base" and w: "0 \<le> w" "w < base"
  shows "base \<le> floor_grid bs (base + w) \<and> floor_grid bs (base + w) \<le> base + w \<and> on_grid bs (floor_grid bs (base + w))
    \<and> ceil_grid bs (base - w) \<le> base \<and> base - w \<le> ceil_grid bs (base - w) \<and> on_grid bs (ceil_grid bs (base - w))
    \<and> tick_at bs (base - w) \<le> ceil_grid bs (base - w)"
proof -
  have pos: "0 \<le> base + w" "0 \<le> base - w" "0 \<le> base" "base \<le> base + w" "base - w \<le> base" using w by simp_all
  have c: "base - w \<le> ceil_grid bs (base - w)" "tick_at bs (base - w) dvd ceil_grid bs (base - w)"
    using ceil_grid_bounds [OF ok pos(2)] by simp_all
  then have "tick_at bs (base - w) \<le> ceil_grid bs (base - w)" using w by (intro zdvd_imp_le) simp_all
  with c show ?thesis
    using floor_grid_ge_base [OF ok pos(3,4) base] floor_grid_band(3) [OF ok pos(1)] floor_grid_on_grid [OF ok pos(1)]
      ceil_grid_le_base [OF ok pos(2,5) base] ceil_grid_on_grid [OF ok pos(2)] by simp
qed

text \<open>C30. The daily limits of a base price that lies on its quoting grid always exist; they surround the
  base price, are positive, lie on the quoting grid at their own price level, and deviate from the base
  by no more than the regime ratio. The hypotheses are the shape of the published rules: aligned tick
  tables with ticks up to a million, a ratio given to four decimals, and prices below a trillion won.\<close>

theorem price_limits_on_grid_around_base:
  assumes "rules_ok rules" "tick_covered rules s" "price_limit_regime_at rules s = Inr limit"
    and "limit_ratio limit = of_int r / 10 ^ 4" "aligned (table_at rules s m)"
    and "0 < base" "base < 10 ^ 12" "on_grid (table_at rules s m) base" "tick_at (table_at rules s m) base \<le> 10 ^ 6"
  shows "\<exists>upper lower. price_limits rules s m base = Inr (upper, lower)
    \<and> 0 < lower \<and> lower \<le> base \<and> base \<le> upper
    \<and> on_grid (table_at rules s m) upper \<and> on_grid (table_at rules s m) lower
    \<and> (upper - base) * 10 ^ 4 \<le> base * r \<and> (base - lower) * 10 ^ 4 \<le> base * r"
proof -
  let ?bs = "table_at rules s m" and ?t = "tick_at (table_at rules s m) base"
  define w where "w = (base * r) div (10 ^ 4 * ?t) * ?t"
  have ok: "bands_ok ?bs" by (rule tick_size_table(1) [OF assms(1,2)])
  note ticks = tick_size_table(2) [OF assms(1,2)]
  have t: "0 < ?t" using tick_at_pos [OF ok] assms(6) by simp
  have "0 < (of_int r :: rat)" "(of_int r :: rat) < of_int (10 ^ 4)"
    using limit_in_force_ok [OF assms(1,3)] unfolding limit_regime_ok_def assms(4) by simp_all
  then have r: "0 < r" "r < 10 ^ 4" by (simp_all only: of_int_0_less_iff of_int_less_iff)
  note w = limit_width_bounds [OF assms(6) r t, folded w_def]
  have width: "limit_width base (limit_ratio limit) ?t = Inr w"
    unfolding assms(4) w_def using limit_width_exact assms(6,7,9) r t by blast
  note g = snapped_bounds [OF ok assms(5,8) w(1,2)]
  have "price_limits rules s m base = Inr (floor_grid ?bs (base + w), ceil_grid ?bs (base - w))"
    using assms(3,6) w g by (simp add: price_limits_def ticks width Let_def floor_grid_def ceil_grid_def)
  with g w(1-3) show ?thesis by (intro exI [of _ "floor_grid ?bs (base + w)"] exI [of _ "ceil_grid ?bs (base - w)"]) auto
qed

section \<open>The published rules\<close>

text \<open>An excerpt of the repository's rules file, as \<open>tomllib\<close> decodes it.\<close>

definition toml_band :: "int \<Rightarrow> int \<Rightarrow> pyval" where
  "toml_band l t = PMap [(''lower'', PInt l), (''tick'', PInt t)]"

definition toml_bands :: pyval where
  "toml_bands = PList [toml_band 0 1, toml_band 2000 5, toml_band 5000 10, toml_band 20000 50,
     toml_band 50000 100, toml_band 200000 500, toml_band 500000 1000]"

definition toml_rules :: pyval where
  "toml_rules = PMap [(''version'', PStr ''krx-market-rules-v1''), (''sources'', PList [PStr ''KRX notice'']),
     (''tick_regimes'', PList [PMap [(''effective_from'', PDate (Date 2023 1 25)), (''KOSPI'', toml_bands), (''KOSDAQ'', toml_bands)]]),
     (''sell_tax_regimes'', PList
       [PMap [(''effective_from'', PDate (Date 2025 1 1)), (''KOSPI'', PStr ''0.0015''), (''KOSDAQ'', PStr ''0.0015'')],
        PMap [(''effective_from'', PStr ''2026-01-01''), (''KOSPI'', PStr ''0.0020''), (''KOSDAQ'', PStr ''0.0020'')]]),
     (''price_limit_regimes'', PList [PMap [(''effective_from'', PDate (Date 2015 6 15)), (''ratio'', PStr ''0.30'')]])]"

definition published :: krx_market_rules where
  "published = (case parse_krx_market_rules toml_rules of Inr r \<Rightarrow> r)"

lemma published_parses: "parse_krx_market_rules toml_rules = Inr published"
  by code_simp

theorem parse_accepts_only_valid_rules_witness: "rules_ok published \<and> rules_version published = REVISION"
  by (rule parse_accepts_only_valid_rules [OF published_parses])

lemma published_ok: "rules_ok published"
  using parse_rules_ok [OF published_parses] by simp

theorem tick_size_is_the_band_of_the_price_witness:
  "(\<exists>regime \<in> set (tick_regimes published). \<exists>bs k. map_of (tick_bands regime) KOSPI = Some bs \<and> lower_of bs k \<le> 25000
      \<and> tick_size published (Date 2026 3 2) KOSPI 25000 = Inr (band_tick (bs ! k)))
   \<and> tick_size published (Date 2026 3 2) KOSPI 25000 = Inr 50"
proof -
  have c: "tick_covered published (Date 2026 3 2)" by code_simp
  have v: "tick_size published (Date 2026 3 2) KOSPI 25000 = Inr 50" by code_simp
  show ?thesis
    using tick_size_is_the_band_of_the_price [OF published_ok, of "Date 2026 3 2" 25000 KOSPI] c v by fastforce
qed

theorem price_limits_on_grid_around_base_witness:
  "\<exists>upper lower. price_limits published (Date 2026 3 2) KOSDAQ 19990 = Inr (upper, lower)
    \<and> lower \<le> 19990 \<and> 19990 \<le> upper \<and> upper = 25950 \<and> lower = 14000"
proof -
  let ?s = "Date 2026 3 2"
  define limit where "limit = \<lparr>limit_effective_from = Date 2015 6 15, limit_ratio = 3 / 10\<rparr>"
  have c: "tick_covered published ?s" by code_simp
  have l: "price_limit_regime_at published ?s = Inr limit" unfolding limit_def by code_simp
  have r: "limit_ratio limit = of_int 3000 / 10 ^ 4" by (simp add: limit_def)
  have tab: "table_at published ?s KOSDAQ = [\<lparr>lower_price_inclusive = 0, band_tick = 1\<rparr>,
      \<lparr>lower_price_inclusive = 2000, band_tick = 5\<rparr>, \<lparr>lower_price_inclusive = 5000, band_tick = 10\<rparr>,
      \<lparr>lower_price_inclusive = 20000, band_tick = 50\<rparr>, \<lparr>lower_price_inclusive = 50000, band_tick = 100\<rparr>,
      \<lparr>lower_price_inclusive = 200000, band_tick = 500\<rparr>, \<lparr>lower_price_inclusive = 500000, band_tick = 1000\<rparr>]"
    by code_simp
  have a: "aligned (table_at published ?s KOSDAQ)"
    unfolding tab by (simp add: aligned_def All_less_Suc)
  have g: "on_grid (table_at published ?s KOSDAQ) 19990" "tick_at (table_at published ?s KOSDAQ) 19990 \<le> 10 ^ 6"
    unfolding tab by code_simp+
  have ticks: "tick_size published ?s KOSDAQ 19990 = Inr 10" "tick_size published ?s KOSDAQ 25980 = Inr 50"
    "tick_size published ?s KOSDAQ 14000 = Inr 10" by code_simp+
  have "limit_width 19990 (limit_ratio limit) 10 = Inr 5990"
    by (simp add: limit_def limit_width_def dec_div_def num_eval)
  then have v: "price_limits published ?s KOSDAQ 19990 = Inr (25950, 14000)"
    by (simp add: price_limits_def l ticks)
  show ?thesis
    using price_limits_on_grid_around_base [OF published_ok c l r a _ _ g] v by auto
qed

end
