(* ===== verification/SessionTime.thy ===== *)
theory SessionTime
  imports Dates
begin

text \<open>
  Sessions and point-in-time bundles (\<open>src/core/time.py\<close>) and the XKRX session calendar
  (\<open>src/core/krx_calendar.py\<close>).

  An aware datetime is its instant, in microseconds from 0001-01-01 00:00 UTC, so that Python's order
  on aware datetimes is the order of instants; a naive one is kept apart because \<open>advance\<close> rejects it.
  The zone data of Asia/Seoul and the \<open>exchange_calendars\<close> package are not part of the repository: the
  UTC offset in force at an instant, the session labels and their opens are parameters.
\<close>

section \<open>Instants and local time\<close>

datatype py_datetime = Aware (instant: int) | Naive int

type_synonym zone = "int \<Rightarrow> int"

definition day_us :: int where
  "day_us = 86400000000"

definition local_time :: "zone \<Rightarrow> int \<Rightarrow> int" where
  "local_time tz t = (t + tz t) mod day_us"

definition local_date :: "zone \<Rightarrow> int \<Rightarrow> date" where
  "local_date tz t = date_of_ordinal ((t + tz t) div day_us + 1)"

record session_t =
  session_name :: string
  open_time :: int
  close_time :: int
  session_zone :: zone

definition in_session :: "session_t \<Rightarrow> int \<Rightarrow> bool" where
  "in_session s when =
     (let t = local_time (session_zone s) when in open_time s \<le> t \<and> t \<le> close_time s)"

definition KRX_DAILY :: "zone \<Rightarrow> session_t" where
  "KRX_DAILY tz = \<lparr>session_name = ''KRX_DAILY'', open_time = 9 * 3600000000, close_time = (15 * 60 + 30) * 60000000,
     session_zone = tz\<rparr>"

section \<open>Session calendars\<close>

record session_calendar =
  sessions :: "int list"

text \<open>The adjacent-pair scan of \<open>__post_init__\<close>.\<close>

fun any_not_increasing :: "int list \<Rightarrow> bool" where
  "any_not_increasing (a # b # rest) \<longleftrightarrow> a \<ge> b \<or> any_not_increasing (b # rest)"
| "any_not_increasing _ \<longleftrightarrow> False"

definition session_calendar_init :: "int list \<Rightarrow> session_calendar res" where
  "session_calendar_init ss =
     guard (any_not_increasing ss) (ValueError ''sessions must be strictly increasing'') (Inr \<lparr>sessions = ss\<rparr>)"

fun index_from :: "nat \<Rightarrow> int list \<Rightarrow> int \<Rightarrow> nat" where
  "index_from i [] when = i"
| "index_from i (s # ss) when = (if s \<ge> when then i else index_from (Suc i) ss when)"

definition index_of :: "session_calendar \<Rightarrow> int \<Rightarrow> nat" where
  "index_of cal when = index_from 0 (sessions cal) when"

definition sessions_between :: "session_calendar \<Rightarrow> int \<Rightarrow> int \<Rightarrow> int list" where
  "sessions_between cal start stop =
     (let lo = index_of cal start; hi = index_of cal stop in drop lo (take hi (sessions cal)))"

fun list_index :: "'a list \<Rightarrow> 'a \<Rightarrow> nat option" where
  "list_index [] x = None"
| "list_index (y # ys) x = (if y = x then Some 0 else map_option Suc (list_index ys x))"

definition advance :: "zone \<Rightarrow> session_calendar \<Rightarrow> py_datetime \<Rightarrow> int \<Rightarrow> int res" where
  "advance tz cal when count =
     (case when of Naive _ \<Rightarrow> Inl (ValueError ''when must be aware datetime'')
      | Aware t \<Rightarrow>
        guard (count < 0) (ValueError ''count must be non-negative'') (
        case list_index (map (local_date tz) (sessions cal)) (local_date tz t) of
          None \<Rightarrow> Inl (ValueError ''session not found'')
        | Some idx \<Rightarrow>
            guard (int idx + count \<ge> int (length (sessions cal)))
              (ValueError ''coverage exhausted: not enough future sessions'')
              (Inr (sessions cal ! (idx + nat count)))))"

section \<open>Point-in-time bundles\<close>

record point_in_time =
  observation_time :: int
  available_time :: int
  decision_time :: int
  execution_time :: int

definition point_in_time_init :: "point_in_time \<Rightarrow> point_in_time res" where
  "point_in_time_init p =
     guard (observation_time p > available_time p)
       (TemporalViolationError ''observation_time must not be after available_time'') (
     guard (available_time p > decision_time p)
       (TemporalViolationError ''available_time must not be after decision_time'') (
     guard (decision_time p > execution_time p)
       (TemporalViolationError ''decision_time must not be after execution_time'') (
     Inr p)))"

section \<open>The exchange calendar\<close>

record exchange_calendar =
  labels :: "date list"
  session_open :: "date \<Rightarrow> py_datetime"

fun collect_opens :: "exchange_calendar \<Rightarrow> date \<Rightarrow> date \<Rightarrow> date list \<Rightarrow> int list res" where
  "collect_opens cal lo hi [] = Inr []"
| "collect_opens cal lo hi (d # ds) =
     (if lo \<le> d \<and> d \<le> hi then
        (case session_open cal d of
           Naive _ \<Rightarrow> Inl (ValueError ''XKRX session open is naive'')
         | Aware t \<Rightarrow> res_bind (collect_opens cal lo hi ds) (\<lambda>ts. Inr (t # ts)))
      else collect_opens cal lo hi ds)"

definition session_opens :: "exchange_calendar \<Rightarrow> date \<Rightarrow> date \<Rightarrow> session_calendar res" where
  "session_opens cal lo hi =
     res_bind (collect_opens cal lo hi (labels cal)) (\<lambda>opens.
     guard (opens = []) (ValueError ''no XKRX session in range'') (session_calendar_init (sort opens)))"

definition outside_range :: "date option \<Rightarrow> date \<Rightarrow> date \<Rightarrow> bool" where
  "outside_range d first last_day = (case d of None \<Rightarrow> False | Some x \<Rightarrow> x < first \<or> x > last_day)"

definition xkrx_session_calendar :: "exchange_calendar \<Rightarrow> date option \<Rightarrow> date option \<Rightarrow> session_calendar res" where
  "xkrx_session_calendar cal start stop =
     guard (labels cal = []) (IndexError ''list index out of range'') (
     let first_day = hd (labels cal); last_day = last (labels cal) in
     guard (case (start, stop) of (Some a, Some b) \<Rightarrow> a > b | _ \<Rightarrow> False) (ValueError ''start is after end'') (
     guard (outside_range start first_day last_day) (ValueError ''start lies outside the XKRX range'') (
     guard (outside_range stop first_day last_day) (ValueError ''end lies outside the XKRX range'') (
     session_opens cal (case start of None \<Rightarrow> first_day | Some a \<Rightarrow> a)
       (case stop of None \<Rightarrow> last_day | Some b \<Rightarrow> b)))))"

text \<open>\<open>get_calendar\<close> takes the calendar built from the fixed start to the given end, as ISO texts.\<close>

definition xkrx_calendar_through :: "(date \<Rightarrow> date \<Rightarrow> exchange_calendar) \<Rightarrow> date \<Rightarrow> session_calendar res" where
  "xkrx_calendar_through get_calendar d =
     res_bind (mk_date (year d + 1) 12 31) (\<lambda>horizon.
     session_opens (get_calendar (Date 2000 1 1) horizon) (Date 2000 1 1) horizon)"

section \<open>Laws\<close>

lemma any_not_increasing_iff: "\<not> any_not_increasing ss \<longleftrightarrow> sorted_wrt (<) ss"
proof (induction ss rule: any_not_increasing.induct)
  case (1 a b rest)
  then show ?case by (fastforce simp: not_le)
qed auto

lemma session_calendar_init_Inr:
  "session_calendar_init ss = Inr cal \<longleftrightarrow> sorted_wrt (<) ss \<and> cal = \<lparr>sessions = ss\<rparr>"
  by (auto simp: session_calendar_init_def res_simps any_not_increasing_iff)

lemma index_from_le: "i \<le> index_from i ss when"
  by (induction ss arbitrary: i) (auto, metis Suc_leD)

lemma index_from_split:
  "sorted_wrt (<) ss \<Longrightarrow> index_from i ss when = i + length (filter (\<lambda>s. s < when) ss)"
proof (induction ss arbitrary: i)
  case (Cons s ss)
  show ?case
  proof (cases "s \<ge> when")
    case True
    then have "filter (\<lambda>s. s < when) ss = []" using Cons.prems by (auto simp: filter_empty_conv)
    with True show ?thesis by simp
  next
    case False
    with Cons show ?thesis by simp
  qed
qed simp

lemma take_filter_less:
  "sorted_wrt (<) (ss::int list) \<Longrightarrow> take (length (filter (\<lambda>s. s < when) ss)) ss = filter (\<lambda>s. s < when) ss"
proof (induction ss)
  case (Cons s ss)
  show ?case
  proof (cases "s < when")
    case False
    then have "filter (\<lambda>s. s < when) ss = []" using Cons.prems by (auto simp: filter_empty_conv)
    with False show ?thesis by simp
  qed (use Cons in simp)
qed simp

lemma drop_filter_less:
  "sorted_wrt (<) (ss::int list) \<Longrightarrow> drop (length (filter (\<lambda>s. s < when) ss)) ss = filter (\<lambda>s. when \<le> s) ss"
proof (induction ss)
  case (Cons s ss)
  show ?case
  proof (cases "s < when")
    case False
    then have "filter (\<lambda>s. s < when) ss = []" "filter (\<lambda>s. when \<le> s) ss = ss"
      using Cons.prems by (auto simp: filter_empty_conv filter_id_conv)
    with False show ?thesis by simp
  qed (use Cons in simp)
qed simp

text \<open>On a validated calendar the index of an instant is the number of sessions before it, and the
  sessions between two instants are exactly those not before the start and before the end, in
  order.\<close>

theorem sessions_between_is_the_half_open_range:
  assumes "session_calendar_init ss = Inr cal" "start \<le> stop"
  shows "index_of cal start = length (filter (\<lambda>s. s < start) ss)
    \<and> sessions_between cal start stop = filter (\<lambda>s. start \<le> s \<and> s < stop) ss"
proof -
  have s: "sorted_wrt (<) ss" "sessions cal = ss" using assms(1) by (auto simp: session_calendar_init_Inr)
  have idx: "index_of cal w = length (filter (\<lambda>s. s < w) ss)" for w
    using s by (simp add: index_of_def index_from_split)
  have "filter (\<lambda>s. s < start) (filter (\<lambda>s. s < stop) ss) = filter (\<lambda>s. s < start) ss"
    using assms(2) by (auto intro: filter_cong)
  moreover have "sorted_wrt (<) (filter (\<lambda>s. s < stop) ss)" using s(1) by (rule sorted_wrt_filter)
  ultimately have "sessions_between cal start stop = filter (\<lambda>s. start \<le> s) (filter (\<lambda>s. s < stop) ss)"
    using drop_filter_less [of "filter (\<lambda>s. s < stop) ss" start] take_filter_less [OF s(1), of stop] s(2)
    by (simp add: sessions_between_def idx)
  then show ?thesis using idx by (simp add: conj_commute)
qed

theorem sessions_between_is_the_half_open_range_witness:
  "sessions_between \<lparr>sessions = [10, 20, 30]\<rparr> 15 30 = filter (\<lambda>s. 15 \<le> s \<and> s < 30) [10, 20, 30]"
  using sessions_between_is_the_half_open_range [of "[10, 20, 30]" "\<lparr>sessions = [10, 20, 30]\<rparr>" 15 30]
  by (simp add: session_calendar_init_def)

lemma list_index_Some:
  "list_index xs x = Some i \<longleftrightarrow> i < length xs \<and> xs ! i = x \<and> (\<forall>j < i. xs ! j \<noteq> x)"
proof (induction xs arbitrary: i)
  case (Cons y ys)
  show ?case
  proof (cases "y = x")
    case True
    then show ?thesis by (cases i) (auto intro!: exI [of _ 0])
  next
    case False
    with Cons show ?thesis by (cases i) (auto simp: less_Suc_eq_0_disj)
  qed
qed simp

lemma list_index_None: "list_index xs x = None \<longleftrightarrow> x \<notin> set xs"
  by (induction xs) auto

text \<open>When the calendar has one session per Seoul calendar day, advancing from any instant of
  session \<open>i\<close>'s day by \<open>n\<close> lands on session \<open>i + n\<close>, and advancing twice is advancing by the sum;
  a naive instant, a negative count, a day without a session or a horizon beyond the calendar is an
  error, never a wrapped or clamped answer.\<close>

theorem advance_counts_sessions:
  assumes "distinct (map (local_date tz) (sessions cal))" "i < length (sessions cal)"
    and "local_date tz t = local_date tz (sessions cal ! i)"
  shows "(i + n < length (sessions cal) \<longrightarrow> advance tz cal (Aware t) (int n) = Inr (sessions cal ! (i + n)))
    \<and> (length (sessions cal) \<le> i + n \<longrightarrow> (\<exists>e. advance tz cal (Aware t) (int n) = Inl e))
    \<and> (i + n < length (sessions cal) \<longrightarrow>
        advance tz cal (Aware (sessions cal ! (i + n))) (int m) = advance tz cal (Aware t) (int (n + m)))
    \<and> (\<exists>e. advance tz cal (Naive t) (int n) = Inl e) \<and> (\<exists>e. advance tz cal (Aware t) (- 1 - int n) = Inl e)"
proof -
  have "list_index (map (local_date tz) (sessions cal)) (local_date tz (sessions cal ! k)) = Some k"
    if "k < length (sessions cal)" for k
    using that assms(1) by (simp add: list_index_Some distinct_conv_nth)
  then have adv: "advance tz cal (Aware u) (int k) = (if j + k < length (sessions cal) then Inr (sessions cal ! (j + k))
      else Inl (ValueError ''coverage exhausted: not enough future sessions''))"
    if "j < length (sessions cal)" "local_date tz u = local_date tz (sessions cal ! j)" for j u k
    using that by (simp add: advance_def guard_def)
  have "\<exists>e. advance tz cal (Naive t) (int n) = Inl e" "\<exists>e. advance tz cal (Aware t) (- 1 - int n) = Inl e"
    by (simp_all add: advance_def)
  then show ?thesis
    using adv [OF assms(2,3)] adv [OF _ refl, of "i + n" m] by (simp add: add.assoc del: of_nat_add)
qed

theorem advance_counts_sessions_witness:
  "advance (\<lambda>_. 32400000000) \<lparr>sessions = [day_us, 2 * day_us, 5 * day_us]\<rparr> (Aware (2 * day_us + 7)) 1
   = Inr (5 * day_us)"
proof -
  let ?cal = "\<lparr>sessions = [day_us, 2 * day_us, 5 * day_us]\<rparr>"
  have "distinct (map (local_date (\<lambda>_. 32400000000)) (sessions ?cal))"
    "local_date (\<lambda>_. 32400000000) (2 * day_us + 7) = local_date (\<lambda>_. 32400000000) (sessions ?cal ! 1)" by code_simp+
  from advance_counts_sessions [OF this(1) _ this(2), of 1] show ?thesis by simp
qed

text \<open>A point-in-time bundle is accepted exactly when observation, availability, decision and
  execution follow one another, and it is kept unchanged.\<close>

theorem point_in_time_ordering:
  "point_in_time_init p = Inr q \<longleftrightarrow> q = p \<and> observation_time p \<le> available_time p
     \<and> available_time p \<le> decision_time p \<and> decision_time p \<le> execution_time p"
  by (auto simp: point_in_time_init_def res_simps)

text \<open>The opens collected from an aware exchange calendar are those of the labels in the range.\<close>

lemma collect_opens_Inr:
  "collect_opens cal lo hi ds = Inr ts \<Longrightarrow>
   ts = map (\<lambda>d. instant (session_open cal d)) (filter (\<lambda>d. lo \<le> d \<and> d \<le> hi) ds)"
  by (induction ds arbitrary: ts) (auto simp: res_simps split: py_datetime.splits if_splits)

text \<open>The XKRX calendar handed out holds exactly the session opens whose label lies between the
  bounds, strictly increasing and at least one; bounds outside the exchange calendar's range, or in the
  wrong order, are refused.\<close>

theorem xkrx_session_calendar_exact:
  assumes "xkrx_session_calendar cal start stop = Inr c"
  shows "sorted_wrt (<) (sessions c) \<and> sessions c \<noteq> []
    \<and> set (sessions c) = {instant (session_open cal d) | d. d \<in> set (labels cal)
          \<and> (\<forall>a. start = Some a \<longrightarrow> a \<le> d) \<and> (\<forall>b. stop = Some b \<longrightarrow> d \<le> b)
          \<and> (start = None \<longrightarrow> hd (labels cal) \<le> d) \<and> (stop = None \<longrightarrow> d \<le> last (labels cal))}
    \<and> (\<forall>a b. start = Some a \<and> stop = Some b \<longrightarrow> a \<le> b)"
proof -
  define lo hi where "lo = (case start of None \<Rightarrow> hd (labels cal) | Some a \<Rightarrow> a)"
    and "hi = (case stop of None \<Rightarrow> last (labels cal) | Some b \<Rightarrow> b)"
  from assms have s: "session_opens cal lo hi = Inr c" and ab: "\<forall>a b. start = Some a \<and> stop = Some b \<longrightarrow> a \<le> b"
    by (auto simp: xkrx_session_calendar_def Let_def res_simps lo_def hi_def)
  then obtain ts where ts: "collect_opens cal lo hi (labels cal) = Inr ts" "ts \<noteq> []"
    "session_calendar_init (sort ts) = Inr c" by (auto simp: session_opens_def res_simps)
  have "sessions c = sort ts" "sorted_wrt (<) (sort ts)" using ts(3) by (auto simp: session_calendar_init_Inr)
  moreover have "set ts = {instant (session_open cal d) | d. d \<in> set (labels cal) \<and> lo \<le> d \<and> d \<le> hi}"
    using collect_opens_Inr [OF ts(1)] by auto
  moreover have "sort ts \<noteq> []" using ts(2) by (metis set_empty set_sort)
  ultimately show ?thesis using ab by (cases start; cases stop) (auto simp: lo_def hi_def)
qed

definition demo_calendar :: exchange_calendar where
  "demo_calendar = \<lparr>labels = [Date 2026 3 2, Date 2026 3 3, Date 2026 3 4],
     session_open = (\<lambda>d. Aware ((toordinal d - 1) * day_us))\<rparr>"

theorem xkrx_session_calendar_exact_witness:
  "\<exists>c. xkrx_session_calendar demo_calendar (Some (Date 2026 3 3)) None = Inr c
     \<and> sorted_wrt (<) (sessions c) \<and> length (sessions c) = 2"
proof -
  let ?c = "\<lparr>sessions = [(toordinal (Date 2026 3 3) - 1) * day_us, (toordinal (Date 2026 3 4) - 1) * day_us]\<rparr>"
  have c: "xkrx_session_calendar demo_calendar (Some (Date 2026 3 3)) None = Inr ?c" by code_simp
  from xkrx_session_calendar_exact [OF c] c show ?thesis by (intro exI [of _ ?c]) simp
qed

end
