(* ===== verification/FillPricing.thy ===== *)
theory FillPricing
  imports Costs MarketRules
begin

text \<open>
  Pricing and sizing of orders at the next session's auction (\<open>src/backtest/execution.py\<close>) over the
  dense market arrays (\<open>MarketArrays\<close> of \<open>src/backtest/market.py\<close>).

  An array is a list of rows; \<open>cell\<close> indexes it as NumPy does, a negative index counting from the
  end. The named field dictionaries of \<open>MarketArrays\<close> are record fields; \<open>entry_blocked\<close> is looked up
  with \<open>get\<close> in the source and may be absent. Prices are int64 and convert to floats without error.
\<close>

section \<open>Data\<close>

datatype execution_scenario = OPEN_AUCTION | CLOSE_AUCTION | VWAP_PROXY

record execution_config =
  scenario :: execution_scenario
  max_participation :: pyfloat
  carry_unfilled :: bool

record order_t =
  o_instrument :: int
  o_side :: side
  o_quantity :: int
  o_decision :: int

record fill_t =
  f_order :: order_t
  f_quantity :: int
  f_price :: int

datatype reject_reason = MissingPrice | Halted | EntryBlocked | LimitLocked | Capacity | NoVolatility | CashShort | Delisted

record reject_t =
  r_order :: order_t
  r_reason :: reject_reason

record market_arrays =
  ma_sessions :: "date list"
  ma_instruments :: "string list"
  ma_open :: "int list list"
  ma_high :: "int list list"
  ma_low :: "int list list"
  ma_close :: "int list list"
  ma_base_price :: "int list list"
  ma_volume :: "int list list"
  ma_upper_limit :: "int list list"
  ma_lower_limit :: "int list list"
  ma_sell_tax_rate :: "pyfloat list list"
  ma_adtv20 :: "pyfloat list list"
  ma_ret_vol60 :: "pyfloat list list"
  ma_share_factor :: "pyfloat list list"
  ma_present :: "bool list list"
  ma_open_at_upper :: "bool list list"
  ma_open_at_lower :: "bool list list"
  ma_entry_blocked :: "bool list list option"
  ma_market :: "int list list"

definition cell :: "'a list list \<Rightarrow> int \<Rightarrow> int \<Rightarrow> 'a res" where
  "cell m t n = res_bind (array_get m t) (\<lambda>row. array_get row n)"

section \<open>Reading the market\<close>

definition market_at :: "market_arrays \<Rightarrow> int \<Rightarrow> int \<Rightarrow> krx_market res" where
  "market_at arrays t n = res_bind (cell (ma_market arrays) t n) (\<lambda>c.
     if c = 1 then Inr KOSPI else if c = 2 then Inr KOSDAQ else Inl (PITDataError ''unknown market code''))"

definition locked :: "market_arrays \<Rightarrow> execution_scenario \<Rightarrow> int \<Rightarrow> int \<Rightarrow> bool \<Rightarrow> bool res" where
  "locked arrays sc t n is_buy =
     (if sc = OPEN_AUCTION then
        (if is_buy then cell (ma_open_at_upper arrays) t n else cell (ma_open_at_lower arrays) t n)
      else if is_buy then
        res_bind (cell (ma_low arrays) t n) (\<lambda>lo. res_bind (cell (ma_upper_limit arrays) t n) (\<lambda>up. Inr (lo = up)))
      else
        res_bind (cell (ma_high arrays) t n) (\<lambda>hi. res_bind (cell (ma_lower_limit arrays) t n) (\<lambda>lo. Inr (hi = lo))))"

definition float_cell :: "int list list \<Rightarrow> int \<Rightarrow> int \<Rightarrow> pyfloat res" where
  "float_cell m t n = res_bind (cell m t n) float_of_int"

definition base_price ::
  "execution_scenario \<Rightarrow> market_arrays \<Rightarrow> int \<Rightarrow> int \<Rightarrow> bool \<Rightarrow> date \<Rightarrow> krx_market \<Rightarrow> krx_market_rules \<Rightarrow> pyfloat res" where
  "base_price sc arrays t n is_buy session market rules =
     (case sc of
        OPEN_AUCTION \<Rightarrow> float_cell (ma_open arrays) t n
      | CLOSE_AUCTION \<Rightarrow> float_cell (ma_close arrays) t n
      | VWAP_PROXY \<Rightarrow>
          res_bind (float_cell (ma_high arrays) t n) (\<lambda>h.
          res_bind (float_cell (ma_low arrays) t n) (\<lambda>l.
          res_bind (float_cell (ma_close arrays) t n) (\<lambda>c.
          res_bind (fdiv (fadd (fadd h l) c) (Fin 3)) (\<lambda>raw.
          res_bind (int_of_float raw) (\<lambda>k.
          res_bind (tick_size rules session market (max 1 k)) (\<lambda>tick.
          res_bind (float_of_int tick) (\<lambda>tk.
          res_bind (fdiv tk (Fin 2)) (\<lambda>half.
          Inr (if is_buy then fadd raw half else fsub raw half))))))))))"

section \<open>Pricing one order\<close>

definition cap_quantity :: "execution_config \<Rightarrow> pyfloat \<Rightarrow> pyfloat \<Rightarrow> int res" where
  "cap_quantity config adtv decision_price =
     (if \<not> is_finite adtv \<or> fle adtv (Fin 0) \<or> fle decision_price (Fin 0) then Inr 0
      else res_bind (fdiv (fmul (max_participation config) adtv) decision_price) math_floor)"

text \<open>The last argument is the reading of the session's price limit, made after the rounding.\<close>

definition buy_price :: "pyfloat \<Rightarrow> pyfloat \<Rightarrow> pyfloat \<Rightarrow> pyfloat \<Rightarrow> int res \<Rightarrow> int res" where
  "buy_price base fraction extra slip limit =
     res_bind (math_ceil (fadd (fmul base (fadd (fadd (Fin 1) fraction) extra)) slip)) (\<lambda>p.
     res_bind limit (\<lambda>upper. Inr (if p > upper then upper else p)))"

definition sell_price :: "pyfloat \<Rightarrow> pyfloat \<Rightarrow> pyfloat \<Rightarrow> pyfloat \<Rightarrow> int res \<Rightarrow> int res" where
  "sell_price base fraction extra slip limit =
     res_bind (math_floor (fsub (fmul base (fsub (fsub (Fin 1) fraction) extra)) slip)) (\<lambda>p.
     res_bind limit (\<lambda>lower.
     let p1 = (if p < lower then lower else p) in Inr (if p1 < 1 then 1 else p1)))"

text \<open>The price of a fill, after the quantity is known.\<close>

definition fill_price ::
  "order_t \<Rightarrow> int \<Rightarrow> pyfloat \<Rightarrow> pyfloat \<Rightarrow> pyfloat \<Rightarrow> krx_market \<Rightarrow> market_arrays \<Rightarrow> int \<Rightarrow> date \<Rightarrow> cost_config \<Rightarrow>
   krx_market_rules \<Rightarrow> int res" where
  "fill_price order quantity base adtv vol60 market arrays t session costs rules =
     res_bind (float_of_int quantity) (\<lambda>q.
     res_bind (impact_fraction (fmul q base) adtv vol60 costs) (\<lambda>fraction.
     res_bind (int_of_float base) (\<lambda>k.
     res_bind (tick_size rules session market (max 1 k)) (\<lambda>tick.
     res_bind (float_of_int tick) (\<lambda>tk.
     let slip = fmul (auction_slippage_ticks costs) tk; n = o_instrument order in
     if o_side order = SideBUY
     then buy_price base fraction (extra_slippage costs) slip (cell (ma_upper_limit arrays) t n)
     else sell_price base fraction (extra_slippage costs) slip (cell (ma_lower_limit arrays) t n))))))"

datatype outcome = Rejected reject_reason | Filled int int bool

text \<open>The body of the order loop: the outcome is a rejection, or a fill of a quantity at a price with a
  flag for an additional capacity rejection of the remainder.\<close>

definition price_order ::
  "market_arrays \<Rightarrow> int \<Rightarrow> date \<Rightarrow> execution_config \<Rightarrow> cost_config \<Rightarrow> krx_market_rules \<Rightarrow> order_t \<Rightarrow> outcome res" where
  "price_order arrays t session config costs rules order =
     guard (o_decision order \<noteq> t - 1) (PITDataError ''order cannot execute at this session'') (
     let n = o_instrument order; is_buy = (o_side order = SideBUY); prev = t - 1 in
     res_bind (cell (ma_present arrays) t n) (\<lambda>present.
     if \<not> present then Inr (Rejected MissingPrice) else
     res_bind (cell (ma_volume arrays) t n) (\<lambda>volume.
     if volume = 0 then Inr (Rejected Halted) else
     res_bind (if is_buy then (case ma_entry_blocked arrays of None \<Rightarrow> Inr False | Some m \<Rightarrow> cell m t n)
               else Inr False) (\<lambda>blocked.
     if blocked then Inr (Rejected EntryBlocked) else
     res_bind (market_at arrays t n) (\<lambda>market.
     res_bind (base_price (scenario config) arrays t n is_buy session market rules) (\<lambda>base.
     if fle base (Fin 0) then Inr (Rejected MissingPrice) else
     res_bind (locked arrays (scenario config) t n is_buy) (\<lambda>lock.
     if lock then Inr (Rejected LimitLocked) else
     res_bind (cell (ma_adtv20 arrays) prev n) (\<lambda>adtv.
     res_bind (float_cell (ma_close arrays) prev n) (\<lambda>decision_price.
     res_bind (cap_quantity config adtv decision_price) (\<lambda>cap.
     if cap \<le> 0 then Inr (Rejected Capacity) else
     res_bind (cell (ma_ret_vol60 arrays) prev n) (\<lambda>vol60.
     if \<not> is_finite vol60 then Inr (Rejected NoVolatility) else
     let quantity = (if o_quantity order < cap then o_quantity order else cap) in
     res_bind (fill_price order quantity base adtv vol60 market arrays t session costs rules) (\<lambda>price.
     Inr (Filled quantity price (quantity < o_quantity order))))))))))))))"

fun add_outcome :: "order_t \<Rightarrow> outcome \<Rightarrow> fill_t list \<times> reject_t list \<Rightarrow> fill_t list \<times> reject_t list" where
  "add_outcome order (Rejected reason) (fills, rejects) = (fills, rejects @ [\<lparr>r_order = order, r_reason = reason\<rparr>])"
| "add_outcome order (Filled q p partial) (fills, rejects) =
     (fills @ [\<lparr>f_order = order, f_quantity = q, f_price = p\<rparr>],
      if partial then rejects @ [\<lparr>r_order = order, r_reason = Capacity\<rparr>] else rejects)"

definition price_orders ::
  "order_t list \<Rightarrow> market_arrays \<Rightarrow> int \<Rightarrow> execution_config \<Rightarrow> cost_config \<Rightarrow> krx_market_rules \<Rightarrow>
   (fill_t list \<times> reject_t list) res" where
  "price_orders orders arrays t config costs rules =
     res_bind (array_get (ma_sessions arrays) t) (\<lambda>session.
     foldM (\<lambda>acc order. res_bind (price_order arrays t session config costs rules order)
              (\<lambda>out. Inr (add_outcome order out acc))) ([], []) orders)"

end
