(* ===== verification/FloatOrder.thy ===== *)
theory FloatOrder
  imports PyNum
begin

text \<open>
  Bounds that survive floating-point evaluation. \<open>at_least c v\<close> and \<open>at_most c v\<close> say that a float result
  \<open>v\<close>, when it is a number at all, lies on the given side of \<open>c\<close>; with \<open>c\<close> itself a double, rounding
  cannot cross it, so the bounds pass through sums and products.
\<close>

fun at_least :: "rat \<Rightarrow> pyfloat \<Rightarrow> bool" where
  "at_least c (Fin x) \<longleftrightarrow> c \<le> x"
| "at_least c NInf \<longleftrightarrow> False"
| "at_least c _ \<longleftrightarrow> True"

fun at_most :: "rat \<Rightarrow> pyfloat \<Rightarrow> bool" where
  "at_most c (Fin x) \<longleftrightarrow> x \<le> c"
| "at_most c PInf \<longleftrightarrow> False"
| "at_most c _ \<longleftrightarrow> True"

lemma is_double_range: "is_double c \<Longrightarrow> fl_round c = c \<and> - (2 ^ 1024) < c \<and> c < 2 ^ 1024"
  unfolding is_double_def to_float_Fin by (metis abs_less_iff minus_less_iff)

lemma to_float_at_least:
  assumes "is_double c" "c \<le> x"
  shows "at_least c (to_float x)"
proof -
  define B :: rat where "B = 2 ^ 1024"
  have "c \<le> fl_round x" "- B < c"
    using fl_round_mono [OF assms(2)] is_double_range [OF assms(1)] by (simp_all only: B_def)
  then show ?thesis unfolding to_float_alt B_def [symmetric] by auto
qed

lemma to_float_at_most:
  assumes "is_double c" "x \<le> c"
  shows "at_most c (to_float x)"
proof -
  define B :: rat where "B = 2 ^ 1024"
  have "fl_round x \<le> c" "c < B"
    using fl_round_mono [OF assms(2)] is_double_range [OF assms(1)] by (simp_all only: B_def)
  then show ?thesis unfolding to_float_alt B_def [symmetric] by auto
qed

lemma at_least_fadd:
  assumes "is_double c" "at_least c a" "at_least 0 b"
  shows "at_least c (fadd a b)"
  using assms by (cases a; cases b) (auto intro: to_float_at_least)

lemma at_most_fneg: "at_most c (fneg v) \<longleftrightarrow> at_least (- c) v"
  by (cases v) auto

lemma at_most_fadd:
  assumes "is_double c" "at_most c a" "at_most 0 b"
  shows "at_most c (fadd a b)"
  using assms by (cases a; cases b) (auto intro: to_float_at_most)

lemma at_most_fsub:
  "is_double c \<Longrightarrow> at_most c a \<Longrightarrow> at_least 0 b \<Longrightarrow> at_most c (fsub a b)"
  by (simp add: fsub_def at_most_fadd at_most_fneg)

lemma at_least_0_fmul: "at_least 0 a \<Longrightarrow> at_least 0 b \<Longrightarrow> at_least 0 (fmul a b)"
  by (cases a; cases b) (auto simp: inf_of_sign_def intro: to_float_at_least)

text \<open>Scaling a positive base by a factor at least (at most) one does not move it down (up).\<close>

lemma at_least_fmul:
  assumes "is_double c" "0 < c" "at_least 1 v"
  shows "at_least c (fmul (Fin c) v)"
proof (cases v)
  case (Fin x)
  then have "c * 1 \<le> c * x" using assms by (intro mult_left_mono) simp_all
  with Fin assms show ?thesis by (auto intro: to_float_at_least)
qed (use assms in \<open>auto simp: inf_of_sign_def\<close>)

lemma at_most_fmul:
  assumes "is_double c" "0 < c" "at_most 1 v"
  shows "at_most c (fmul (Fin c) v)"
proof (cases v)
  case (Fin x)
  then have "c * x \<le> c * 1" using assms by (intro mult_left_mono) simp_all
  with Fin assms show ?thesis by (auto intro: to_float_at_most)
qed (use assms in \<open>auto simp: inf_of_sign_def\<close>)

lemma math_ceil_at_least: "math_ceil v = Inr n \<Longrightarrow> at_least c v \<Longrightarrow> c \<le> of_int n"
  by (cases v) (auto simp: order_trans [OF _ le_of_int_ceiling])

lemma math_floor_at_most: "math_floor v = Inr n \<Longrightarrow> at_most c v \<Longrightarrow> of_int n \<le> c"
  by (cases v) (auto simp: order_trans [OF of_int_floor_le])

lemma sqrt_at_least_0: "math_sqrt v = Inr r \<Longrightarrow> at_least 0 r"
  by (cases v) (auto simp: sqrt_round_nonneg split: if_splits)

lemma at_least_0_fdiv: "at_least 0 a \<Longrightarrow> at_least 0 b \<Longrightarrow> fdiv a b = Inr c \<Longrightarrow> at_least 0 c"
  by (cases a; cases b) (auto simp: inf_of_sign_def intro: to_float_at_least split: if_splits)

lemma at_least_0_float_of_int: "0 \<le> n \<Longrightarrow> float_of_int n = Inr v \<Longrightarrow> at_least 0 v"
  using float_of_int_Inr [of n v] to_float_at_least [of 0 "of_int n"] by auto

lemma int_of_float_nonneg: "int_of_float v = Inr n \<Longrightarrow> at_least 0 v \<Longrightarrow> 0 \<le> n"
  by (cases v) auto

lemma at_least_0_iff: "at_least 0 v \<longleftrightarrow> \<not> fless v (Fin 0)"
  by (cases v) auto

end
