(* ===== verification/FillProps.thy ===== *)
theory FillProps
  imports FillPricing RulesProps FloatOrder "HOL-Library.Sublist"
begin

text \<open>
  What a simulated fill guarantees: it never exceeds the order or the participation cap, it is never
  better than the base price for the trader except where a price limit binds, it stays inside the
  session's limits, and every order is either filled or rejected with a reason.
\<close>

definition costs_nonneg :: "cost_config \<Rightarrow> bool" where
  "costs_nonneg c \<longleftrightarrow> at_least 0 (impact_k c) \<and> at_least 0 (auction_slippage_ticks c) \<and> at_least 0 (extra_slippage c)"

lemma impact_fraction_nonneg:
  assumes "impact_fraction notional adtv vol costs = Inr f" "at_least 0 (impact_k costs)"
  shows "at_least 0 f"
proof -
  from assms(1) obtain ratio root where "at_least 0 vol" "math_sqrt ratio = Inr root"
      "f = fmul (fmul (impact_k costs) vol) root"
    by (cases vol) (auto simp: impact_fraction_def res_simps)
  then show ?thesis using assms(2) sqrt_at_least_0 by (auto intro!: at_least_0_fmul)
qed

lemma buy_price_bounds:
  assumes "buy_price (Fin b) f e s (Inr upper) = Inr p" "is_double b" "0 < b"
    and "at_least 0 f" "at_least 0 e" "at_least 0 s"
  shows "p \<le> upper \<and> (b \<le> of_int p \<or> p = upper)"
proof -
  have "at_least b (fadd (fmul (Fin b) (fadd (fadd (Fin 1) f) e)) s)"
    using assms by (intro at_least_fadd at_least_fmul) auto
  then show ?thesis
    using assms(1) math_ceil_at_least by (fastforce simp: buy_price_def res_simps)
qed

lemma sell_price_bounds:
  assumes "sell_price (Fin b) f e s (Inr lower) = Inr p" "is_double b" "0 < b"
    and "at_least 0 f" "at_least 0 e" "at_least 0 s"
  shows "lower \<le> p \<and> 1 \<le> p \<and> (of_int p \<le> b \<or> p = lower \<or> p = 1)"
proof -
  have "at_most b (fsub (fmul (Fin b) (fsub (fsub (Fin 1) f) e)) s)"
    using assms by (intro at_most_fsub at_most_fmul) auto
  then show ?thesis
    using assms(1) math_floor_at_most by (fastforce simp: sell_price_def res_simps Let_def)
qed

lemma float_of_int_double: "float_of_int n = Inr (Fin b) \<Longrightarrow> is_double b"
  using float_of_int_Inr to_float_double by fastforce

lemma fadd_double: "fadd a b = Fin c \<Longrightarrow> is_double c"
  by (cases a; cases b) (auto intro: to_float_double)

lemma base_price_double:
  "base_price sc arrays t n is_buy session market rules = Inr (Fin b) \<Longrightarrow> is_double b"
  by (cases sc)
    (auto simp: base_price_def float_cell_def fsub_def res_simps intro: float_of_int_double fadd_double split: if_splits)

lemma float_cell_finite: "float_cell m t n = Inr v \<Longrightarrow> is_finite v"
  by (auto simp: float_cell_def res_simps dest: float_of_int_Inr)

lemma tick_size_pos:
  assumes "rules_ok rules" "tick_size rules s m p = Inr tick"
  shows "0 < tick"
proof -
  have "schedule_ok tick_effective_from tick_regime_ok (tick_regimes rules)"
    using assms(1) by (simp add: rules_ok_def)
  from schedule_uncovered [OF this] have c: "tick_covered rules s" and p: "0 < p"
    using assms(2) by (fastforce simp: tick_size_def tick_regime_at_def regime_or_fail_def res_simps not_less
        split: option.splits)+
  from tick_size_table [OF assms(1) c] p assms(2) show ?thesis using tick_at_pos by fastforce
qed

lemma fill_price_limits:
  assumes "fill_price order q (Fin b) adtv vol market arrays t session costs rules = Inr p"
    and "costs_nonneg costs" "is_double b" "0 < b"
    and "\<And>k tick. tick_size rules session market k = Inr tick \<Longrightarrow> 0 \<le> tick"
  shows "(o_side order = SideBUY \<longrightarrow> (\<exists>upper. cell (ma_upper_limit arrays) t (o_instrument order) = Inr upper
            \<and> p \<le> upper \<and> (b \<le> of_int p \<or> p = upper)))
    \<and> (o_side order = SideSELL \<longrightarrow> (\<exists>lower. cell (ma_lower_limit arrays) t (o_instrument order) = Inr lower
            \<and> lower \<le> p \<and> 1 \<le> p \<and> (of_int p \<le> b \<or> p = lower \<or> p = 1)))"
proof -
  from assms(1) obtain f k tick tk where f: "impact_fraction (fmul (case float_of_int q of Inr v \<Rightarrow> v) (Fin b)) adtv vol costs = Inr f"
    "tick_size rules session market k = Inr tick" "float_of_int tick = Inr tk"
    "(if o_side order = SideBUY
      then buy_price (Fin b) f (extra_slippage costs) (fmul (auction_slippage_ticks costs) tk) (cell (ma_upper_limit arrays) t (o_instrument order))
      else sell_price (Fin b) f (extra_slippage costs) (fmul (auction_slippage_ticks costs) tk) (cell (ma_lower_limit arrays) t (o_instrument order))) = Inr p"
    by (auto simp: fill_price_def res_simps Let_def)
  have "at_least 0 tk"
    using float_of_int_Inr [OF f(3)] assms(5) [OF f(2)] to_float_nonneg by fastforce
  then have nn: "at_least 0 f" "at_least 0 (extra_slippage costs)" "at_least 0 (fmul (auction_slippage_ticks costs) tk)"
    using assms(2) impact_fraction_nonneg [OF f(1)] by (auto simp: costs_nonneg_def intro: at_least_0_fmul)
  show ?thesis
  proof (cases "o_side order")
    case SideBUY
    then obtain upper where u: "cell (ma_upper_limit arrays) t (o_instrument order) = Inr upper"
      using f(4) by (auto simp: buy_price_def res_simps)
    then show ?thesis using SideBUY f(4) buy_price_bounds [OF _ assms(3,4) nn] by simp
  next
    case SideSELL
    then obtain lower where l: "cell (ma_lower_limit arrays) t (o_instrument order) = Inr lower"
      using f(4) by (auto simp: sell_price_def res_simps)
    then show ?thesis using SideSELL f(4) sell_price_bounds [OF _ assms(3,4) nn] by simp
  qed
qed

lemma price_order_Filled:
  assumes "price_order arrays t session config costs rules order = Inr (Filled q p partial)"
  obtains base market adtv dp cap vol where "o_decision order = t - 1"
    "base_price (scenario config) arrays t (o_instrument order) (o_side order = SideBUY) session market rules = Inr base"
    "\<not> fle base (Fin 0)" "cell (ma_adtv20 arrays) (t - 1) (o_instrument order) = Inr adtv"
    "float_cell (ma_close arrays) (t - 1) (o_instrument order) = Inr dp"
    "cap_quantity config adtv dp = Inr cap" "0 < cap" "q = min (o_quantity order) cap"
    "partial = (q < o_quantity order)"
    "fill_price order q base adtv vol market arrays t session costs rules = Inr p"
  using assms by (auto simp: price_order_def res_simps Let_def min_def not_le split: if_splits)

lemma fill_price_finite_base:
  "fill_price order q base adtv vol market arrays t session costs rules = Inr p \<Longrightarrow> \<exists>b. base = Fin b"
  by (cases base) (auto simp: fill_price_def res_simps)

text \<open>C28. With non-negative cost parameters, well-formed rules and a positive order, a fill is for at least one share, never for more
  than the order or the participation cap computed from the decision session's turnover and close, and is flagged partial exactly when
  it is smaller than the order. When the base price lies within the session's limits (and these are at least one won), the fill lies
  within both limits and is not better than the base price for the trader. For any base price, which the proxy scenario can move past a
  limit by half a tick, a buy never costs more than the upper limit, and less than the base price only at that limit; a sale never brings
  less than the lower limit or one won, and more than the base price only there.\<close>

theorem fill_is_capped_and_adverse:
  assumes "price_order arrays t session config costs rules order = Inr (Filled q p partial)"
    and "costs_nonneg costs" "0 < o_quantity order" "rules_ok rules"
  shows "0 < q \<and> q \<le> o_quantity order \<and> partial = (q < o_quantity order) \<and> o_decision order = t - 1
    \<and> (\<exists>adtv close cap. cell (ma_adtv20 arrays) (t - 1) (o_instrument order) = Inr adtv
        \<and> float_cell (ma_close arrays) (t - 1) (o_instrument order) = Inr close
        \<and> cap_quantity config adtv close = Inr cap \<and> q \<le> cap)
    \<and> (\<exists>market b. base_price (scenario config) arrays t (o_instrument order) (o_side order = SideBUY) session market rules
          = Inr (Fin b) \<and> 0 < b
        \<and> (o_side order = SideBUY \<longrightarrow> (\<exists>upper. cell (ma_upper_limit arrays) t (o_instrument order) = Inr upper
              \<and> p \<le> upper \<and> (b \<le> of_int p \<or> p = upper)))
        \<and> (o_side order = SideSELL \<longrightarrow> (\<exists>lower. cell (ma_lower_limit arrays) t (o_instrument order) = Inr lower
              \<and> lower \<le> p \<and> 1 \<le> p \<and> (of_int p \<le> b \<or> p = lower \<or> p = 1)))
        \<and> (\<forall>lower upper. cell (ma_lower_limit arrays) t (o_instrument order) = Inr lower
              \<and> cell (ma_upper_limit arrays) t (o_instrument order) = Inr upper \<and> 1 \<le> lower \<and> of_int lower \<le> b \<and> b \<le> of_int upper
            \<longrightarrow> lower \<le> p \<and> p \<le> upper \<and> (if o_side order = SideBUY then b \<le> of_int p else of_int p \<le> b)))"
proof -
  obtain base market adtv dp cap vol where o: "o_decision order = t - 1"
    "base_price (scenario config) arrays t (o_instrument order) (o_side order = SideBUY) session market rules = Inr base"
    "\<not> fle base (Fin 0)" "cell (ma_adtv20 arrays) (t - 1) (o_instrument order) = Inr adtv"
    "float_cell (ma_close arrays) (t - 1) (o_instrument order) = Inr dp"
    "cap_quantity config adtv dp = Inr cap" "0 < cap" "q = min (o_quantity order) cap"
    "partial = (q < o_quantity order)"
    "fill_price order q base adtv vol market arrays t session costs rules = Inr p"
    by (rule price_order_Filled [OF assms(1)])
  then obtain b where b: "base = Fin b" using fill_price_finite_base by blast
  have d: "is_double b" "0 < b" using base_price_double o(2,3) b by (auto simp: fle_def)
  have lim: "(o_side order = SideBUY \<longrightarrow> (\<exists>upper. cell (ma_upper_limit arrays) t (o_instrument order) = Inr upper
            \<and> p \<le> upper \<and> (b \<le> of_int p \<or> p = upper)))
    \<and> (o_side order = SideSELL \<longrightarrow> (\<exists>lower. cell (ma_lower_limit arrays) t (o_instrument order) = Inr lower
            \<and> lower \<le> p \<and> 1 \<le> p \<and> (of_int p \<le> b \<or> p = lower \<or> p = 1)))"
    by (rule fill_price_limits [OF o(10) [unfolded b] assms(2) d]) (use tick_size_pos [OF assms(4)] in force)
  have "q \<le> cap" "0 < q \<and> q \<le> o_quantity order" using o(7,8) assms(3) by simp_all
  moreover have "lower \<le> p \<and> p \<le> upper \<and> (if o_side order = SideBUY then b \<le> of_int p else of_int p \<le> b)"
    if limits: "cell (ma_lower_limit arrays) t (o_instrument order) = Inr lower" "cell (ma_upper_limit arrays) t (o_instrument order) = Inr upper"
      "1 \<le> lower" "of_int lower \<le> b" "b \<le> of_int upper" for lower upper
  proof (cases "o_side order")
    case SideBUY
    with lim limits have "p \<le> upper" "b \<le> of_int p" by auto
    moreover from this limits(4) have "(of_int lower :: rat) \<le> of_int p" by linarith
    ultimately show ?thesis using SideBUY by simp
  next
    case SideSELL
    with lim limits have "lower \<le> p" "of_int p \<le> b" by auto
    moreover from this limits(5) have "(of_int p :: rat) \<le> of_int upper" by linarith
    ultimately show ?thesis using SideSELL by simp
  qed
  ultimately show ?thesis using o lim b d by blast
qed

abbreviation price_loop ::
  "market_arrays \<Rightarrow> int \<Rightarrow> date \<Rightarrow> execution_config \<Rightarrow> cost_config \<Rightarrow> krx_market_rules \<Rightarrow>
   fill_t list \<times> reject_t list \<Rightarrow> order_t list \<Rightarrow> (fill_t list \<times> reject_t list) res" where
  "price_loop arrays t session config costs rules \<equiv>
     foldM (\<lambda>acc order. res_bind (price_order arrays t session config costs rules order)
              (\<lambda>out. Inr (add_outcome order out acc)))"

text \<open>What a part of the loop appends to the two lists.\<close>

definition accounted :: "int \<Rightarrow> order_t list \<Rightarrow> fill_t list \<Rightarrow> reject_t list \<Rightarrow> bool" where
  "accounted t orders fs rs \<longleftrightarrow> subseq (map f_order fs) orders
     \<and> (\<forall>x \<in> set orders. o_decision x = t - 1 \<and> ((\<exists>f \<in> set fs. f_order f = x) \<or> (\<exists>r \<in> set rs. r_order r = x)))
     \<and> (\<forall>r \<in> set rs. r_order r \<in> set orders)"

lemma add_outcome_appends:
  "\<exists>fs rs. add_outcome x out acc = (fst acc @ fs, snd acc @ rs) \<and> subseq (map f_order fs) [x]
     \<and> ((\<exists>f \<in> set fs. f_order f = x) \<or> (\<exists>r \<in> set rs. r_order r = x)) \<and> (\<forall>r \<in> set rs. r_order r = x)"
proof (cases out)
  case (Rejected reason)
  then show ?thesis
    by (cases acc) (auto intro!: exI [of _ "[]"])
next
  case (Filled q p partial)
  then show ?thesis
    by (cases acc) (auto intro!: exI [of _ "[\<lparr>f_order = x, f_quantity = q, f_price = p\<rparr>]"])
qed

lemma price_loop_accounts:
  "price_loop arrays t session config costs rules acc orders = Inr acc' \<Longrightarrow>
   \<exists>fs rs. acc' = (fst acc @ fs, snd acc @ rs) \<and> accounted t orders fs rs"
proof (induction orders arbitrary: acc)
  case Nil
  then show ?case by (auto intro!: exI [of _ "[]"] simp: accounted_def)
next
  case (Cons x xs)
  then obtain out where out: "price_order arrays t session config costs rules x = Inr out"
    "price_loop arrays t session config costs rules (add_outcome x out acc) xs = Inr acc'"
    by (auto simp: res_simps)
  have dec: "o_decision x = t - 1" using out(1) by (auto simp: price_order_def res_simps)
  obtain f1 r1 where one: "add_outcome x out acc = (fst acc @ f1, snd acc @ r1)" "subseq (map f_order f1) [x]"
    "(\<exists>f \<in> set f1. f_order f = x) \<or> (\<exists>r \<in> set r1. r_order r = x)" "\<forall>r \<in> set r1. r_order r = x"
    using add_outcome_appends by blast
  from Cons.IH [OF out(2)] obtain fs rs where ih: "acc' = (fst acc @ f1 @ fs, snd acc @ r1 @ rs)" "accounted t xs fs rs"
    by (auto simp: one(1))
  have "subseq (map f_order (f1 @ fs)) ([x] @ xs)"
    using one(2) ih(2) unfolding map_append accounted_def by (intro list_emb_append_mono) simp_all
  then have "accounted t (x # xs) (f1 @ fs) (r1 @ rs)"
    using one(3,4) dec ih(2) by (auto simp: accounted_def)
  with ih(1) show ?case by blast
qed

text \<open>C31. Every order handed to the pricing step was decided in the previous session and is accounted
  for: it has a fill or a reject, fills keep the order of the orders, and a fill always belongs to an
  order of the list.\<close>

theorem price_orders_accounts_for_every_order:
  assumes "price_orders orders arrays t config costs rules = Inr (fills, rejects)"
  shows "subseq (map f_order fills) orders
    \<and> (\<forall>x \<in> set orders. o_decision x = t - 1
        \<and> ((\<exists>f \<in> set fills. f_order f = x) \<or> (\<exists>r \<in> set rejects. r_order r = x)))
    \<and> (\<forall>r \<in> set rejects. r_order r \<in> set orders)"
proof -
  from assms obtain session where "price_loop arrays t session config costs rules ([], []) orders = Inr (fills, rejects)"
    by (auto simp: price_orders_def res_simps)
  from price_loop_accounts [OF this] show ?thesis by (auto simp: accounted_def)
qed

section \<open>A concrete fill\<close>

definition demo_arrays :: market_arrays where
  "demo_arrays = \<lparr>ma_sessions = [Date 2026 3 2, Date 2026 3 3], ma_instruments = [''KR7005930003''],
     ma_open = [[9900], [10000]], ma_high = [[10100], [10200]], ma_low = [[9800], [9900]], ma_close = [[10000], [10100]],
     ma_base_price = [[9900], [10000]], ma_volume = [[5000], [6000]], ma_upper_limit = [[12800], [13000]],
     ma_lower_limit = [[6930], [7000]], ma_sell_tax_rate = [[Fin 0], [Fin 0]], ma_adtv20 = [[Fin 4000000], [Fin 4100000]],
     ma_ret_vol60 = [[Fin (1 / 64)], [Fin (1 / 32)]], ma_share_factor = [[NaN], [NaN]], ma_present = [[True], [True]],
     ma_open_at_upper = [[False], [False]], ma_open_at_lower = [[False], [False]], ma_entry_blocked = None,
     ma_market = [[1], [1]]\<rparr>"

definition demo_costs :: cost_config where
  "demo_costs = \<lparr>commission_rate = 15 / 100000, impact_k = Fin 1, dividend_withholding_rate = 154 / 1000,
     auction_slippage_ticks = Fin 1, extra_slippage = Fin 0, cash_yield_tax_rate = 154 / 1000\<rparr>"

definition demo_exec :: execution_config where
  "demo_exec = \<lparr>scenario = OPEN_AUCTION, max_participation = Fin (1 / 2), carry_unfilled = True\<rparr>"

definition demo_order :: order_t where
  "demo_order = \<lparr>o_instrument = 0, o_side = SideBUY, o_quantity = 100, o_decision = 0\<rparr>"

lemma demo_tick: "tick_size published (Date 2026 3 3) KOSPI 10000 = Inr 10"
  by code_simp

lemma demo_impact: "impact_fraction (Fin 1000000) (Fin 4000000) (Fin (1 / 64)) demo_costs = Inr (Fin (1 / 128))"
proof -
  have "isqrt 324518553658426726783156020576256 = 18014398509481984"
    by (simp add: isqrt.simps cong: eval_congs)
  then show ?thesis
    by (simp add: impact_fraction_def demo_costs_def sqrt_round_def num_eval cong: eval_congs)
qed

lemma demo_price_order:
  "price_order demo_arrays 1 (Date 2026 3 3) demo_exec demo_costs published demo_order = Inr (Filled 100 10089 False)"
  by (simp add: price_order_def demo_arrays_def demo_exec_def demo_order_def cell_def array_get_def market_at_def
      base_price_def float_cell_def locked_def cap_quantity_def fill_price_def demo_tick demo_impact buy_price_def
      num_eval cong: eval_congs) (simp add: demo_costs_def num_eval)

theorem fill_is_capped_and_adverse_witness:
  "price_order demo_arrays 1 (Date 2026 3 3) demo_exec demo_costs published demo_order = Inr (Filled 100 10089 False)
   \<and> (\<exists>upper. cell (ma_upper_limit demo_arrays) 1 0 = Inr upper \<and> 10089 \<le> upper)"
proof -
  have h: "costs_nonneg demo_costs" "0 < o_quantity demo_order" "o_side demo_order = SideBUY" "o_instrument demo_order = 0"
    by (simp_all add: costs_nonneg_def demo_costs_def demo_order_def)
  from fill_is_capped_and_adverse [OF demo_price_order h(1,2) published_ok] h(3,4) demo_price_order show ?thesis by auto
qed

theorem price_orders_accounts_for_every_order_witness:
  "\<exists>fills rejects. price_orders [demo_order] demo_arrays 1 demo_exec demo_costs published = Inr (fills, rejects)
     \<and> subseq (map f_order fills) [demo_order] \<and> length fills = 1"
proof -
  have "array_get (ma_sessions demo_arrays) 1 = Inr (Date 2026 3 3)" by code_simp
  then have r: "price_orders [demo_order] demo_arrays 1 demo_exec demo_costs published
      = Inr ([\<lparr>f_order = demo_order, f_quantity = 100, f_price = 10089\<rparr>], [])"
    by (simp add: price_orders_def demo_price_order)
  from price_orders_accounts_for_every_order [OF r] r show ?thesis by auto
qed

end
