(* ===== verification/Engine.thy ===== *)
theory Engine
  imports Ledger FillPricing SessionTime
begin

text \<open>
  The building blocks of the session engine (\<open>src/backtest/engine.py\<close>): target orders, application of
  priced fills to the ledger, target validation, futures funding and synchronisation, the inverse ETF,
  and the read-only helpers. Every function that touches the ledger takes it and returns it.
\<close>

section \<open>Configuration\<close>

datatype delist_policy = LAST_CLOSE | ZERO

record engine_config =
  initial_cash :: int
  execution :: execution_config
  costs :: cost_config
  halted_exit_policy :: delist_policy
  cash_buffer :: rat

text \<open>\<open>EngineConfig.__post_init__\<close> rejects a buffer outside \<open>[0, 1)\<close>, the special values included.\<close>

definition engine_config_init :: "int \<Rightarrow> execution_config \<Rightarrow> cost_config \<Rightarrow> delist_policy \<Rightarrow> pyfloat \<Rightarrow> engine_config res" where
  "engine_config_init cash0 ex cs hp buffer =
     (case buffer of Fin b \<Rightarrow>
        guard (\<not> (0 \<le> b \<and> b < 1)) (ValueError ''cash_buffer must be in [0, 1)'')
          (Inr \<lparr>initial_cash = cash0, execution = ex, costs = cs, halted_exit_policy = hp, cash_buffer = b\<rparr>)
      | _ \<Rightarrow> Inl (ValueError ''cash_buffer must be in [0, 1)''))"

section \<open>Target orders\<close>

definition mk_order :: "int \<Rightarrow> side \<Rightarrow> int \<Rightarrow> int \<Rightarrow> order_t" where
  "mk_order n sd q t = \<lparr>o_instrument = n, o_side = sd, o_quantity = q, o_decision = t\<rparr>"

text \<open>The rebalance band: a short-circuit conjunction, its float products only evaluated when reached.\<close>

definition inside_band :: "pyfloat \<Rightarrow> int \<Rightarrow> pyfloat \<Rightarrow> int \<Rightarrow> int \<Rightarrow> pyfloat \<Rightarrow> bool res" where
  "inside_band band held weight target_q delta price =
     (if fless (Fin 0) band \<and> 0 < held \<and> fless (Fin 0) weight \<and> 0 < target_q then
        res_bind (float_of_int \<bar>delta\<bar>) (\<lambda>d.
        res_bind (float_of_int target_q) (\<lambda>q.
        Inr (fless (fmul d price) (fmul (fmul band q) price))))
      else Inr False)"

definition weight_orders ::
  "int list \<Rightarrow> bool list \<Rightarrow> int \<Rightarrow> (int, int) dict \<Rightarrow> int \<Rightarrow> pyfloat \<Rightarrow> pyfloat \<Rightarrow> int \<times> pyfloat \<Rightarrow> order_t list res" where
  "weight_orders close present t holdings nav buffer_scale band item =
     (case item of (n, weight) \<Rightarrow>
        res_bind (array_get present n) (\<lambda>here.
        if \<not> here then Inr [] else
        res_bind (array_get close n) (\<lambda>c.
        if c = 0 then Inr [] else
        res_bind (float_of_int c) (\<lambda>price.
        res_bind (float_of_int nav) (\<lambda>nav_f.
        res_bind (fdiv (fmul (fmul weight nav_f) buffer_scale) price) (\<lambda>x.
        res_bind (math_floor x) (\<lambda>target_q.
        let held = dict_get holdings n 0; delta = target_q - held in
        res_bind (inside_band band held weight target_q delta price) (\<lambda>skip.
        if skip then Inr []
        else if 0 < delta then Inr [mk_order n SideBUY delta t]
        else if delta < 0 then Inr [mk_order n SideSELL (- delta) t]
        else Inr []))))))))"

definition target_orders ::
  "(int, pyfloat) dict \<Rightarrow> market_arrays \<Rightarrow> int \<Rightarrow> (int, int) dict \<Rightarrow> int \<Rightarrow> pyfloat \<Rightarrow> pyfloat \<Rightarrow> order_t list res" where
  "target_orders weights arrays t holdings nav buffer_scale band =
     res_bind (array_get (ma_close arrays) t) (\<lambda>close.
     res_bind (array_get (ma_present arrays) t) (\<lambda>present.
     res_bind (mapM (weight_orders close present t holdings nav buffer_scale band) weights) (\<lambda>sized.
     Inr (concat sized @
       map (\<lambda>(n, held). mk_order n SideSELL held t) (filter (\<lambda>(n, held). n \<notin> set (dict_keys weights)) holdings)))))"

section \<open>Applying fills\<close>

definition spendable_cash :: "ledger \<Rightarrow> int" where
  "spendable_cash l = max (l_cash l - l_tax_payable l) 0"

text \<open>\<open>Decimal(str(float))\<close> of the sell-tax rate; a special value makes the truncation to an integer raise.\<close>

fun tax_rate_dec :: "pyfloat \<Rightarrow> decimal res" where
  "tax_rate_dec (Fin x) = Inr (repr_dec x)"
| "tax_rate_dec NaN = Inl (ValueError ''cannot convert NaN to integer'')"
| "tax_rate_dec _ = Inl (OverflowError ''cannot convert Infinity to integer'')"

record fill_state =
  fs_ledger :: ledger
  fs_applied :: "fill_t list"
  fs_rejects :: "reject_t list"
  fs_carried :: "order_t list"

text \<open>What both loops record after a trade of \<open>quantity\<close> out of the fill.\<close>

definition record_fill :: "engine_config \<Rightarrow> int \<Rightarrow> fill_t \<Rightarrow> int \<Rightarrow> ledger \<Rightarrow> fill_state \<Rightarrow> fill_state" where
  "record_fill config t fill quantity l s =
     (let order = f_order fill; shortfall = f_quantity fill - quantity in
      \<lparr>fs_ledger = l,
       fs_applied = fs_applied s @ (if 0 < quantity
         then [if shortfall \<noteq> 0 then \<lparr>f_order = order, f_quantity = quantity, f_price = f_price fill\<rparr> else fill] else []),
       fs_rejects = fs_rejects s @ (if shortfall \<noteq> 0 then [\<lparr>r_order = order, r_reason = CashShort\<rparr>] else []),
       fs_carried = fs_carried s @ (if shortfall \<noteq> 0 \<and> carry_unfilled (execution config)
         then [mk_order (o_instrument order) (o_side order) shortfall t] else [])\<rparr>)"

definition apply_sell_fill :: "int \<Rightarrow> market_arrays \<Rightarrow> engine_config \<Rightarrow> fill_state \<Rightarrow> fill_t \<Rightarrow> fill_state res" where
  "apply_sell_fill t arrays config s fill =
     (let n = o_instrument (f_order fill); l = fs_ledger s in
      res_bind (cell (ma_sell_tax_rate arrays) t n) (\<lambda>tax_float.
      let held = dict_get (l_positions l) n 0; quantity = min (f_quantity fill) held in
      if 0 < quantity then
        res_bind (tax_rate_dec tax_float) (\<lambda>rate.
        let cost = fill_cost SideSELL quantity (f_price fill) rate (costs config) in
        res_bind (sell l t n quantity (f_price fill) (fc_commission cost) (fc_sell_tax cost)) (\<lambda>l'.
        Inr (record_fill config t fill quantity l' s)))
      else Inr (record_fill config t fill quantity l s)))"

definition apply_sell_fills ::
  "ledger \<Rightarrow> fill_t list \<Rightarrow> int \<Rightarrow> market_arrays \<Rightarrow> engine_config \<Rightarrow> fill_state res" where
  "apply_sell_fills l fills t arrays config =
     foldM (apply_sell_fill t arrays config) \<lparr>fs_ledger = l, fs_applied = [], fs_rejects = [], fs_carried = []\<rparr> fills"

text \<open>The \<open>while quantity > 0\<close> loop: it stops at the first affordable quantity and its commission.\<close>

fun shrink_buy :: "nat \<Rightarrow> int \<Rightarrow> int \<Rightarrow> cost_config \<Rightarrow> int \<times> int" where
  "shrink_buy 0 price spendable config = (0, 0)"
| "shrink_buy (Suc k) price spendable config =
     (let q = int (Suc k); commission = fc_commission (fill_cost SideBUY q price 0 config)
      in if q * price + commission \<le> spendable then (q, commission) else shrink_buy k price spendable config)"

definition buy_quantity :: "ledger \<Rightarrow> fill_t \<Rightarrow> cost_config \<Rightarrow> int \<times> int" where
  "buy_quantity l fill config =
     (let spendable = spendable_cash l;
          quantity = (if 0 < f_price fill then min (f_quantity fill) (spendable div f_price fill) else 0)
      in if 0 < quantity then shrink_buy (nat quantity) (f_price fill) spendable config else (quantity, 0))"

definition apply_buy_fill :: "int \<Rightarrow> engine_config \<Rightarrow> fill_state \<Rightarrow> fill_t \<Rightarrow> fill_state res" where
  "apply_buy_fill t config s fill =
     (let l = fs_ledger s; (quantity, commission) = buy_quantity l fill (costs config) in
      if 0 < quantity then
        res_bind (buy l t (o_instrument (f_order fill)) quantity (f_price fill) commission) (\<lambda>l'.
        Inr (record_fill config t fill quantity l' s))
      else Inr (record_fill config t fill quantity l s))"

text \<open>\<open>sorted(..., reverse=True)\<close> is stable, so equal notionals keep their order.\<close>

definition apply_buy_fills :: "ledger \<Rightarrow> fill_t list \<Rightarrow> int \<Rightarrow> engine_config \<Rightarrow> fill_state res" where
  "apply_buy_fills l fills t config =
     foldM (apply_buy_fill t config) \<lparr>fs_ledger = l, fs_applied = [], fs_rejects = [], fs_carried = []\<rparr>
       (sort_key (\<lambda>f. - (f_quantity f * f_price f)) fills)"

section \<open>Target validation\<close>

definition weight_tolerance :: pyfloat where
  "weight_tolerance = fadd (Fin 1) (to_float (1 / 10 ^ 9))"

fun check_weights :: "int \<Rightarrow> pyfloat \<Rightarrow> (int, pyfloat) dict \<Rightarrow> pyfloat res" where
  "check_weights n_instruments acc [] = Inr acc"
| "check_weights n_instruments acc ((n, w) # rest) =
     guard (\<not> (0 \<le> n \<and> n < n_instruments)) (ValueError ''target instrument is outside the panel'') (
     guard (\<not> is_finite w \<or> fless w (Fin 0)) (ValueError ''target weight must be finite and non-negative'') (
     check_weights n_instruments (fadd acc w) rest))"

definition validate_row :: "int \<Rightarrow> int \<Rightarrow> int \<Rightarrow> int \<times> (int, pyfloat) dict \<Rightarrow> (int \<times> (int, pyfloat) dict) res" where
  "validate_row lo hi n_instruments row =
     (case row of (d, weights) \<Rightarrow>
        guard (d < max 0 (lo - 1) \<or> d > hi - 1) (ValueError ''target row is outside the run window'') (
        res_bind (check_weights n_instruments (Fin 0) weights) (\<lambda>total.
        guard (fless weight_tolerance total) (ValueError ''target weights sum above 1'') (Inr (d, weights)))))"

definition validate_targets ::
  "(int, (int, pyfloat) dict) dict \<Rightarrow> int \<Rightarrow> int \<Rightarrow> int \<Rightarrow> (int, (int, pyfloat) dict) dict res" where
  "validate_targets targets lo hi n_instruments = mapM (validate_row lo hi n_instruments) targets"

section \<open>Reading helpers\<close>

definition cash_flow_kind :: "journal_kind \<Rightarrow> bool" where
  "cash_flow_kind k \<longleftrightarrow> k \<in> {DEPOSIT, MARGIN_TRANSFER, INVERSE_BUY, INVERSE_SELL, INVERSE_COMMISSION, INVERSE_TAX}"

definition index_level :: "pyfloat list \<Rightarrow> int \<Rightarrow> pyfloat res" where
  "index_level values t = array_get values t"

definition inverse_int :: "pyfloat list \<Rightarrow> int \<Rightarrow> int option res" where
  "inverse_int values t = res_bind (array_get values t) (\<lambda>out.
     if \<not> is_finite out \<or> fle out (Fin 0) then Inr None else res_bind (int_of_float out) (\<lambda>k. Inr (Some k)))"

definition cash_flow_krw :: "ledger \<Rightarrow> nat \<Rightarrow> int" where
  "cash_flow_krw l since =
     sum_where (\<lambda>e. je_account e = CASH \<and> cash_flow_kind (je_kind e)) je_cash (journal_since l since)"

section \<open>Futures\<close>

text \<open>A level as a decimal factor; a special value makes the final conversion to an integer raise.\<close>

fun level_amount :: "pyfloat \<Rightarrow> amount res" where
  "level_amount (Fin x) = Inr (AFloat x)"
| "level_amount NaN = Inl (ValueError ''cannot convert NaN to integer'')"
| "level_amount _ = Inl (OverflowError ''cannot convert Infinity to integer'')"

definition futures_commission :: "rat \<Rightarrow> int \<Rightarrow> int \<Rightarrow> pyfloat \<Rightarrow> int res" where
  "futures_commission rate delta multiplier level =
     res_bind (level_amount level) (\<lambda>lv. Inr (ceil_amount_krw (AFloat rate) [AInt \<bar>delta\<bar>, AInt multiplier, lv]))"

definition maintenance_floor :: "int \<Rightarrow> pyfloat \<Rightarrow> derivative_config \<Rightarrow> int \<Rightarrow> int res" where
  "maintenance_floor contracts level config multiplier =
     (if contracts = 0 then Inr 0 else
      let rate = dec_mul (repr_dec (margin_topup_trigger_fraction config)) (repr_dec (initial_margin_rate config)) in
      res_bind (level_amount level) (\<lambda>lv. Inr (ceil_amount_krw (ADec rate) [AInt \<bar>contracts\<bar>, AInt multiplier, lv])))"

text \<open>The descending scan over magnitudes; the scan that ends without a hit returns 0.\<close>

fun fund_scan :: "int \<Rightarrow> int \<Rightarrow> int \<Rightarrow> pyfloat \<Rightarrow> derivative_config \<Rightarrow> int \<Rightarrow> nat \<Rightarrow> int res" where
  "fund_scan sg held available level config multiplier 0 =
     res_bind (required_reserve_krw 0 level config) (\<lambda>reserve.
     res_bind (futures_commission (futures_cost_rate config) (0 - held) multiplier level) (\<lambda>commission. Inr 0))"
| "fund_scan sg held available level config multiplier (Suc m) =
     (let candidate = sg * int (Suc m) in
      res_bind (required_reserve_krw candidate level config) (\<lambda>reserve.
      res_bind (futures_commission (futures_cost_rate config) (candidate - held) multiplier level) (\<lambda>commission.
      if reserve + commission \<le> available then Inr candidate
      else fund_scan sg held available level config multiplier m)))"

definition level_checked :: "pyfloat \<Rightarrow> rat res" where
  "level_checked level = checked_index_level level"

definition fund_bound :: "int \<Rightarrow> derivative_config \<Rightarrow> int \<Rightarrow> rat \<Rightarrow> int res" where
  "fund_bound available config multiplier level_f =
     (let capacity = dec_mul (dec_mul (reserve_rate config) (of_int multiplier)) (repr_dec level_f)
      in res_bind (dec_div (of_int available) capacity) (\<lambda>q. Inr (dec_floor q)))"

definition largest_fundable_contracts ::
  "int \<Rightarrow> int \<Rightarrow> int \<Rightarrow> pyfloat \<Rightarrow> derivative_config \<Rightarrow> int \<Rightarrow> int res" where
  "largest_fundable_contracts target held available level config multiplier =
     (if target = 0 then Inr 0 else
      res_bind (level_checked level) (\<lambda>level_f.
      if available < 0 then Inr 0 else
      res_bind (fund_bound available config multiplier level_f) (\<lambda>bound.
      let sg = (if 0 < target then 1 else - 1); start_mag = min \<bar>target\<bar> bound in
      if start_mag < 0 then Inr 0
      else fund_scan sg held available level config multiplier (nat start_mag))))"

section \<open>Synchronising the futures legs\<close>

record leg_terms =
  lt_name :: string
  lt_config :: derivative_config
  lt_level :: pyfloat
  lt_mult :: int
  lt_target :: int

text \<open>The primary leg, then every secondary leg that is targeted or held, by name.\<close>

definition leg_names :: "ledger \<Rightarrow> (string, int) dict \<Rightarrow> string list" where
  "leg_names l targets = sort (remdups (dict_keys targets @ map fst (legs l)))"

definition secondary_terms ::
  "(string, derivative_config \<times> pyfloat) dict \<Rightarrow> (string, int) dict \<Rightarrow> string \<Rightarrow> leg_terms res" where
  "secondary_terms markets targets name =
     res_bind (dict_index markets name) (\<lambda>(cfg, lvl).
     Inr \<lparr>lt_name = name, lt_config = cfg, lt_level = lvl, lt_mult = contract_multiplier_krw cfg,
          lt_target = dict_get targets name 0\<rparr>)"

definition sync_legs ::
  "ledger \<Rightarrow> int \<Rightarrow> pyfloat \<Rightarrow> derivative_config \<Rightarrow> int \<Rightarrow> (string, int) dict \<Rightarrow>
   (string, derivative_config \<times> pyfloat) dict \<Rightarrow> leg_terms list res" where
  "sync_legs l target level config multiplier targets markets =
     res_bind (mapM (secondary_terms markets targets) (leg_names l targets)) (\<lambda>secondary.
     Inr (\<lparr>lt_name = PRIMARY_LEG, lt_config = config, lt_level = level, lt_mult = multiplier, lt_target = target\<rparr> # secondary))"

fun sumM :: "('a \<Rightarrow> int res) \<Rightarrow> 'a list \<Rightarrow> int res" where
  "sumM f [] = Inr 0"
| "sumM f (x # xs) = res_bind (f x) (\<lambda>a. res_bind (sumM f xs) (\<lambda>b. Inr (a + b)))"

definition leg_reserve :: "ledger \<Rightarrow> leg_terms \<Rightarrow> int res" where
  "leg_reserve l lt = required_reserve_krw (leg_contracts l (lt_name lt)) (lt_level lt) (lt_config lt)"

definition leg_floor :: "ledger \<Rightarrow> leg_terms \<Rightarrow> int res" where
  "leg_floor l lt = maintenance_floor (leg_contracts l (lt_name lt)) (lt_level lt) (lt_config lt) (lt_mult lt)"

text \<open>One leg of the funding loop; \<open>held\<close> is the position before any leg was traded.\<close>

definition fund_leg :: "ledger \<Rightarrow> bool \<Rightarrow> int \<Rightarrow> ledger \<times> int \<Rightarrow> leg_terms \<Rightarrow> (ledger \<times> int) res" where
  "fund_leg l0 in_band t s lt =
     (case s of (l, remaining) \<Rightarrow>
      let prior = leg_contracts l0 (lt_name lt) in
      res_bind (if in_band \<and> lt_target lt = prior then Inr prior
                else largest_fundable_contracts (lt_target lt) prior remaining (lt_level lt) (lt_config lt) (lt_mult lt)) (\<lambda>chosen.
      res_bind (if chosen \<noteq> prior
                then trade_futures l t chosen (lt_level lt) (lt_mult lt) (Fin (futures_cost_rate (lt_config lt))) (lt_name lt)
                else Inr l) (\<lambda>l'.
      res_bind (required_reserve_krw chosen (lt_level lt) (lt_config lt)) (\<lambda>reserve.
      res_bind (futures_commission (futures_cost_rate (lt_config lt)) (chosen - prior) (lt_mult lt) (lt_level lt)) (\<lambda>commission.
      Inr (l', remaining - (reserve + commission)))))))"

definition settle_margin :: "ledger \<Rightarrow> int \<Rightarrow> leg_terms list \<Rightarrow> ledger res" where
  "settle_margin l t lts =
     res_bind (sumM (leg_reserve l) lts) (\<lambda>reserve.
     let need = reserve - l_margin l in
     if 0 < need then transfer_margin l t (min need (spendable_cash l))
     else if need < 0 then transfer_margin l t need
     else Inr l)"

definition sync_futures ::
  "ledger \<Rightarrow> int \<Rightarrow> int \<Rightarrow> pyfloat \<Rightarrow> derivative_config \<Rightarrow> int \<Rightarrow> (string, int) dict \<Rightarrow>
   (string, derivative_config \<times> pyfloat) dict \<Rightarrow> ledger res" where
  "sync_futures l t target level config multiplier targets markets =
     res_bind (sync_legs l target level config multiplier targets markets) (\<lambda>lts.
     res_bind (sumM (leg_floor l) lts) (\<lambda>floor.
     let in_band = (floor \<le> l_margin l) in
     if in_band \<and> list_all (\<lambda>lt. lt_target lt = leg_contracts l (lt_name lt)) lts then
       res_bind (sumM (leg_reserve l) lts) (\<lambda>reserve.
       if reserve < l_margin l then transfer_margin l t (reserve - l_margin l) else Inr l)
     else
       res_bind (foldM (fund_leg l in_band t) (l, l_margin l + spendable_cash l) lts) (\<lambda>s.
       settle_margin (fst s) t lts)))"

section \<open>The inverse ETF\<close>

text \<open>The \<open>while\<close> loop that shrinks the purchase until units and commission fit the cash.\<close>

fun shrink_inverse :: "nat \<Rightarrow> rat \<Rightarrow> int \<Rightarrow> int \<Rightarrow> int" where
  "shrink_inverse 0 rate price spendable = 0"
| "shrink_inverse (Suc k) rate price spendable =
     (let n = int (Suc k) in
      if n * price + ceil_amount_krw (AFloat rate) [AInt n, AInt price] > spendable
      then shrink_inverse k rate price spendable else n)"

definition sync_inverse :: "ledger \<Rightarrow> int \<Rightarrow> int \<Rightarrow> int \<Rightarrow> derivative_config \<Rightarrow> ledger res" where
  "sync_inverse l t target_value_krw price config =
     guard (price = 0) (ZeroDivisionError ''integer division or modulo by zero'') (
     let rate = inverse_cost_rate config; desired = max (target_value_krw div price) 0; held = l_inverse_units l in
     if desired < held then
       map_sum id fst (sell_inverse l t (held - desired) price (Fin rate) (inverse_tax_rate config))
     else
       let spendable = spendable_cash l;
           affordable = shrink_inverse (nat (min (desired - held) (spendable div price))) rate price spendable
       in if 0 < affordable then buy_inverse l t affordable price (Fin rate) else Inr l)"

end
