(* ===== verification/EngineRun.thy ===== *)
theory EngineRun
  imports Engine
begin

text \<open>
  The session timeline of \<open>run_backtest\<close> (\<open>src/backtest/engine.py\<close>): validation of the run, the
  per-session phases in source order (corporate actions and income, trading, overlay, taxes, close mark
  and decisions) and the whole run. One definition per block of the function; \<open>session_step\<close> composes
  them.

  The overlay policy is code the engine only calls: it is a function from the causal state to a target or
  an error. The exchange calendar and the zone are the parameters of \<open>SessionTime\<close>. The SHA-256 digest
  over the canonical JSON of journal and records is the function \<open>ri_digest\<close> of the two lists.
\<close>

section \<open>Inputs\<close>

datatype exit_kind = TRADED | HALTED

record exit_event =
  ex_instrument :: int
  ex_last_session :: int
  ex_last_close :: int
  ex_kind :: exit_kind

record engine_events =
  share_factor_by_session :: "(int, (int \<times> pyfloat \<times> int) list) dict"
  exits_by_session :: "(int, exit_event list) dict"
  dividends_by_ex_session :: "(int, dividend_event list) dict"
  dividends_integrated :: bool

record overlay_market =
  om_index_level :: "pyfloat list"
  om_inverse_close :: "pyfloat list"
  om_legs :: "(string, pyfloat list) dict"

record overlay_state =
  os_session :: int
  os_nav :: int
  os_stock_book_nav :: int
  os_stock_book_returns :: "pyfloat list"
  os_index_returns :: "pyfloat list"
  os_index_level :: pyfloat
  os_contracts :: int
  os_inverse_units :: int
  os_leg_contracts :: "(string \<times> int) list"

type_synonym policy = "overlay_state \<Rightarrow> overlay_target option res"

record run_input =
  ri_arrays :: market_arrays
  ri_events :: engine_events
  ri_targets :: "(int, (int, pyfloat) dict) dict"
  ri_config :: engine_config
  ri_deposits :: "(date, int) dict"
  ri_rules :: krx_market_rules
  ri_start :: date
  ri_end :: date
  ri_cash_returns :: "pyfloat list option"
  ri_overlay :: "policy option"
  ri_overlay_market :: "overlay_market option"
  ri_derivatives :: "derivative_config option"
  ri_leg_derivatives :: "(string, derivative_config) dict"
  ri_rebalance_band :: pyfloat
  ri_settle_final_taxes :: bool
  ri_calendar :: "date \<Rightarrow> date \<Rightarrow> exchange_calendar"
  ri_zone :: zone
  ri_digest :: "journal_entry list \<Rightarrow> nav_record list \<Rightarrow> string"

record overlay_ctx =
  oc_policy :: policy
  oc_index :: "pyfloat list"
  oc_inverse :: "pyfloat list"
  oc_expiry :: "nat set"
  oc_terms :: derivative_config
  oc_leg_configs :: "(string, derivative_config) dict"
  oc_leg_levels :: "(string, pyfloat list) dict"

record run_ctx =
  rc_in :: run_input
  rc_lo :: int
  rc_hi :: int
  rc_schedule :: "(int, (int, pyfloat) dict) dict"
  rc_overlay :: "overlay_ctx option"
  rc_deposits :: "(int, int) dict"
  rc_scale :: pyfloat

record run_state =
  rs_ledger :: ledger
  rs_exited :: "int list"
  rs_pending :: "order_t list"
  rs_fills :: "fill_t list"
  rs_rejects :: "reject_t list"
  rs_records :: "nav_record list"
  rs_overlay :: "overlay_target option"
  rs_checked :: "string list"
  rs_returns :: "pyfloat list"
  rs_index_history :: "pyfloat list"
  rs_book_prev :: int

section \<open>Year ends\<close>

definition last_session_of_year :: "(date \<Rightarrow> date \<Rightarrow> exchange_calendar) \<Rightarrow> zone \<Rightarrow> int \<Rightarrow> date res" where
  "last_session_of_year get_calendar tz y =
     res_bind (xkrx_calendar_through get_calendar (Date y 12 31)) (\<lambda>cal.
     let ds = filter (\<lambda>d. year d = y) (map (local_date tz) (sessions cal)) in
     if ds = [] then Inl (ValueError ''max() iterable argument is empty'') else Inr (Max (set ds)))"

definition year_end_at :: "run_ctx \<Rightarrow> int \<Rightarrow> bool res" where
  "year_end_at c t =
     (let i = rc_in c; ss = ma_sessions (ri_arrays i); settle = ri_settle_final_taxes i in
      res_bind (array_get ss t) (\<lambda>today.
      res_bind (if t + 1 < int (length ss)
                then res_bind (array_get ss (t + 1)) (\<lambda>tomorrow. Inr (year today \<noteq> year tomorrow))
                else Inr False) (\<lambda>turn.
      res_bind (if \<not> settle \<and> t + 1 = int (length ss)
                then res_bind (last_session_of_year (ri_calendar i) (ri_zone i) (year today)) (\<lambda>d. Inr (today = d))
                else Inr turn) (\<lambda>calendar_year_end.
      Inr (calendar_year_end \<or> (t = rc_hi c \<and> settle))))))"

section \<open>Policy calls\<close>

definition overlay_state_init :: "overlay_state \<Rightarrow> overlay_state res" where
  "overlay_state_init s = res_bind (check_leg_pairs (os_leg_contracts s)) (\<lambda>_. Inr s)"

definition policy_target :: "policy \<Rightarrow> overlay_state \<Rightarrow> overlay_target option res" where
  "policy_target p s = res_bind (overlay_state_init s) p"

fun level_rows_ok :: "pyfloat list \<Rightarrow> int list \<Rightarrow> unit res" where
  "level_rows_ok levels [] = Inr ()"
| "level_rows_ok levels (row # rows) =
     res_bind (array_get levels row) (\<lambda>level.
     guard (\<not> is_finite level \<or> fle level (Fin 0)) (PITDataError ''level missing'') (level_rows_ok levels rows))"

fun check_target_legs ::
  "(string \<times> int) list \<Rightarrow> (string, pyfloat list) dict \<Rightarrow> (string, derivative_config) dict \<Rightarrow> string list \<Rightarrow> int list \<Rightarrow> string list res" where
  "check_target_legs [] leg_levels leg_configs checked rows = Inr checked"
| "check_target_legs ((name, _) # rest) leg_levels leg_configs checked rows =
     (if name \<in> set checked then check_target_legs rest leg_levels leg_configs checked rows
      else guard (name \<notin> set (dict_keys leg_configs)) (ValueError ''unknown target leg'') (
        res_bind (dict_index leg_levels name) (\<lambda>levels.
        res_bind (level_rows_ok levels rows) (\<lambda>_.
        check_target_legs rest leg_levels leg_configs (checked @ [name]) rows))))"

definition run_rows :: "run_ctx \<Rightarrow> int list" where
  "run_rows c = [max 0 (rc_lo c - 1) .. rc_hi c]"

definition check_target :: "run_ctx \<Rightarrow> overlay_ctx \<Rightarrow> overlay_target option \<Rightarrow> string list \<Rightarrow> string list res" where
  "check_target c oc target checked =
     (case target of None \<Rightarrow> Inr checked
      | Some tg \<Rightarrow> check_target_legs (ot_legs tg) (oc_leg_levels oc) (oc_leg_configs oc) checked (run_rows c))"

section \<open>Setting up the run\<close>

definition session_lookup :: "date list \<Rightarrow> date \<Rightarrow> int option" where
  "session_lookup ss d = map_of (rev (zip ss (map int [0..<length ss]))) d"

definition setup_leg ::
  "derivative_config \<Rightarrow> overlay_market \<Rightarrow> nat \<Rightarrow> string \<times> derivative_config \<Rightarrow> (string \<times> derivative_config \<times> pyfloat list) res" where
  "setup_leg terms om n_sessions leg =
     (case leg of (name, cfg) \<Rightarrow>
        (case map_of (om_legs om) name of
           None \<Rightarrow> Inl (ValueError ''leg is absent from overlay_market.legs'')
         | Some levels \<Rightarrow>
             guard (futures_tax_rate cfg \<noteq> futures_tax_rate terms
                    \<or> futures_annual_deduction_krw cfg \<noteq> futures_annual_deduction_krw terms)
               (ValueError ''leg tax terms differ from the primary's'') (
             guard (length levels \<noteq> n_sessions) (ValueError ''leg levels must align to sessions'')
               (Inr (name, cfg, levels)))))"

definition setup_overlay :: "run_input \<Rightarrow> int \<Rightarrow> int \<Rightarrow> overlay_ctx option res" where
  "setup_overlay i lo hi =
     (case (ri_overlay i, ri_overlay_market i, ri_derivatives i) of
        (None, None, None) \<Rightarrow> guard (ri_leg_derivatives i \<noteq> []) (ValueError ''leg_derivatives requires an overlay'') (Inr None)
      | (Some p, Some om, Some terms) \<Rightarrow>
          (let ss = ma_sessions (ri_arrays i) in
           guard (length (om_index_level om) \<noteq> length ss \<or> length (om_inverse_close om) \<noteq> length ss)
             (ValueError ''overlay_market arrays must align to sessions'') (
           res_bind (level_rows_ok (om_index_level om) [max 0 (lo - 1) .. hi]) (\<lambda>_.
           res_bind (mapM (setup_leg terms om (length ss)) (ri_leg_derivatives i)) (\<lambda>ls.
           Inr (Some \<lparr>oc_policy = p, oc_index = om_index_level om, oc_inverse = om_inverse_close om,
             oc_expiry = futures_expiry_rows ss, oc_terms = terms,
             oc_leg_configs = map (\<lambda>(n, c, v). (n, c)) ls, oc_leg_levels = map (\<lambda>(n, c, v). (n, v)) ls\<rparr>)))))
      | _ \<Rightarrow> Inl (ValueError ''overlay, overlay_market and derivatives must be given together or not at all''))"

definition place_deposit :: "date list \<Rightarrow> int \<Rightarrow> int \<Rightarrow> (int, int) dict \<Rightarrow> date \<times> int \<Rightarrow> (int, int) dict res" where
  "place_deposit ss lo hi d item =
     (case item of (pay_date, amount) \<Rightarrow>
      let idx0 = (case session_lookup ss pay_date of Some k \<Rightarrow> k | None \<Rightarrow> int (bisect_right ss pay_date));
          idx = (if idx0 < lo then lo else idx0)
      in guard (idx > hi) (ValueError ''deposit is after the run end'')
           (Inr (AList.update idx (dict_get d idx 0 + amount) d)))"

definition run_setup :: "run_input \<Rightarrow> run_ctx res" where
  "run_setup i =
     (let ss = ma_sessions (ri_arrays i) in
      case (session_lookup ss (ri_start i), session_lookup ss (ri_end i)) of
        (Some lo, Some hi) \<Rightarrow>
          guard (lo > hi) (ValueError ''run window is not within the panel sessions'') (
          guard (\<not> is_finite (ri_rebalance_band i) \<or> fless (ri_rebalance_band i) (Fin 0) \<or> \<not> fless (ri_rebalance_band i) (Fin 1))
            (ValueError ''rebalance_band must satisfy 0 <= b < 1'') (
          res_bind (validate_targets (ri_targets i) lo hi (int (length (ma_instruments (ri_arrays i))))) (\<lambda>schedule.
          guard (let given = [ri_overlay i \<noteq> None, ri_overlay_market i \<noteq> None, ri_derivatives i \<noteq> None]
                 in True \<in> set given \<and> False \<in> set given)
            (ValueError ''overlay, overlay_market and derivatives must be given together or not at all'') (
          guard (ri_leg_derivatives i \<noteq> [] \<and> ri_overlay i = None) (ValueError ''leg_derivatives requires an overlay'') (
          guard (case ri_cash_returns i of None \<Rightarrow> False | Some r \<Rightarrow> length r \<noteq> length ss)
            (ValueError ''cash_returns must align to sessions'') (
          res_bind (setup_overlay i lo hi) (\<lambda>ov.
          res_bind (foldM (place_deposit ss lo hi) [] (ri_deposits i)) (\<lambda>deps.
          Inr \<lparr>rc_in = i, rc_lo = lo, rc_hi = hi, rc_schedule = schedule, rc_overlay = ov, rc_deposits = deps,
               rc_scale = fsub (Fin 1) (Fin (cash_buffer (ri_config i)))\<rparr>))))))))
      | _ \<Rightarrow> Inl (ValueError ''run window is not within the panel sessions''))"

definition initial_orders :: "run_ctx \<Rightarrow> order_t list res" where
  "initial_orders c =
     (case map_of (rc_schedule c) (rc_lo c - 1) of
        None \<Rightarrow> Inr []
      | Some weights \<Rightarrow> if 0 < rc_lo c
          then target_orders weights (ri_arrays (rc_in c)) (rc_lo c - 1) [] (initial_cash (ri_config (rc_in c)))
                 (rc_scale c) (ri_rebalance_band (rc_in c))
          else Inr [])"

text \<open>The row before the window decides the first session's hedge, with empty return series.\<close>

definition initial_overlay :: "run_ctx \<Rightarrow> (overlay_target option \<times> string list) res" where
  "initial_overlay c =
     (case rc_overlay c of None \<Rightarrow> Inr (None, [])
      | Some oc \<Rightarrow> if 0 < rc_lo c then
          res_bind (index_level (oc_index oc) (rc_lo c - 1)) (\<lambda>lv.
          res_bind (policy_target (oc_policy oc) \<lparr>os_session = rc_lo c - 1, os_nav = initial_cash (ri_config (rc_in c)),
             os_stock_book_nav = initial_cash (ri_config (rc_in c)), os_stock_book_returns = [], os_index_returns = [],
             os_index_level = lv, os_contracts = 0, os_inverse_units = 0, os_leg_contracts = []\<rparr>) (\<lambda>tg.
          res_bind (check_target c oc tg []) (\<lambda>checked. Inr (tg, checked))))
        else Inr (None, []))"

definition initial_state :: "run_ctx \<Rightarrow> run_state res" where
  "initial_state c =
     res_bind (ledger_init (initial_cash (ri_config (rc_in c)))) (\<lambda>l.
     res_bind (initial_orders c) (\<lambda>orders.
     res_bind (initial_overlay c) (\<lambda>(tg, checked).
     Inr \<lparr>rs_ledger = l, rs_exited = [], rs_pending = orders, rs_fills = [], rs_rejects = [], rs_records = [],
          rs_overlay = tg, rs_checked = checked, rs_returns = [], rs_index_history = [],
          rs_book_prev = initial_cash (ri_config (rc_in c))\<rparr>)))"

section \<open>Open phase: corporate actions, income, exits, deposits, sweep\<close>

definition step_share_factors :: "engine_events \<Rightarrow> int \<Rightarrow> ledger \<Rightarrow> ledger res" where
  "step_share_factors ev t l =
     foldM (\<lambda>l (n, factor, base). apply_share_factor l t n factor base) l (dict_get (share_factor_by_session ev) t [])"

definition exit_price :: "engine_config \<Rightarrow> exit_event \<Rightarrow> int" where
  "exit_price config e =
     (if ex_kind e = TRADED \<or> halted_exit_policy config = LAST_CLOSE then ex_last_close e else 0)"

definition step_exit :: "engine_config \<Rightarrow> int \<Rightarrow> ledger \<times> int list \<Rightarrow> exit_event \<Rightarrow> (ledger \<times> int list) res" where
  "step_exit config t s e =
     (case s of (l, exited) \<Rightarrow>
      let n = ex_instrument e; exited' = List.insert n exited in
      if n \<in> set (dict_keys (l_positions l))
      then res_bind (close_exit l t n (exit_price config e)) (\<lambda>l'. Inr (l', exited'))
      else Inr (l, exited'))"

definition step_deposit :: "(int, int) dict \<Rightarrow> int \<Rightarrow> ledger \<Rightarrow> ledger res" where
  "step_deposit deposits t l = (case map_of deposits t of None \<Rightarrow> Inr l | Some a \<Rightarrow> deposit l t a)"

definition step_sweep :: "pyfloat list option \<Rightarrow> int \<Rightarrow> ledger \<Rightarrow> ledger res" where
  "step_sweep sweep t l =
     (case sweep of None \<Rightarrow> Inr l
      | Some rates \<Rightarrow> res_bind (array_get rates t) (\<lambda>rate.
          guard (\<not> is_finite rate) (PITDataError ''cash return missing'')
            (map_sum id fst (accrue_cash_yield l t rate))))"

definition open_phase :: "run_ctx \<Rightarrow> int \<Rightarrow> ledger \<Rightarrow> int list \<Rightarrow> (ledger \<times> int list) res" where
  "open_phase c t l exited =
     (let i = rc_in c; ev = ri_events i; config = ri_config i in
      res_bind (step_share_factors ev t l) (\<lambda>l1.
      let l2 = record_dividend_entitlements l1 t (dict_get (dividends_by_ex_session ev) t []) in
      res_bind (settle_dividends l2 t (costs config)) (\<lambda>l3.
      res_bind (foldM (step_exit config t) (l3, exited) (dict_get (exits_by_session ev) t [])) (\<lambda>(l4, exited').
      res_bind (step_deposit (rc_deposits c) t l4) (\<lambda>l5.
      res_bind (step_sweep (ri_cash_returns i) t l5) (\<lambda>l6.
      Inr (l6, exited')))))))"

section \<open>Trading phase: sells, tax payment, buys\<close>

record trade_out =
  to_ledger :: ledger
  to_fills :: "fill_t list"
  to_rejects :: "reject_t list"
  to_carried :: "order_t list"

text \<open>Unfilled rejected orders carried to the next session, when the configuration says so.\<close>

definition carried_rejects :: "engine_config \<Rightarrow> int \<Rightarrow> fill_t list \<Rightarrow> reject_t list \<Rightarrow> order_t list" where
  "carried_rejects config t order_fills order_rejects =
     (if carry_unfilled (execution config)
      then map (\<lambda>r. mk_order (o_instrument (r_order r)) (o_side (r_order r)) (o_quantity (r_order r)) t)
             (filter (\<lambda>r. r_reason r \<noteq> Delisted \<and> r_order r \<notin> f_order ` set order_fills) order_rejects)
      else [])"

definition trade_phase :: "run_ctx \<Rightarrow> int \<Rightarrow> ledger \<Rightarrow> int list \<Rightarrow> order_t list \<Rightarrow> trade_out res" where
  "trade_phase c t l exited pending =
     (let i = rc_in c; config = ri_config i;
          executable = filter (\<lambda>od. o_instrument od \<notin> set exited) pending;
          delisted = map (\<lambda>od. \<lparr>r_order = od, r_reason = Delisted\<rparr>) (filter (\<lambda>od. o_instrument od \<in> set exited) pending) in
      res_bind (price_orders executable (ri_arrays i) t (execution config) (costs config) (ri_rules i)) (\<lambda>(order_fills, order_rejects).
      let sell_fills = filter (\<lambda>f. o_side (f_order f) = SideSELL) order_fills;
          buy_fills = filter (\<lambda>f. o_side (f_order f) = SideBUY) order_fills in
      res_bind (apply_sell_fills l sell_fills t (ri_arrays i) config) (\<lambda>s.
      let l1 = fst (settle_tax_payable (fs_ledger s) t) in
      res_bind (apply_buy_fills l1 buy_fills t config) (\<lambda>b.
      Inr \<lparr>to_ledger = fs_ledger b, to_fills = fs_applied s @ fs_applied b,
           to_rejects = delisted @ fs_rejects s @ fs_rejects b @ order_rejects,
           to_carried = fs_carried s @ fs_carried b @ carried_rejects config t order_fills order_rejects\<rparr>))))"

section \<open>Overlay phase: variation, roll, futures and inverse\<close>

definition leg_level_at :: "overlay_ctx \<Rightarrow> int \<Rightarrow> string \<Rightarrow> pyfloat res" where
  "leg_level_at oc t name = res_bind (dict_index (oc_leg_levels oc) name) (\<lambda>levels. index_level levels t)"

definition leg_variation :: "overlay_ctx \<Rightarrow> int \<Rightarrow> ledger \<Rightarrow> string \<times> int \<Rightarrow> ledger res" where
  "leg_variation oc t l leg =
     (let name = fst leg in
      res_bind (leg_level_at oc (t - 1) name) (\<lambda>prev.
      res_bind (leg_level_at oc t name) (\<lambda>cur.
      res_bind (dict_index (oc_leg_configs oc) name) (\<lambda>cfg.
      map_sum id fst (settle_variation l t prev cur (contract_multiplier_krw cfg) name)))))"

definition primary_variation :: "overlay_ctx \<Rightarrow> int \<Rightarrow> pyfloat \<Rightarrow> ledger \<Rightarrow> ledger res" where
  "primary_variation oc t level l =
     (if l_contracts l \<noteq> 0 then
        res_bind (index_level (oc_index oc) (t - 1)) (\<lambda>prev.
        map_sum id fst (settle_variation l t prev level (contract_multiplier_krw (oc_terms oc)) PRIMARY_LEG))
      else Inr l)"

definition leg_roll :: "overlay_ctx \<Rightarrow> int \<Rightarrow> ledger \<Rightarrow> string \<times> int \<Rightarrow> ledger res" where
  "leg_roll oc t l leg =
     (let name = fst leg in
      res_bind (leg_level_at oc t name) (\<lambda>cur.
      res_bind (dict_index (oc_leg_configs oc) name) (\<lambda>cfg.
      roll_futures l t cur (contract_multiplier_krw cfg) (Fin (futures_cost_rate cfg)) name)))"

definition roll_phase :: "overlay_ctx \<Rightarrow> int \<Rightarrow> pyfloat \<Rightarrow> ledger \<Rightarrow> ledger res" where
  "roll_phase oc t level l =
     (if 0 \<le> t \<and> nat t \<in> oc_expiry oc then
        res_bind (if l_contracts l \<noteq> 0
                  then roll_futures l t level (contract_multiplier_krw (oc_terms oc)) (Fin (futures_cost_rate (oc_terms oc))) PRIMARY_LEG
                  else Inr l) (\<lambda>l1.
        foldM (leg_roll oc t) l1 (legs l1))
      else Inr l)"

definition leg_market :: "overlay_ctx \<Rightarrow> int \<Rightarrow> string \<times> derivative_config \<Rightarrow> (string \<times> derivative_config \<times> pyfloat) res" where
  "leg_market oc t leg = res_bind (leg_level_at oc t (fst leg)) (\<lambda>lv. Inr (fst leg, snd leg, lv))"

text \<open>A missing inverse close is an error only while units are held or targeted.\<close>

definition inverse_phase :: "overlay_ctx \<Rightarrow> int \<Rightarrow> overlay_target option \<Rightarrow> int option \<Rightarrow> ledger \<Rightarrow> ledger res" where
  "inverse_phase oc t target inverse_price l =
     (let wanted = (case target of Some tg \<Rightarrow> ot_inverse_value_krw tg
                    | None \<Rightarrow> l_inverse_units l * (case inverse_price of Some p \<Rightarrow> p | None \<Rightarrow> 0)) in
      if 0 < wanted \<or> 0 < l_inverse_units l then
        (case inverse_price of None \<Rightarrow> Inl (PITDataError ''inverse close missing'')
         | Some p \<Rightarrow> sync_inverse l t wanted p (oc_terms oc))
      else Inr l)"

definition overlay_phase :: "overlay_ctx \<Rightarrow> int \<Rightarrow> overlay_target option \<Rightarrow> pyfloat \<Rightarrow> int option \<Rightarrow> ledger \<Rightarrow> ledger res" where
  "overlay_phase oc t target level inverse_price l =
     res_bind (primary_variation oc t level l) (\<lambda>l1.
     res_bind (foldM (leg_variation oc t) l1 (legs l1)) (\<lambda>l2.
     res_bind (roll_phase oc t level l2) (\<lambda>l3.
     res_bind (mapM (leg_market oc t) (oc_leg_configs oc)) (\<lambda>markets.
     res_bind (sync_futures l3 t (case target of Some tg \<Rightarrow> ot_contracts tg | None \<Rightarrow> l_contracts l3) level (oc_terms oc)
                (contract_multiplier_krw (oc_terms oc)) (case target of Some tg \<Rightarrow> ot_legs tg | None \<Rightarrow> legs l3) markets) (\<lambda>l4.
     inverse_phase oc t target inverse_price l4)))))"

section \<open>Close phase: year-end taxes and the mark\<close>

definition tax_phase :: "run_ctx \<Rightarrow> int \<Rightarrow> ledger \<Rightarrow> ledger res" where
  "tax_phase c t l =
     res_bind (year_end_at c t) (\<lambda>year_end.
     if \<not> year_end then Inr l else
     let l1 = (if ri_cash_returns (rc_in c) \<noteq> None then fst (settle_cash_yield_tax l t (costs (ri_config (rc_in c)))) else l)
     in Inr (case rc_overlay c of None \<Rightarrow> l1 | Some oc \<Rightarrow> fst (settle_futures_tax l1 t (oc_terms oc))))"

definition mark_phase :: "run_ctx \<Rightarrow> int \<Rightarrow> int option \<Rightarrow> ledger \<Rightarrow> nav_record res" where
  "mark_phase c t inverse_price l =
     res_bind (array_get (ma_close (ri_arrays (rc_in c))) t) (\<lambda>close.
     res_bind (array_get (ma_present (ri_arrays (rc_in c))) t) (\<lambda>present.
     mark l t close present inverse_price))"

definition stock_book :: "nav_record \<Rightarrow> int" where
  "stock_book r = nr_cash r + nr_dividend_receivable r + nr_market_value r - nr_tax_payable r"

text \<open>The stock-book return of a session, net of the flows that finance the overlay; \<open>int / int\<close> is
  the correctly rounded quotient and overflows when that is out of range.\<close>

definition int_truediv :: "int \<Rightarrow> int \<Rightarrow> pyfloat res" where
  "int_truediv a b =
     (if b = 0 then Inl (ZeroDivisionError ''division by zero'')
      else case to_float (of_int a / of_int b) of Fin x \<Rightarrow> Inr (Fin x)
        | _ \<Rightarrow> Inl (OverflowError ''integer division result too large for a float''))"

definition session_return :: "int \<Rightarrow> int \<Rightarrow> int \<Rightarrow> int \<Rightarrow> int \<Rightarrow> pyfloat res" where
  "session_return lo t prev stock_now flow =
     (if t > lo \<and> prev > 0 then res_bind (int_truediv (stock_now - flow) prev) (\<lambda>q. Inr (fsub q (Fin 1))) else Inr NaN)"

definition index_return :: "overlay_ctx \<Rightarrow> int \<Rightarrow> int \<Rightarrow> pyfloat \<Rightarrow> pyfloat res" where
  "index_return oc lo t level =
     (if t = lo then Inr NaN
      else res_bind (index_level (oc_index oc) (t - 1)) (\<lambda>prev. res_bind (fdiv level prev) (\<lambda>q. Inr (fsub q (Fin 1)))))"

section \<open>Decisions at the close\<close>

definition target_reserve :: "overlay_ctx \<Rightarrow> int \<Rightarrow> pyfloat \<Rightarrow> int \<Rightarrow> (string \<times> int) list \<Rightarrow> int res" where
  "target_reserve oc t level contracts target_legs =
     res_bind (required_reserve_krw contracts level (oc_terms oc)) (\<lambda>primary.
     res_bind (sumM (\<lambda>(name, count). res_bind (leg_level_at oc t name) (\<lambda>lv.
        res_bind (dict_index (oc_leg_configs oc) name) (\<lambda>cfg. required_reserve_krw count lv cfg))) target_legs) (\<lambda>secondary.
     Inr (primary + secondary)))"

record decision =
  dc_overlay :: "overlay_target option"
  dc_checked :: "string list"
  dc_sizing_nav :: int

definition decide_overlay ::
  "run_ctx \<Rightarrow> overlay_ctx \<Rightarrow> int \<Rightarrow> pyfloat \<Rightarrow> nav_record \<Rightarrow> pyfloat list \<Rightarrow> pyfloat list \<Rightarrow> string list \<Rightarrow> ledger \<Rightarrow> decision res" where
  "decide_overlay c oc t level r returns index_history checked l =
     res_bind (policy_target (oc_policy oc) \<lparr>os_session = t, os_nav = nr_nav r, os_stock_book_nav = stock_book r,
        os_stock_book_returns = returns, os_index_returns = index_history, os_index_level = level,
        os_contracts = l_contracts l, os_inverse_units = l_inverse_units l, os_leg_contracts = legs l\<rparr>) (\<lambda>target.
     let contracts = (case target of Some tg \<Rightarrow> ot_contracts tg | None \<Rightarrow> l_contracts l);
         inverse_krw = (case target of Some tg \<Rightarrow> ot_inverse_value_krw tg | None \<Rightarrow> nr_inverse_value r);
         target_legs = (case target of Some tg \<Rightarrow> ot_legs tg | None \<Rightarrow> legs l) in
     res_bind (check_target c oc target checked) (\<lambda>checked'.
     res_bind (target_reserve oc t level contracts target_legs) (\<lambda>reserve.
     Inr \<lparr>dc_overlay = target, dc_checked = checked', dc_sizing_nav = max (nr_nav r - (reserve + inverse_krw)) 0\<rparr>)))"

definition next_orders :: "run_ctx \<Rightarrow> int \<Rightarrow> ledger \<Rightarrow> int \<Rightarrow> order_t list \<Rightarrow> order_t list res" where
  "next_orders c t l sizing_nav carried =
     (case map_of (rc_schedule c) t of None \<Rightarrow> Inr carried
      | Some weights \<Rightarrow> if rc_lo c \<le> t then
          res_bind (target_orders weights (ri_arrays (rc_in c)) t (l_positions l) sizing_nav (rc_scale c) (ri_rebalance_band (rc_in c))) (\<lambda>orders.
          Inr (carried @ orders))
        else Inr carried)"

section \<open>A session and a run\<close>

text \<open>The levels an overlay session reads first: the index level and the inverse close.\<close>

definition overlay_quotes :: "run_ctx \<Rightarrow> int \<Rightarrow> (pyfloat \<times> int option) res" where
  "overlay_quotes c t =
     (case rc_overlay c of None \<Rightarrow> Inr (NaN, None)
      | Some oc \<Rightarrow> res_bind (index_level (oc_index oc) t) (\<lambda>level.
          res_bind (inverse_int (oc_inverse oc) t) (\<lambda>p. Inr (level, p))))"

text \<open>The money side of a session: the ledger after the close phase, with the trading outcome.\<close>

definition session_ledger ::
  "run_ctx \<Rightarrow> int \<Rightarrow> run_state \<Rightarrow> (ledger \<times> int list \<times> trade_out \<times> pyfloat \<times> int option) res" where
  "session_ledger c t s =
     res_bind (open_phase c t (rs_ledger s) (rs_exited s)) (\<lambda>(l1, exited).
     res_bind (trade_phase c t l1 exited (rs_pending s)) (\<lambda>tr.
     res_bind (overlay_quotes c t) (\<lambda>(level, inverse_price).
     res_bind (case rc_overlay c of None \<Rightarrow> Inr (to_ledger tr)
               | Some oc \<Rightarrow> overlay_phase oc t (rs_overlay s) level inverse_price (to_ledger tr)) (\<lambda>l2.
     res_bind (tax_phase c t l2) (\<lambda>l3.
     Inr (l3, exited, tr, level, inverse_price))))))"

definition session_step :: "run_ctx \<Rightarrow> run_state \<Rightarrow> int \<Rightarrow> run_state res" where
  "session_step c s t =
     (let start = journal_size (rs_ledger s); lo = rc_lo c in
      res_bind (session_ledger c t s) (\<lambda>(l, exited, tr, level, inverse_price).
      res_bind (mark_phase c t inverse_price l) (\<lambda>r.
      res_bind (session_return lo t (rs_book_prev s) (stock_book r) (cash_flow_krw l start)) (\<lambda>ret.
      let returns = rs_returns s @ [ret] in
      res_bind (case rc_overlay c of None \<Rightarrow> Inr (rs_index_history s)
                | Some oc \<Rightarrow> res_bind (index_return oc lo t level) (\<lambda>x. Inr (rs_index_history s @ [x]))) (\<lambda>index_history.
      res_bind (case rc_overlay c of
                  None \<Rightarrow> Inr \<lparr>dc_overlay = rs_overlay s, dc_checked = rs_checked s, dc_sizing_nav = nr_nav r\<rparr>
                | Some oc \<Rightarrow> decide_overlay c oc t level r returns index_history (rs_checked s) l) (\<lambda>d.
      res_bind (next_orders c t l (dc_sizing_nav d) (to_carried tr)) (\<lambda>orders.
      Inr \<lparr>rs_ledger = l, rs_exited = exited, rs_pending = orders,
           rs_fills = rs_fills s @ to_fills tr, rs_rejects = rs_rejects s @ to_rejects tr,
           rs_records = rs_records s @ [r], rs_overlay = dc_overlay d, rs_checked = dc_checked d,
           rs_returns = returns, rs_index_history = index_history, rs_book_prev = stock_book r\<rparr>)))))))"

record backtest_result =
  br_nav :: "nav_record list"
  br_fills :: "fill_t list"
  br_rejects :: "reject_t list"
  br_journal :: "journal_entry list"
  br_dividends_integrated :: bool
  br_ledger_hash :: string
  br_stock_book_returns :: "pyfloat list"

definition run_sessions :: "run_ctx \<Rightarrow> run_state \<Rightarrow> run_state res" where
  "run_sessions c s = foldM (session_step c) s [rc_lo c .. rc_hi c]"

definition run_backtest :: "run_input \<Rightarrow> backtest_result res" where
  "run_backtest i =
     res_bind (run_setup i) (\<lambda>c.
     res_bind (initial_state c) (\<lambda>s0.
     res_bind (run_sessions c s0) (\<lambda>s.
     Inr \<lparr>br_nav = rs_records s, br_fills = rs_fills s, br_rejects = rs_rejects s, br_journal = l_journal (rs_ledger s),
          br_dividends_integrated = dividends_integrated (ri_events i),
          br_ledger_hash = ri_digest i (l_journal (rs_ledger s)) (rs_records s), br_stock_book_returns = rs_returns s\<rparr>)))"

end
