(* ===== verification/EngineOps.thy ===== *)
theory EngineOps
  imports EngineRun LedgerInv
begin

text \<open>
  The engine as a client of the ledger. \<open>engine_op\<close> says which ledger calls the engine may make in
  which ledger state: purchases and margin transfers only out of cash that owes no tax, sales at the
  costs of the fee schedule, corporate actions and income exactly as the events and rates give them.
  Every phase of a session is shown to be a run of such calls; the interface \<open>ledger_client\<close> turns a
  law of single calls into a law of whole sessions and backtests.
\<close>

section \<open>Runs of permitted calls\<close>

inductive allowed_run :: "(ledger \<Rightarrow> ledger_op \<Rightarrow> bool) \<Rightarrow> ledger \<Rightarrow> ledger \<Rightarrow> bool"
  for P :: "ledger \<Rightarrow> ledger_op \<Rightarrow> bool" where
  refl [simp, intro]: "allowed_run P l l"
| step: "allowed_run P l m \<Longrightarrow> P m op \<Longrightarrow> ledger_apply m op = Inr l' \<Longrightarrow> allowed_run P l l'"

lemma allowed_run_one: "P l op \<Longrightarrow> ledger_apply l op = Inr l' \<Longrightarrow> allowed_run P l l'"
  by (blast intro: allowed_run.intros)

lemma allowed_run_trans [trans]: "allowed_run P l m \<Longrightarrow> allowed_run P m n \<Longrightarrow> allowed_run P l n"
  by (rotate_tac, induction m n rule: allowed_run.induct) (auto intro: allowed_run.step)

lemma allowed_run_mono:
  assumes "\<And>m op. P m op \<Longrightarrow> Q m op"
  shows "allowed_run P l l' \<Longrightarrow> allowed_run Q l l'"
  by (induction rule: allowed_run.induct) (use assms in \<open>blast intro: allowed_run.intros\<close>)+

text \<open>A loop whose body makes permitted calls makes permitted calls; \<open>g\<close> reads the ledger off the loop state.\<close>

lemma foldM_allowed:
  assumes "foldM f s xs = Inr s'"
    and "\<And>x s s'. x \<in> set xs \<Longrightarrow> f s x = Inr s' \<Longrightarrow> allowed_run P (g s) (g s')"
  shows "allowed_run P (g s) (g s')"
  by (rule foldM_invariant [OF assms(1), where P = "\<lambda>u. allowed_run P (g s) (g u)"])
    (use assms(2) in \<open>blast intro: allowed_run_trans\<close>)+

text \<open>The interface of a client: a transitive law that every permitted call obeys.\<close>

locale ledger_client =
  fixes P :: "ledger \<Rightarrow> ledger_op \<Rightarrow> bool"
    and law :: "ledger \<Rightarrow> ledger \<Rightarrow> bool"
  assumes law_refl: "law l l"
    and law_trans: "law l m \<Longrightarrow> law m n \<Longrightarrow> law l n"
    and law_call: "P l op \<Longrightarrow> ledger_apply l op = Inr l' \<Longrightarrow> law l l'"
begin

lemma run_law: "allowed_run P l l' \<Longrightarrow> law l l'"
  by (induction rule: allowed_run.induct) (blast intro: law_refl law_trans law_call)+

lemma restrict_law: "(\<And>m op. Q m op \<Longrightarrow> P m op) \<Longrightarrow> allowed_run Q l l' \<Longrightarrow> law l l'"
  by (blast intro: run_law allowed_run_mono)

end

interpretation booking_client: ledger_client "\<lambda>_ _. True" books
  by unfold_locales (auto intro: books_trans ledger_apply_books)

interpretation solvent_client: ledger_client op_ok "\<lambda>l l'. ledger_ok l \<longrightarrow> ledger_ok l'"
  by unfold_locales (auto intro: op_preserves_ok)

interpretation reachable_client: ledger_client op_ok "\<lambda>l l'. reachable l \<longrightarrow> reachable l'"
  by unfold_locales (auto intro: reachable.step)

section \<open>The calls of the engine\<close>

fun op_session :: "ledger_op \<Rightarrow> int" where
  "op_session (OpDeposit t a) = t"
| "op_session (OpBuy t i q p c) = t"
| "op_session (OpSell t i q p c x) = t"
| "op_session (OpShareFactor t i f b) = t"
| "op_session (OpEntitlements t es) = t"
| "op_session (OpSettleDividends t c) = t"
| "op_session (OpCloseExit t i p) = t"
| "op_session (OpCashYield t r) = t"
| "op_session (OpCashYieldTax t c) = t"
| "op_session (OpTaxPayable t) = t"
| "op_session (OpTransferMargin t a) = t"
| "op_session (OpVariation t p c m leg) = t"
| "op_session (OpTradeFutures t k v m r leg) = t"
| "op_session (OpRollFutures t v m r leg) = t"
| "op_session (OpFuturesTax t c) = t"
| "op_session (OpBuyInverse t u p r) = t"
| "op_session (OpSellInverse t u p r x) = t"

text \<open>Calls that commit cash: only out of what is left after the tax liability. Futures trades, rolls
  and variation are paid from margin.\<close>

fun spending_op :: "ledger \<Rightarrow> ledger_op \<Rightarrow> bool" where
  "spending_op l (OpBuy t i q p cm) \<longleftrightarrow> q * p + cm \<le> spendable_cash l"
| "spending_op l (OpTransferMargin t a) \<longleftrightarrow> a \<le> spendable_cash l"
| "spending_op l (OpBuyInverse t u p r) \<longleftrightarrow>
     (\<exists>y. r = Fin y \<and> u * p + ceil_amount_krw (AFloat y) [AInt u, AInt p] \<le> spendable_cash l)"
| "spending_op l (OpTradeFutures t k v m r leg) \<longleftrightarrow> True"
| "spending_op l (OpRollFutures t v m r leg) \<longleftrightarrow> True"
| "spending_op l (OpVariation t p c m leg) \<longleftrightarrow> True"
| "spending_op l op \<longleftrightarrow> False"

text \<open>The other calls: sales at the scheduled costs, and what events, rates and terms prescribe.\<close>

fun receiving_op :: "run_ctx \<Rightarrow> ledger_op \<Rightarrow> bool" where
  "receiving_op c (OpSell t i q p cm x) \<longleftrightarrow>
     1 \<le> q \<and> 1 \<le> p \<and> (\<exists>r. cell (ma_sell_tax_rate (ri_arrays (rc_in c))) t i = Inr (Fin r)
        \<and> \<lparr>fc_commission = cm, fc_sell_tax = x\<rparr> = fill_cost SideSELL q p (repr_dec r) (costs (ri_config (rc_in c))))"
| "receiving_op c (OpShareFactor t i f b) \<longleftrightarrow> (i, f, b) \<in> set (dict_get (share_factor_by_session (ri_events (rc_in c))) t [])"
| "receiving_op c (OpEntitlements t es) \<longleftrightarrow> es = dict_get (dividends_by_ex_session (ri_events (rc_in c))) t []"
| "receiving_op c (OpSettleDividends t cc) \<longleftrightarrow> cc = costs (ri_config (rc_in c))"
| "receiving_op c (OpCashYield t r) \<longleftrightarrow>
     (\<exists>rates. ri_cash_returns (rc_in c) = Some rates \<and> array_get rates t = Inr r \<and> is_finite r)"
| "receiving_op c (OpSellInverse t u p r x) \<longleftrightarrow>
     (\<exists>oc. rc_overlay c = Some oc \<and> r = Fin (inverse_cost_rate (oc_terms oc)) \<and> x = inverse_tax_rate (oc_terms oc))"
| "receiving_op c (OpDeposit t a) \<longleftrightarrow> True"
| "receiving_op c (OpCloseExit t i p) \<longleftrightarrow> True"
| "receiving_op c (OpCashYieldTax t cc) \<longleftrightarrow> cc = costs (ri_config (rc_in c))"
| "receiving_op c (OpTaxPayable t) \<longleftrightarrow> True"
| "receiving_op c (OpFuturesTax t dc) \<longleftrightarrow> True"
| "receiving_op c op \<longleftrightarrow> False"

definition spends :: "int \<Rightarrow> ledger \<Rightarrow> ledger_op \<Rightarrow> bool" where
  "spends t l op \<longleftrightarrow> op_session op = t \<and> spending_op l op"

definition engine_op :: "run_ctx \<Rightarrow> int \<Rightarrow> ledger \<Rightarrow> ledger_op \<Rightarrow> bool" where
  "engine_op c t l op \<longleftrightarrow> op_session op = t \<and> (spending_op l op \<or> receiving_op c op)"

abbreviation engine_run :: "run_ctx \<Rightarrow> int \<Rightarrow> ledger \<Rightarrow> ledger \<Rightarrow> bool" where
  "engine_run c t \<equiv> allowed_run (engine_op c t)"

abbreviation spend_run :: "int \<Rightarrow> ledger \<Rightarrow> ledger \<Rightarrow> bool" where
  "spend_run t \<equiv> allowed_run (spends t)"

lemma spend_engine: "spend_run t l l' \<Longrightarrow> engine_run c t l l'"
  by (erule allowed_run_mono [rotated]) (simp add: spends_def engine_op_def)

lemma engine_call:
  "op_session op = t \<Longrightarrow> receiving_op c op \<Longrightarrow> ledger_apply l op = Inr l' \<Longrightarrow> engine_run c t l l'"
  by (rule allowed_run_one) (auto simp: engine_op_def)

lemma spend_call:
  "op_session op = t \<Longrightarrow> spending_op l op \<Longrightarrow> ledger_apply l op = Inr l' \<Longrightarrow> spend_run t l l'"
  by (rule allowed_run_one) (auto simp: spends_def)

section \<open>Open phase\<close>

lemma share_factors_run:
  assumes "step_share_factors (ri_events (rc_in c)) t l = Inr l'"
  shows "engine_run c t l l'"
  using assms unfolding step_share_factors_def
  by (rule foldM_allowed [where g = id, simplified])
    (auto intro!: engine_call [where op = "OpShareFactor t i f b" for i f b])

lemma exit_run:
  assumes "step_exit config t s e = Inr s'"
  shows "engine_run c t (fst s) (fst s')"
  using assms by (cases s)
    (auto simp: step_exit_def Let_def res_simps split: if_splits
      intro: engine_call [where op = "OpCloseExit t (ex_instrument e) (exit_price config e)"])

lemma deposit_run: "step_deposit ds t l = Inr l' \<Longrightarrow> engine_run c t l l'"
  by (auto simp: step_deposit_def split: option.splits intro: engine_call [where op = "OpDeposit t a" for a])

lemma sweep_run:
  assumes "step_sweep (ri_cash_returns (rc_in c)) t l = Inr l'"
  shows "engine_run c t l l'"
  using assms
  by (auto simp: step_sweep_def res_simps split: option.splits intro!: engine_call [where op = "OpCashYield t r" for r])

lemma open_phase_run:
  assumes "open_phase c t l ex = Inr (l', ex')"
  shows "engine_run c t l l'"
proof -
  from assms obtain l1 l3 l4 l5 where steps:
    "step_share_factors (ri_events (rc_in c)) t l = Inr l1"
    "settle_dividends (record_dividend_entitlements l1 t (dict_get (dividends_by_ex_session (ri_events (rc_in c))) t []))
       t (costs (ri_config (rc_in c))) = Inr l3"
    "foldM (step_exit (ri_config (rc_in c)) t) (l3, ex) (dict_get (exits_by_session (ri_events (rc_in c))) t []) = Inr (l4, ex')"
    "step_deposit (rc_deposits c) t l4 = Inr l5" "step_sweep (ri_cash_returns (rc_in c)) t l5 = Inr l'"
    by (auto simp: open_phase_def Let_def res_simps)
  have "engine_run c t l l1" by (rule share_factors_run [OF steps(1)])
  also have "engine_run c t l1 (record_dividend_entitlements l1 t (dict_get (dividends_by_ex_session (ri_events (rc_in c))) t []))"
    by (rule engine_call [where op = "OpEntitlements t (dict_get (dividends_by_ex_session (ri_events (rc_in c))) t [])"]) simp_all
  also have "engine_run c t \<dots> l3"
    by (rule engine_call [where op = "OpSettleDividends t (costs (ri_config (rc_in c)))"]) (use steps(2) in simp_all)
  also have "engine_run c t l3 l4" using foldM_allowed [OF steps(3), where g = fst] exit_run by fastforce
  also have "engine_run c t l4 l5" by (rule deposit_run [OF steps(4)])
  also have "engine_run c t l5 l'" by (rule sweep_run [OF steps(5)])
  finally show ?thesis .
qed

section \<open>Trading phase\<close>

lemma record_fill_ledger [simp]: "fs_ledger (record_fill config t fill q l s) = l"
  by (simp add: record_fill_def Let_def)

lemma tax_rate_dec_Inr [res_simps]: "tax_rate_dec v = Inr d \<longleftrightarrow> (\<exists>x. v = Fin x \<and> d = repr_dec x)"
  by (cases v) auto

lemma sell_fill_run:
  assumes "apply_sell_fill t (ri_arrays (rc_in c)) (ri_config (rc_in c)) s fill = Inr s'"
  shows "engine_run c t (fs_ledger s) (fs_ledger s')"
proof -
  let ?n = "o_instrument (f_order fill)"
  define q where "q = min (f_quantity fill) (dict_get (l_positions (fs_ledger s)) ?n 0)"
  show ?thesis
  proof (cases "0 < q")
    case True
    with assms obtain r where r: "cell (ma_sell_tax_rate (ri_arrays (rc_in c))) t ?n = Inr (Fin r)"
      and sold: "sell (fs_ledger s) t ?n q (f_price fill)
         (fc_commission (fill_cost SideSELL q (f_price fill) (repr_dec r) (costs (ri_config (rc_in c)))))
         (fc_sell_tax (fill_cost SideSELL q (f_price fill) (repr_dec r) (costs (ri_config (rc_in c))))) = Inr (fs_ledger s')"
      by (auto simp: apply_sell_fill_def Let_def res_simps q_def)
    show ?thesis
      by (rule engine_call [where op = "OpSell t ?n q (f_price fill)
         (fc_commission (fill_cost SideSELL q (f_price fill) (repr_dec r) (costs (ri_config (rc_in c)))))
         (fc_sell_tax (fill_cost SideSELL q (f_price fill) (repr_dec r) (costs (ri_config (rc_in c)))))"])
        (use r sold in \<open>auto simp: sell_def checked_int_def res_simps\<close>)
  next
    case False
    with assms show ?thesis by (auto simp: apply_sell_fill_def Let_def res_simps q_def)
  qed
qed

text \<open>The purchase loop: what it returns is affordable, and it stops at the first such quantity.\<close>

lemma shrink_buy_affordable:
  "shrink_buy k price spendable config = (q, cm) \<Longrightarrow> 0 < q \<Longrightarrow>
   q \<le> int k \<and> q * price + cm \<le> spendable \<and> cm = fc_commission (fill_cost SideBUY q price 0 config)"
  by (induction k) (auto simp: Let_def split: if_splits)

lemma shrink_buy_largest:
  assumes "shrink_buy k price spendable config = (q, cm)"
  shows "0 \<le> q \<and> (\<forall>q'. q < q' \<and> q' \<le> int k \<longrightarrow>
     spendable < q' * price + fc_commission (fill_cost SideBUY q' price 0 config))"
  using assms
proof (induction k)
  case (Suc k)
  show ?case
  proof (cases "int (Suc k) * price + fc_commission (fill_cost SideBUY (int (Suc k)) price 0 config) \<le> spendable")
    case True
    with Suc.prems show ?thesis by (auto simp: Let_def)
  next
    case False
    with Suc.prems have "shrink_buy k price spendable config = (q, cm)" by (simp add: Let_def)
    from Suc.IH [OF this] False show ?thesis
      by (auto simp: le_less dest: zless_imp_add1_zle)
  qed
qed simp

lemma spendable_nonneg [simp]: "0 \<le> spendable_cash l"
  by (simp add: spendable_cash_def)

lemma buy_quantity_affordable:
  assumes "buy_quantity l fill config = (q, cm)" "0 < q"
  shows "0 < f_price fill \<and> q \<le> f_quantity fill \<and> q * f_price fill + cm \<le> spendable_cash l
    \<and> cm = fc_commission (fill_cost SideBUY q (f_price fill) 0 config)"
proof -
  define k where "k = (if 0 < f_price fill then min (f_quantity fill) (spendable_cash l div f_price fill) else 0)"
  from assms have *: "shrink_buy (nat k) (f_price fill) (spendable_cash l) config = (q, cm)" "0 < k"
    by (auto simp: buy_quantity_def Let_def k_def split: if_splits)
  from shrink_buy_affordable [OF *(1) assms(2)] *(2) show ?thesis
    by (auto simp: k_def split: if_splits)
qed

lemma buy_fill_run:
  assumes "apply_buy_fill t config s fill = Inr s'"
  shows "spend_run t (fs_ledger s) (fs_ledger s')"
proof -
  obtain q cm where q: "buy_quantity (fs_ledger s) fill (costs config) = (q, cm)" by force
  show ?thesis
  proof (cases "0 < q")
    case True
    with assms q have "buy (fs_ledger s) t (o_instrument (f_order fill)) q (f_price fill) cm = Inr (fs_ledger s')"
      by (auto simp: apply_buy_fill_def Let_def res_simps)
    with buy_quantity_affordable [OF q True] show ?thesis
      by (intro spend_call [where op = "OpBuy t (o_instrument (f_order fill)) q (f_price fill) cm"]) simp_all
  next
    case False
    with assms q show ?thesis by (auto simp: apply_buy_fill_def Let_def)
  qed
qed

lemma sell_fills_run:
  assumes "apply_sell_fills l fills t (ri_arrays (rc_in c)) (ri_config (rc_in c)) = Inr s"
  shows "engine_run c t l (fs_ledger s)"
  using foldM_allowed [OF assms [unfolded apply_sell_fills_def], where g = fs_ledger] sell_fill_run by fastforce

lemma buy_fills_run:
  assumes "apply_buy_fills l fills t config = Inr s"
  shows "spend_run t l (fs_ledger s)"
  using foldM_allowed [OF assms [unfolded apply_buy_fills_def], where g = fs_ledger] buy_fill_run by fastforce

lemma trade_phase_run:
  assumes "trade_phase c t l ex pending = Inr tr"
  shows "engine_run c t l (to_ledger tr)"
proof -
  from assms obtain fs rs s b where steps:
    "apply_sell_fills l (filter (\<lambda>f. o_side (f_order f) = SideSELL) fs) t (ri_arrays (rc_in c)) (ri_config (rc_in c)) = Inr s"
    "apply_buy_fills (fst (settle_tax_payable (fs_ledger s) t)) (filter (\<lambda>f. o_side (f_order f) = SideBUY) fs) t (ri_config (rc_in c)) = Inr b"
    "to_ledger tr = fs_ledger b"
    by (auto simp: trade_phase_def Let_def res_simps)
  note sell_fills_run [OF steps(1)]
  also have "engine_run c t (fs_ledger s) (fst (settle_tax_payable (fs_ledger s) t))"
    by (rule engine_call [where op = "OpTaxPayable t"]) simp_all
  also note buy_fills_run [OF steps(2), THEN spend_engine]
  finally show ?thesis by (simp add: steps(3))
qed

section \<open>Overlay phase\<close>

lemma variation_call: "settle_variation l t p v m leg = Inr (l', d) \<Longrightarrow> spend_run t l l'"
  by (rule spend_call [where op = "OpVariation t p v m leg"]) simp_all

lemma roll_call: "roll_futures l t v m r leg = Inr l' \<Longrightarrow> spend_run t l l'"
  by (rule spend_call [where op = "OpRollFutures t v m r leg"]) simp_all

lemma trade_call: "trade_futures l t k v m r leg = Inr l' \<Longrightarrow> spend_run t l l'"
  by (rule spend_call [where op = "OpTradeFutures t k v m r leg"]) simp_all

lemma transfer_call: "transfer_margin l t a = Inr l' \<Longrightarrow> a \<le> spendable_cash l \<Longrightarrow> spend_run t l l'"
  by (rule spend_call [where op = "OpTransferMargin t a"]) simp_all

lemma transfer_back_call: "transfer_margin l t a = Inr l' \<Longrightarrow> a \<le> 0 \<Longrightarrow> spend_run t l l'"
  using transfer_call spendable_nonneg [of l] by (meson order_trans)

lemma primary_variation_run: "primary_variation oc t lv l = Inr l' \<Longrightarrow> spend_run t l l'"
  by (auto simp: primary_variation_def res_simps split: if_splits intro: variation_call)

lemma leg_variation_run: "leg_variation oc t l leg = Inr l' \<Longrightarrow> spend_run t l l'"
  by (auto simp: leg_variation_def Let_def res_simps intro: variation_call)

lemma leg_roll_run: "leg_roll oc t l leg = Inr l' \<Longrightarrow> spend_run t l l'"
  by (auto simp: leg_roll_def Let_def res_simps intro: roll_call)

lemma roll_phase_run:
  assumes "roll_phase oc t lv l = Inr l'"
  shows "spend_run t l l'"
proof (cases "0 \<le> t \<and> nat t \<in> oc_expiry oc")
  case True
  with assms obtain l1 where l1: "spend_run t l l1" "foldM (leg_roll oc t) l1 (legs l1) = Inr l'"
    by (auto simp: roll_phase_def res_simps split: if_splits intro: roll_call)
  note l1(1)
  also have "spend_run t l1 l'" using foldM_allowed [OF l1(2), where g = id] leg_roll_run by fastforce
  finally show ?thesis .
qed (use assms in \<open>auto simp: roll_phase_def split: if_splits\<close>)

lemma fund_leg_run: "fund_leg l0 b t s lt = Inr s' \<Longrightarrow> spend_run t (fst s) (fst s')"
  by (cases s) (auto simp: fund_leg_def Let_def res_simps split: if_splits intro: trade_call)

lemma settle_margin_run: "settle_margin l t lts = Inr l' \<Longrightarrow> spend_run t l l'"
  by (auto simp: settle_margin_def Let_def res_simps split: if_splits intro: transfer_call transfer_back_call)

lemma sync_futures_run:
  assumes "sync_futures l t k lv cfg m ts ms = Inr l'"
  shows "spend_run t l l'"
proof -
  from assms obtain lts fl where lts: "sync_legs l k lv cfg m ts ms = Inr lts" "sumM (leg_floor l) lts = Inr fl"
    by (auto simp: sync_futures_def res_simps)
  show ?thesis
  proof (cases "fl \<le> l_margin l \<and> list_all (\<lambda>lt. lt_target lt = leg_contracts l (lt_name lt)) lts")
    case True
    with assms lts show ?thesis
      by (auto simp: sync_futures_def res_simps Let_def split: if_splits intro: transfer_back_call)
  next
    case False
    with assms lts obtain s where s:
      "foldM (fund_leg l (fl \<le> l_margin l) t) (l, l_margin l + spendable_cash l) lts = Inr s" "settle_margin (fst s) t lts = Inr l'"
      by (auto simp: sync_futures_def res_simps Let_def split: if_splits)
    have "spend_run t l (fst s)" using foldM_allowed [OF s(1), where g = fst] fund_leg_run by fastforce
    also note settle_margin_run [OF s(2)]
    finally show ?thesis .
  qed
qed

lemma shrink_inverse_affordable:
  "0 < shrink_inverse k rate price spendable \<Longrightarrow>
   shrink_inverse k rate price spendable * price
     + ceil_amount_krw (AFloat rate) [AInt (shrink_inverse k rate price spendable), AInt price] \<le> spendable"
  by (induction k) (auto simp: Let_def)

lemma sync_inverse_run:
  assumes "rc_overlay c = Some oc" "sync_inverse l t v p (oc_terms oc) = Inr l'"
  shows "engine_run c t l l'"
proof -
  let ?r = "inverse_cost_rate (oc_terms oc)" and ?des = "max (v div p) 0"
  let ?n = "shrink_inverse (nat (min (?des - l_inverse_units l) (spendable_cash l div p))) ?r p (spendable_cash l)"
  show ?thesis
  proof (cases "?des < l_inverse_units l")
    case True
    with assms obtain tax where "sell_inverse l t (l_inverse_units l - ?des) p (Fin ?r) (inverse_tax_rate (oc_terms oc)) = Inr (l', tax)"
      by (auto simp: sync_inverse_def Let_def res_simps)
    with assms(1) show ?thesis
      by (intro engine_call [where op = "OpSellInverse t (l_inverse_units l - ?des) p (Fin ?r) (inverse_tax_rate (oc_terms oc))"]) simp_all
  next
    case False
    show ?thesis
    proof (cases "0 < ?n")
      case True
      with False assms have "buy_inverse l t ?n p (Fin ?r) = Inr l'"
        by (simp add: sync_inverse_def Let_def res_simps del: max_less_iff_conj)
      with shrink_inverse_affordable [OF True] show ?thesis
        by (intro spend_engine spend_call [where op = "OpBuyInverse t ?n p (Fin ?r)"]) simp_all
    qed (use False assms in \<open>simp add: sync_inverse_def Let_def res_simps del: max_less_iff_conj\<close>)
  qed
qed

lemma inverse_phase_run:
  "rc_overlay c = Some oc \<Longrightarrow> inverse_phase oc t tg p l = Inr l' \<Longrightarrow> engine_run c t l l'"
  by (auto simp: inverse_phase_def Let_def split: if_splits option.splits intro: sync_inverse_run)

lemma overlay_phase_run:
  assumes "rc_overlay c = Some oc" "overlay_phase oc t tg lv p l = Inr l'"
  shows "engine_run c t l l'"
proof -
  from assms(2) obtain l1 l2 l3 ms l4 where steps: "primary_variation oc t lv l = Inr l1"
    "foldM (leg_variation oc t) l1 (legs l1) = Inr l2" "roll_phase oc t lv l2 = Inr l3"
    "sync_futures l3 t (case tg of Some g \<Rightarrow> ot_contracts g | None \<Rightarrow> l_contracts l3) lv (oc_terms oc)
       (contract_multiplier_krw (oc_terms oc)) (case tg of Some g \<Rightarrow> ot_legs g | None \<Rightarrow> legs l3) ms = Inr l4"
    "inverse_phase oc t tg p l4 = Inr l'"
    by (auto simp: overlay_phase_def res_simps)
  note primary_variation_run [OF steps(1), THEN spend_engine]
  also have "engine_run c t l1 l2"
    using foldM_allowed [OF steps(2), where g = id] leg_variation_run by (intro spend_engine) fastforce
  also note roll_phase_run [OF steps(3), THEN spend_engine]
  also note sync_futures_run [OF steps(4), THEN spend_engine]
  also note inverse_phase_run [OF assms(1) steps(5)]
  finally show ?thesis .
qed

section \<open>A session\<close>

lemma tax_phase_run:
  assumes "tax_phase c t l = Inr l'"
  shows "engine_run c t l l'"
proof -
  have a: "engine_run c t l (fst (settle_cash_yield_tax l t (costs (ri_config (rc_in c)))))" for l
    by (rule engine_call [where op = "OpCashYieldTax t (costs (ri_config (rc_in c)))"]) simp_all
  have b: "engine_run c t l (fst (settle_futures_tax l t dc))" for l dc
    by (rule engine_call [where op = "OpFuturesTax t dc"]) simp_all
  show ?thesis
    using assms by (auto simp: tax_phase_def Let_def res_simps a b split: if_splits option.splits
        intro: allowed_run_trans [OF a b])
qed

lemma session_ledger_run:
  assumes "session_ledger c t s = Inr (l, rest)"
  shows "engine_run c t (rs_ledger s) l"
proof -
  from assms obtain l1 ex tr lv p l2 where steps: "open_phase c t (rs_ledger s) (rs_exited s) = Inr (l1, ex)"
    "trade_phase c t l1 ex (rs_pending s) = Inr tr"
    "(case rc_overlay c of None \<Rightarrow> Inr (to_ledger tr) | Some oc \<Rightarrow> overlay_phase oc t (rs_overlay s) lv p (to_ledger tr)) = Inr l2"
    "tax_phase c t l2 = Inr l"
    by (auto simp: session_ledger_def res_simps)
  note open_phase_run [OF steps(1)]
  also note trade_phase_run [OF steps(2)]
  also have "engine_run c t (to_ledger tr) l2"
    using steps(3) overlay_phase_run by (auto split: option.splits)
  also note tax_phase_run [OF steps(4)]
  finally show ?thesis .
qed

text \<open>What a successful session does, read off its definition.\<close>

lemma session_step_parts:
  assumes "session_step c s t = Inr s'"
  obtains ex tr lv p r nav where "session_ledger c t s = Inr (rs_ledger s', ex, tr, lv, p)"
    "mark_phase c t p (rs_ledger s') = Inr r" "rs_records s' = rs_records s @ [r]"
    "rs_fills s' = rs_fills s @ to_fills tr" "rs_rejects s' = rs_rejects s @ to_rejects tr"
    "rs_book_prev s' = stock_book r" "\<exists>x. rs_returns s' = rs_returns s @ [x]" "rs_exited s' = ex"
    "next_orders c t (rs_ledger s') nav (to_carried tr) = Inr (rs_pending s')"
  using assms by (auto simp: session_step_def Let_def res_simps)

lemma session_step_run: "session_step c s t = Inr s' \<Longrightarrow> engine_run c t (rs_ledger s) (rs_ledger s')"
  by (elim session_step_parts) (rule session_ledger_run)

end
