(* ===== verification/EngineDemo.thy ===== *)
theory EngineDemo
  imports EngineRun FillProps LedgerProps
begin

text \<open>
  A complete backtest evaluated by the kernel: one session in which a scheduled target buys 100 shares at
  the open auction, after a deposit and a day of cash sweep, with the sweep tax settled at the end. The
  witnesses of the whole-run theorems use it.
\<close>

definition demo_config :: engine_config where
  "demo_config = \<lparr>initial_cash = 2000000, execution = demo_exec, costs = demo_costs, halted_exit_policy = LAST_CLOSE, cash_buffer = 0\<rparr>"

definition demo_input :: run_input where
  "demo_input = \<lparr>ri_arrays = demo_arrays,
     ri_events = \<lparr>share_factor_by_session = [], exits_by_session = [], dividends_by_ex_session = [], dividends_integrated = True\<rparr>,
     ri_targets = [(0, [(0, Fin (1 / 2))])], ri_config = demo_config, ri_deposits = [(Date 2026 3 3, 500000)],
     ri_rules = published, ri_start = Date 2026 3 3, ri_end = Date 2026 3 3,
     ri_cash_returns = Some [NaN, Fin (1 / 1024)], ri_overlay = None, ri_overlay_market = None, ri_derivatives = None,
     ri_leg_derivatives = [], ri_rebalance_band = Fin 0, ri_settle_final_taxes = True,
     ri_calendar = (\<lambda>_ _. \<lparr>labels = [], session_open = (\<lambda>_. Naive 0)\<rparr>), ri_zone = (\<lambda>x. x), ri_digest = (\<lambda>_ _. [])\<rparr>"


definition demo_ctx :: run_ctx where
  "demo_ctx = (case run_setup demo_input of Inr c \<Rightarrow> c)"

lemmas demo_defs = demo_input_def demo_config_def demo_arrays_def demo_exec_def

lemma demo_setup: "run_setup demo_input = Inr \<lparr>rc_in = demo_input, rc_lo = 1, rc_hi = 1, rc_schedule = [(0, [(0, Fin (1 / 2))])],
   rc_overlay = None, rc_deposits = [(1, 500000)], rc_scale = Fin 1\<rparr>"
  by (simp add: run_setup_def demo_input_def demo_config_def session_lookup_def validate_targets_def validate_row_def weight_tolerance_def fle_def
    setup_overlay_def place_deposit_def demo_arrays_def fsub_def num_eval cong: eval_congs)

lemma demo_ctx: "run_setup demo_input = Inr demo_ctx" 
  "demo_ctx = \<lparr>rc_in = demo_input, rc_lo = 1, rc_hi = 1, rc_schedule = [(0, [(0, Fin (1 / 2))])],
   rc_overlay = None, rc_deposits = [(1, 500000)], rc_scale = Fin 1\<rparr>"
  by (simp_all add: demo_ctx_def demo_setup)

lemma demo_initial: "initial_orders demo_ctx = Inr [demo_order]"
  by (simp add: initial_orders_def demo_ctx(2) target_orders_def weight_orders_def inside_band_def mk_order_def demo_order_def dict_keys_def
    array_get_def demo_defs num_eval cong: eval_congs)

lemma shrink_buy_unfold:
  "0 < k \<Longrightarrow> shrink_buy k price spendable config =
     (let q = int k; commission = fc_commission (fill_cost SideBUY q price 0 config)
      in if q * price + commission \<le> spendable then (q, commission) else shrink_buy (k - 1) price spendable config)"
  by (cases k) (auto simp: Let_def)

definition demo_open :: ledger where
  "demo_open = (case open_phase demo_ctx 1 (case ledger_init 2000000 of Inr l \<Rightarrow> l) [] of Inr (l, x) \<Rightarrow> l)"

lemma demo_open: "open_phase demo_ctx 1 (case ledger_init 2000000 of Inr l \<Rightarrow> l) [] = Inr (demo_open, [])" 
  "l_cash demo_open = 2502441" "l_tax_payable demo_open = 0" "l_positions demo_open = []" "l_ytd_cash_yield demo_open = 2441"
  "l_receivable demo_open = 0" "l_external_flow demo_open = 500000" "l_margin demo_open = 0" "l_inverse_units demo_open = 0"
  "l_secondary_contracts demo_open = []" "l_contracts demo_open = 0"
  by (simp_all add: demo_open_def open_phase_def demo_ctx(2) demo_defs step_share_factors_def record_dividend_entitlements_def
    settle_dividends_def step_deposit_def deposit_def step_sweep_def accrue_cash_yield_def array_get_def float_of_int_def ledger_eval cong: eval_congs)


lemma demo_fills: "price_orders [demo_order] demo_arrays 1 demo_exec demo_costs published
      = Inr ([\<lparr>f_order = demo_order, f_quantity = 100, f_price = 10089\<rparr>], [])"
proof -
  have "array_get (ma_sessions demo_arrays) 1 = Inr (Date 2026 3 3)" by code_simp
  then show ?thesis by (simp add: price_orders_def demo_price_order)
qed

definition demo_bought :: ledger where
  "demo_bought = (case buy demo_open 1 0 100 10089 151 of Inr l \<Rightarrow> l)"

lemma demo_buy: "buy demo_open 1 0 100 10089 151 = Inr demo_bought" "l_cash demo_bought = 1493390"
  "l_positions demo_bought = [(0, 100)]" "l_ytd_cash_yield demo_bought = 2441" "l_tax_payable demo_bought = 0"
  "l_receivable demo_bought = 0" "l_external_flow demo_bought = 500000" "l_margin demo_bought = 0" "l_inverse_units demo_bought = 0"
  by (simp_all add: demo_bought_def buy_def checked_int_def demo_open book_def)

lemma demo_trade: "trade_phase demo_ctx 1 demo_open [] [demo_order] =
   Inr \<lparr>to_ledger = demo_bought, to_fills = [\<lparr>f_order = demo_order, f_quantity = 100, f_price = 10089\<rparr>], to_rejects = [], to_carried = []\<rparr>"
proof -
  have o: "o_side demo_order = SideBUY" "o_instrument demo_order = 0" by (simp_all add: demo_order_def)
  have c: "fill_cost SideBUY 100 10089 0 demo_costs = \<lparr>fc_commission = 151, fc_sell_tax = 0\<rparr>"
    by (simp add: fill_cost_def demo_costs_def num_eval cong: eval_congs)
  show ?thesis
  by (simp add: trade_phase_def demo_ctx(2) demo_input_def demo_config_def demo_fills apply_sell_fills_def
   settle_tax_payable_def apply_buy_fills_def demo_open apply_buy_fill_def buy_quantity_def spendable_cash_def shrink_buy_unfold 
   c o record_fill_def demo_buy carried_rejects_def cong: eval_congs)
qed

definition demo_closed :: ledger where
  "demo_closed = fst (settle_cash_yield_tax demo_bought 1 demo_costs)"

lemma demo_closed: "l_cash demo_closed = 1493015" "l_positions demo_closed = [(0, 100)]" "l_tax_payable demo_closed = 0"
  "l_receivable demo_closed = 0" "l_external_flow demo_closed = 500000" "l_margin demo_closed = 0" "l_inverse_units demo_closed = 0"
  by (simp_all add: demo_closed_def settle_cash_yield_tax_def demo_buy demo_costs_def book_def num_eval cong: eval_congs)

definition demo_state :: run_state where
  "demo_state = \<lparr>rs_ledger = (case ledger_init 2000000 of Inr l \<Rightarrow> l), rs_exited = [], rs_pending = [demo_order], rs_fills = [],
     rs_rejects = [], rs_records = [], rs_overlay = None, rs_checked = [], rs_returns = [], rs_index_history = [],
     rs_book_prev = 2000000\<rparr>"

lemma demo_initial_state: "initial_state demo_ctx = Inr demo_state"
  by (simp add: initial_state_def demo_initial initial_overlay_def demo_state_def)
    (simp add: demo_ctx(2) demo_input_def demo_config_def ledger_init_def checked_int_def)

definition demo_out :: trade_out where
  "demo_out = \<lparr>to_ledger = demo_bought, to_fills = [\<lparr>f_order = demo_order, f_quantity = 100, f_price = 10089\<rparr>],
     to_rejects = [], to_carried = []\<rparr>"

lemma demo_ctx_fields [simp]:
  "rc_in demo_ctx = demo_input" "rc_overlay demo_ctx = None" "rc_lo demo_ctx = 1" "rc_hi demo_ctx = 1"
  "rc_schedule demo_ctx = [(0, [(0, Fin (1 / 2))])]"
  by (simp_all add: demo_ctx(2))

lemma demo_year_end: "year_end_at demo_ctx 1 = Inr True"
  by (simp add: year_end_at_def demo_input_def demo_arrays_def array_get_def)

lemma demo_session: "session_ledger demo_ctx 1 demo_state = Inr (demo_closed, [], demo_out, NaN, None)"
proof -
  have "tax_phase demo_ctx 1 demo_bought = Inr demo_closed"
    by (simp add: tax_phase_def demo_year_end demo_closed_def demo_input_def demo_config_def)
  then show ?thesis
    by (simp add: session_ledger_def demo_state_def demo_open(1) demo_trade overlay_quotes_def demo_out_def)
qed

definition demo_record :: nav_record where
  "demo_record = \<lparr>nr_session = 1, nr_cash = 1493015, nr_dividend_receivable = 0, nr_market_value = 1010000, nr_nav = 2503015,
     nr_external_flow = 500000, nr_margin = 0, nr_inverse_value = 0, nr_tax_payable = 0\<rparr>"

lemma demo_mark: "mark_phase demo_ctx 1 None demo_closed = Inr demo_record"
  by (simp add: mark_phase_def mark_def mark_position_def inverse_mark_def demo_closed demo_record_def demo_input_def
      demo_arrays_def array_get_def)

lemma demo_session_step:
  "\<exists>s. session_step demo_ctx demo_state 1 = Inr s \<and> rs_fills s = to_fills demo_out \<and> rs_records s = [demo_record] \<and> rs_ledger s = demo_closed"
  by (simp add: session_step_def demo_session demo_mark session_return_def next_orders_def) (simp add: demo_state_def)

definition demo_result :: backtest_result where
  "demo_result = (case run_backtest demo_input of Inr r \<Rightarrow> r)"

lemma demo_run_backtest: "run_backtest demo_input = Inr demo_result" "br_nav demo_result = [demo_record]" "br_journal demo_result = l_journal demo_closed"
proof -
  have "\<exists>r. run_backtest demo_input = Inr r \<and> br_nav r = [demo_record] \<and> br_journal r = l_journal demo_closed"
    using demo_session_step by (auto simp: run_backtest_def demo_ctx(1) demo_initial_state run_sessions_def)
  then show "run_backtest demo_input = Inr demo_result" "br_nav demo_result = [demo_record]"
    "br_journal demo_result = l_journal demo_closed"
    by (auto simp: demo_result_def)
qed

end
