(* ===== verification/EngineProps.thy ===== *)
theory EngineProps
  imports EngineOps EngineDemo
begin

text \<open>
  Whole backtests: the reported net asset values are the journal up to their session, the account stays
  solvent for admissible inputs, and the window that is reported is the window that was asked for.
\<close>

section \<open>Journal entries carry their session\<close>

definition tagged :: "int \<Rightarrow> ledger \<Rightarrow> ledger \<Rightarrow> bool" where
  "tagged t l l' \<longleftrightarrow> (\<exists>es. l_journal l' = l_journal l @ es \<and> (\<forall>e \<in> set es. je_session e = t))"

lemma taggedI: "l_journal l' = l_journal l @ es \<Longrightarrow> \<forall>e \<in> set es. je_session e = t \<Longrightarrow> tagged t l l'"
  by (auto simp: tagged_def)

lemma tagged_refl [simp]: "tagged t l l"
  by (simp add: tagged_def)

lemma tagged_trans: "tagged t l m \<Longrightarrow> tagged t m n \<Longrightarrow> tagged t l n"
  by (force simp: tagged_def)

lemma tagged_book: "l_journal m = l_journal l \<Longrightarrow> \<forall>e \<in> set es. je_session e = t \<Longrightarrow> tagged t l (book m es)"
  by (rule taggedI) (simp_all add: book_def)

lemma jentry_session [simp]: "je_session (jentry t k i c q) = t" "je_session (jentry_acct t k c q a leg) = t"
  by (simp_all add: jentry_def jentry_acct_def)

lemma tagged_same: "l_journal m = l_journal l \<Longrightarrow> tagged t l m"
  by (simp add: tagged_def)

lemma record_entitlements_journal [simp]: "l_journal (record_dividend_entitlements l t es) = l_journal l"
  by (induction es arbitrary: l) (simp_all add: record_dividend_entitlements_def record_one_entitlement_def Let_def)

lemmas tag_simps = tagged_book checked_int_def Let_def res_simps

lemma cash_yield_tax_tagged: "tagged t l (fst (settle_cash_yield_tax l t c))"
  using surjective_pairing [of "settle_cash_yield_tax l t c"]
  by (cases rule: settle_cash_yield_tax_cases) (auto intro!: taggedI intro: tagged_same)

lemma accrue_tagged: "accrue_cash_yield l t r = Inr (l', a) \<Longrightarrow> tagged t l l'"
  by (cases rule: accrue_cash_yield_cases) (auto intro!: tagged_book)

lemma sell_inverse_tagged: "sell_inverse l t u p r x = Inr (l', tax) \<Longrightarrow> tagged t l l'"
  by (cases rule: sell_inverse_cases) (auto intro!: tagged_book)

lemma trade_futures_tagged: "trade_futures l t k v m r leg = Inr l' \<Longrightarrow> tagged t l l'"
  by (auto simp: trade_futures_def checked_int_def Let_def res_simps book_def tagged_def split: if_splits)

lemma ledger_apply_tagged: "ledger_apply l op = Inr l' \<Longrightarrow> tagged (op_session op) l l'"
proof (cases op)
  case (OpSettleDividends t c)
  moreover assume "ledger_apply l op = Inr l'"
  ultimately show ?thesis
    by (auto simp: settle_dividends_def Let_def res_simps split: if_splits intro!: tagged_book intro: tagged_same)
qed (auto simp: map_sum_fst_Inr cash_yield_tax_tagged deposit_def buy_def sell_def apply_share_factor_def
    close_exit_def settle_tax_payable_def transfer_margin_def settle_variation_def roll_futures_def
    settle_futures_tax_def buy_inverse_def checked_int_def Let_def res_simps split: if_splits
    intro!: tagged_book intro: tagged_same accrue_tagged sell_inverse_tagged trade_futures_tagged)

interpretation tagging_client: ledger_client "\<lambda>l op. op_session op = t" "tagged t" for t
  by unfold_locales (auto intro: tagged_trans ledger_apply_tagged)

lemma engine_run_tagged: "engine_run c t l l' \<Longrightarrow> tagged t l l'"
  by (rule tagging_client.restrict_law) (auto simp: engine_op_def)

lemma engine_run_books: "engine_run c t l l' \<Longrightarrow> books l l'"
  by (rule booking_client.restrict_law) simp_all

section \<open>Setup and session windows\<close>

lemma foldM_upto_invariant:
  assumes "foldM f s [a .. b] = Inr s'" "a \<le> b + 1" "I a s"
    and "\<And>t s s'. a \<le> t \<Longrightarrow> t \<le> b \<Longrightarrow> I t s \<Longrightarrow> f s t = Inr s' \<Longrightarrow> I (t + 1) s'"
  shows "I (b + 1) s'"
  using assms
proof (induction "nat (b + 1 - a)" arbitrary: a s)
  case 0
  then show ?case by simp
next
  case (Suc n)
  then have ab: "a \<le> b" by simp
  then have "[a .. b] = a # [a + 1 .. b]" by (rule upto_rec1)
  with Suc.prems(1) obtain u where u: "f s a = Inr u" "foldM f u [a + 1 .. b] = Inr s'" by (auto simp: res_simps)
  show ?case
  proof (rule Suc.hyps(1) [OF _ u(2)])
    show "I (a + 1) u" by (rule Suc.prems(4) [OF _ ab Suc.prems(3) u(1)]) simp
  qed (use Suc ab in auto)
qed

lemma run_setup_parts:
  assumes "run_setup i = Inr c"
  shows "rc_in c = i" "rc_lo c \<le> rc_hi c"
    and "session_lookup (ma_sessions (ri_arrays i)) (ri_start i) = Some (rc_lo c)"
    and "session_lookup (ma_sessions (ri_arrays i)) (ri_end i) = Some (rc_hi c)"
    and "setup_overlay i (rc_lo c) (rc_hi c) = Inr (rc_overlay c)"
    and "validate_targets (ri_targets i) (rc_lo c) (rc_hi c) (int (length (ma_instruments (ri_arrays i)))) = Inr (rc_schedule c)"
    and "foldM (place_deposit (ma_sessions (ri_arrays i)) (rc_lo c) (rc_hi c)) [] (ri_deposits i) = Inr (rc_deposits c)"
    and "rc_scale c = fsub (Fin 1) (Fin (cash_buffer (ri_config i)))"
  using assms by (auto simp: run_setup_def Let_def res_simps split: option.splits)

lemma setup_overlay_terms:
  assumes "setup_overlay i lo hi = Inr (Some oc)"
  shows "ri_derivatives i = Some (oc_terms oc)"
  using assms by (auto simp: setup_overlay_def Let_def res_simps split: option.splits)

lemma initial_state_fields:
  assumes "initial_state c = Inr s"
  shows "ledger_init (initial_cash (ri_config (rc_in c))) = Inr (rs_ledger s)"
    and "rs_records s = []" "rs_fills s = []" "rs_rejects s = []" "rs_returns s = []" "rs_exited s = []"
  using assms by (auto simp: initial_state_def res_simps)

lemma run_backtest_parts:
  assumes "run_backtest i = Inr r"
  obtains c s0 s where "run_setup i = Inr c" "initial_state c = Inr s0" "run_sessions c s0 = Inr s"
    "br_nav r = rs_records s" "br_fills r = rs_fills s" "br_rejects r = rs_rejects s"
    "br_journal r = l_journal (rs_ledger s)" "br_stock_book_returns r = rs_returns s"
    "br_ledger_hash r = ri_digest i (l_journal (rs_ledger s)) (rs_records s)"
  using assms by (auto simp: run_backtest_def res_simps)

section \<open>Reported values are journal sums\<close>

definition through :: "int \<Rightarrow> journal_entry list \<Rightarrow> journal_entry list" where
  "through t es = filter (\<lambda>e. je_session e \<le> t) es"

definition balanced :: "int \<Rightarrow> ledger \<Rightarrow> bool" where
  "balanced cash0 l \<longleftrightarrow> l_cash l = cash0 + total cash_weight (l_journal l)
     \<and> l_margin l = total margin_weight (l_journal l) \<and> - l_tax_payable l = total payable_weight (l_journal l)
     \<and> l_external_flow l = total flow_weight (l_journal l)"

definition record_matches :: "int \<Rightarrow> journal_entry list \<Rightarrow> nav_record \<Rightarrow> bool" where
  "record_matches cash0 j r \<longleftrightarrow>
     nr_cash r = cash0 + total cash_weight (through (nr_session r) j)
     \<and> nr_margin r = total margin_weight (through (nr_session r) j)
     \<and> - nr_tax_payable r = total payable_weight (through (nr_session r) j)
     \<and> nr_external_flow r = total flow_weight (through (nr_session r) j)
     \<and> nr_nav r = nr_cash r + nr_dividend_receivable r + nr_market_value r + nr_margin r + nr_inverse_value r - nr_tax_payable r"

lemma balanced_books: "balanced c l \<Longrightarrow> books l l' \<Longrightarrow> balanced c l'"
  using booksD [of l l'] by (simp add: balanced_def) (metis map_append sum_list_append add.assoc)

lemma through_later: "\<forall>e \<in> set es. t < je_session e \<Longrightarrow> through t (j @ es) = through t j"
  by (auto simp: through_def filter_empty_conv)

lemma through_all: "\<forall>e \<in> set j. je_session e \<le> t \<Longrightarrow> through t j = j"
  by (simp add: through_def filter_id_conv)

lemma mark_phase_fields:
  assumes "mark_phase c t p l = Inr r"
  shows "nr_session r = t \<and> nr_cash r = l_cash l \<and> nr_margin r = l_margin l \<and> nr_tax_payable r = l_tax_payable l
    \<and> nr_external_flow r = l_external_flow l
    \<and> nr_nav r = nr_cash r + nr_dividend_receivable r + nr_market_value r + nr_margin r + nr_inverse_value r - nr_tax_payable r"
  using assms by (auto simp: mark_phase_def mark_def res_simps)

definition run_inv :: "int \<Rightarrow> int \<Rightarrow> int \<Rightarrow> run_state \<Rightarrow> bool" where
  "run_inv cash0 lo t s \<longleftrightarrow> balanced cash0 (rs_ledger s) \<and> (\<forall>e \<in> set (l_journal (rs_ledger s)). je_session e < t)
     \<and> map nr_session (rs_records s) = [lo .. t - 1] \<and> (\<forall>r \<in> set (rs_records s). record_matches cash0 (l_journal (rs_ledger s)) r)"

lemma session_step_inv:
  assumes "run_inv cash0 lo t s" "lo \<le> t" "session_step c s t = Inr s'"
  shows "run_inv cash0 lo (t + 1) s'"
proof -
  let ?j = "l_journal (rs_ledger s)" and ?j' = "l_journal (rs_ledger s')"
  from session_step_parts [OF assms(3)] obtain p r where r: "mark_phase c t p (rs_ledger s') = Inr r"
    "rs_records s' = rs_records s @ [r]" by metis
  note run = session_step_run [OF assms(3)]
  from engine_run_tagged [OF run] obtain es where es: "?j' = ?j @ es" "\<forall>e \<in> set es. je_session e = t"
    by (auto simp: tagged_def)
  have bal: "balanced cash0 (rs_ledger s')"
    using assms(1) engine_run_books [OF run] by (auto simp: run_inv_def intro: balanced_books)
  have le: "\<forall>e \<in> set ?j'. je_session e < t + 1" using assms(1) es by (auto simp: run_inv_def)
  have "record_matches cash0 ?j' r"
    using mark_phase_fields [OF r(1)] bal through_all [of ?j' t] le by (simp add: record_matches_def balanced_def)
  moreover have "record_matches cash0 ?j' q" if "q \<in> set (rs_records s)" for q
  proof -
    have "nr_session q \<in> set (map nr_session (rs_records s))" using that by simp
    then have "nr_session q < t" using assms(1) by (simp add: run_inv_def del: set_map)
    then have "through (nr_session q) ?j' = through (nr_session q) ?j" using es by (simp add: through_later)
    then show ?thesis using assms(1) that by (simp add: run_inv_def record_matches_def)
  qed
  ultimately have recs: "\<forall>q \<in> set (rs_records s'). record_matches cash0 ?j' q" using r(2) by simp
  have "map nr_session (rs_records s') = [lo .. t - 1] @ [t]"
    using assms(1) r(2) mark_phase_fields [OF r(1)] by (simp add: run_inv_def)
  also have "\<dots> = [lo .. t]" using assms(2) by (rule upto_rec2 [symmetric])
  finally show ?thesis using bal le recs by (simp add: run_inv_def)
qed

lemma run_sessions_inv:
  assumes "run_setup i = Inr c" "initial_state c = Inr s0" "run_sessions c s0 = Inr s"
  shows "run_inv (initial_cash (ri_config i)) (rc_lo c) (rc_hi c + 1) s"
proof (rule foldM_upto_invariant [OF assms(3) [unfolded run_sessions_def]])
  show "rc_lo c \<le> rc_hi c + 1" using run_setup_parts(2) [OF assms(1)] by simp
  show "run_inv (initial_cash (ri_config i)) (rc_lo c) (rc_lo c) s0"
    using ledger_init_fields [OF initial_state_fields(1) [OF assms(2)]] initial_state_fields(2) [OF assms(2)]
      run_setup_parts(1) [OF assms(1)] by (simp add: run_inv_def balanced_def)
qed (rule session_step_inv)

text \<open>C5. A backtest reports one record per session of the requested window, in order; in each of them
  cash, margin, tax payable and external flow are exactly the sums of the journal entries of all sessions
  up to and including the record's own, and the net asset value is the sum of its parts.\<close>

theorem backtest_records_match_journal:
  assumes "run_backtest i = Inr r"
  shows "\<exists>lo hi. session_lookup (ma_sessions (ri_arrays i)) (ri_start i) = Some lo
     \<and> session_lookup (ma_sessions (ri_arrays i)) (ri_end i) = Some hi
     \<and> map nr_session (br_nav r) = [lo .. hi]
     \<and> (\<forall>q \<in> set (br_nav r). record_matches (initial_cash (ri_config i)) (br_journal r) q)"
proof -
  from run_backtest_parts [OF assms] obtain c s0 s where run: "run_setup i = Inr c" "initial_state c = Inr s0"
    "run_sessions c s0 = Inr s" "br_nav r = rs_records s" "br_journal r = l_journal (rs_ledger s)" by metis
  show ?thesis
    using run_sessions_inv [OF run(1-3)] run(4,5) run_setup_parts(3,4) [OF run(1)] by (auto simp: run_inv_def)
qed

theorem backtest_records_match_journal_witness:
  "run_backtest demo_input = Inr demo_result
   \<and> nr_cash demo_record = 2000000 + total cash_weight (through 1 (br_journal demo_result))"
  using backtest_records_match_journal [OF demo_run_backtest(1)] demo_run_backtest
  by (auto simp: record_matches_def demo_record_def demo_input_def demo_config_def)

section \<open>Solvency of whole runs\<close>

definition rate_ok :: "rat \<Rightarrow> bool" where
  "rate_ok x \<longleftrightarrow> 0 \<le> x \<and> x \<le> 1 / 4"

definition sweep_ok :: "pyfloat \<Rightarrow> bool" where
  "sweep_ok r \<longleftrightarrow> (case r of Fin y \<Rightarrow> - 1 / 4 \<le> y | _ \<Rightarrow> True)"

text \<open>What the inputs of a run owe the ledger: cost and tax rates of at most a quarter, non-negative
  share factors, base prices and dividends, and a cash sweep that never loses more than a quarter a day.\<close>

definition input_ok :: "run_input \<Rightarrow> bool" where
  "input_ok i \<longleftrightarrow> rate_ok (commission_rate (costs (ri_config i))) \<and> rate_ok (dividend_withholding_rate (costs (ri_config i)))
     \<and> list_all (list_all (\<lambda>v. case v of Fin r \<Rightarrow> is_double r \<and> rate_ok r | _ \<Rightarrow> True)) (ma_sell_tax_rate (ri_arrays i))
     \<and> list_all (\<lambda>(t, fs). list_all (\<lambda>(n, f, b). 0 \<le> b \<and> (case f of Fin x \<Rightarrow> 0 \<le> x | _ \<Rightarrow> True)) fs)
         (share_factor_by_session (ri_events i))
     \<and> list_all (\<lambda>(t, es). list_all (\<lambda>e. 0 \<le> de_dps_krw e) es) (dividends_by_ex_session (ri_events i))
     \<and> (case ri_cash_returns i of None \<Rightarrow> True | Some rs \<Rightarrow> list_all sweep_ok rs)
     \<and> (case ri_derivatives i of None \<Rightarrow> True
        | Some d \<Rightarrow> is_double (inverse_cost_rate d) \<and> inverse_cost_rate d \<le> 1 / 4 \<and> inverse_tax_rate d \<le> 1 / 4)"

lemma array_get_mem: "array_get xs k = Inr x \<Longrightarrow> x \<in> set xs"
  by (auto simp: array_get_def split: if_splits)

lemma cell_all: "list_all (list_all P) m \<Longrightarrow> cell m t n = Inr x \<Longrightarrow> P x"
  by (auto simp: cell_def res_simps list_all_iff dest!: array_get_mem)

lemma dict_get_all: "list_all (\<lambda>(k, v). P v) d \<Longrightarrow> P v0 \<Longrightarrow> P (dict_get d k v0)"
  by (induction d) auto

lemma repr_dec_quarter: "is_double r \<Longrightarrow> rate_ok r \<Longrightarrow> rate_ok (repr_dec r)"
proof -
  have "is_double (1 / 4)" "repr_dec (1 / 4) = 1 / 4" by (simp_all add: num_eval)
  then show "is_double r \<Longrightarrow> rate_ok r \<Longrightarrow> rate_ok (repr_dec r)"
    using repr_dec_mono [of r "1 / 4"] by (simp add: rate_ok_def repr_dec_nonneg)
qed

lemma sell_costs_covered:
  assumes "1 \<le> q" "1 \<le> p" "rate_ok (commission_rate config)" "rate_ok r"
    and "\<lparr>fc_commission = cm, fc_sell_tax = x\<rparr> = fill_cost SideSELL q p r config"
  shows "cm + x \<le> q * p"
proof -
  have n: "0 < q * p" using assms(1,2) by simp
  have half: "dec_floor (dec_mul (of_int (q * p)) y) \<le> \<lfloor>of_int (q * p) / (2 :: rat)\<rfloor>" if "rate_ok y" for y
    using dec_floor_quarter [of "q * p" y "q * p"] that n by (simp only: rate_ok_def if_True less_imp_le order_refl)
  from assms(5) have cm: "cm = dec_floor (dec_mul (of_int (q * p)) (commission_rate config))"
    and x: "x = dec_floor (dec_mul (of_int (q * p)) r)"
    by (simp_all add: fill_cost_def Let_def)
  have "\<lfloor>of_int (q * p) / (2 :: rat)\<rfloor> \<le> \<lceil>of_int (q * p) / (2 :: rat)\<rceil>" by (rule floor_le_ceiling)
  with half [OF assms(3)] half [OF assms(4)] show ?thesis
    using ceiling_plus_floor_half [of "q * p"] unfolding cm x by linarith
qed

lemma engine_op_ok:
  assumes "input_ok i" "rc_in c = i" "\<And>oc. rc_overlay c = Some oc \<Longrightarrow> ri_derivatives i = Some (oc_terms oc)"
    and "engine_op c t l op"
  shows "op_ok l op"
proof (cases op)
  case (OpSell t i' q p cm x)
  with assms(4) assms(2) obtain r where r: "1 \<le> q" "1 \<le> p" "cell (ma_sell_tax_rate (ri_arrays i)) t i' = Inr (Fin r)"
    "\<lparr>fc_commission = cm, fc_sell_tax = x\<rparr> = fill_cost SideSELL q p (repr_dec r) (costs (ri_config i))"
    by (auto simp: engine_op_def)
  have "list_all (list_all (\<lambda>v. case v of Fin r \<Rightarrow> is_double r \<and> rate_ok r | _ \<Rightarrow> True)) (ma_sell_tax_rate (ri_arrays i))"
    using assms(1) by (simp add: input_ok_def)
  from cell_all [OF this r(3)] have "is_double r \<and> rate_ok r" by simp
  then have "rate_ok (repr_dec r)" by (simp add: repr_dec_quarter)
  then show ?thesis using sell_costs_covered [OF r(1,2) _ _ r(4)] assms(1) OpSell by (simp add: input_ok_def)
next
  case (OpShareFactor t n f b)
  have "list_all (\<lambda>(n, f, b). 0 \<le> b \<and> (case f of Fin x \<Rightarrow> 0 \<le> x | _ \<Rightarrow> True))
      (dict_get (share_factor_by_session (ri_events i)) t [])"
    by (rule dict_get_all [where P = "list_all (\<lambda>(n, f, b). 0 \<le> b \<and> (case f of Fin x \<Rightarrow> 0 \<le> x | _ \<Rightarrow> True))"])
      (use assms(1) in \<open>simp_all add: input_ok_def\<close>)
  with OpShareFactor assms(2,4) show ?thesis by (auto simp: engine_op_def list_all_iff)
next
  case (OpEntitlements t es)
  have "list_all (\<lambda>e. 0 \<le> de_dps_krw e) (dict_get (dividends_by_ex_session (ri_events i)) t [])"
    by (rule dict_get_all [where P = "list_all (\<lambda>e. 0 \<le> de_dps_krw e)"]) (use assms(1) in \<open>simp_all add: input_ok_def\<close>)
  with OpEntitlements assms(2,4) show ?thesis by (auto simp: engine_op_def list_all_iff)
next
  case (OpCashYield t r)
  with assms(2,4) obtain rates where rates: "ri_cash_returns i = Some rates" "r \<in> set rates"
    by (auto simp: engine_op_def dest: array_get_mem)
  have "list_all sweep_ok rates"
    using assms(1) rates(1) by (simp add: input_ok_def)
  then show ?thesis using rates(2) OpCashYield by (simp add: list_all_iff sweep_ok_def)
next
  case (OpSellInverse t u p r x)
  with assms show ?thesis by (auto simp: engine_op_def input_ok_def)
qed (use assms in \<open>auto simp: engine_op_def input_ok_def rate_ok_def half_open_unit_def\<close>)


lemma run_sessions_solvent:
  assumes "input_ok i" "run_setup i = Inr c" "initial_state c = Inr s0" "run_sessions c s0 = Inr s"
  shows "ledger_ok (rs_ledger s) \<and> (\<forall>r \<in> set (rs_records s). 0 \<le> nr_cash r \<and> 0 \<le> nr_tax_payable r)"
proof (rule foldM_invariant [OF assms(4) [unfolded run_sessions_def],
      where P = "\<lambda>s. ledger_ok (rs_ledger s) \<and> (\<forall>r \<in> set (rs_records s). 0 \<le> nr_cash r \<and> 0 \<le> nr_tax_payable r)"])
  show "ledger_ok (rs_ledger s0) \<and> (\<forall>r \<in> set (rs_records s0). 0 \<le> nr_cash r \<and> 0 \<le> nr_tax_payable r)"
    using initial_state_fields [OF assms(3)] by (auto intro: ledger_init_ok)
next
  fix u t u'
  assume u: "ledger_ok (rs_ledger u) \<and> (\<forall>r \<in> set (rs_records u). 0 \<le> nr_cash r \<and> 0 \<le> nr_tax_payable r)"
    and st: "session_step c u t = Inr u'"
  have "op_ok l op" if "engine_op c t l op" for l op
    using engine_op_ok [OF assms(1) run_setup_parts(1) [OF assms(2)] _ that]
      setup_overlay_terms run_setup_parts(5) [OF assms(2)] by fastforce
  then have ok: "ledger_ok (rs_ledger u')"
    using solvent_client.restrict_law [OF _ session_step_run [OF st]] u by blast
  from session_step_parts [OF st] obtain p r where r: "mark_phase c t p (rs_ledger u') = Inr r"
    "rs_records u' = rs_records u @ [r]" by metis
  with ok u mark_phase_fields [OF r(1)]
  show "ledger_ok (rs_ledger u') \<and> (\<forall>r \<in> set (rs_records u'). 0 \<le> nr_cash r \<and> 0 \<le> nr_tax_payable r)"
    by (auto simp: ledger_ok_def ledger_wf_def)
qed

text \<open>C6. A backtest on admissible inputs never reports negative cash or a negative tax liability, in any
  session, whatever the targets, the deposits, the hedge policy and the amounts involved.\<close>

theorem backtest_stays_solvent:
  assumes "input_ok i" "run_backtest i = Inr r"
  shows "\<forall>q \<in> set (br_nav r). 0 \<le> nr_cash q \<and> 0 \<le> nr_tax_payable q"
proof -
  from run_backtest_parts [OF assms(2)] obtain c s0 s where run: "run_setup i = Inr c" "initial_state c = Inr s0"
    "run_sessions c s0 = Inr s" "br_nav r = rs_records s" by metis
  then show ?thesis using run_sessions_solvent [OF assms(1) run(1-3)] by simp
qed

lemma demo_input_ok: "input_ok demo_input"
  by (simp add: input_ok_def demo_input_def demo_config_def demo_costs_def demo_arrays_def rate_ok_def sweep_ok_def)

theorem backtest_stays_solvent_witness:
  "input_ok demo_input \<and> run_backtest demo_input = Inr demo_result \<and> 0 \<le> nr_cash demo_record"
  using backtest_stays_solvent [OF demo_input_ok demo_run_backtest(1)] demo_input_ok demo_run_backtest by simp

end
