(* ===== verification/EngineHedge.thy ===== *)
theory EngineHedge
  imports EngineOps EngineDemo
begin

text \<open>
  Funding: what the engine spends on shares and on the hedge. Purchases take the largest affordable
  quantity, an unpaid tax liability is never spent, the shortened search for the number of contracts
  agrees with the full scan, and the margin is brought to the required reserve or to the last spendable
  won.
\<close>

section \<open>The tax liability is not spent\<close>

definition tax_kept :: "ledger \<Rightarrow> ledger \<Rightarrow> bool" where
  "tax_kept l l' \<longleftrightarrow> l_tax_payable l' = l_tax_payable l \<and> min (l_cash l) (l_tax_payable l) \<le> l_cash l'"

lemma tax_kept_cash:
  "l_tax_payable l' = l_tax_payable l \<Longrightarrow> l_cash l' = l_cash l - x \<Longrightarrow> x \<le> spendable_cash l \<Longrightarrow> tax_kept l l'"
  by (auto simp: tax_kept_def spendable_cash_def)

lemma spending_keeps_tax:
  assumes "spending_op l op" "ledger_apply l op = Inr l'"
  shows "tax_kept l l'"
  using assms(2)
proof (cases op)
  case (OpBuy t i q p cm)
  with assms show ?thesis
    by (intro tax_kept_cash [where x = "q * p + cm"]) (auto simp: buy_def checked_int_def Let_def res_simps book_def)
next
  case (OpTransferMargin t a)
  with assms show ?thesis
    by (intro tax_kept_cash [where x = a]) (auto simp: transfer_margin_def res_simps book_def split: if_splits)
next
  case (OpBuyInverse t u p r)
  with assms(1) obtain y where y: "r = Fin y" "u * p + ceil_amount_krw (AFloat y) [AInt u, AInt p] \<le> spendable_cash l"
    by auto
  with assms(2) OpBuyInverse show ?thesis
    by (intro tax_kept_cash [where x = "u * p + ceil_amount_krw (AFloat y) [AInt u, AInt p]"])
      (auto simp: buy_inverse_def checked_int_def Let_def res_simps book_def split: if_splits)
qed (use assms in \<open>auto simp: tax_kept_def map_sum_fst_Inr settle_variation_def trade_futures_def roll_futures_def
    checked_int_def Let_def res_simps book_def split: if_splits\<close>)

interpretation taxpayer_client: ledger_client spending_op tax_kept
  by unfold_locales (auto simp: tax_kept_def intro: spending_keeps_tax [unfolded tax_kept_def, THEN conjunct1]
      spending_keeps_tax [unfolded tax_kept_def, THEN conjunct2])

lemma spend_run_keeps_tax: "spend_run t l l' \<Longrightarrow> tax_kept l l'"
  by (rule taxpayer_client.restrict_law) (auto simp: spends_def)

text \<open>An account that owes a million: of its 2,502,441 won only the rest may be spent.\<close>

definition demo_owing :: ledger where
  "demo_owing = demo_open\<lparr>l_tax_payable := 1000000\<rparr>"

definition demo_fill :: fill_t where
  "demo_fill = \<lparr>f_order = demo_order, f_quantity = 200, f_price = 10089\<rparr>"

definition demo_owing_out :: fill_state where
  "demo_owing_out = (case apply_buy_fills demo_owing [demo_fill] 1 demo_config of Inr s \<Rightarrow> s)"

lemma demo_owing:
  "apply_buy_fills demo_owing [demo_fill] 1 demo_config = Inr demo_owing_out"
  "l_tax_payable demo_owing = 1000000" "l_cash demo_owing = 2502441"
proof -
  have c: "fill_cost SideBUY 148 10089 0 demo_costs = \<lparr>fc_commission = 223, fc_sell_tax = 0\<rparr>"
    by (simp add: fill_cost_def demo_costs_def num_eval cong: eval_congs)
  show "l_tax_payable demo_owing = 1000000" "l_cash demo_owing = 2502441"
    by (simp_all add: demo_owing_def demo_open)
  then have "\<exists>s. apply_buy_fills demo_owing [demo_fill] 1 demo_config = Inr s"
    by (simp add: apply_buy_fills_def demo_config_def apply_buy_fill_def buy_quantity_def spendable_cash_def
        shrink_buy_unfold c demo_fill_def buy_def checked_int_def demo_order_def cong: eval_congs)
  then show "apply_buy_fills demo_owing [demo_fill] 1 demo_config = Inr demo_owing_out"
    by (auto simp: demo_owing_out_def)
qed

text \<open>C15. Neither the purchases of a session nor the futures synchronisation ever spend an unpaid tax
  liability: the liability is left as it was, and the cash that was there to cover it is still there.\<close>

theorem unpaid_tax_is_never_spent:
  "(apply_buy_fills l fills t config = Inr s \<longrightarrow>
      l_tax_payable (fs_ledger s) = l_tax_payable l \<and> min (l_cash l) (l_tax_payable l) \<le> l_cash (fs_ledger s))
   \<and> (sync_futures l t k lv cfg m targets markets = Inr l' \<longrightarrow>
      l_tax_payable l' = l_tax_payable l \<and> min (l_cash l) (l_tax_payable l) \<le> l_cash l')"
  using spend_run_keeps_tax [OF buy_fills_run] spend_run_keeps_tax [OF sync_futures_run] unfolding tax_kept_def by blast

theorem unpaid_tax_is_never_spent_witness:
  "apply_buy_fills demo_owing [demo_fill] 1 demo_config = Inr demo_owing_out
   \<and> l_tax_payable (fs_ledger demo_owing_out) = 1000000 \<and> 1000000 \<le> l_cash (fs_ledger demo_owing_out)"
  using unpaid_tax_is_never_spent [of demo_owing "[demo_fill]" 1 demo_config demo_owing_out] demo_owing by simp

section \<open>Purchases\<close>

abbreviation buy_total :: "cost_config \<Rightarrow> int \<Rightarrow> int \<Rightarrow> int" where
  "buy_total config price q \<equiv> q * price + fc_commission (fill_cost SideBUY q price 0 config)"

lemma buy_quantity_largest:
  assumes "buy_quantity l fill config = (q, cm)" "0 \<le> commission_rate config" "0 < f_price fill" "0 \<le> f_quantity fill"
  shows "0 \<le> q \<and> q \<le> f_quantity fill \<and> (0 < q \<longrightarrow> cm = fc_commission (fill_cost SideBUY q (f_price fill) 0 config))
    \<and> buy_total config (f_price fill) q \<le> spendable_cash l
    \<and> (\<forall>q'. q < q' \<and> q' \<le> f_quantity fill \<longrightarrow> spendable_cash l < buy_total config (f_price fill) q')"
proof -
  let ?S = "spendable_cash l" and ?p = "f_price fill"
  define k where "k = min (f_quantity fill) (?S div ?p)"
  have k0: "0 \<le> k" using assms(3,4) by (simp add: k_def pos_imp_zdiv_nonneg_iff)
  have beyond: "?S < buy_total config ?p q'" if "k < q'" "q' \<le> f_quantity fill" for q'
  proof -
    have "?S div ?p < q'" using that by (auto simp: k_def)
    then have "?S < q' * ?p" using zdiv_mono1 [of "q' * ?p" ?S ?p] assms(3) by (auto simp: not_less [symmetric])
    moreover have "0 \<le> q' * ?p" using that k0 assms(3) by simp
    ultimately show ?thesis using fill_cost_commission_nonneg [OF assms(2), of q' ?p SideBUY 0] by linarith
  qed
  show ?thesis
  proof (cases "0 < k")
    case True
    then have s: "shrink_buy (nat k) ?p ?S config = (q, cm)"
      using assms(1,3) by (simp add: buy_quantity_def Let_def k_def)
    note big = shrink_buy_largest [OF s]
    have "q \<le> k" using shrink_buy_affordable [OF s] k0 big by (cases "0 < q") auto
    have zero: "buy_total config ?p 0 = 0" by (simp add: fill_cost_def Let_def dec_floor_def)
    have fits: "buy_total config ?p q \<le> ?S \<and> (0 < q \<longrightarrow> cm = fc_commission (fill_cost SideBUY q ?p 0 config))"
      using shrink_buy_affordable [OF s] big zero by (cases "0 < q") auto
    have "?S < buy_total config ?p q'" if "q < q'" "q' \<le> f_quantity fill" for q'
      using beyond [of q'] big that k0 by (cases "k < q'") auto
    then show ?thesis using big \<open>q \<le> k\<close> fits by (auto simp: k_def)
  next
    case False
    with k0 have "k = 0" by simp
    with assms(1,3) have "q = 0"
      by (simp add: buy_quantity_def Let_def k_def del: min_less_iff_conj)
    with beyond \<open>k = 0\<close> assms(4) show ?thesis by (auto simp: fill_cost_def Let_def dec_floor_def)
  qed
qed

text \<open>C16. Applying a priced buy never fails: it buys the largest quantity up to the fill whose value and
  commission fit the spendable cash (nothing when not even one share does), and the ledger moves by
  exactly that.\<close>

theorem buy_fill_takes_largest_affordable:
  assumes "0 \<le> o_instrument (f_order fill)" "0 < f_price fill" "0 \<le> f_quantity fill" "0 \<le> commission_rate (costs config)"
    and "0 \<le> l_tax_payable (fs_ledger s)"
  shows "\<exists>s' q. apply_buy_fill t config s fill = Inr s' \<and> 0 \<le> q \<and> q \<le> f_quantity fill
    \<and> buy_total (costs config) (f_price fill) q \<le> spendable_cash (fs_ledger s)
    \<and> (\<forall>q'. q < q' \<and> q' \<le> f_quantity fill \<longrightarrow> spendable_cash (fs_ledger s) < buy_total (costs config) (f_price fill) q')
    \<and> l_cash (fs_ledger s') = l_cash (fs_ledger s) - buy_total (costs config) (f_price fill) q
    \<and> dict_get (l_positions (fs_ledger s')) (o_instrument (f_order fill)) 0
        = dict_get (l_positions (fs_ledger s)) (o_instrument (f_order fill)) 0 + q"
proof -
  let ?l = "fs_ledger s" and ?n = "o_instrument (f_order fill)"
  obtain q cm where q: "buy_quantity ?l fill (costs config) = (q, cm)" by force
  note largest = buy_quantity_largest [OF q assms(4,2,3)]
  show ?thesis
  proof (cases "0 < q")
    case True
    then have "0 \<le> q * f_price fill" using assms(2) by simp
    then have cm: "0 \<le> cm" using largest True fill_cost_commission_nonneg [OF assms(4), of q "f_price fill" SideBUY 0] by simp
    have pos: "0 < q * f_price fill" using True assms(2) by simp
    have "l_cash ?l \<ge> q * f_price fill + cm"
      using largest True pos cm assms(5) by (auto simp: spendable_cash_def max_def split: if_splits)
    then have "buy ?l t ?n q (f_price fill) cm = Inr (book (?l\<lparr>l_cash := l_cash ?l - (q * f_price fill + cm),
        l_positions := AList.update ?n (dict_get (l_positions ?l) ?n 0 + q) (l_positions ?l)\<rparr>)
        [jentry t BUY (Some ?n) (- q * f_price fill) q, jentry t COMMISSION (Some ?n) (- cm) 0])"
      using assms(1,2) True cm by (simp add: buy_def checked_int_def Let_def guard_def)
    then show ?thesis
      using q True largest by (intro exI [of _ "record_fill config t fill q _ s"] exI [of _ q])
        (auto simp: apply_buy_fill_def Let_def book_def)
  next
    case False
    with largest have "q = 0" by simp
    then show ?thesis
      using q largest by (intro exI [of _ "record_fill config t fill 0 ?l s"] exI [of _ 0])
        (auto simp: apply_buy_fill_def Let_def fill_cost_def dec_floor_def)
  qed
qed


theorem buy_fill_takes_largest_affordable_witness:
  "\<exists>s' q. apply_buy_fill 1 demo_config \<lparr>fs_ledger = demo_owing, fs_applied = [], fs_rejects = [], fs_carried = []\<rparr> demo_fill = Inr s'
     \<and> q \<le> 200 \<and> l_cash (fs_ledger s') = 2502441 - buy_total demo_costs 10089 q"
  using buy_fill_takes_largest_affordable [of demo_fill demo_config
      "\<lparr>fs_ledger = demo_owing, fs_applied = [], fs_rejects = [], fs_carried = []\<rparr>" 1] demo_owing(2,3)
  by (auto simp: demo_fill_def demo_order_def demo_config_def demo_costs_def)

section \<open>The number of contracts that can be funded\<close>

definition fundable :: "int \<Rightarrow> int \<Rightarrow> int \<Rightarrow> pyfloat \<Rightarrow> derivative_config \<Rightarrow> int \<Rightarrow> bool" where
  "fundable k held available level config multiplier \<longleftrightarrow>
     (case (required_reserve_krw k level config, futures_commission (futures_cost_rate config) (k - held) multiplier level) of
        (Inr reserve, Inr commission) \<Rightarrow> reserve + commission \<le> available | _ \<Rightarrow> False)"

lemma fund_scan_step:
  assumes "0 < x"
  shows "fund_scan sg held av (Fin x) config mult (Suc n) =
    (if fundable (sg * int (Suc n)) held av (Fin x) config mult then Inr (sg * int (Suc n))
     else fund_scan sg held av (Fin x) config mult n)"
proof -
  obtain r where "required_reserve_krw (sg * int (Suc n)) (Fin x) config = Inr r"
    using required_reserve_total [OF assms] by blast
  then show ?thesis by (simp add: fundable_def futures_commission_def Let_def)
qed

lemma fund_scan_zero: "fund_scan sg held av (Fin x) config mult 0 = Inr 0"
  unfolding fund_scan.simps futures_commission_def by simp

lemma fund_scan_spec:
  assumes "0 < x"
  shows "\<exists>m \<le> n. fund_scan sg held av (Fin x) config mult n = Inr (sg * int m)
    \<and> (m = 0 \<or> fundable (sg * int m) held av (Fin x) config mult)
    \<and> (\<forall>m'. m < m' \<and> m' \<le> n \<longrightarrow> \<not> fundable (sg * int m') held av (Fin x) config mult)"
proof (induction n)
  case 0
  then show ?case by (simp add: fund_scan_zero del: fund_scan.simps)
next
  case (Suc n)
  show ?case
  proof (cases "fundable (sg * int (Suc n)) held av (Fin x) config mult")
    case True
    then show ?thesis by (intro exI [of _ "Suc n"]) (auto simp: fund_scan_step [OF assms] simp del: fund_scan.simps)
  next
    case False
    from Suc obtain m where "m \<le> n" "fund_scan sg held av (Fin x) config mult n = Inr (sg * int m)"
      "m = 0 \<or> fundable (sg * int m) held av (Fin x) config mult"
      "\<forall>m'. m < m' \<and> m' \<le> n \<longrightarrow> \<not> fundable (sg * int m') held av (Fin x) config mult" by blast
    with False show ?thesis
      by (intro exI [of _ m]) (auto simp: fund_scan_step [OF assms] le_Suc_eq simp del: fund_scan.simps)
  qed
qed

lemma fund_scan_skip:
  assumes "0 < x" "n \<le> N" "\<And>m. n < m \<Longrightarrow> m \<le> N \<Longrightarrow> \<not> fundable (sg * int m) held av (Fin x) config mult"
  shows "fund_scan sg held av (Fin x) config mult N = fund_scan sg held av (Fin x) config mult n"
  using assms(2,3)
proof (induction N)
  case (Suc N)
  show ?case
  proof (cases "n = Suc N")
    case False
    with Suc.prems have "\<not> fundable (sg * int (Suc N)) held av (Fin x) config mult"
      by (metis le_neq_implies_less order_refl)
    then have "fund_scan sg held av (Fin x) config mult (Suc N) = fund_scan sg held av (Fin x) config mult N"
      by (simp add: fund_scan_step [OF assms(1)] del: fund_scan.simps)
    also have "\<dots> = fund_scan sg held av (Fin x) config mult n" using Suc False by simp
    finally show ?thesis .
  qed simp
qed simp

text \<open>The terms of a contract as exact decimals: the reserve rate is \<open>a / 10^i\<close>, the level prints as
  \<open>b / 10^j\<close>, and the reserve of the whole target has at most 28 digits.\<close>

definition exact_terms :: "derivative_config \<Rightarrow> int \<Rightarrow> rat \<Rightarrow> int \<Rightarrow> int \<Rightarrow> nat \<Rightarrow> int \<Rightarrow> nat \<Rightarrow> bool" where
  "exact_terms config mult x target a i b j \<longleftrightarrow> mult = contract_multiplier_krw config \<and> 0 < mult \<and> 0 < x
     \<and> 0 \<le> futures_cost_rate config
     \<and> reserve_rate config = of_int a / 10 ^ i \<and> 0 < a \<and> repr_dec x = of_int b / 10 ^ j \<and> 0 < b
     \<and> i + j \<le> 1000026 \<and> \<bar>target\<bar> * mult * a * b < 10 ^ 28"

lemma dec_mul_exact:
  "\<bar>u * v\<bar> < 10 ^ 28 \<Longrightarrow> i + j \<le> 1000026 \<Longrightarrow>
   dec_mul (of_int u / 10 ^ i) (of_int v / 10 ^ j) = of_int (u * v) / 10 ^ (i + j)"
  using dec_round_exact [of "u * v" "i + j"] by (simp add: dec_mul_def power_add)

lemma reserve_product_exact:
  assumes "exact_terms config mult x target a i b j" "0 < m" "m \<le> \<bar>target\<bar>"
  shows "dec_mul (dec_mul (dec_mul (reserve_rate config) (of_int m)) (of_int mult)) (repr_dec x)
           = of_int (m * (mult * a * b)) / 10 ^ (i + j)"
    and "dec_mul (dec_mul (reserve_rate config) (of_int mult)) (repr_dec x) = of_int (mult * a * b) / 10 ^ (i + j)"
proof -
  note e = assms(1) [unfolded exact_terms_def]
  have pos: "0 < mult" "0 < a" "0 < b" "i + j \<le> 1000026" using e by simp_all
  have "m * (mult * a * b) \<le> \<bar>target\<bar> * (mult * a * b)" using assms(3) pos by (intro mult_right_mono) simp_all
  moreover have "\<bar>target\<bar> * mult * a * b < 10 ^ 28" using e by blast
  ultimately have top: "m * mult * a * b < 10 ^ 28" unfolding mult.assoc by (rule order_le_less_trans)
  have le: "0 < u \<and> 0 < v \<Longrightarrow> u \<le> u * v" for u v :: int by (simp add: mult_le_cancel_left1)
  have ma: "a * m * mult \<le> m * mult * a * b" "a * m \<le> m * mult * a * b"
    using le [of "a * m * mult" b] le [of "a * m" "mult * b"] pos assms(2) by (simp_all add: ac_simps)
  have mb: "mult * a * b \<le> m * mult * a * b" "a * mult \<le> m * mult * a * b"
    using le [of "mult * a * b" m] le [of "a * mult" "b * m"] pos assms(2) by (simp_all add: ac_simps)
  have p: "0 \<le> a * m" "0 \<le> a * m * mult" "0 \<le> a * mult" "0 \<le> a * m * mult * b" "0 \<le> a * mult * b"
    using pos assms(2) by simp_all
  have lt: "\<bar>a * m\<bar> < 10 ^ 28" "\<bar>a * m * mult\<bar> < 10 ^ 28" "\<bar>a * mult\<bar> < 10 ^ 28"
    "\<bar>a * m * mult * b\<bar> < 10 ^ 28" "\<bar>a * mult * b\<bar> < 10 ^ 28"
    using p top ma mb by (simp_all only: abs_of_nonneg ac_simps order_le_less_trans)
  have s1: "dec_mul (of_int a / 10 ^ i) (of_int m) = of_int (a * m) / 10 ^ i"
    using dec_mul_exact [OF lt(1), of i 0] pos by simp
  have s2: "dec_mul (of_int (a * m) / 10 ^ i) (of_int mult) = of_int (a * m * mult) / 10 ^ i"
    using dec_mul_exact [OF lt(2), of i 0] pos by simp
  have s3: "dec_mul (of_int (a * m * mult) / 10 ^ i) (of_int b / 10 ^ j) = of_int (a * m * mult * b) / 10 ^ (i + j)"
    by (rule dec_mul_exact [OF lt(4) pos(4)])
  show "dec_mul (dec_mul (dec_mul (reserve_rate config) (of_int m)) (of_int mult)) (repr_dec x)
           = of_int (m * (mult * a * b)) / 10 ^ (i + j)"
    using e s1 s2 s3 by (simp add: ac_simps)
  have s4: "dec_mul (of_int a / 10 ^ i) (of_int mult) = of_int (a * mult) / 10 ^ i"
    using dec_mul_exact [OF lt(3), of i 0] pos by simp
  have s5: "dec_mul (of_int (a * mult) / 10 ^ i) (of_int b / 10 ^ j) = of_int (a * mult * b) / 10 ^ (i + j)"
    by (rule dec_mul_exact [OF lt(5) pos(4)])
  show "dec_mul (dec_mul (reserve_rate config) (of_int mult)) (repr_dec x) = of_int (mult * a * b) / 10 ^ (i + j)"
    using e s4 s5 by (simp add: ac_simps)
qed


text \<open>A magnitude whose reserve alone fits the available amount is at most the capacity bound.\<close>

lemma reserve_within_bound:
  assumes e: "exact_terms config mult x target a i b j" and m: "0 < m" "m \<le> \<bar>target\<bar>"
    and "required_reserve_krw k (Fin x) config = Inr r" "\<bar>k\<bar> = m" "r \<le> av"
    and "fund_bound av config mult x = Inr bound"
  shows "m \<le> bound"
proof -
  note t = e [unfolded exact_terms_def]
  define cap :: rat where "cap = of_int (mult * a * b) / 10 ^ (i + j)"
  have cap: "0 < cap" using t by (simp add: cap_def)
  have "k \<noteq> 0" using assms(5) m(1) by auto
  with assms(4,5) t have "r = \<lceil>dec_mul (dec_mul (dec_mul (reserve_rate config) (of_int m)) (of_int mult)) (repr_dec x)\<rceil>"
    by (auto simp: required_reserve_krw_def ceil_amount_krw_def dec_ceiling_def)
  then have "r = \<lceil>of_int m * cap\<rceil>" using reserve_product_exact(1) [OF e m] by (simp add: cap_def)
  then have "of_int m * cap \<le> of_int av" using assms(6) by (simp add: ceiling_le_iff)
  then have le: "of_int m \<le> of_int av / cap" using cap by (simp add: pos_le_divide_eq)
  have bound: "bound = \<lfloor>dec_round (of_int av / cap)\<rfloor>"
    using assms(7) reserve_product_exact(2) [OF e m, folded cap_def] cap
    by (simp add: fund_bound_def Let_def dec_div_def dec_floor_def)
  have "0 < mult * a * b" using t by simp
  then have "m \<le> m * (mult * a * b)" using m(1) by (simp only: mult_le_cancel_left1) simp
  also have "\<dots> \<le> \<bar>target\<bar> * (mult * a * b)" using t m(2) by (intro mult_right_mono) simp_all
  also have "\<dots> = \<bar>target\<bar> * mult * a * b" by (simp only: mult.assoc)
  also have "\<dots> < 10 ^ 28" using t by blast
  finally have "\<bar>m\<bar> < 10 ^ 28" using m(1) by simp
  then have "of_int m = dec_round (of_int m)" by (rule dec_round_of_int [symmetric])
  also have "\<dots> \<le> dec_round (of_int av / cap)" by (rule dec_round_mono [OF le])
  finally show ?thesis by (simp add: bound le_floor_iff)
qed

lemma fund_bound_total:
  assumes "exact_terms config mult x target a i b j" "target \<noteq> 0" "0 \<le> av"
  shows "\<exists>bound \<ge> 0. fund_bound av config mult x = Inr bound"
proof -
  define cap :: rat where "cap = of_int (mult * a * b) / 10 ^ (i + j)"
  have cap: "0 < cap" using assms(1) by (simp add: cap_def exact_terms_def)
  have "dec_mul (dec_mul (reserve_rate config) (of_int mult)) (repr_dec x) = cap"
    using reserve_product_exact(2) [OF assms(1), of 1] assms(2) by (simp add: cap_def)
  moreover have "0 \<le> dec_round (of_int av / cap)" using cap assms(3) by (intro dec_round_nonneg) simp
  ultimately show ?thesis using cap by (simp add: fund_bound_def Let_def dec_div_def dec_floor_def)
qed

lemma commission_nonneg:
  "0 < mult \<Longrightarrow> 0 \<le> rate \<Longrightarrow> 0 < x \<Longrightarrow> futures_commission rate d mult (Fin x) = Inr cm \<Longrightarrow> 0 \<le> cm"
  by (auto simp: futures_commission_def repr_dec_nonneg intro!: ceil_amount_nonneg)

lemma fundable_reserve:
  assumes "fundable k held av (Fin x) config mult" "0 < mult" "0 \<le> futures_cost_rate config" "0 < x"
  shows "\<exists>r. required_reserve_krw k (Fin x) config = Inr r \<and> r \<le> av"
  using assms(1) commission_nonneg [OF assms(2-4)]
  by (force simp: fundable_def split: sum.splits)

lemma not_fundable_below_zero:
  assumes e: "exact_terms config mult x target a i b j" and "av < 0" "0 < m" "m \<le> \<bar>target\<bar>" "\<bar>k\<bar> = m"
  shows "\<not> fundable k held av (Fin x) config mult"
proof
  assume f: "fundable k held av (Fin x) config mult"
  note t = e [unfolded exact_terms_def]
  from fundable_reserve [OF f] t obtain r where r: "required_reserve_krw k (Fin x) config = Inr r" "r \<le> av" by auto
  have "0 \<le> reserve_rate config" using t by simp
  then have "0 \<le> r" using r(1) t
    by (auto simp: required_reserve_krw_def res_simps repr_dec_nonneg split: if_splits intro!: ceil_amount_nonneg)
  with r(2) assms(2) show False by simp
qed

text \<open>C13. The shortened search for the number of contracts returns, for every target, position and
  available amount, exactly what the full descending scan from the target towards zero returns: the
  largest magnitude on the target's side whose reserve and commission fit, or zero when none does.\<close>

theorem largest_fundable_is_full_scan:
  assumes "exact_terms config mult x target a i b j"
  shows "\<exists>k. largest_fundable_contracts target held av (Fin x) config mult = Inr k
    \<and> fund_scan (if 0 < target then 1 else - 1) held av (Fin x) config mult (nat \<bar>target\<bar>) = Inr k
    \<and> \<bar>k\<bar> \<le> \<bar>target\<bar> \<and> (k = 0 \<or> (0 < k \<longleftrightarrow> 0 < target) \<and> fundable k held av (Fin x) config mult)
    \<and> (\<forall>m. \<bar>k\<bar> < m \<and> m \<le> \<bar>target\<bar> \<longrightarrow> \<not> fundable (if 0 < target then m else - m) held av (Fin x) config mult)"
proof -
  note t = assms [unfolded exact_terms_def]
  let ?sg = "if 0 < target then 1 else - 1 :: int" and ?scan = "\<lambda>n. fund_scan (if 0 < target then 1 else - 1) held av (Fin x) config mult n"
  have sg: "\<bar>?sg * int n\<bar> = int n" for n by simp
  have same: "largest_fundable_contracts target held av (Fin x) config mult = ?scan (nat \<bar>target\<bar>)"
  proof (cases "target = 0 \<or> av < 0")
    case True
    have "?scan (nat \<bar>target\<bar>) = ?scan 0"
      using not_fundable_below_zero [OF assms _ _ _ sg] True t by (intro fund_scan_skip) auto
    then show ?thesis using True t
      by (auto simp: largest_fundable_contracts_def level_checked_def fund_scan_zero simp del: fund_scan.simps)
  next
    case False
    then obtain bound where bound: "0 \<le> bound" "fund_bound av config mult x = Inr bound"
      using fund_bound_total [OF assms, of av] by auto
    have "?scan (nat \<bar>target\<bar>) = ?scan (nat (min \<bar>target\<bar> bound))"
    proof (rule fund_scan_skip)
      fix m assume "nat (min \<bar>target\<bar> bound) < m" "m \<le> nat \<bar>target\<bar>"
      then have m: "bound < int m" "0 < int m" "int m \<le> \<bar>target\<bar>" using bound(1) by (auto simp: nat_less_iff)
      show "\<not> fundable (?sg * int m) held av (Fin x) config mult"
      proof
        assume "fundable (?sg * int m) held av (Fin x) config mult"
        from fundable_reserve [OF this] t obtain r where
          "required_reserve_krw (?sg * int m) (Fin x) config = Inr r" "r \<le> av" by blast
        from reserve_within_bound [OF assms m(2,3) this(1) sg this(2) bound(2)] m(1) show False by simp
      qed
    qed (use t in auto)
    then show ?thesis
      using False t bound by (auto simp: largest_fundable_contracts_def level_checked_def Let_def simp del: fund_scan.simps)
  qed
  have x: "0 < x" using t by blast
  obtain m where m: "m \<le> nat \<bar>target\<bar>" "?scan (nat \<bar>target\<bar>) = Inr (?sg * int m)"
    "m = 0 \<or> fundable (?sg * int m) held av (Fin x) config mult"
    "\<And>m'. m < m' \<Longrightarrow> m' \<le> nat \<bar>target\<bar> \<Longrightarrow> \<not> fundable (?sg * int m') held av (Fin x) config mult"
    using fund_scan_spec [OF x, of "nat \<bar>target\<bar>" ?sg held av config mult] by blast
  have "\<not> fundable (if 0 < target then m' else - m') held av (Fin x) config mult"
    if "int m < m'" "m' \<le> \<bar>target\<bar>" for m'
  proof -
    have "m < nat m'" "nat m' \<le> nat \<bar>target\<bar>" "int (nat m') = m'" using that by linarith+
    then show ?thesis using m(4) [of "nat m'"] by (auto split: if_splits)
  qed
  with m same show ?thesis by (intro exI [of _ "?sg * int m"]) (auto split: if_splits)
qed

definition demo_terms :: derivative_config where
  "demo_terms = \<lparr>contract_multiplier_krw = 250000, initial_margin_rate = 3602879701896397 / 36028797018963968,
     margin_buffer_rate = 1 / 16, margin_topup_trigger_fraction = 3 / 4, futures_cost_rate = 1 / 4096,
     inverse_cost_rate = 1 / 1024, futures_tax_rate = 11 / 100, futures_annual_deduction_krw = 2500000,
     inverse_tax_rate = 154 / 1000\<rparr>"

lemma demo_exact_terms: "exact_terms demo_terms 250000 (701 / 2) (- 4) 1625 4 3505 1"
proof -
  have "reserve_rate demo_terms = 1625 / 10 ^ 4" "repr_dec (701 / 2) = 3505 / 10 ^ 1"
    by (simp_all add: demo_terms_def reserve_rate_def dec_add_def dec_round_def num_eval cong: eval_congs)
  then show ?thesis by (simp add: exact_terms_def demo_terms_def)
qed

theorem largest_fundable_is_full_scan_witness:
  "exact_terms demo_terms 250000 (701 / 2) (- 4) 1625 4 3505 1
   \<and> (\<exists>k. largest_fundable_contracts (- 4) 0 30000000 (Fin (701 / 2)) demo_terms 250000 = Inr k \<and> \<bar>k\<bar> \<le> 4)"
  using largest_fundable_is_full_scan [OF demo_exact_terms, of 0 30000000] demo_exact_terms by auto

section \<open>Synchronising margin and contracts\<close>

lemma foldM_total:
  "(\<And>s x. x \<in> set xs \<Longrightarrow> \<exists>s'. f s x = Inr s') \<Longrightarrow> \<exists>s'. foldM f s xs = Inr s'"
proof (induction xs arbitrary: s)
  case (Cons x xs)
  then obtain u where "f s x = Inr u" by (metis list.set_intros(1))
  with Cons show ?case by simp
qed simp

lemma sumM_total: "(\<And>x. x \<in> set xs \<Longrightarrow> \<exists>v. f x = Inr v) \<Longrightarrow> \<exists>v. sumM f xs = Inr v"
proof (induction xs)
  case (Cons x xs)
  then obtain v w where "f x = Inr v" "sumM f xs = Inr w" by (metis list.set_intros)
  then show ?case by simp
qed simp

text \<open>Valid terms, a positive level, and a contract value the 28-digit context does not round to zero.\<close>

definition leg_ok :: "leg_terms \<Rightarrow> bool" where
  "leg_ok lt \<longleftrightarrow> derivative_ok (lt_config lt) \<and> lt_mult lt = contract_multiplier_krw (lt_config lt)
     \<and> (case lt_level lt of Fin x \<Rightarrow> 0 < x
          \<and> dec_mul (dec_mul (reserve_rate (lt_config lt)) (of_int (lt_mult lt))) (repr_dec x) \<noteq> 0 | _ \<Rightarrow> False)"

lemma leg_okE:
  assumes "leg_ok lt"
  obtains x where "lt_level lt = Fin x" "0 < x" "derivative_ok (lt_config lt)" "1 \<le> lt_mult lt"
    "dec_mul (dec_mul (reserve_rate (lt_config lt)) (of_int (lt_mult lt))) (repr_dec x) \<noteq> 0"
  using assms by (cases "lt_level lt") (auto simp: leg_ok_def derivative_ok_def)

lemma largest_fundable_total:
  assumes "leg_ok lt"
  shows "\<exists>k. largest_fundable_contracts target held av (lt_level lt) (lt_config lt) (lt_mult lt) = Inr k"
  using assms
proof (rule leg_okE)
  fix x assume x: "lt_level lt = Fin x" "0 < x"
    "dec_mul (dec_mul (reserve_rate (lt_config lt)) (of_int (lt_mult lt))) (repr_dec x) \<noteq> 0"
  have "\<exists>k. fund_scan sg held av (Fin x) (lt_config lt) (lt_mult lt) n = Inr k" for sg n
    using fund_scan_spec [OF x(2)] by blast
  then show ?thesis
    using x by (auto simp: largest_fundable_contracts_def level_checked_def fund_bound_def Let_def dec_div_def
        simp del: fund_scan.simps)
qed

lemma fund_leg_total:
  assumes "leg_ok lt"
  shows "\<exists>s'. fund_leg l0 b t s lt = Inr s'"
proof -
  obtain l rem where s: "s = (l, rem)" by force
  from assms obtain x where x: "lt_level lt = Fin x" "0 < x" "derivative_ok (lt_config lt)" "1 \<le> lt_mult lt" by (rule leg_okE)
  have trade: "\<exists>l'. trade_futures l t k (Fin x) (lt_mult lt) (Fin (futures_cost_rate (lt_config lt))) leg = Inr l'" for k leg
    using x by (auto simp: trade_futures_def checked_int_def derivative_ok_def half_open_unit_def Let_def)
  have com: "\<exists>cm. futures_commission r d m (Fin x) = Inr cm" for r d m by (simp add: futures_commission_def)
  obtain k where k: "(if b \<and> lt_target lt = leg_contracts l0 (lt_name lt) then Inr (leg_contracts l0 (lt_name lt))
      else largest_fundable_contracts (lt_target lt) (leg_contracts l0 (lt_name lt)) rem (lt_level lt) (lt_config lt) (lt_mult lt)) = Inr k"
    using largest_fundable_total [OF assms, of "lt_target lt" "leg_contracts l0 (lt_name lt)" rem] by (cases "b \<and> lt_target lt = leg_contracts l0 (lt_name lt)") auto
  obtain l' where l': "(if k \<noteq> leg_contracts l0 (lt_name lt)
      then trade_futures l t k (Fin x) (lt_mult lt) (Fin (futures_cost_rate (lt_config lt))) (lt_name lt) else Inr l) = Inr l'"
    using trade [of k "lt_name lt"] by (cases "k \<noteq> leg_contracts l0 (lt_name lt)") auto
  obtain r where "required_reserve_krw k (Fin x) (lt_config lt) = Inr r" using required_reserve_total [OF x(2)] by blast
  moreover obtain cm where "futures_commission (futures_cost_rate (lt_config lt)) (k - leg_contracts l0 (lt_name lt)) (lt_mult lt) (Fin x) = Inr cm"
    using com by blast
  ultimately show ?thesis using k l' x(1) s by (auto simp: fund_leg_def Let_def)
qed


lemma leg_reserve_total: "leg_ok lt \<Longrightarrow> \<exists>r. leg_reserve l lt = Inr r"
  by (elim leg_okE) (simp add: leg_reserve_def required_reserve_total)

lemma leg_floor_total: "leg_ok lt \<Longrightarrow> \<exists>r. leg_floor l lt = Inr r"
  by (elim leg_okE) (simp add: leg_floor_def maintenance_floor_def Let_def)

text \<open>What a margin transfer out of spendable cash does; it never fails on a solvent ledger.\<close>

lemma transfer_margin_spendable:
  assumes "a \<le> spendable_cash l" "0 \<le> l_cash l" "0 \<le> l_tax_payable l"
  shows "\<exists>l'. transfer_margin l t a = Inr l' \<and> l_margin l' = l_margin l + a \<and> l_cash l' = l_cash l - a \<and> 0 \<le> l_cash l'
    \<and> l_tax_payable l' = l_tax_payable l \<and> (\<forall>leg. leg_contracts l' leg = leg_contracts l leg)"
proof -
  have "a \<le> l_cash l" using assms by (auto simp: spendable_cash_def max_def split: if_splits)
  then show ?thesis by (auto simp: transfer_margin_def book_def)
qed

lemma reserve_sum_frame:
  assumes "\<forall>leg. leg_contracts l' leg = leg_contracts l leg"
  shows "sumM (leg_reserve l') lts = sumM (leg_reserve l) lts"
proof -
  have "leg_reserve l' = leg_reserve l" using assms by (intro ext) (simp add: leg_reserve_def)
  then show ?thesis by simp
qed

lemma settle_margin_outcome:
  assumes "list_all leg_ok lts" "0 \<le> l_cash l" "0 \<le> l_tax_payable l"
  shows "\<exists>l' R. settle_margin l t lts = Inr l' \<and> sumM (leg_reserve l') lts = Inr R \<and> l_margin l' \<le> R \<and> 0 \<le> l_cash l'
    \<and> (l_margin l' = R \<or> spendable_cash l' = 0) \<and> (\<forall>leg. leg_contracts l' leg = leg_contracts l leg)"
proof -
  obtain R where R: "sumM (leg_reserve l) lts = Inr R"
    using sumM_total [of lts "leg_reserve l"] leg_reserve_total assms(1) by (auto simp: list_all_iff)
  define need where "need = R - l_margin l"
  define a where "a = min need (spendable_cash l)"
  have "a \<le> spendable_cash l" by (simp add: a_def)
  from transfer_margin_spendable [OF this assms(2,3), of t] obtain l' where l': "transfer_margin l t a = Inr l'"
    "l_margin l' = l_margin l + a" "l_cash l' = l_cash l - a" "0 \<le> l_cash l'"
    "l_tax_payable l' = l_tax_payable l" "\<forall>leg. leg_contracts l' leg = leg_contracts l leg" by blast
  have low: "need \<le> 0 \<Longrightarrow> a = need" using spendable_nonneg [of l] unfolding a_def by linarith
  have "settle_margin l t lts = transfer_margin l t a"
    unfolding settle_margin_def R res_bind_simps Let_def need_def [symmetric]
    using low by (cases need "0 :: int" rule: linorder_cases) (auto simp: a_def [symmetric] transfer_margin_def)
  with l'(1) have "settle_margin l t lts = Inr l'" by simp
  moreover have "sumM (leg_reserve l') lts = Inr R" using reserve_sum_frame [OF l'(6)] R by simp
  moreover have "l_margin l' = R \<or> spendable_cash l' = 0"
    using l'(2,3,5) by (auto simp: a_def need_def spendable_cash_def min_def max_def)
  ultimately show ?thesis using l' by (intro exI [of _ l'] exI [of _ R]) (auto simp: a_def need_def)
qed

lemma trade_futures_cash:
  "trade_futures l t k v m r leg = Inr l' \<Longrightarrow> l_cash l' = l_cash l \<and> l_tax_payable l' = l_tax_payable l"
  by (auto simp: trade_futures_def Let_def res_simps book_def split: if_splits)

lemma fund_leg_cash:
  assumes "fund_leg l0 b t s lt = Inr s'"
  shows "l_cash (fst s') = l_cash (fst s) \<and> l_tax_payable (fst s') = l_tax_payable (fst s)"
  using assms by (cases s) (auto simp: fund_leg_def Let_def res_simps dest: trade_futures_cash split: if_splits)

lemma fund_legs_cash:
  "foldM (fund_leg l0 b t) s lts = Inr s' \<Longrightarrow>
   l_cash (fst s') = l_cash (fst s) \<and> l_tax_payable (fst s') = l_tax_payable (fst s)"
  by (rule foldM_invariant [where P = "\<lambda>u. l_cash (fst u) = l_cash (fst s) \<and> l_tax_payable (fst u) = l_tax_payable (fst s)"])
    (auto dest: fund_leg_cash)

text \<open>C14. Synchronising the futures never fails for lack of cash: on a solvent ledger with valid terms and
  positive levels it returns a solvent ledger whose pooled margin is at most the summed reserve, and
  either exactly that, or all spendable cash has been moved to it, or every leg already stood at its
  target with the margin above the maintenance floor and nothing but excess margin was moved.\<close>

theorem sync_futures_funds_margin:
  assumes "sync_legs l target level config mult targets markets = Inr lts" "list_all leg_ok lts"
    and "0 \<le> l_cash l" "0 \<le> l_tax_payable l"
  shows "\<exists>l' R. sync_futures l t target level config mult targets markets = Inr l'
    \<and> sumM (leg_reserve l') lts = Inr R \<and> l_margin l' \<le> R \<and> 0 \<le> l_cash l'
    \<and> (l_margin l' = R \<or> spendable_cash l' = 0
       \<or> (list_all (\<lambda>lt. lt_target lt = leg_contracts l (lt_name lt)) lts
          \<and> (\<exists>F. sumM (leg_floor l) lts = Inr F \<and> F \<le> l_margin l) \<and> l' = l))"
proof -
  obtain F where F: "sumM (leg_floor l) lts = Inr F"
    using sumM_total [of lts "leg_floor l"] leg_floor_total assms(2) by (auto simp: list_all_iff)
  obtain R where R: "sumM (leg_reserve l) lts = Inr R"
    using sumM_total [of lts "leg_reserve l"] leg_reserve_total assms(2) by (auto simp: list_all_iff)
  show ?thesis
  proof (cases "F \<le> l_margin l \<and> list_all (\<lambda>lt. lt_target lt = leg_contracts l (lt_name lt)) lts")
    case True
    show ?thesis
    proof (cases "R < l_margin l")
      case less: True
      then have "R - l_margin l \<le> spendable_cash l" using spendable_nonneg [of l] by linarith
      from transfer_margin_spendable [OF this assms(3,4), of t] obtain l' where l':
        "transfer_margin l t (R - l_margin l) = Inr l'" "l_margin l' = R" "0 \<le> l_cash l'"
        "\<forall>leg. leg_contracts l' leg = leg_contracts l leg" by auto
      moreover have "sumM (leg_reserve l') lts = Inr R" using reserve_sum_frame [OF l'(4)] R by simp
      ultimately show ?thesis using True less assms(1) F R by (auto simp: sync_futures_def)
    next
      case False
      with True show ?thesis using assms(1,3) F R by (auto simp: sync_futures_def)
    qed
  next
    case False
    obtain s where s: "foldM (fund_leg l (F \<le> l_margin l) t) (l, l_margin l + spendable_cash l) lts = Inr s"
      using foldM_total [of lts "fund_leg l (F \<le> l_margin l) t" "(l, l_margin l + spendable_cash l)"]
        fund_leg_total assms(2) by (fastforce simp: list_all_iff)
    note same = fund_legs_cash [OF s]
    have "0 \<le> l_cash (fst s)" "0 \<le> l_tax_payable (fst s)" using same assms(3,4) by simp_all
    from settle_margin_outcome [OF assms(2) this, of t] obtain l' R' where
      "settle_margin (fst s) t lts = Inr l'" "sumM (leg_reserve l') lts = Inr R'" "l_margin l' \<le> R'" "0 \<le> l_cash l'"
      "l_margin l' = R' \<or> spendable_cash l' = 0" by blast
    with False s assms(1) F show ?thesis by (auto simp: sync_futures_def Let_def)
  qed
qed

definition demo_leg :: leg_terms where
  "demo_leg = \<lparr>lt_name = PRIMARY_LEG, lt_config = demo_terms, lt_level = Fin (701 / 2), lt_mult = 250000, lt_target = 1\<rparr>"

lemma demo_sync_legs: "sync_legs demo_open 1 (Fin (701 / 2)) demo_terms 250000 [] [] = Inr [demo_leg]"
  by (simp add: sync_legs_def leg_names_def legs_def dict_keys_def demo_open demo_leg_def)

lemma demo_leg_ok: "list_all leg_ok [demo_leg]"
proof -
  note e = reserve_product_exact(2) [OF demo_exact_terms, of 1]
  have "derivative_ok demo_terms"
    by (simp add: derivative_ok_def demo_terms_def open_unit_def trigger_unit_def half_open_unit_def num_eval)
  then show ?thesis using e by (simp add: leg_ok_def demo_leg_def) (simp add: demo_terms_def)
qed

theorem sync_futures_funds_margin_witness:
  "\<exists>l' R. sync_futures demo_open 5 1 (Fin (701 / 2)) demo_terms 250000 [] [] = Inr l'
     \<and> sumM (leg_reserve l') [demo_leg] = Inr R \<and> l_margin l' \<le> R \<and> 0 \<le> l_cash l'"
  using sync_futures_funds_margin [OF demo_sync_legs demo_leg_ok, of 5] demo_open by auto

end
