(* ===== verification/EngineTimeline.thy ===== *)
theory EngineTimeline
  imports EngineProps "HOL-Library.Sublist"
begin

text \<open>
  The timeline of a run: orders execute in the session after their decision and never for an exited
  instrument, and a run without terminal settlement is a prefix of the run that continues it.
\<close>

section \<open>Orders execute one session after their decision\<close>

definition fills_inv :: "int \<Rightarrow> order_t set \<Rightarrow> fill_state \<Rightarrow> bool" where
  "fills_inv t os s \<longleftrightarrow> f_order ` set (fs_applied s) \<subseteq> os \<and> (\<forall>x \<in> set (fs_carried s). o_decision x = t)"

lemma record_fill_inv: "fills_inv t os s \<Longrightarrow> f_order fill \<in> os \<Longrightarrow> fills_inv t os (record_fill config t fill q l s)"
  by (auto simp: fills_inv_def record_fill_def Let_def mk_order_def split: if_splits)

lemma sell_fill_inv:
  "apply_sell_fill t arrays config s fill = Inr s' \<Longrightarrow> fills_inv t os s \<Longrightarrow> f_order fill \<in> os \<Longrightarrow> fills_inv t os s'"
  by (auto simp: apply_sell_fill_def Let_def res_simps split: if_splits intro: record_fill_inv)

lemma buy_fill_inv:
  "apply_buy_fill t config s fill = Inr s' \<Longrightarrow> fills_inv t os s \<Longrightarrow> f_order fill \<in> os \<Longrightarrow> fills_inv t os s'"
  by (auto simp: apply_buy_fill_def Let_def res_simps split: if_splits prod.splits intro: record_fill_inv)

lemma sell_fills_inv:
  assumes "apply_sell_fills l fills t arrays config = Inr s"
  shows "fills_inv t (f_order ` set fills) s"
  by (rule foldM_invariant [OF assms [unfolded apply_sell_fills_def]]) (auto simp: fills_inv_def [of t _ "\<lparr>fs_ledger = l, fs_applied = [], fs_rejects = [], fs_carried = []\<rparr>"] intro: sell_fill_inv)

lemma buy_fills_inv:
  assumes "apply_buy_fills l fills t config = Inr s"
  shows "fills_inv t (f_order ` set fills) s"
  by (rule foldM_invariant [OF assms [unfolded apply_buy_fills_def]]) (auto simp: fills_inv_def [of t _ "\<lparr>fs_ledger = l, fs_applied = [], fs_rejects = [], fs_carried = []\<rparr>"] intro: buy_fill_inv)

lemma trade_phase_orders:
  assumes "trade_phase c t l ex pending = Inr tr"
  shows "(\<forall>f \<in> set (to_fills tr). f_order f \<in> set pending \<and> o_decision (f_order f) = t - 1 \<and> o_instrument (f_order f) \<notin> set ex)
    \<and> (\<forall>x \<in> set (to_carried tr). o_decision x = t)"
proof -
  let ?exec = "filter (\<lambda>od. o_instrument od \<notin> set ex) pending"
  from assms obtain fs rs s b where steps:
    "price_orders ?exec (ri_arrays (rc_in c)) t (execution (ri_config (rc_in c))) (costs (ri_config (rc_in c))) (ri_rules (rc_in c)) = Inr (fs, rs)"
    "apply_sell_fills l (filter (\<lambda>f. o_side (f_order f) = SideSELL) fs) t (ri_arrays (rc_in c)) (ri_config (rc_in c)) = Inr s"
    "apply_buy_fills (fst (settle_tax_payable (fs_ledger s) t)) (filter (\<lambda>f. o_side (f_order f) = SideBUY) fs) t (ri_config (rc_in c)) = Inr b"
    "to_fills tr = fs_applied s @ fs_applied b"
    "to_carried tr = fs_carried s @ fs_carried b @ carried_rejects (ri_config (rc_in c)) t fs rs"
    by (auto simp: trade_phase_def Let_def res_simps)
  from steps(1) obtain session where "price_loop (ri_arrays (rc_in c)) t session (execution (ri_config (rc_in c)))
      (costs (ri_config (rc_in c))) (ri_rules (rc_in c)) ([], []) ?exec = Inr (fs, rs)"
    by (auto simp: price_orders_def res_simps)
  from price_loop_accounts [OF this] have acc: "accounted t ?exec fs rs" by auto
  then have sub: "f_order ` set fs \<subseteq> set ?exec"
    using list_emb_set [of "(=)" "map f_order fs" ?exec] by (auto simp: accounted_def)
  have inv: "fills_inv t (f_order ` set fs) s" "fills_inv t (f_order ` set fs) b"
    using sell_fills_inv [OF steps(2)] buy_fills_inv [OF steps(3)] by (auto simp: fills_inv_def)
  have "f_order ` set (fs_applied s) \<union> f_order ` set (fs_applied b) \<subseteq> set ?exec"
    using inv sub unfolding fills_inv_def by (meson Un_least subset_trans)
  then have "\<forall>f \<in> set (to_fills tr). f_order f \<in> set ?exec" unfolding steps(4) by auto
  moreover have "\<forall>x \<in> set (carried_rejects (ri_config (rc_in c)) t fs rs). o_decision x = t"
    by (auto simp: carried_rejects_def mk_order_def)
  ultimately show ?thesis using inv acc unfolding steps(5) fills_inv_def accounted_def by auto
qed

lemma target_orders_decided:
  assumes "target_orders weights arrays t holdings nav scale band = Inr orders"
  shows "\<forall>x \<in> set orders. o_decision x = t"
proof -
  from assms obtain close present sized where sized:
    "mapM (weight_orders close present t holdings nav scale band) weights = Inr sized"
    "orders = concat sized @ map (\<lambda>(n, held). mk_order n SideSELL held t) (filter (\<lambda>(n, held). n \<notin> set (dict_keys weights)) holdings)"
    by (auto simp: target_orders_def res_simps)
  have "\<forall>x \<in> set os. o_decision x = t" if "weight_orders close present t holdings nav scale band w = Inr os" for w os
    using that by (cases w) (auto simp: weight_orders_def Let_def res_simps mk_order_def split: if_splits)
  then have "\<forall>os \<in> set sized. \<forall>x \<in> set os. o_decision x = t" by (intro mapM_Inr_all [OF sized(1)])
  with sized(2) show ?thesis by (auto simp: mk_order_def)
qed

lemma next_orders_decided:
  "next_orders c t l nav carried = Inr orders \<Longrightarrow> \<forall>x \<in> set carried. o_decision x = t \<Longrightarrow> \<forall>x \<in> set orders. o_decision x = t"
  by (auto simp: next_orders_def res_simps dest!: target_orders_decided split: option.splits if_splits)

lemma exits_grow:
  assumes "open_phase c t l ex = Inr (l', ex')"
  shows "set ex \<subseteq> set ex'"
proof -
  from assms obtain l3 l4 where
    "foldM (step_exit (ri_config (rc_in c)) t) (l3, ex) (dict_get (exits_by_session (ri_events (rc_in c))) t []) = Inr (l4, ex')"
    by (auto simp: open_phase_def Let_def res_simps)
  then have "set ex \<subseteq> set (snd (l4, ex'))"
    by (rule foldM_invariant) (auto simp: step_exit_def Let_def res_simps split: if_splits)
  then show ?thesis by simp
qed

text \<open>C7. No look-ahead: every fill booked in a session belongs to an order that was pending when the session
  began, decided in the session before, for an instrument that has not left the market; and every order left for the next
  session is decided in this one, so the pricing step never meets an order of another session.\<close>

theorem orders_execute_one_session_later:
  assumes "session_step c s t = Inr s'"
  shows "(\<forall>f \<in> set (drop (length (rs_fills s)) (rs_fills s')).
            f_order f \<in> set (rs_pending s) \<and> o_decision (f_order f) = t - 1 \<and> o_instrument (f_order f) \<notin> set (rs_exited s'))
    \<and> (\<forall>x \<in> set (rs_pending s'). o_decision x = t) \<and> set (rs_exited s) \<subseteq> set (rs_exited s')"
  using assms
proof (rule session_step_parts)
  fix ex tr lv p nav
  assume sl: "session_ledger c t s = Inr (rs_ledger s', ex, tr, lv, p)" and s': "rs_exited s' = ex"
    "rs_fills s' = rs_fills s @ to_fills tr"
    and next_o: "next_orders c t (rs_ledger s') nav (to_carried tr) = Inr (rs_pending s')"
  from sl obtain l1 where steps: "open_phase c t (rs_ledger s) (rs_exited s) = Inr (l1, ex)"
    "trade_phase c t l1 ex (rs_pending s) = Inr tr"
    by (auto simp: session_ledger_def res_simps)
  have "\<forall>x \<in> set (to_carried tr). o_decision x = t" using trade_phase_orders [OF steps(2)] by blast
  with next_o have "\<forall>x \<in> set (rs_pending s'). o_decision x = t" by (rule next_orders_decided)
  with trade_phase_orders [OF steps(2)] exits_grow [OF steps(1)] s' show ?thesis by simp
qed

theorem orders_execute_one_session_later_witness:
  "\<exists>s'. session_step demo_ctx demo_state 1 = Inr s' \<and> length (rs_fills s') = 1
     \<and> (\<forall>f \<in> set (rs_fills s'). o_decision (f_order f) = 0) \<and> (\<forall>x \<in> set (rs_pending s'). o_decision x = 1)"
proof -
  obtain s' where s': "session_step demo_ctx demo_state 1 = Inr s'" "rs_fills s' = to_fills demo_out"
    using demo_session_step by blast
  have "rs_fills demo_state = []" by (simp add: demo_state_def)
  with orders_execute_one_session_later [OF s'(1)] s' show ?thesis by (auto simp: demo_out_def)
qed

section \<open>A longer run continues a shorter one\<close>

text \<open>The context of the same run with a later end.\<close>

definition lengthen :: "run_ctx \<Rightarrow> int \<Rightarrow> date \<Rightarrow> run_ctx" where
  "lengthen c h e = c\<lparr>rc_in := (rc_in c)\<lparr>ri_end := e\<rparr>, rc_hi := h\<rparr>"

lemma lengthen_fields [simp]:
  "rc_in (lengthen c h e) = (rc_in c)\<lparr>ri_end := e\<rparr>" "rc_lo (lengthen c h e) = rc_lo c" "rc_hi (lengthen c h e) = h"
  "rc_overlay (lengthen c h e) = rc_overlay c" "rc_deposits (lengthen c h e) = rc_deposits c"
  "rc_schedule (lengthen c h e) = rc_schedule c" "rc_scale (lengthen c h e) = rc_scale c"
  by (simp_all add: lengthen_def)

lemma end_frame:
  "ri_arrays (i\<lparr>ri_end := e\<rparr>) = ri_arrays i" "ri_events (i\<lparr>ri_end := e\<rparr>) = ri_events i"
  "ri_targets (i\<lparr>ri_end := e\<rparr>) = ri_targets i" "ri_config (i\<lparr>ri_end := e\<rparr>) = ri_config i"
  "ri_deposits (i\<lparr>ri_end := e\<rparr>) = ri_deposits i" "ri_rules (i\<lparr>ri_end := e\<rparr>) = ri_rules i"
  "ri_cash_returns (i\<lparr>ri_end := e\<rparr>) = ri_cash_returns i" "ri_rebalance_band (i\<lparr>ri_end := e\<rparr>) = ri_rebalance_band i"
  "ri_settle_final_taxes (i\<lparr>ri_end := e\<rparr>) = ri_settle_final_taxes i" "ri_calendar (i\<lparr>ri_end := e\<rparr>) = ri_calendar i"
  "ri_zone (i\<lparr>ri_end := e\<rparr>) = ri_zone i" "ri_overlay (i\<lparr>ri_end := e\<rparr>) = ri_overlay i"
  "ri_overlay_market (i\<lparr>ri_end := e\<rparr>) = ri_overlay_market i" "ri_derivatives (i\<lparr>ri_end := e\<rparr>) = ri_derivatives i"
  "ri_leg_derivatives (i\<lparr>ri_end := e\<rparr>) = ri_leg_derivatives i"
  by simp_all

lemma lengthen_phases:
  "open_phase (lengthen c h e) t l ex = open_phase c t l ex"
  "trade_phase (lengthen c h e) t l ex os = trade_phase c t l ex os"
  "overlay_quotes (lengthen c h e) t = overlay_quotes c t"
  "mark_phase (lengthen c h e) t p l = mark_phase c t p l"
  "next_orders (lengthen c h e) t l nav os = next_orders c t l nav os"
  "initial_orders (lengthen c h e) = initial_orders c"
  unfolding open_phase_def trade_phase_def overlay_quotes_def mark_phase_def next_orders_def initial_orders_def
    Let_def lengthen_fields end_frame by simp_all

lemma lengthen_tax: "\<not> ri_settle_final_taxes (rc_in c) \<Longrightarrow> tax_phase (lengthen c h e) t l = tax_phase c t l"
  unfolding tax_phase_def year_end_at_def Let_def lengthen_fields end_frame by simp

lemma lengthen_ledger:
  "\<not> ri_settle_final_taxes (rc_in c) \<Longrightarrow> session_ledger (lengthen c h e) t s = session_ledger c t s"
  unfolding session_ledger_def lengthen_phases lengthen_fields by (simp add: lengthen_tax)

text \<open>The level checks of a target depend on the window only through their success.\<close>

lemma check_target_legs_rows:
  "check_target_legs ls lv cf ck rows = Inr a \<Longrightarrow> check_target_legs ls lv cf ck rows' = Inr b \<Longrightarrow> a = b"
  by (induction ls lv cf ck rows rule: check_target_legs.induct) (auto simp: res_simps split: if_splits)

lemma check_target_lengthen:
  "check_target c oc tg ck = Inr a \<Longrightarrow> check_target (lengthen c h e) oc tg ck = Inr b \<Longrightarrow> a = b"
  by (auto simp: check_target_def split: option.splits intro: check_target_legs_rows)

lemma decide_overlay_lengthen:
  assumes "decide_overlay c oc t lv r rets ih ck l = Inr a" "decide_overlay (lengthen c h e) oc t lv r rets ih ck l = Inr b"
  shows "a = b"
  using assms by (auto simp: decide_overlay_def Let_def res_simps dest: check_target_lengthen)

lemma initial_state_lengthen:
  assumes "initial_state c = Inr a" "initial_state (lengthen c h e) = Inr b"
  shows "a = b"
  using assms by (auto simp: initial_state_def initial_overlay_def lengthen_phases res_simps split: option.splits if_splits
      dest: check_target_lengthen)

lemma session_step_lengthen:
  assumes "\<not> ri_settle_final_taxes (rc_in c)" "session_step c s t = Inr a" "session_step (lengthen c h e) s t = Inr b"
  shows "a = b"
  using assms(2,3)
  by (auto simp: session_step_def Let_def lengthen_ledger [OF assms(1)] lengthen_phases res_simps split: option.splits
      dest: decide_overlay_lengthen)

lemma foldM_agree:
  assumes "\<And>s x a b. f s x = Inr a \<Longrightarrow> g s x = Inr b \<Longrightarrow> a = b"
  shows "foldM f s xs = Inr a \<Longrightarrow> foldM g s xs = Inr b \<Longrightarrow> a = b"
proof (induction xs arbitrary: s)
  case (Cons x xs)
  then obtain u v where "f s x = Inr u" "foldM f u xs = Inr a" "g s x = Inr v" "foldM g v xs = Inr b"
    by (auto simp: res_simps)
  with assms [of s x u v] show ?case using Cons.IH [of u] by simp
qed simp

text \<open>What a run has reported is never revised.\<close>

definition reported :: "run_state \<Rightarrow> run_state \<Rightarrow> bool" where
  "reported s s' \<longleftrightarrow> prefix (rs_records s) (rs_records s') \<and> prefix (rs_fills s) (rs_fills s')
     \<and> prefix (rs_rejects s) (rs_rejects s') \<and> prefix (rs_returns s) (rs_returns s')
     \<and> prefix (l_journal (rs_ledger s)) (l_journal (rs_ledger s'))"

lemma reported_refl [simp]: "reported s s"
  by (simp add: reported_def)

lemma reported_trans: "reported s u \<Longrightarrow> reported u v \<Longrightarrow> reported s v"
  unfolding reported_def by (meson prefix_order.order_trans)

lemma session_step_reported: "session_step c s t = Inr s' \<Longrightarrow> reported s s'"
proof -
  assume st: "session_step c s t = Inr s'"
  from engine_run_tagged [OF session_step_run [OF st]] have "prefix (l_journal (rs_ledger s)) (l_journal (rs_ledger s'))"
    by (auto simp: tagged_def)
  with st show ?thesis by (elim session_step_parts) (auto simp: reported_def)
qed

lemma foldM_reported: "foldM (session_step c) s ts = Inr s' \<Longrightarrow> reported s s'"
  by (rule foldM_invariant [where P = "reported s"]) (auto intro: reported_trans session_step_reported)

section \<open>Setting up the longer run\<close>

lemma session_lookup_index:
  assumes "session_lookup ss d = Some k"
  shows "0 \<le> k \<and> nat k < length ss \<and> ss ! nat k = d"
proof -
  from assms have "(d, k) \<in> set (zip ss (map int [0..<length ss]))"
    by (auto simp: session_lookup_def dest: map_of_SomeD)
  then show ?thesis by (auto simp: in_set_zip)
qed

lemma session_lookup_mono:
  assumes "sorted_wrt (<) ss" "session_lookup ss d = Some k" "session_lookup ss e = Some h" "d \<le> e"
  shows "k \<le> h"
proof (rule ccontr)
  assume "\<not> k \<le> h"
  with session_lookup_index [OF assms(2)] session_lookup_index [OF assms(3)] have "e < d"
    using sorted_wrt_nth_less [OF assms(1), of "nat h" "nat k"] by auto
  with assms(4) show False by simp
qed

lemma validate_targets_id: "validate_targets ts lo hi n = Inr sched \<Longrightarrow> sched = ts"
  unfolding validate_targets_def
  by (induction ts arbitrary: sched) (auto simp: validate_row_def res_simps split: prod.splits)

lemma setup_overlay_agree: "setup_overlay i lo hi = Inr a \<Longrightarrow> setup_overlay i lo hi' = Inr b \<Longrightarrow> a = b"
  by (auto simp: setup_overlay_def Let_def res_simps split: option.splits)

lemma place_deposit_agree:
  "place_deposit ss lo hi d x = Inr a \<Longrightarrow> place_deposit ss lo hi' d x = Inr b \<Longrightarrow> a = b"
  by (auto simp: place_deposit_def Let_def res_simps split: prod.splits)

lemma setup_overlay_end [simp]: "setup_overlay (i\<lparr>ri_end := e\<rparr>) lo hi = setup_overlay i lo hi"
  unfolding setup_overlay_def end_frame by simp

lemma run_setup_lengthen:
  assumes "run_setup i = Inr c" "run_setup (i\<lparr>ri_end := e\<rparr>) = Inr c'"
  shows "c' = lengthen c (rc_hi c') e"
proof -
  note p = run_setup_parts [OF assms(1)] and q = run_setup_parts [OF assms(2), unfolded end_frame]
  have lo: "rc_lo c' = rc_lo c" using p(3) q(3) by simp
  have "rc_overlay c = rc_overlay c'" using p(5) q(5) lo by (auto intro: setup_overlay_agree)
  moreover have "rc_schedule c = rc_schedule c'" using validate_targets_id [OF p(6)] validate_targets_id [OF q(6)] by simp
  moreover have "rc_deposits c = rc_deposits c'"
    by (rule foldM_agree [OF place_deposit_agree p(7) q(7) [unfolded lo]])
  ultimately show ?thesis using p(1,8) q(1,8) lo by (simp add: lengthen_def)
qed

text \<open>C8. Without terminal settlement a backtest is a prefix of every longer one: moving the end of the window
  to a later session only appends records, fills, rejects, returns and journal entries, and never revises what was
  already reported.\<close>

theorem longer_backtest_extends_shorter:
  assumes "run_backtest i = Inr r" "run_backtest (i\<lparr>ri_end := e\<rparr>) = Inr r'"
    and "\<not> ri_settle_final_taxes i" "sorted_wrt (<) (ma_sessions (ri_arrays i))" "ri_end i \<le> e"
  shows "prefix (br_nav r) (br_nav r') \<and> prefix (br_fills r) (br_fills r') \<and> prefix (br_rejects r) (br_rejects r')
    \<and> prefix (br_stock_book_returns r) (br_stock_book_returns r') \<and> prefix (br_journal r) (br_journal r')"
proof -
  from run_backtest_parts [OF assms(1)] obtain c s0 s where run: "run_setup i = Inr c" "initial_state c = Inr s0"
    "run_sessions c s0 = Inr s" and r: "br_nav r = rs_records s" "br_fills r = rs_fills s" "br_rejects r = rs_rejects s"
    "br_journal r = l_journal (rs_ledger s)" "br_stock_book_returns r = rs_returns s" by metis
  from run_backtest_parts [OF assms(2)] obtain c' s0' s' where run': "run_setup (i\<lparr>ri_end := e\<rparr>) = Inr c'"
    "initial_state c' = Inr s0'" "run_sessions c' s0' = Inr s'" and r': "br_nav r' = rs_records s'"
    "br_fills r' = rs_fills s'" "br_rejects r' = rs_rejects s'" "br_journal r' = l_journal (rs_ledger s')"
    "br_stock_book_returns r' = rs_returns s'" by metis
  note c' = run_setup_lengthen [OF run(1) run'(1)] and p = run_setup_parts [OF run(1)] and p' = run_setup_parts [OF run'(1)]
  have hi: "rc_hi c \<le> rc_hi c'" using session_lookup_mono [OF assms(4) p(4)] p'(4) assms(5) by simp
  have s0: "s0' = s0" using run(2) run'(2) c' by (metis initial_state_lengthen)
  have lo: "rc_lo c' = rc_lo c" using c' by (metis lengthen_fields(2))
  have "[rc_lo c .. rc_hi c'] = [rc_lo c .. rc_hi c] @ [rc_hi c + 1 .. rc_hi c']"
    using p(2) hi by (intro upto_split2) simp_all
  with run'(3) s0 lo obtain u where u: "foldM (session_step c') s0 [rc_lo c .. rc_hi c] = Inr u"
    "foldM (session_step c') u [rc_hi c + 1 .. rc_hi c'] = Inr s'"
    by (auto simp: run_sessions_def foldM_append res_simps)
  have "s = u"
  proof (rule foldM_agree [OF _ run(3) [unfolded run_sessions_def] u(1)])
    show "a = b" if "session_step c s t = Inr a" "session_step c' s t = Inr b" for s t a b
      using session_step_lengthen [of c s t a] that c' assms(3) p(1) by metis
  qed
  with foldM_reported [OF u(2)] show ?thesis unfolding reported_def r r' by simp
qed

text \<open>A run of one idle session, and the same run continued by a second one.\<close>

definition quiet_input :: run_input where
  "quiet_input = demo_input\<lparr>ri_targets := [], ri_deposits := [], ri_start := Date 2026 3 2, ri_end := Date 2026 3 2,
     ri_cash_returns := None, ri_settle_final_taxes := False, ri_calendar := (\<lambda>_ _. demo_calendar), ri_zone := (\<lambda>_. 0)\<rparr>"

lemmas quiet_defs = quiet_input_def demo_input_def demo_config_def demo_arrays_def

definition quiet_ctx :: "int \<Rightarrow> date \<Rightarrow> run_ctx" where
  "quiet_ctx h e = \<lparr>rc_in = quiet_input\<lparr>ri_end := e\<rparr>, rc_lo = 0, rc_hi = h, rc_schedule = [], rc_overlay = None,
     rc_deposits = [], rc_scale = Fin 1\<rparr>"

lemma quiet_setup:
  "run_setup quiet_input = Inr (quiet_ctx 0 (Date 2026 3 2))"
  "run_setup (quiet_input\<lparr>ri_end := Date 2026 3 3\<rparr>) = Inr (quiet_ctx 1 (Date 2026 3 3))"
  by (simp_all add: run_setup_def quiet_ctx_def quiet_defs session_lookup_def validate_targets_def fle_def
      setup_overlay_def fsub_def num_eval cong: eval_congs)

definition quiet_ledger :: ledger where
  "quiet_ledger = (case ledger_init 2000000 of Inr l \<Rightarrow> l)"

definition quiet_record :: "int \<Rightarrow> nav_record" where
  "quiet_record t = \<lparr>nr_session = t, nr_cash = 2000000, nr_dividend_receivable = 0, nr_market_value = 0, nr_nav = 2000000,
     nr_external_flow = 0, nr_margin = 0, nr_inverse_value = 0, nr_tax_payable = 0\<rparr>"

definition quiet_state :: "pyfloat list \<Rightarrow> nav_record list \<Rightarrow> run_state" where
  "quiet_state returns rs = \<lparr>rs_ledger = quiet_ledger, rs_exited = [], rs_pending = [], rs_fills = [], rs_rejects = [],
     rs_records = rs, rs_overlay = None, rs_checked = [], rs_returns = returns, rs_index_history = [], rs_book_prev = 2000000\<rparr>"

lemma quiet_year_end: "year_end_at (quiet_ctx h e) 0 = Inr False" "year_end_at (quiet_ctx h e) 1 = Inr False"
proof -
  have "last_session_of_year (\<lambda>_ _. demo_calendar) (\<lambda>_. 0) 2026 = Inr (Date 2026 3 4)" by code_simp
  then show "year_end_at (quiet_ctx h e) 0 = Inr False" "year_end_at (quiet_ctx h e) 1 = Inr False"
    by (simp_all add: year_end_at_def quiet_ctx_def quiet_defs array_get_def)
qed

lemma quiet_ledger_fields: "l_journal quiet_ledger = []" "l_cash quiet_ledger = 2000000" "l_positions quiet_ledger = []"
  "l_receivable quiet_ledger = 0" "l_receivable_by_pay quiet_ledger = []" "l_external_flow quiet_ledger = 0" "l_tax_payable quiet_ledger = 0" "l_margin quiet_ledger = 0"
  "l_inverse_units quiet_ledger = 0" "quiet_ledger\<lparr>l_receivable_by_pay := []\<rparr> = quiet_ledger"
  by (simp_all add: quiet_ledger_def ledger_init_def checked_int_def)

lemma quiet_ctx_fields:
  "rc_in (quiet_ctx h e) = quiet_input\<lparr>ri_end := e\<rparr>" "rc_overlay (quiet_ctx h e) = None" "rc_deposits (quiet_ctx h e) = []"
  "rc_schedule (quiet_ctx h e) = []" "rc_lo (quiet_ctx h e) = 0" "rc_hi (quiet_ctx h e) = h"
  by (simp_all add: quiet_ctx_def)

lemma quiet_session:
  assumes "t = 0 \<or> t = 1"
  shows "session_ledger (quiet_ctx h e) t (quiet_state returns rs)
     = Inr (quiet_ledger, [], \<lparr>to_ledger = quiet_ledger, to_fills = [], to_rejects = [], to_carried = []\<rparr>, NaN, None)"
    and "mark_phase (quiet_ctx h e) t None quiet_ledger = Inr (quiet_record t)"
proof -
  have "tax_phase (quiet_ctx h e) t quiet_ledger = Inr quiet_ledger"
    using assms quiet_year_end by (auto simp: tax_phase_def)
  then show "session_ledger (quiet_ctx h e) t (quiet_state returns rs)
     = Inr (quiet_ledger, [], \<lparr>to_ledger = quiet_ledger, to_fills = [], to_rejects = [], to_carried = []\<rparr>, NaN, None)"
    using assms
    by (auto simp: session_ledger_def quiet_state_def open_phase_def step_share_factors_def record_dividend_entitlements_def
        settle_dividends_def step_deposit_def step_sweep_def trade_phase_def price_orders_def apply_sell_fills_def
        settle_tax_payable_def apply_buy_fills_def carried_rejects_def overlay_quotes_def quiet_ctx_fields quiet_ledger_fields
        array_get_def quiet_defs)
  show "mark_phase (quiet_ctx h e) t None quiet_ledger = Inr (quiet_record t)"
    using assms by (auto simp: mark_phase_def mark_def inverse_mark_def quiet_record_def quiet_ctx_fields quiet_ledger_fields
        array_get_def quiet_defs)
qed

lemma quiet_steps:
  "session_step (quiet_ctx h e) (quiet_state [] []) 0 = Inr (quiet_state [NaN] [quiet_record 0])"
  "session_step (quiet_ctx h e) (quiet_state [NaN] [quiet_record 0]) 1 = Inr (quiet_state [NaN, Fin 0] [quiet_record 0, quiet_record 1])"
  by (simp_all add: session_step_def quiet_session quiet_ctx_fields next_orders_def session_return_def int_truediv_def
      cash_flow_krw_def journal_since_def journal_size_def quiet_ledger_fields)
    (simp_all add: quiet_state_def quiet_record_def stock_book_def quiet_ledger_fields fsub_def num_eval cong: eval_congs)

lemma quiet_runs:
  "\<exists>r. run_backtest quiet_input = Inr r \<and> br_nav r = [quiet_record 0]"
  "\<exists>r. run_backtest (quiet_input\<lparr>ri_end := Date 2026 3 3\<rparr>) = Inr r \<and> br_nav r = [quiet_record 0, quiet_record 1]"
proof -
  have init: "initial_state (quiet_ctx h e) = Inr (quiet_state [] [])" for h e
    by (simp add: initial_state_def initial_orders_def initial_overlay_def quiet_ctx_fields quiet_state_def quiet_ledger_def)
      (simp add: quiet_defs ledger_init_def checked_int_def)
  show "\<exists>r. run_backtest quiet_input = Inr r \<and> br_nav r = [quiet_record 0]"
    by (simp add: run_backtest_def quiet_setup init run_sessions_def quiet_ctx_fields quiet_steps) (simp add: quiet_state_def)
  show "\<exists>r. run_backtest (quiet_input\<lparr>ri_end := Date 2026 3 3\<rparr>) = Inr r \<and> br_nav r = [quiet_record 0, quiet_record 1]"
    by (simp add: run_backtest_def quiet_setup init run_sessions_def quiet_ctx_fields quiet_steps upto_rec1) (simp add: quiet_state_def)
qed

theorem longer_backtest_extends_shorter_witness:
  "\<exists>r r'. run_backtest quiet_input = Inr r \<and> run_backtest (quiet_input\<lparr>ri_end := Date 2026 3 3\<rparr>) = Inr r'
     \<and> prefix (br_nav r) (br_nav r') \<and> length (br_nav r') = 2"
proof -
  from quiet_runs obtain r r' where r: "run_backtest quiet_input = Inr r"
    "run_backtest (quiet_input\<lparr>ri_end := Date 2026 3 3\<rparr>) = Inr r'" "br_nav r' = [quiet_record 0, quiet_record 1]" by blast
  have "\<not> ri_settle_final_taxes quiet_input" "sorted_wrt (<) (ma_sessions (ri_arrays quiet_input))" "ri_end quiet_input \<le> Date 2026 3 3"
    by (simp_all add: quiet_defs less_date_def less_eq_date_def)
  from longer_backtest_extends_shorter [OF r(1,2) this] r show ?thesis by auto
qed

end
