(* ===== verification/Orders.thy ===== *)
theory Orders
  imports SessionTime PyNum
begin

text \<open>
  The data of the execution boundary: instruments (\<open>src/core/instruments.py\<close>), orders and their states
  (\<open>src/execution/domain/orders.py\<close>), target-position intents (\<open>domain/intents.py\<close>) and the reconciled
  account snapshot (\<open>domain/portfolio.py\<close>), each with the validation of its constructor. Quantities and
  values annotated \<open>float\<close> are \<open>pyfloat\<close> values; Python comparisons with \<open>NaN\<close> are false, as \<open>fless\<close>
  and \<open>fle\<close> have it.
\<close>

section \<open>Instruments\<close>

datatype asset_kind = STOCK | ETF

record instrument =
  in_instrument_id :: string
  in_asset_kind :: asset_kind
  in_exchange :: string
  in_symbol :: string
  in_currency :: string
  in_lot_size :: int

definition instrument_init :: "instrument \<Rightarrow> instrument res" where
  "instrument_init i =
     guard (in_instrument_id i = []) (ValueError ''instrument_id must be non-empty'') (
     guard (in_symbol i = []) (ValueError ''symbol must be non-empty'') (
     guard (in_lot_size i < 1) (ValueError ''lot_size must be positive'') (Inr i)))"

text \<open>Provider symbols resolve through the map or not at all.\<close>

definition resolve :: "((string \<times> string) \<times> instrument) list \<Rightarrow> string \<Rightarrow> string \<Rightarrow> instrument res" where
  "resolve provider_map provider symbol =
     (case map_of provider_map (provider, symbol) of
        Some i \<Rightarrow> Inr i | None \<Rightarrow> Inl (ValueError ''Unknown provider symbol''))"

section \<open>Times\<close>

text \<open>Ordering two datetimes: an aware and a naive one cannot be compared.\<close>

fun dt_less :: "py_datetime \<Rightarrow> py_datetime \<Rightarrow> bool res" where
  "dt_less (Aware a) (Aware b) = Inr (a < b)"
| "dt_less (Naive a) (Naive b) = Inr (a < b)"
| "dt_less _ _ = Inl (TypeError ''can't compare offset-naive and offset-aware datetimes'')"

fun is_aware :: "py_datetime \<Rightarrow> bool" where
  "is_aware (Aware _) = True"
| "is_aware (Naive _) = False"

section \<open>Orders\<close>

datatype order_side = OBUY | OSELL

datatype order_state = NEW | VALIDATED | SUBMITTED | FILLED | REJECTED | CANCELED

record order_request =
  rq_order_id :: string
  rq_asset_kind :: asset_kind
  rq_instrument_id :: string
  rq_side :: order_side
  rq_quantity :: int
  rq_price :: "pyfloat option"
  rq_request_time :: py_datetime
  rq_idempotency_key :: string
  rq_intent_id :: string

definition order_request_init :: "order_request \<Rightarrow> order_request res" where
  "order_request_init r =
     guard (rq_quantity r \<le> 0) (ValueError ''quantity must be positive'') (
     guard (case rq_price r of Some p \<Rightarrow> fle p (Fin 0) | None \<Rightarrow> False) (ValueError ''price must be positive'') (Inr r))"

record order_state_record =
  or_order_id :: string
  or_intent_id :: string
  or_instrument_id :: string
  or_asset_kind :: asset_kind
  or_side :: order_side
  or_state :: order_state
  or_submitted_quantity :: pyfloat
  or_filled_quantity :: pyfloat
  or_filled_price :: "pyfloat option"
  or_reason :: string

section \<open>Intents\<close>

record trade_intent =
  ti_intent_id :: string
  ti_asset_kind :: asset_kind
  ti_instrument_id :: string
  ti_target_value :: pyfloat
  ti_decision_time :: py_datetime
  ti_execution_time :: py_datetime
  ti_strategy_id :: string
  ti_reason :: string
  ti_idempotency_key :: string
  ti_account_snapshot_id :: string
  ti_reference_price_guard_bps :: "pyfloat option"
  ti_target_quantity :: "int option"

definition trade_intent_init :: "trade_intent \<Rightarrow> trade_intent res" where
  "trade_intent_init t =
     guard (ti_intent_id t = []) (ValueError ''intent_id must be non-empty'') (
     guard (ti_account_snapshot_id t = []) (ValueError ''account_snapshot_id must be non-empty'') (
     guard (fless (ti_target_value t) (Fin 0) \<or> \<not> is_finite (ti_target_value t))
       (ValueError ''target_value must be a non-negative finite number'') (
     guard (case ti_target_quantity t of Some q \<Rightarrow> q < 0 | None \<Rightarrow> False)
       (ValueError ''target_quantity must be a non-negative integer when provided'') (
     res_bind (dt_less (ti_execution_time t) (ti_decision_time t)) (\<lambda>late.
     guard late (ValueError ''decision_time must not be after execution_time'') (
     guard (case ti_reference_price_guard_bps t of Some b \<Rightarrow> fless b (Fin 0) \<or> \<not> is_finite b | None \<Rightarrow> False)
       (ValueError ''reference_price_guard_bps must be a non-negative finite number'')
       (Inr t)))))))"

section \<open>The account snapshot\<close>

record position =
  po_instrument :: instrument
  po_quantity :: pyfloat
  po_average_cost :: pyfloat

definition position_init :: "position \<Rightarrow> position res" where
  "position_init p =
     guard (fless (po_quantity p) (Fin 0)) (ValueError ''quantity must be non-negative'') (
     guard (\<not> is_finite (po_quantity p)) (ValueError ''quantity must be finite'') (Inr p))"

record allocation =
  al_instrument :: instrument
  al_target_value :: pyfloat
  al_reason :: string
  al_target_quantity :: "int option"

definition allocation_init :: "allocation \<Rightarrow> allocation res" where
  "allocation_init a =
     guard (fless (al_target_value a) (Fin 0) \<or> \<not> is_finite (al_target_value a))
       (ValueError ''target_value must be a non-negative finite number'') (
     case al_target_quantity a of None \<Rightarrow> Inr a
     | Some q \<Rightarrow>
         guard (q < 0) (ValueError ''target_quantity must be a non-negative integer when provided'') (
         guard (in_lot_size (al_instrument a) = 0) (ZeroDivisionError ''integer modulo by zero'') (
         guard (q mod in_lot_size (al_instrument a) \<noteq> 0) (ValueError ''target_quantity must be a multiple of lot_size'') (Inr a))))"

record portfolio_snapshot =
  ps_account_snapshot_id :: string
  ps_as_of :: py_datetime
  ps_settled_cash :: pyfloat
  ps_unsettled_cash :: pyfloat
  ps_positions :: "position list"
  ps_open_order_ids :: "string list"

abbreviation position_id :: "position \<Rightarrow> string" where
  "position_id p \<equiv> in_instrument_id (po_instrument p)"

fun check_duplicates :: "string list \<Rightarrow> position list \<Rightarrow> unit res" where
  "check_duplicates seen [] = Inr ()"
| "check_duplicates seen (p # ps) =
     guard (position_id p \<in> set seen) (ValueError ''duplicate position'') (check_duplicates (position_id p # seen) ps)"

definition portfolio_snapshot_init :: "portfolio_snapshot \<Rightarrow> portfolio_snapshot res" where
  "portfolio_snapshot_init s =
     guard (ps_account_snapshot_id s = []) (ValueError ''account_snapshot_id must be non-empty'') (
     guard (\<not> is_finite (ps_settled_cash s) \<or> \<not> is_finite (ps_unsettled_cash s)) (ValueError ''cash balances must be finite'') (
     res_bind (check_duplicates [] (ps_positions s)) (\<lambda>_. Inr s)))"

fun find_quantity :: "position list \<Rightarrow> string \<Rightarrow> int res" where
  "find_quantity [] n = Inr 0"
| "find_quantity (p # ps) n = (if position_id p = n then int_of_float (po_quantity p) else find_quantity ps n)"

definition quantity_of :: "portfolio_snapshot \<Rightarrow> string \<Rightarrow> int res" where
  "quantity_of s n = find_quantity (ps_positions s) n"

fun positions_value :: "(string, pyfloat) dict \<Rightarrow> pyfloat \<Rightarrow> position list \<Rightarrow> pyfloat res" where
  "positions_value prices acc [] = Inr acc"
| "positions_value prices acc (p # ps) =
     (case map_of prices (position_id p) of
        None \<Rightarrow> Inl (ValueError ''no price to value held instrument'')
      | Some price \<Rightarrow> guard (\<not> is_finite price \<or> fle price (Fin 0)) (ValueError ''invalid mark price'')
          (positions_value prices (fadd acc (fmul (po_quantity p) price)) ps))"

definition equity :: "portfolio_snapshot \<Rightarrow> (string, pyfloat) dict \<Rightarrow> pyfloat res" where
  "equity s prices = res_bind (positions_value prices (Fin 0) (ps_positions s)) (\<lambda>v.
     Inr (fadd (fadd (ps_settled_cash s) (ps_unsettled_cash s)) v))"

definition validate_as_of :: "portfolio_snapshot \<Rightarrow> py_datetime \<Rightarrow> unit res" where
  "validate_as_of s at_time = res_bind (dt_less at_time (ps_as_of s)) (\<lambda>newer.
     guard newer (ValueError ''account snapshot is newer than decision_time'') (Inr ()))"

section \<open>Laws of the constructors\<close>

lemma dt_less_Inr: "dt_less a b = Inr x \<longleftrightarrow>
  (\<exists>s t. a = Aware s \<and> b = Aware t \<and> x = (s < t)) \<or> (\<exists>s t. a = Naive s \<and> b = Naive t \<and> x = (s < t))"
  by (cases a; cases b) auto

lemma check_duplicates_distinct:
  "check_duplicates seen ps = Inr () \<longleftrightarrow> distinct (map position_id ps) \<and> set (map position_id ps) \<inter> set seen = {}"
  by (induction ps arbitrary: seen) (auto simp: res_simps)

lemma snapshot_distinct:
  "portfolio_snapshot_init s = Inr s' \<Longrightarrow> s' = s \<and> distinct (map position_id (ps_positions s))"
  by (auto simp: portfolio_snapshot_init_def res_simps check_duplicates_distinct)

end
