(* ===== verification/StateStore.thy ===== *)
theory StateStore
  imports Orders PyText "HOL-Library.Sublist"
begin

text \<open>
  Order state stores: the port (\<open>src/execution/ports/state_store.py\<close>) as the interface \<open>state_store\<close>, the
  in-memory adapter and the SQLite adapter (\<open>src/execution/adapters\<close>) as its two implementations.

  The SQLite tables are lists of rows in insertion order; a statement inside \<open>with connection\<close> either
  commits or rolls back as a whole, so a failing call leaves the store unchanged. Binding follows SQLite:
  a \<open>NaN\<close> is stored as \<open>NULL\<close>, which the \<open>NOT NULL\<close> columns reject.
\<close>

section \<open>The port\<close>

locale state_store =
  fixes inv :: "'s \<Rightarrow> bool"
    and save :: "'s \<Rightarrow> order_state_record \<Rightarrow> 's res"
    and get :: "'s \<Rightarrow> string \<Rightarrow> order_state_record option res"
    and mark :: "'s \<Rightarrow> string \<Rightarrow> 's"
    and dup :: "'s \<Rightarrow> string \<Rightarrow> bool"
    and norm :: "order_state_record \<Rightarrow> order_state_record"
  assumes inv_save: "inv s \<Longrightarrow> save s r = Inr s' \<Longrightarrow> inv s'"
    and inv_mark: "inv s \<Longrightarrow> inv (mark s k)"
    and get_save: "inv s \<Longrightarrow> save s r = Inr s' \<Longrightarrow>
      get s' n = (if n = or_order_id r then Inr (Some (norm r)) else get s n)"
    and get_mark: "get (mark s k) n = get s n"
    and dup_save: "save s r = Inr s' \<Longrightarrow> dup s' k = dup s k"
    and dup_mark: "dup (mark s k) k' \<longleftrightarrow> k' = k \<or> dup s k'"
begin

text \<open>What clients of a store do: a sequence of saves and marks.\<close>

fun store_call :: "'s \<Rightarrow> order_state_record + string \<Rightarrow> 's res" where
  "store_call s (Inl r) = save s r"
| "store_call s (Inr k) = Inr (mark s k)"

lemma calls_inv: "inv s \<Longrightarrow> foldM store_call s cs = Inr s' \<Longrightarrow> inv s'"
proof (induction cs arbitrary: s)
  case (Cons c cs)
  then obtain u where "store_call s c = Inr u" "foldM store_call u cs = Inr s'" by (auto simp: res_simps)
  moreover from this have "inv u" using Cons.prems(1) by (cases c) (auto intro: inv_save inv_mark)
  ultimately show ?case using Cons.IH by blast
qed simp

text \<open>A marked key stays marked, and only marking marks.\<close>

lemma calls_dup: "foldM store_call s cs = Inr s' \<Longrightarrow> dup s' k \<longleftrightarrow> dup s k \<or> Inr k \<in> set cs"
proof (induction cs arbitrary: s)
  case (Cons c cs)
  then obtain u where u: "store_call s c = Inr u" "foldM store_call u cs = Inr s'" by (auto simp: res_simps)
  from Cons.IH [OF u(2)] u(1) show ?case by (cases c) (auto simp: dup_save dup_mark)
qed simp

text \<open>A lookup returns the last record saved under the id.\<close>

fun last_saved :: "string \<Rightarrow> (order_state_record + string) list \<Rightarrow> order_state_record option \<Rightarrow> order_state_record option" where
  "last_saved n [] acc = acc"
| "last_saved n (Inl r # cs) acc = last_saved n cs (if or_order_id r = n then Some (norm r) else acc)"
| "last_saved n (Inr k # cs) acc = last_saved n cs acc"

lemma calls_get:
  "inv s \<Longrightarrow> foldM store_call s cs = Inr s' \<Longrightarrow> get s n = Inr acc \<Longrightarrow> get s' n = Inr (last_saved n cs acc)"
proof (induction cs arbitrary: s acc)
  case (Cons c cs)
  then obtain u where u: "store_call s c = Inr u" "foldM store_call u cs = Inr s'" by (auto simp: res_simps)
  have "inv u" using Cons.prems(1) u(1) by (cases c) (auto intro: inv_save inv_mark)
  moreover have "get u n = Inr (last_saved n [c] acc)"
    using Cons.prems u(1) by (cases c) (auto simp: get_save get_mark)
  ultimately have "get s' n = Inr (last_saved n cs (last_saved n [c] acc))" using Cons.IH u(2) by blast
  then show ?case by (cases c) simp_all
qed simp

end

section \<open>The in-memory store\<close>

record memory_store =
  ms_records :: "(string, order_state_record) dict"
  ms_idempotency_keys :: "string list"

definition memory_init :: memory_store where
  "memory_init = \<lparr>ms_records = [], ms_idempotency_keys = []\<rparr>"

definition memory_save :: "memory_store \<Rightarrow> order_state_record \<Rightarrow> memory_store res" where
  "memory_save s r = Inr (s\<lparr>ms_records := AList.update (or_order_id r) r (ms_records s)\<rparr>)"

definition memory_get :: "memory_store \<Rightarrow> string \<Rightarrow> order_state_record option res" where
  "memory_get s n = Inr (map_of (ms_records s) n)"

definition memory_mark_intent :: "memory_store \<Rightarrow> string \<Rightarrow> memory_store" where
  "memory_mark_intent s k = s\<lparr>ms_idempotency_keys := List.insert k (ms_idempotency_keys s)\<rparr>"

definition memory_is_duplicate_intent :: "memory_store \<Rightarrow> string \<Rightarrow> bool" where
  "memory_is_duplicate_intent s k \<longleftrightarrow> k \<in> set (ms_idempotency_keys s)"

interpretation memory: state_store "\<lambda>_. True" memory_save memory_get memory_mark_intent memory_is_duplicate_intent id
  by unfold_locales
    (auto simp: memory_save_def memory_get_def memory_mark_intent_def memory_is_duplicate_intent_def update_conv')

section \<open>Rows of the SQLite store\<close>

fun asset_kind_value :: "asset_kind \<Rightarrow> string" where
  "asset_kind_value STOCK = ''STOCK''"
| "asset_kind_value ETF = ''ETF''"

fun side_value :: "order_side \<Rightarrow> string" where
  "side_value OBUY = ''BUY''"
| "side_value OSELL = ''SELL''"

fun state_value :: "order_state \<Rightarrow> string" where
  "state_value NEW = ''NEW''"
| "state_value VALIDATED = ''VALIDATED''"
| "state_value SUBMITTED = ''SUBMITTED''"
| "state_value FILLED = ''FILLED''"
| "state_value REJECTED = ''REJECTED''"
| "state_value CANCELED = ''CANCELED''"

text \<open>An enumeration called with a text returns the member with that value or raises.\<close>

definition member_of :: "('a \<Rightarrow> string) \<Rightarrow> 'a list \<Rightarrow> string \<Rightarrow> 'a res" where
  "member_of val members text =
     (case find (\<lambda>m. val m = text) members of Some m \<Rightarrow> Inr m | None \<Rightarrow> Inl (ValueError ''not a valid member''))"

definition asset_kind_of :: "string \<Rightarrow> asset_kind res" where
  "asset_kind_of = member_of asset_kind_value [STOCK, ETF]"

definition side_of :: "string \<Rightarrow> order_side res" where
  "side_of = member_of side_value [OBUY, OSELL]"

definition state_of :: "string \<Rightarrow> order_state res" where
  "state_of = member_of state_value [NEW, VALIDATED, SUBMITTED, FILLED, REJECTED, CANCELED]"

record order_row =
  row_order_id :: string
  row_intent_id :: string
  row_instrument_id :: string
  row_asset_kind :: string
  row_side :: string
  row_state :: string
  row_submitted_quantity :: pyfloat
  row_filled_quantity :: pyfloat
  row_filled_price :: "pyfloat option"
  row_reason :: string
  row_seq :: int

text \<open>\<open>float(x)\<close> of a number: an integer is rounded to binary64, a float is itself.\<close>

fun as_float :: "pyfloat \<Rightarrow> pyfloat res" where
  "as_float (Fin x) = (case to_float x of Fin y \<Rightarrow> Inr (Fin y) | _ \<Rightarrow> Inl (OverflowError ''int too large to convert to float''))"
| "as_float v = Inr v"

definition encode :: "order_state_record \<Rightarrow> int \<Rightarrow> order_row res" where
  "encode r seq =
     res_bind (as_float (or_submitted_quantity r)) (\<lambda>sub.
     res_bind (as_float (or_filled_quantity r)) (\<lambda>fil.
     Inr \<lparr>row_order_id = or_order_id r, row_intent_id = or_intent_id r, row_instrument_id = or_instrument_id r,
          row_asset_kind = asset_kind_value (or_asset_kind r), row_side = side_value (or_side r),
          row_state = state_value (or_state r), row_submitted_quantity = sub, row_filled_quantity = fil,
          row_filled_price = or_filled_price r, row_reason = or_reason r, row_seq = seq\<rparr>))"

definition sql_bind :: "order_row \<Rightarrow> order_row res" where
  "sql_bind row =
     guard (row_submitted_quantity row = NaN \<or> row_filled_quantity row = NaN) (IntegrityError ''NOT NULL constraint failed'')
       (Inr (row\<lparr>row_filled_price := (if row_filled_price row = Some NaN then None else row_filled_price row)\<rparr>))"

definition decode :: "order_row \<Rightarrow> order_state_record res" where
  "decode row =
     res_bind (asset_kind_of (row_asset_kind row)) (\<lambda>kind.
     res_bind (side_of (row_side row)) (\<lambda>sd.
     res_bind (state_of (row_state row)) (\<lambda>st.
     Inr \<lparr>or_order_id = row_order_id row, or_intent_id = row_intent_id row, or_instrument_id = row_instrument_id row,
          or_asset_kind = kind, or_side = sd, or_state = st, or_submitted_quantity = row_submitted_quantity row,
          or_filled_quantity = row_filled_quantity row, or_filled_price = row_filled_price row, or_reason = row_reason row\<rparr>)))"

section \<open>The SQLite store\<close>

record sqlite_store =
  sq_orders :: "order_row list"
  sq_history :: "order_row list"
  sq_keys :: "string list"

definition sqlite_init :: sqlite_store where
  "sqlite_init = \<lparr>sq_orders = [], sq_history = [], sq_keys = []\<rparr>"

text \<open>The transitions of \<open>_ALLOWED\<close>, and \<open>_check_transition\<close>, whose only other case is progress of a
  submitted order.\<close>

definition allowed_transition :: "order_state \<Rightarrow> order_state \<Rightarrow> bool" where
  "allowed_transition a b \<longleftrightarrow> (a, b) \<in> {(NEW, VALIDATED), (VALIDATED, SUBMITTED), (SUBMITTED, FILLED),
     (SUBMITTED, REJECTED), (SUBMITTED, CANCELED)}"

definition check_transition :: "order_state_record \<Rightarrow> order_state_record \<Rightarrow> unit res" where
  "check_transition prev nxt =
     (if allowed_transition (or_state prev) (or_state nxt) then Inr ()
      else if or_state prev = SUBMITTED \<and> or_state nxt = SUBMITTED then
        res_bind (as_float (or_filled_quantity nxt)) (\<lambda>n.
        res_bind (as_float (or_filled_quantity prev)) (\<lambda>p.
        if fle p n then Inr () else Inl (ValueError ''filled_quantity must not decrease on SUBMITTED progress'')))
      else Inl (ValueError ''illegal transition''))"

definition row_of :: "sqlite_store \<Rightarrow> string \<Rightarrow> order_row option" where
  "row_of s n = find (\<lambda>row. row_order_id row = n) (sq_orders s)"

definition next_seq :: "sqlite_store \<Rightarrow> int" where
  "next_seq s = (if sq_orders s = [] then - 1 else Max (row_seq ` set (sq_orders s))) + 1"

definition sqlite_save :: "sqlite_store \<Rightarrow> order_state_record \<Rightarrow> sqlite_store res" where
  "sqlite_save s r =
     (case row_of s (or_order_id r) of
        None \<Rightarrow>
          res_bind (encode r (next_seq s)) (\<lambda>row.
          res_bind (sql_bind row) (\<lambda>row. Inr (s\<lparr>sq_orders := sq_orders s @ [row]\<rparr>)))
      | Some existing \<Rightarrow>
          res_bind (decode existing) (\<lambda>prev.
          res_bind (check_transition prev r) (\<lambda>_.
          res_bind (encode prev (int (length (sq_history s)))) (\<lambda>old.
          res_bind (sql_bind old) (\<lambda>old.
          res_bind (encode r (row_seq existing)) (\<lambda>row.
          res_bind (sql_bind row) (\<lambda>row.
          Inr (s\<lparr>sq_history := sq_history s @ [old],
                 sq_orders := map (\<lambda>x. if row_order_id x = or_order_id r then row else x) (sq_orders s)\<rparr>))))))))"

definition sqlite_get :: "sqlite_store \<Rightarrow> string \<Rightarrow> order_state_record option res" where
  "sqlite_get s n = (case row_of s n of None \<Rightarrow> Inr None | Some row \<Rightarrow> res_bind (decode row) (\<lambda>r. Inr (Some r)))"

definition sqlite_is_duplicate_intent :: "sqlite_store \<Rightarrow> string \<Rightarrow> bool" where
  "sqlite_is_duplicate_intent s k \<longleftrightarrow> k \<in> set (sq_keys s)"

definition sqlite_mark_intent :: "sqlite_store \<Rightarrow> string \<Rightarrow> sqlite_store" where
  "sqlite_mark_intent s k = (if k \<in> set (sq_keys s) then s else s\<lparr>sq_keys := sq_keys s @ [k]\<rparr>)"

text \<open>\<open>records\<close>: the rows in sequence order whose order id contains the session's text.\<close>

definition sqlite_records :: "sqlite_store \<Rightarrow> string \<Rightarrow> order_state_record list res" where
  "sqlite_records s token =
     res_bind (mapM decode (sort_key row_seq (sq_orders s))) (\<lambda>rs. Inr (filter (\<lambda>r. sublist token (or_order_id r)) rs))"

definition sqlite_order_history :: "sqlite_store \<Rightarrow> string \<Rightarrow> order_state_record list res" where
  "sqlite_order_history s n = mapM decode (filter (\<lambda>row. row_order_id row = n) (sq_history s))"

end
