(* ===== verification/Submit.thy ===== *)
theory Submit
  imports StateStore "HOL-Library.Char_ord" "HOL-Library.List_Lexorder" "HOL-Library.Product_Lexorder"
begin

text \<open>
  The submission of approved intents (\<open>src/execution/application\<close>): the intent validator, the readiness
  gate, the sizing of an order from a target position and the batch loop \<open>submit_intents\<close>, with the paper
  broker and the constant price provider (\<open>adapters/paper_broker.py\<close>).

  The ports are the fields of \<open>ports\<close>: functions on the state of the store and of the broker. The loop
  returns that state next to its result, because an intent that raises leaves behind what the earlier
  ones of the batch have already done.
\<close>

section \<open>Ports and settings\<close>

record execution_settings =
  es_default_mode :: string
  es_session_open :: string
  es_session_close :: string
  es_version :: string

definition DEFAULT_EXECUTION :: execution_settings where
  "DEFAULT_EXECUTION = \<lparr>es_default_mode = ''paper'', es_session_open = ''09:00'', es_session_close = ''15:30'', es_version = ''v1''\<rparr>"

record ('s, 'b) ports =
  pt_submit :: "'b \<Rightarrow> order_request \<Rightarrow> 'b \<times> order_state_record res"
  pt_save :: "'s \<Rightarrow> order_state_record \<Rightarrow> 's res"
  pt_mark_intent :: "'s \<Rightarrow> string \<Rightarrow> 's"
  pt_is_duplicate_intent :: "'s \<Rightarrow> string \<Rightarrow> bool"
  pt_price_of :: "string \<Rightarrow> pyfloat res"

section \<open>The readiness gate\<close>

record submission_request =
  sr_intent :: trade_intent
  sr_mode :: string
  sr_account :: string
  sr_submitted_at :: "py_datetime option"

record readiness_evidence =
  re_broker_reconciliation :: bool
  re_order_state_transitions :: bool
  re_paper_acceptance :: bool
  re_idempotency_verified :: bool
  re_notes :: "string list"

definition no_evidence :: readiness_evidence where
  "no_evidence = \<lparr>re_broker_reconciliation = False, re_order_state_transitions = False, re_paper_acceptance = False,
     re_idempotency_verified = False, re_notes = []\<rparr>"

definition complete :: "readiness_evidence \<Rightarrow> bool" where
  "complete e = list_all (\<lambda>b. b) [re_broker_reconciliation e, re_order_state_transitions e, re_paper_acceptance e,
     re_idempotency_verified e]"

record submission_gate =
  sg_readiness :: readiness_evidence
  sg_processed_keys :: "string list"

definition submission_gate_init :: "readiness_evidence option \<Rightarrow> submission_gate" where
  "submission_gate_init readiness =
     \<lparr>sg_readiness = (case readiness of None \<Rightarrow> no_evidence | Some e \<Rightarrow> e), sg_processed_keys = []\<rparr>"

definition authorize :: "submission_gate \<Rightarrow> submission_request \<Rightarrow> submission_gate res" where
  "authorize g request =
     (let key = ti_idempotency_key (sr_intent request) in
      guard (sr_mode request \<notin> {''paper'', ''live''}) (ValueError ''invalid mode'') (
      guard (key \<in> set (sg_processed_keys g)) (DuplicateIntentError ''duplicate intent for idempotency key'') (
      guard (sr_mode request = ''live'' \<and> \<not> complete (sg_readiness g))
        (LiveExecutionNotReadyError ''live submission disabled: readiness gate not satisfied'')
        (Inr (g\<lparr>sg_processed_keys := List.insert key (sg_processed_keys g)\<rparr>)))))"

section \<open>Validation\<close>

text \<open>\<open>astimezone\<close> reads a naive datetime in the system's zone, a parameter.\<close>

fun instant_of :: "(int \<Rightarrow> int) \<Rightarrow> py_datetime \<Rightarrow> int" where
  "instant_of system_utc (Aware t) = t"
| "instant_of system_utc (Naive t) = system_utc t"

definition validate :: "zone \<Rightarrow> (int \<Rightarrow> int) \<Rightarrow> (string \<Rightarrow> bool) \<Rightarrow> trade_intent \<Rightarrow> unit res" where
  "validate tz system_utc is_duplicate intent =
     res_bind (dt_less (ti_execution_time intent) (ti_decision_time intent)) (\<lambda>late.
     guard late (ValueError ''intent decision_time after execution_time'') (
     guard (fless (ti_target_value intent) (Fin 0)) (ValueError ''intent target_value must be non-negative'') (
     guard (ti_account_snapshot_id intent = []) (ValueError ''intent account_snapshot_id must be non-empty'') (
     guard (\<not> in_session (KRX_DAILY tz) (instant_of system_utc (ti_execution_time intent)))
       (ValueError ''execution outside session'') (
     guard (is_duplicate (ti_idempotency_key intent)) (ValueError ''duplicate intent'') (Inr ()))))))"

section \<open>Sizing an order\<close>

text \<open>\<open>int(target_value / price / lot_size) * lot_size\<close>; dividing a float by an integer converts it first.\<close>

definition floor_to_lot :: "pyfloat \<Rightarrow> pyfloat \<Rightarrow> int \<Rightarrow> int res" where
  "floor_to_lot target_value price lot_size =
     res_bind (fdiv target_value price) (\<lambda>shares.
     res_bind (float_of_int lot_size) (\<lambda>lot.
     res_bind (fdiv shares lot) (\<lambda>lots.
     res_bind (int_of_float lots) (\<lambda>n. Inr (n * lot_size)))))"

definition planned_quantity :: "trade_intent \<Rightarrow> pyfloat \<Rightarrow> int \<Rightarrow> int res" where
  "planned_quantity intent reference_price lot_size =
     (case ti_target_quantity intent of
        Some tq \<Rightarrow>
          guard (tq < 0) (ValueError ''target_quantity must be non-negative'') (
          guard (tq mod lot_size \<noteq> 0) (ValueError ''target_quantity not a multiple of lot_size'') (Inr tq))
      | None \<Rightarrow> floor_to_lot (ti_target_value intent) reference_price lot_size)"

definition plan_order_request ::
  "trade_intent \<Rightarrow> string \<Rightarrow> py_datetime \<Rightarrow> pyfloat \<Rightarrow> int \<Rightarrow> int \<Rightarrow> order_request option res" where
  "plan_order_request intent order_id request_time reference_price current_quantity lot_size =
     guard (ti_account_snapshot_id intent = []) (ValueError ''stale intent: account_snapshot_id is missing'') (
     guard (fle reference_price (Fin 0)) (ValueError ''reference_price must be positive'') (
     guard (lot_size < 1) (ValueError ''lot_size must be positive'') (
     guard (current_quantity < 0) (ValueError ''current_quantity must be non-negative'') (
     res_bind (planned_quantity intent reference_price lot_size) (\<lambda>target_quantity.
     let delta = target_quantity - current_quantity; sd = (if 0 < delta then OBUY else OSELL) in
     if delta = 0 then Inr None
     else
       guard (sd = OSELL \<and> - delta > current_quantity) (ValueError ''quantity shortfall: cannot sell more than broker holdings'') (
       res_bind (order_request_init
         \<lparr>rq_order_id = order_id, rq_asset_kind = ti_asset_kind intent, rq_instrument_id = ti_instrument_id intent,
          rq_side = sd, rq_quantity = \<bar>delta\<bar>, rq_price = Some reference_price, rq_request_time = request_time,
          rq_idempotency_key = ti_idempotency_key intent, rq_intent_id = ti_intent_id intent\<rparr>) (\<lambda>order.
       Inr (Some order))))))))"

section \<open>Submitting a batch\<close>

record execution_context =
  ec_settings :: execution_settings
  ec_account :: string
  ec_now :: py_datetime
  ec_positions :: "portfolio_snapshot option"
  ec_instruments :: "(string, instrument) dict"
  ec_zone :: zone
  ec_system_utc :: "int \<Rightarrow> int"

record ('s, 'b) execution_state =
  xs_gate :: submission_gate
  xs_broker :: 'b
  xs_store :: 's

definition context_positions :: "execution_context \<Rightarrow> portfolio_snapshot" where
  "context_positions ctx =
     (case ec_positions ctx of Some p \<Rightarrow> p
      | None \<Rightarrow> \<lparr>ps_account_snapshot_id = ''unknown'', ps_as_of = ec_now ctx, ps_settled_cash = Fin 0,
                 ps_unsettled_cash = Fin 0, ps_positions = [], ps_open_order_ids = []\<rparr>)"

definition lot_size_of :: "execution_context \<Rightarrow> string \<Rightarrow> int" where
  "lot_size_of ctx n = (case map_of (ec_instruments ctx) n of Some i \<Rightarrow> in_lot_size i | None \<Rightarrow> 1)"

definition submission_order ::
  "(string \<Rightarrow> pyfloat res) \<Rightarrow> execution_context \<Rightarrow> trade_intent \<Rightarrow> (int \<times> string \<times> string) res" where
  "submission_order price_of ctx intent =
     (let n = ti_instrument_id intent in
      res_bind (price_of n) (\<lambda>price.
      res_bind (case ti_target_quantity intent of
          Some tq \<Rightarrow> Inr tq
        | None \<Rightarrow> floor_to_lot (ti_target_value intent) price (lot_size_of ctx n)) (\<lambda>target_quantity.
      res_bind (quantity_of (context_positions ctx) n) (\<lambda>held.
      let delta = target_quantity - held in
      Inr (if delta < 0 then 0 else if 0 < delta then 1 else 2, n, ti_intent_id intent)))))"

text \<open>One turn of the loop; \<open>Inr None\<close> is the \<open>continue\<close> of an intent that is at its target.\<close>

definition submit_one ::
  "('s, 'b) ports \<Rightarrow> execution_context \<Rightarrow> ('s, 'b) execution_state \<Rightarrow> trade_intent \<Rightarrow>
   ('s, 'b) execution_state \<times> order_state_record option res" where
  "submit_one p ctx st intent =
     (let n = ti_instrument_id intent; key = ti_idempotency_key intent in
      case res_bind (validate (ec_zone ctx) (ec_system_utc ctx) (pt_is_duplicate_intent p (xs_store st)) intent) (\<lambda>_.
           authorize (xs_gate st) \<lparr>sr_intent = intent, sr_mode = es_default_mode (ec_settings ctx),
             sr_account = ec_account ctx, sr_submitted_at = None\<rparr>) of
        Inl e \<Rightarrow> (st, Inl e)
      | Inr gate \<Rightarrow>
          let st = st\<lparr>xs_gate := gate\<rparr> in
          case res_bind (pt_price_of p n) (\<lambda>price.
               res_bind (quantity_of (context_positions ctx) n) (\<lambda>held.
               plan_order_request intent (''order:'' @ ti_intent_id intent) (ec_now ctx) price held (lot_size_of ctx n))) of
            Inl e \<Rightarrow> (st, Inl e)
          | Inr None \<Rightarrow> (st, Inr None)
          | Inr (Some order) \<Rightarrow>
              case pt_submit p (xs_broker st) order of
                (b, Inl e) \<Rightarrow> (st\<lparr>xs_broker := b\<rparr>, Inl e)
              | (b, Inr r) \<Rightarrow>
                  let st = st\<lparr>xs_broker := b\<rparr> in
                  case pt_save p (xs_store st) r of
                    Inl e \<Rightarrow> (st, Inl e)
                  | Inr s \<Rightarrow> (st\<lparr>xs_store := pt_mark_intent p s key\<rparr>, Inr (Some r)))"

fun submit_loop ::
  "('s, 'b) ports \<Rightarrow> execution_context \<Rightarrow> ('s, 'b) execution_state \<Rightarrow> order_state_record list \<Rightarrow> trade_intent list \<Rightarrow>
   ('s, 'b) execution_state \<times> order_state_record list res" where
  "submit_loop p ctx st submitted [] = (st, Inr submitted)"
| "submit_loop p ctx st submitted (intent # rest) =
     (case submit_one p ctx st intent of
        (st', Inl e) \<Rightarrow> (st', Inl e)
      | (st', Inr None) \<Rightarrow> submit_loop p ctx st' submitted rest
      | (st', Inr (Some r)) \<Rightarrow> submit_loop p ctx st' (submitted @ [r]) rest)"

text \<open>\<open>sorted\<close> computes every key before it orders the batch.\<close>

definition sorted_intents :: "(string \<Rightarrow> pyfloat res) \<Rightarrow> execution_context \<Rightarrow> trade_intent list \<Rightarrow> trade_intent list res" where
  "sorted_intents price_of ctx intents =
     res_bind (mapM (submission_order price_of ctx) intents) (\<lambda>keys. Inr (map snd (sort_key fst (zip keys intents))))"

definition submit_intents ::
  "('s, 'b) ports \<Rightarrow> execution_context \<Rightarrow> ('s, 'b) execution_state \<Rightarrow> trade_intent list \<Rightarrow>
   ('s, 'b) execution_state \<times> order_state_record list res" where
  "submit_intents p ctx st intents =
     (case sorted_intents (pt_price_of p) ctx intents of
        Inl e \<Rightarrow> (st, Inl e)
      | Inr ordered \<Rightarrow> submit_loop p ctx st [] ordered)"

section \<open>The paper broker\<close>

record paper_broker =
  pb_account :: string
  pb_submitted :: "order_state_record list"

definition paper_broker_init :: "string \<Rightarrow> paper_broker" where
  "paper_broker_init acct = \<lparr>pb_account = acct, pb_submitted = []\<rparr>"

definition paper_submit :: "paper_broker \<Rightarrow> order_request \<Rightarrow> paper_broker \<times> order_state_record res" where
  "paper_submit b request =
     (let r = \<lparr>or_order_id = rq_order_id request, or_intent_id = rq_intent_id request,
               or_instrument_id = rq_instrument_id request, or_asset_kind = rq_asset_kind request,
               or_side = rq_side request, or_state = FILLED,
               or_submitted_quantity = Fin (of_int (rq_quantity request)), or_filled_quantity = Fin (of_int (rq_quantity request)),
               or_filled_price = Some (case rq_price request of Some x \<Rightarrow> x | None \<Rightarrow> Fin 1), or_reason = ''paper-fill''\<rparr>
      in (b\<lparr>pb_submitted := pb_submitted b @ [r]\<rparr>, Inr r))"

definition paper_reconcile :: "paper_broker \<Rightarrow> string \<Rightarrow> order_state_record list" where
  "paper_reconcile b acct = (if acct \<noteq> pb_account b then [] else pb_submitted b)"

definition constant_price_provider_init :: "pyfloat \<Rightarrow> pyfloat res" where
  "constant_price_provider_init price = guard (fle price (Fin 0)) (ValueError ''price must be positive'') (Inr price)"

definition constant_price_of :: "pyfloat \<Rightarrow> string \<Rightarrow> pyfloat res" where
  "constant_price_of price n = Inr price"

end
