(* ===== verification/IsoText.thy ===== *)
theory IsoText
  imports PyText
begin

text \<open>
  \<open>date.isoformat()\<close>, which the execution layer puts into intent and order ids and the SQLite store looks
  for in them, and its inverse \<open>fromisoformat\<close> on the texts it writes.
\<close>

definition digit_char :: "int \<Rightarrow> char" where
  "digit_char n = char_of (nat (n + 48))"

fun pad_digits :: "nat \<Rightarrow> int \<Rightarrow> string" where
  "pad_digits 0 n = []"
| "pad_digits (Suc k) n = pad_digits k (n div 10) @ [digit_char (n mod 10)]"

definition isoformat :: "date \<Rightarrow> string" where
  "isoformat d = pad_digits 4 (year d) @ ''-'' @ pad_digits 2 (month d) @ ''-'' @ pad_digits 2 (day d)"

lemma digit_char_val:
  assumes "0 \<le> n" "n < 10"
  shows "is_digit (digit_char n)" "digit_val (digit_char n) = n"
proof -
  have "of_char (digit_char n) = (nat (n + 48) :: nat)" using assms by (simp add: digit_char_def)
  moreover have "of_char (digit_char n) = (n + 48 :: int)"
    using calculation assms by (metis of_nat_of_char add_nonneg_nonneg int_nat_eq zero_le_numeral)
  ultimately show "is_digit (digit_char n)" "digit_val (digit_char n) = n"
    using assms by (simp_all add: is_digit_def digit_val_def nat_le_iff le_nat_iff)
qed

lemma length_pad_digits [simp]: "length (pad_digits k n) = k"
  by (induction k arbitrary: n) auto

lemma pad_digits_digits: "list_all is_digit (pad_digits k n)"
  by (induction k arbitrary: n) (simp_all add: digit_char_val)

lemma pad_digits_val: "0 \<le> n \<Longrightarrow> n < 10 ^ k \<Longrightarrow> digits_val (pad_digits k n) = n"
proof (induction k arbitrary: n)
  case 0
  then show ?case by (simp add: digits_val_def)
next
  case (Suc k)
  then have "digits_val (pad_digits k (n div 10)) = n div 10" by (simp add: div_less_iff_less_mult mult.commute)
  then show ?case by (simp add: digits_val_def digit_char_val)
qed

lemma take_digits_pad:
  "0 \<le> n \<Longrightarrow> n < 10 ^ k \<Longrightarrow> take_digits k (pad_digits k n @ rest) = Some (n, rest)"
  by (simp add: take_digits_def pad_digits_digits pad_digits_val)

lemma is_digit_not_W: "is_digit c \<Longrightarrow> c \<noteq> CHR ''W''"
  by (auto simp: is_digit_def)

lemma pad_digits_no_W: "take 1 (pad_digits (Suc k) n @ rest) \<noteq> ''W''"
proof -
  obtain c cs where c: "pad_digits (Suc k) n = c # cs" by (metis Zero_not_Suc length_pad_digits list.exhaust list.size(3))
  then have "is_digit c" using pad_digits_digits [of "Suc k" n] by simp
  then have "c \<noteq> CHR ''W''" by (rule is_digit_not_W)
  with c show ?thesis by simp
qed

lemma days_in_month_le: "days_in_month y m \<le> 31"
  using days_in_month_bounds by blast

lemma fromisoformat_isoformat:
  assumes "valid_date d"
  shows "fromisoformat (isoformat d) = Inr d"
proof -
  have b: "0 \<le> year d" "year d < 10 ^ 4" "0 \<le> month d" "month d < 10 ^ 2" "0 \<le> day d" "day d < 10 ^ 2"
    using assms days_in_month_le [of "year d" "month d"] by (simp_all add: valid_date_def)
  have "length (isoformat d) = 10" by (simp add: isoformat_def del: pad_digits.simps)
  moreover have "take_digits 4 (isoformat d) = Some (year d, ''-'' @ pad_digits 2 (month d) @ ''-'' @ pad_digits 2 (day d))"
    unfolding isoformat_def using b by (intro take_digits_pad)
  moreover have "iso_month_rest (year d) True (pad_digits 2 (month d) @ ''-'' @ pad_digits 2 (day d)) = Some d"
    using take_digits_pad [OF b(3,4)] take_digits_pad [OF b(5,6), of "[]"] assms
    by (simp add: iso_month_rest_def take_dash_def mk_date_def)
  moreover have "take 1 (pad_digits 2 (month d) @ ''-'' @ pad_digits 2 (day d)) \<noteq> ''W''"
    using pad_digits_no_W [of 1 "month d"] unfolding numeral_2_eq_2 by simp
  ultimately show ?thesis by (simp add: fromisoformat_def Let_def)
qed

lemma isoformat_inj: "valid_date d \<Longrightarrow> valid_date e \<Longrightarrow> isoformat d = isoformat e \<Longrightarrow> d = e"
  by (metis fromisoformat_isoformat sum.inject(2))

text \<open>\<open>str(n)\<close> of an integer.\<close>

fun str_nat :: "nat \<Rightarrow> string" where
  "str_nat n = (if n < 10 then [digit_char (int n)] else str_nat (n div 10) @ [digit_char (int (n mod 10))])"

declare str_nat.simps [simp del]

definition str_int :: "int \<Rightarrow> string" where
  "str_int n = (if n < 0 then ''-'' else []) @ str_nat (nat \<bar>n\<bar>)"

end
