(* ===== verification/PlanOrders.thy ===== *)
theory PlanOrders
  imports Submit Engine IsoText
begin

text \<open>
  Planning the next open from a sealed decision (\<open>src/execution/application/plan_orders.py\<close>) and the view of
  the decision it consumes (\<open>domain/decision.py\<close>). Arguments have the types their annotations give, so the
  \<open>isinstance\<close> checks of the source pass; prices and the net asset value are integers, weights, the cash
  buffer and the band are floats. \<open>at_wall\<close> is the instant of a wall-clock time in Asia/Seoul, zone data
  that is not part of the repository.
\<close>

record target_decision =
  td_execution_session :: date
  td_sealed_at :: py_datetime
  td_models_id :: string
  td_targets :: "(string, pyfloat) dict"
  td_reference :: "(string, pyfloat) dict"
  td_hash :: string

definition session_open_instant :: "(int \<Rightarrow> int) \<Rightarrow> date \<Rightarrow> int" where
  "session_open_instant at_wall d = at_wall ((toordinal d - 1) * day_us + 9 * 3600000000)"

fun add_kinds :: "(string, asset_kind) dict \<Rightarrow> position list \<Rightarrow> (string, asset_kind) dict" where
  "add_kinds kinds [] = kinds"
| "add_kinds kinds (q # qs) = add_kinds (AList.update (position_id q) (in_asset_kind (po_instrument q)) kinds) qs"

text \<open>The integer price must be given, positive, and equal as a number to the sealed reference.\<close>

definition sealed_price :: "target_decision \<Rightarrow> (string, int) dict \<Rightarrow> string \<Rightarrow> int res" where
  "sealed_price decision reference_prices n =
     (case map_of reference_prices n of
        None \<Rightarrow> Inl (ValueError ''missing reference price'')
      | Some price \<Rightarrow>
          guard (price \<le> 0) (ValueError ''invalid reference price'') (
          guard (map_of (td_reference decision) n \<noteq> Some (Fin (of_int price)))
            (ValueError ''reference price differs from sealed decision'') (Inr price)))"

definition target_shares :: "target_decision \<Rightarrow> int \<Rightarrow> pyfloat \<Rightarrow> int \<Rightarrow> string \<Rightarrow> (pyfloat \<times> int) res" where
  "target_shares decision nav_krw scale price n =
     (case map_of (td_targets decision) n of
        None \<Rightarrow> Inr (Fin 0, 0)
      | Some weight \<Rightarrow>
          guard (\<not> is_finite weight) (ValueError ''invalid target weight'') (
          guard (fless weight (Fin 0)) (ValueError ''negative target weight'') (
          res_bind (float_of_int nav_krw) (\<lambda>nav.
          res_bind (float_of_int price) (\<lambda>p.
          res_bind (fdiv (fmul (fmul weight nav) scale) p) (\<lambda>x.
          res_bind (math_floor x) (\<lambda>q. Inr (weight, q))))))))"

record plan_context =
  pc_decision :: target_decision
  pc_snapshot :: portfolio_snapshot
  pc_nav_krw :: int
  pc_reference_prices :: "(string, int) dict"
  pc_scale :: pyfloat
  pc_band :: pyfloat
  pc_strategy_id :: string
  pc_execution_time :: py_datetime

text \<open>The loop body; \<open>None\<close> is a \<open>continue\<close>.\<close>

definition plan_one :: "plan_context \<Rightarrow> string \<Rightarrow> trade_intent option res" where
  "plan_one c n =
     (let decision = pc_decision c; session = td_execution_session decision in
      res_bind (sealed_price decision (pc_reference_prices c) n) (\<lambda>price.
      res_bind (quantity_of (pc_snapshot c) n) (\<lambda>held.
      res_bind (target_shares decision (pc_nav_krw c) (pc_scale c) price n) (\<lambda>(weight, target_quantity).
      let delta = target_quantity - held in
      if delta = 0 then Inr None
      else
        res_bind (float_of_int price) (\<lambda>p.
        res_bind (inside_band (pc_band c) held weight target_quantity delta p) (\<lambda>skip.
        if skip then Inr None
        else
          res_bind (float_of_int (target_quantity * price)) (\<lambda>target_value.
          res_bind (trade_intent_init
            \<lparr>ti_intent_id = isoformat session @ '':'' @ n,
             ti_asset_kind = dict_get (add_kinds [] (ps_positions (pc_snapshot c))) n STOCK, ti_instrument_id = n,
             ti_target_value = target_value, ti_decision_time = td_sealed_at decision,
             ti_execution_time = pc_execution_time c, ti_strategy_id = pc_strategy_id c, ti_reason = ''sealed-target'',
             ti_idempotency_key = take 16 (td_hash decision) @ '':'' @ n,
             ti_account_snapshot_id = ps_account_snapshot_id (pc_snapshot c), ti_reference_price_guard_bps = None,
             ti_target_quantity = Some target_quantity\<rparr>) (\<lambda>intent. Inr (Some intent)))))))))"

definition planned_names :: "target_decision \<Rightarrow> portfolio_snapshot \<Rightarrow> string list" where
  "planned_names decision snapshot = sort (remdups (dict_keys (td_targets decision) @ map position_id (ps_positions snapshot)))"

definition plan_intents ::
  "(int \<Rightarrow> int) \<Rightarrow> target_decision \<Rightarrow> portfolio_snapshot \<Rightarrow> int \<Rightarrow> (string, int) dict \<Rightarrow> pyfloat \<Rightarrow> pyfloat \<Rightarrow> string \<Rightarrow>
   py_datetime option \<Rightarrow> trade_intent list res" where
  "plan_intents at_wall decision snapshot nav_krw reference_prices buffer rebalance_band strategy_id planning_time =
     guard (nav_krw \<le> 0) (ValueError ''nav_krw must be a positive int'') (
     guard (\<not> (fle (Fin 0) buffer \<and> fless buffer (Fin 1))) (ValueError ''cash_buffer must be in [0, 1)'') (
     guard (\<not> is_finite rebalance_band \<or> fless rebalance_band (Fin 0)) (ValueError ''rebalance_band must be non-negative'') (
     guard (strategy_id = []) (ValueError ''strategy_id must be non-empty'') (
     let observed_at = (case planning_time of None \<Rightarrow> td_sealed_at decision | Some t \<Rightarrow> t) in
     guard (\<not> is_aware observed_at \<or> \<not> is_aware (td_sealed_at decision))
       (ValueError ''planning and decision times must be timezone-aware'') (
     res_bind (dt_less observed_at (td_sealed_at decision)) (\<lambda>early.
     guard early (ValueError ''planning_time must not precede the sealed decision'') (
     res_bind (validate_as_of snapshot observed_at) (\<lambda>_.
     let opens = Aware (session_open_instant at_wall (td_execution_session decision)) in
     res_bind (dt_less opens observed_at) (\<lambda>late.
     guard late (ValueError ''planning_time must not follow execution_time'') (
     res_bind (mapM (plan_one \<lparr>pc_decision = decision, pc_snapshot = snapshot, pc_nav_krw = nav_krw,
         pc_reference_prices = reference_prices, pc_scale = fsub (Fin 1) buffer, pc_band = rebalance_band,
         pc_strategy_id = strategy_id, pc_execution_time = opens\<rparr>) (planned_names decision snapshot)) (\<lambda>found.
     Inr (concat (map (\<lambda>x. case x of None \<Rightarrow> [] | Some i \<Rightarrow> [i]) found)))))))))))))"

end
