(* ===== verification/Rehearsal.thy ===== *)
theory Rehearsal
  imports PlanOrders
begin

text \<open>
  The open rehearsal against the mock account and the readiness evidence drawn from its reports
  (\<open>src/execution/application/rehearsal.py\<close>). The broker and the store are ports; both states are returned
  next to the result. The evidence file is the JSON value the source serialises.
\<close>

section \<open>Reports\<close>

record rehearsal_report =
  rr_session :: date
  rr_intents :: int
  rr_submitted :: int
  rr_rejected :: int
  rr_duplicates_blocked :: int
  rr_reconciled :: bool
  rr_position_mismatches :: "string list"
  rr_terminal_states_verified :: bool
  rr_duplicate_orders_absent :: bool
  rr_position_book_verified :: bool

record 'b mock_broker =
  mb_account :: "'b \<Rightarrow> string"
  mb_submit :: "'b \<Rightarrow> order_request \<Rightarrow> 'b \<times> order_state_record res"
  mb_snapshot :: "'b \<Rightarrow> py_datetime \<Rightarrow> 'b \<times> portfolio_snapshot res"
  mb_reconcile :: "'b \<Rightarrow> string \<Rightarrow> 'b \<times> order_state_record list res"
  mb_order_states :: "'b \<Rightarrow> date \<Rightarrow> 'b \<times> order_state_record list res"

record 's store_port =
  sp_save :: "'s \<Rightarrow> order_state_record \<Rightarrow> 's res"
  sp_mark_intent :: "'s \<Rightarrow> string \<Rightarrow> 's"
  sp_is_duplicate_intent :: "'s \<Rightarrow> string \<Rightarrow> bool"
  sp_records :: "'s \<Rightarrow> date \<Rightarrow> order_state_record list res"

definition reference_price_of :: "(string, pyfloat) dict \<Rightarrow> string \<Rightarrow> pyfloat res" where
  "reference_price_of prices n =
     (case map_of prices n of None \<Rightarrow> Inl (ValueError ''missing reference price'')
      | Some price \<Rightarrow> guard (fle price (Fin 0)) (ValueError ''invalid reference price'') (Inr price))"

definition in_entry_window :: "zone \<Rightarrow> py_datetime \<Rightarrow> date \<Rightarrow> bool" where
  "in_entry_window tz now session =
     (case now of Naive _ \<Rightarrow> False
      | Aware t \<Rightarrow> local_date tz t = session \<and>
          (let minutes = local_time tz t div 60000000 in 8 * 60 + 30 \<le> minutes \<and> minutes \<le> 8 * 60 + 58))"

section \<open>The rehearsal\<close>

fun quantities :: "(string, int) dict \<Rightarrow> position list \<Rightarrow> (string, int) dict res" where
  "quantities d [] = Inr d"
| "quantities d (q # qs) = res_bind (int_of_float (po_quantity q)) (\<lambda>n. quantities (AList.update (position_id q) n d) qs)"

fun imply :: "(string, int) dict \<Rightarrow> order_state_record list \<Rightarrow> (string, int) dict res" where
  "imply d [] = Inr d"
| "imply d (r # rs) =
     res_bind (as_float (or_submitted_quantity r)) (\<lambda>x.
     res_bind (int_of_float x) (\<lambda>qty.
     if or_state r = REJECTED then imply d rs
     else
       let n = or_instrument_id r; old = dict_get d n 0 in
       imply (AList.update n (if or_side r = OBUY then old + qty else old - qty) d) rs))"

definition mismatches :: "(string, int) dict \<Rightarrow> (string, int) dict \<Rightarrow> string list" where
  "mismatches after implied =
     sort (filter (\<lambda>n. dict_get after n 0 \<noteq> dict_get implied n 0) (remdups (dict_keys after @ dict_keys implied)))"

definition rehearsal_ports :: "'b mock_broker \<Rightarrow> 's store_port \<Rightarrow> (string, pyfloat) dict \<Rightarrow> ('s, 'b) ports" where
  "rehearsal_ports mb sp prices = \<lparr>pt_submit = mb_submit mb, pt_save = sp_save sp, pt_mark_intent = sp_mark_intent sp,
     pt_is_duplicate_intent = sp_is_duplicate_intent sp, pt_price_of = reference_price_of prices\<rparr>"

text \<open>The first half, up to the intents that are not yet in the store.\<close>

definition plan_rehearsal ::
  "(int \<Rightarrow> int) \<Rightarrow> target_decision \<Rightarrow> portfolio_snapshot \<Rightarrow> int \<Rightarrow> pyfloat \<Rightarrow> pyfloat \<Rightarrow> py_datetime \<Rightarrow> trade_intent list res" where
  "plan_rehearsal at_wall decision before nav_krw buffer band now =
     res_bind (mapM (\<lambda>(n, x). res_bind (int_of_float x) (\<lambda>i. Inr (n, i))) (td_reference decision)) (\<lambda>reference_ints.
     plan_intents at_wall decision before nav_krw reference_ints buffer band (td_models_id decision) (Some now))"

definition rehearsal_context :: "zone \<Rightarrow> (int \<Rightarrow> int) \<Rightarrow> string \<Rightarrow> py_datetime \<Rightarrow> portfolio_snapshot \<Rightarrow> execution_context" where
  "rehearsal_context tz system_utc account now before =
     \<lparr>ec_settings = DEFAULT_EXECUTION\<lparr>es_default_mode := ''paper''\<rparr>, ec_account = account, ec_now = now, ec_positions = Some before,
      ec_instruments = [], ec_zone = tz, ec_system_utc = system_utc\<rparr>"

definition submit_fresh ::
  "('s, 'b) ports \<Rightarrow> execution_context \<Rightarrow> 'b \<Rightarrow> 's \<Rightarrow> trade_intent list \<Rightarrow> ('s, 'b) execution_state \<times> order_state_record list res" where
  "submit_fresh p ctx b s fresh =
     (let st = \<lparr>xs_gate = submission_gate_init None, xs_broker = b, xs_store = s\<rparr> in
      if fresh = [] then (st, Inr []) else submit_intents p ctx st fresh)"

text \<open>The second half: reconcile, look again, and compare.\<close>

definition close_rehearsal ::
  "'b mock_broker \<Rightarrow> date \<Rightarrow> py_datetime \<Rightarrow> portfolio_snapshot \<Rightarrow> int \<Rightarrow> int \<Rightarrow> order_state_record list \<Rightarrow> 'b \<Rightarrow>
   'b \<times> rehearsal_report res" where
  "close_rehearsal mb session now before planned blocked records b =
     (case mb_reconcile mb b (mb_account mb b) of (b, answer) \<Rightarrow>
        case (case answer of Inr _ \<Rightarrow> Inr True | Inl (NotImplementedError _) \<Rightarrow> Inr False | Inl e \<Rightarrow> Inl e) of
          Inl e \<Rightarrow> (b, Inl e)
        | Inr reconciled \<Rightarrow>
            case mb_snapshot mb b now of (b, snap) \<Rightarrow>
              (b, res_bind snap (\<lambda>after_snapshot.
                  res_bind (quantities [] (ps_positions before)) (\<lambda>before_qty.
                  res_bind (quantities [] (ps_positions after_snapshot)) (\<lambda>after_qty.
                  res_bind (imply before_qty records) (\<lambda>implied.
                  Inr \<lparr>rr_session = session, rr_intents = planned,
                       rr_submitted = int (length (filter (\<lambda>r. or_state r \<noteq> REJECTED) records)),
                       rr_rejected = int (length (filter (\<lambda>r. or_state r = REJECTED) records)),
                       rr_duplicates_blocked = blocked, rr_reconciled = reconciled,
                       rr_position_mismatches = mismatches after_qty implied, rr_terminal_states_verified = False,
                       rr_duplicate_orders_absent = False, rr_position_book_verified = False\<rparr>))))))"

definition rehearse_open ::
  "zone \<Rightarrow> (int \<Rightarrow> int) \<Rightarrow> (int \<Rightarrow> int) \<Rightarrow> 'b mock_broker \<Rightarrow> 's store_port \<Rightarrow> target_decision \<Rightarrow> int \<Rightarrow> pyfloat \<Rightarrow> pyfloat \<Rightarrow>
   py_datetime \<Rightarrow> 'b \<times> 's \<Rightarrow> ('b \<times> 's) \<times> rehearsal_report res" where
  "rehearse_open tz at_wall system_utc mb sp decision nav_krw buffer band now st =
     (case st of (b, s) \<Rightarrow>
      if \<not> in_entry_window tz now (td_execution_session decision)
      then ((b, s), Inl (ValueError ''rehearsal runs only between 08:30 and 08:58 Asia/Seoul on the execution session''))
      else case mb_snapshot mb b now of
          (b, Inl e) \<Rightarrow> ((b, s), Inl e)
        | (b, Inr before) \<Rightarrow>
            case plan_rehearsal at_wall decision before nav_krw buffer band now of
              Inl e \<Rightarrow> ((b, s), Inl e)
            | Inr intents \<Rightarrow>
                let fresh = filter (\<lambda>i. \<not> sp_is_duplicate_intent sp s (ti_idempotency_key i)) intents;
                    blocked = int (length intents) - int (length fresh) in
                case submit_fresh (rehearsal_ports mb sp (td_reference decision))
                       (rehearsal_context tz system_utc (mb_account mb b) now before) b s fresh of
                  (st', Inl e) \<Rightarrow> ((xs_broker st', xs_store st'), Inl e)
                | (st', Inr records) \<Rightarrow>
                    case close_rehearsal mb (td_execution_session decision) now before (int (length intents)) blocked records
                           (xs_broker st') of
                      (b, result) \<Rightarrow> ((b, xs_store st'), result))"

section \<open>Terminal states\<close>

fun state_table :: "(string, order_state) dict \<Rightarrow> order_state_record list \<Rightarrow> (string, order_state) dict" where
  "state_table d [] = d"
| "state_table d (r # rs) = state_table (AList.update (or_order_id r) (or_state r) d) rs"

definition TERMINAL_STATES :: "order_state list" where
  "TERMINAL_STATES = [FILLED, CANCELED, REJECTED]"

definition verify_terminal_states :: "'b mock_broker \<Rightarrow> 's store_port \<Rightarrow> date \<Rightarrow> 'b \<Rightarrow> 's \<Rightarrow> 'b \<times> bool res" where
  "verify_terminal_states mb sp session b s =
     (case sp_records sp s session of Inl e \<Rightarrow> (b, Inl e)
      | Inr recs \<Rightarrow>
          let ours = filter (\<lambda>r. or_state r \<noteq> REJECTED) recs in
          if ours = [] then (b, Inr False)
          else case mb_order_states mb b session of (b, answer) \<Rightarrow>
            (b, res_bind answer (\<lambda>states.
               let table = state_table [] states in
               Inr (list_all (\<lambda>r. case map_of table (or_reason r) of None \<Rightarrow> False | Some x \<Rightarrow> x \<in> set TERMINAL_STATES) ours))))"

section \<open>Readiness evidence\<close>

datatype json = JStr string | JInt int | JBool bool | JList "json list" | JObj "(string \<times> json) list"

definition report_to_payload :: "rehearsal_report \<Rightarrow> json" where
  "report_to_payload r = JObj
     [(''session'', JStr (isoformat (rr_session r))), (''intents'', JInt (rr_intents r)), (''submitted'', JInt (rr_submitted r)),
      (''rejected'', JInt (rr_rejected r)), (''duplicates_blocked'', JInt (rr_duplicates_blocked r)),
      (''reconciled'', JBool (rr_reconciled r)), (''position_mismatches'', JList (map JStr (rr_position_mismatches r))),
      (''terminal_states_verified'', JBool (rr_terminal_states_verified r)),
      (''duplicate_orders_absent'', JBool (rr_duplicate_orders_absent r)),
      (''position_book_verified'', JBool (rr_position_book_verified r))]"

definition clean :: "rehearsal_report \<Rightarrow> bool" where
  "clean r \<longleftrightarrow> rr_rejected r = 0 \<and> rr_position_mismatches r = []"

text \<open>The dictionary from a session's local date to its index; a later session wins.\<close>

definition session_indices :: "zone \<Rightarrow> session_calendar \<Rightarrow> date \<Rightarrow> nat option" where
  "session_indices tz cal = map_of (rev (zip (map (local_date tz) (sessions cal)) [0..<length (sessions cal)]))"

definition trail_step :: "(date \<Rightarrow> nat option) \<Rightarrow> rehearsal_report list \<Rightarrow> rehearsal_report \<Rightarrow> rehearsal_report list" where
  "trail_step idx trailing report =
     (case idx (rr_session report) of None \<Rightarrow> []
      | Some k \<Rightarrow>
          let kept = (if trailing \<noteq> [] \<and> Some k \<noteq> map_option Suc (idx (rr_session (last trailing))) then [] else trailing)
          in if clean report \<and> 0 < rr_intents report then kept @ [report] else [])"

definition last_n :: "nat \<Rightarrow> 'a list \<Rightarrow> 'a list" where
  "last_n n xs = drop (length xs - n) xs"

definition evidence_of :: "rehearsal_report list \<Rightarrow> rehearsal_report list \<Rightarrow> int \<Rightarrow> readiness_evidence" where
  "evidence_of ordered trailing required_days =
     (let consecutive = int (length trailing);
          window = (if required_days \<le> consecutive then last_n (nat required_days) trailing else []);
          full = (int (length window) = required_days) in
      \<lparr>re_broker_reconciliation = (full \<and> list_all (\<lambda>r. rr_position_mismatches r = []) window
         \<and> list_all rr_position_book_verified window),
       re_order_state_transitions = (full \<and> list_all (\<lambda>r. rr_reconciled r \<and> rr_terminal_states_verified r) window),
       re_paper_acceptance = (full \<and> list_all (\<lambda>r. rr_rejected r = 0) window),
       re_idempotency_verified = list_ex (\<lambda>r. 0 < rr_duplicates_blocked r \<and> rr_duplicate_orders_absent r) ordered,
       re_notes = [''consecutive_clean='' @ str_int consecutive, ''required_days='' @ str_int required_days]\<rparr>)"

definition evidence_payload :: "readiness_evidence \<Rightarrow> int \<Rightarrow> int \<Rightarrow> rehearsal_report list \<Rightarrow> json" where
  "evidence_payload e consecutive required_days ordered = JObj
     [(''broker_reconciliation'', JBool (re_broker_reconciliation e)),
      (''order_state_transitions'', JBool (re_order_state_transitions e)),
      (''paper_acceptance'', JBool (re_paper_acceptance e)), (''idempotency_verified'', JBool (re_idempotency_verified e)),
      (''notes'', JList (map JStr (re_notes e))), (''consecutive_clean'', JInt consecutive),
      (''required_days'', JInt required_days), (''reports'', JList (map report_to_payload ordered))]"

definition update_readiness ::
  "zone \<Rightarrow> (date \<Rightarrow> date \<Rightarrow> exchange_calendar) \<Rightarrow> rehearsal_report list \<Rightarrow> int \<Rightarrow> (readiness_evidence \<times> json) res" where
  "update_readiness tz get_calendar reports required_days =
     guard (required_days \<le> 0) (ValueError ''required_days must be a positive int'') (
     let ordered = sort_key rr_session reports in
     guard (length (remdups (map rr_session ordered)) \<noteq> length ordered)
       (ValueError ''readiness requires one aggregate report per session'') (
     res_bind (if ordered = [] then Inr (\<lambda>_. None)
       else res_bind (xkrx_calendar_through get_calendar (rr_session (last ordered))) (\<lambda>cal. Inr (session_indices tz cal))) (\<lambda>idx.
     let trailing = foldl (trail_step idx) [] ordered; evidence = evidence_of ordered trailing required_days in
     Inr (evidence, evidence_payload evidence (int (length trailing)) required_days ordered))))"

end
