(* ===== verification/StoreProps.thy ===== *)
theory StoreProps
  imports StateStore
begin

text \<open>
  The SQLite store: rows decode to what was encoded, the store implements the port, and its tables are a
  complete audit trail of legal order-state transitions.
\<close>

section \<open>Encoding and decoding\<close>

lemma enum_roundtrips [simp]:
  "asset_kind_of (asset_kind_value k) = Inr k"
  "side_of (side_value d) = Inr d"
  "state_of (state_value s) = Inr s"
  by (cases k; simp add: asset_kind_of_def member_of_def; fail | cases d; simp add: side_of_def member_of_def; fail
      | cases s; simp add: state_of_def member_of_def)+

definition floated :: "pyfloat \<Rightarrow> pyfloat" where
  "floated v = (case as_float v of Inr x \<Rightarrow> x | Inl _ \<Rightarrow> v)"

definition normal :: "order_state_record \<Rightarrow> order_state_record" where
  "normal r = r\<lparr>or_submitted_quantity := floated (or_submitted_quantity r), or_filled_quantity := floated (or_filled_quantity r),
     or_filled_price := (if or_filled_price r = Some NaN then None else or_filled_price r)\<rparr>"

lemma as_float_idem: "as_float v = Inr w \<Longrightarrow> as_float w = Inr w"
proof (cases v)
  case (Fin x)
  moreover assume "as_float v = Inr w"
  ultimately obtain y where "to_float x = Fin y" "w = Fin y" by (auto split: pyfloat.splits)
  then show ?thesis using to_float_double [of x y] by (simp add: is_double_def)
qed auto

lemma floated_Inr: "as_float v = Inr w \<Longrightarrow> floated v = w"
  by (simp add: floated_def)

definition row_ok :: "order_row \<Rightarrow> bool" where
  "row_ok row \<longleftrightarrow> (\<exists>r. decode row = Inr r)
     \<and> as_float (row_submitted_quantity row) = Inr (row_submitted_quantity row) \<and> row_submitted_quantity row \<noteq> NaN
     \<and> as_float (row_filled_quantity row) = Inr (row_filled_quantity row) \<and> row_filled_quantity row \<noteq> NaN
     \<and> row_filled_price row \<noteq> Some NaN"

lemma stored_row:
  assumes "encode r q = Inr row" "sql_bind row = Inr row'"
  shows "decode row' = Inr (normal r) \<and> row_order_id row' = or_order_id r \<and> row_seq row' = q \<and> row_ok row'"
  using assms
  by (auto simp: encode_def sql_bind_def decode_def normal_def row_ok_def res_simps floated_Inr dest: as_float_idem)

lemma decode_fields:
  assumes "decode row = Inr r"
  shows "or_order_id r = row_order_id row" "or_filled_quantity r = row_filled_quantity row"
    "or_submitted_quantity r = row_submitted_quantity row" "or_filled_price r = row_filled_price row"
  using assms by (auto simp: decode_def res_simps)

lemma row_ok_normal: "row_ok row \<Longrightarrow> decode row = Inr r \<Longrightarrow> normal r = r"
  by (auto simp: row_ok_def normal_def floated_def decode_fields)

text \<open>A record the row keeps as it is: quantities that are binary64 numbers and no NaN anywhere.\<close>

definition storable :: "order_state_record \<Rightarrow> bool" where
  "storable r \<longleftrightarrow> as_float (or_submitted_quantity r) = Inr (or_submitted_quantity r) \<and> as_float (or_filled_quantity r) = Inr (or_filled_quantity r)
     \<and> or_submitted_quantity r \<noteq> NaN \<and> or_filled_quantity r \<noteq> NaN \<and> or_filled_price r \<noteq> Some NaN"

definition stored_back :: "order_state_record \<Rightarrow> int \<Rightarrow> order_state_record res" where
  "stored_back r q = res_bind (encode r q) (\<lambda>row. res_bind (sql_bind row) decode)"

text \<open>C27. What the row of any order record reads back as. The record comes back unchanged exactly if its quantities are binary64 numbers,
  infinities included, and neither they nor its price are NaN. Otherwise either storing raises, with the float conversion's error for a
  quantity out of range and with the table's \<open>NOT NULL\<close> error for a NaN quantity, or the record comes back with its quantities rounded
  to binary64 and a NaN price replaced by no price; and a record that came back once comes back unchanged ever after.\<close>

theorem order_row_roundtrip:
  "(stored_back r q = Inr r \<longleftrightarrow> storable r)
    \<and> (case stored_back r q of
         Inr r' \<Rightarrow> storable r' \<and> stored_back r' q' = Inr r'
           \<and> (\<exists>sub fil. as_float (or_submitted_quantity r) = Inr sub \<and> as_float (or_filled_quantity r) = Inr fil
               \<and> r' = r\<lparr>or_submitted_quantity := sub, or_filled_quantity := fil,
                    or_filled_price := (if or_filled_price r = Some NaN then None else or_filled_price r)\<rparr>)
       | Inl e \<Rightarrow> as_float (or_submitted_quantity r) = Inl e \<or> as_float (or_filled_quantity r) = Inl e
           \<or> (e = IntegrityError ''NOT NULL constraint failed'' \<and> (or_submitted_quantity r = NaN \<or> or_filled_quantity r = NaN)))"
proof -
  have eval: "stored_back r q = res_bind (as_float (or_submitted_quantity r)) (\<lambda>sub. res_bind (as_float (or_filled_quantity r)) (\<lambda>fil.
      guard (sub = NaN \<or> fil = NaN) (IntegrityError ''NOT NULL constraint failed'')
        (Inr (r\<lparr>or_submitted_quantity := sub, or_filled_quantity := fil,
          or_filled_price := (if or_filled_price r = Some NaN then None else or_filled_price r)\<rparr>))))" for r q
    by (cases "as_float (or_submitted_quantity r)"; cases "as_float (or_filled_quantity r)")
      (simp_all add: stored_back_def encode_def sql_bind_def decode_def guard_def)
  have nan: "v = NaN" if "as_float v = Inr NaN" for v using that by (cases v) (auto split: pyfloat.splits)
  have same: "stored_back r q = Inr r" if "storable r" for r q
    using that by (simp add: eval storable_def)
  have "storable r' \<and> (\<exists>sub fil. as_float (or_submitted_quantity r) = Inr sub \<and> as_float (or_filled_quantity r) = Inr fil
      \<and> r' = r\<lparr>or_submitted_quantity := sub, or_filled_quantity := fil,
           or_filled_price := (if or_filled_price r = Some NaN then None else or_filled_price r)\<rparr>)" if "stored_back r q = Inr r'" for r'
    using that by (auto simp: eval res_simps storable_def dest: as_float_idem)
  moreover have "as_float (or_submitted_quantity r) = Inl e \<or> as_float (or_filled_quantity r) = Inl e
      \<or> (e = IntegrityError ''NOT NULL constraint failed'' \<and> (or_submitted_quantity r = NaN \<or> or_filled_quantity r = NaN))"
    if "stored_back r q = Inl e" for e
    using that nan by (auto simp: eval guard_def res_bind_def split: sum.splits if_splits)
  ultimately show ?thesis using same by (cases "stored_back r q") auto
qed

definition demo_record :: order_state_record where
  "demo_record = \<lparr>or_order_id = ''order:2026-03-03:A'', or_intent_id = ''2026-03-03:A'', or_instrument_id = ''A'',
     or_asset_kind = STOCK, or_side = OBUY, or_state = SUBMITTED, or_submitted_quantity = Fin 10,
     or_filled_quantity = Fin 4, or_filled_price = Some (Fin (1 / 2)), or_reason = ''''\<rparr>"

lemma demo_doubles: "is_double 10" "is_double 4"
  using is_double_of_int [of 10] is_double_of_int [of 4] by simp_all

theorem order_row_roundtrip_witness:
  "stored_back demo_record 7 = Inr demo_record \<and> stored_back (demo_record\<lparr>or_filled_price := Some NaN\<rparr>) 7 \<noteq> Inr (demo_record\<lparr>or_filled_price := Some NaN\<rparr>)"
proof -
  have "storable demo_record" using demo_doubles by (simp add: storable_def demo_record_def is_double_def)
  moreover have "\<not> storable (demo_record\<lparr>or_filled_price := Some NaN\<rparr>)" by (simp add: storable_def)
  ultimately show ?thesis
    using order_row_roundtrip [of demo_record 7] order_row_roundtrip [of "demo_record\<lparr>or_filled_price := Some NaN\<rparr>" 7] by blast
qed

section \<open>The store implements the port\<close>

definition sqlite_inv :: "sqlite_store \<Rightarrow> bool" where
  "sqlite_inv s \<longleftrightarrow> distinct (map row_order_id (sq_orders s)) \<and> list_all row_ok (sq_orders s) \<and> list_all row_ok (sq_history s)
     \<and> row_order_id ` set (sq_history s) \<subseteq> row_order_id ` set (sq_orders s)"

lemma find_replace:
  assumes "row_order_id new = k"
  shows "find (\<lambda>x. row_order_id x = n) (map (\<lambda>x. if row_order_id x = k then new else x) xs)
    = (if n = k \<and> (\<exists>x \<in> set xs. row_order_id x = k) then Some new else find (\<lambda>x. row_order_id x = n) xs)"
  using assms by (induction xs) auto

lemma row_of_mem: "row_of s n = Some row \<Longrightarrow> row \<in> set (sq_orders s) \<and> row_order_id row = n"
  by (auto simp: row_of_def find_Some_iff)

lemma row_of_None: "row_of s n = None \<longleftrightarrow> n \<notin> row_order_id ` set (sq_orders s)"
  by (auto simp: row_of_def find_None_iff)

lemma row_of_append:
  "row_of (s\<lparr>sq_orders := sq_orders s @ [row]\<rparr>) n
   = (case row_of s n of Some x \<Rightarrow> Some x | None \<Rightarrow> if row_order_id row = n then Some row else None)"
proof -
  have "find (\<lambda>x. row_order_id x = n) (xs @ [row])
    = (case find (\<lambda>x. row_order_id x = n) xs of Some x \<Rightarrow> Some x | None \<Rightarrow> if row_order_id row = n then Some row else None)"
    for xs by (induction xs) auto
  then show ?thesis by (simp add: row_of_def)
qed

text \<open>The two shapes of a successful save.\<close>

lemma sqlite_save_cases:
  assumes "sqlite_save s r = Inr s'"
  obtains (insert) row where "row_of s (or_order_id r) = None" "decode row = Inr (normal r)" "row_order_id row = or_order_id r"
      "row_ok row" "s' = s\<lparr>sq_orders := sq_orders s @ [row]\<rparr>"
  | (update) existing prev old row where "row_of s (or_order_id r) = Some existing" "decode existing = Inr prev"
      "check_transition prev r = Inr ()" "decode old = Inr (normal prev)" "row_order_id old = or_order_id r" "row_ok old"
      "decode row = Inr (normal r)" "row_order_id row = or_order_id r" "row_ok row"
      "s' = s\<lparr>sq_history := sq_history s @ [old],
              sq_orders := map (\<lambda>x. if row_order_id x = or_order_id r then row else x) (sq_orders s)\<rparr>"
proof (cases "row_of s (or_order_id r)")
  case None
  with assms obtain row row' where "encode r (next_seq s) = Inr row" "sql_bind row = Inr row'"
    "s' = s\<lparr>sq_orders := sq_orders s @ [row']\<rparr>" by (auto simp: sqlite_save_def res_simps)
  with stored_row None show ?thesis by (intro insert) blast+
next
  case (Some existing)
  with assms obtain prev o1 o2 r1 r2 where "decode existing = Inr prev" "check_transition prev r = Inr ()"
    "encode prev (int (length (sq_history s))) = Inr o1" "sql_bind o1 = Inr o2"
    "encode r (row_seq existing) = Inr r1" "sql_bind r1 = Inr r2"
    "s' = s\<lparr>sq_history := sq_history s @ [o2],
              sq_orders := map (\<lambda>x. if row_order_id x = or_order_id r then r2 else x) (sq_orders s)\<rparr>"
    by (auto simp: sqlite_save_def res_simps)
  note p = this
  have "or_order_id prev = or_order_id r" using row_of_mem [OF Some] decode_fields(1) [OF p(1)] by simp
  with stored_row [OF p(3,4)] stored_row [OF p(5,6)] p Some show ?thesis by (intro update) simp_all
qed

lemma distinct_replace:
  "distinct (map row_order_id xs) \<Longrightarrow> row_order_id new = k \<Longrightarrow>
   distinct (map row_order_id (map (\<lambda>x. if row_order_id x = k then new else x) xs))"
proof -
  assume "row_order_id new = k"
  then have "map row_order_id (map (\<lambda>x. if row_order_id x = k then new else x) xs) = map row_order_id xs" by simp
  then show "distinct (map row_order_id xs) \<Longrightarrow> ?thesis" by (simp only:)
qed

lemma sqlite_save_inv:
  assumes "sqlite_inv s" "sqlite_save s r = Inr s'"
  shows "sqlite_inv s'"
  using assms(2)
proof (cases rule: sqlite_save_cases)
  case (insert row)
  then show ?thesis using assms(1) by (auto simp: sqlite_inv_def row_of_None)
next
  case (update existing prev old row)
  define new where "new = map (\<lambda>x. if row_order_id x = or_order_id r then row else x) (sq_orders s)"
  have "row_order_id ` set new = row_order_id ` set (sq_orders s)"
    using update(8) unfolding set_map [symmetric] by (intro arg_cong [where f = set]) (simp add: new_def)
  moreover have "or_order_id r \<in> row_order_id ` set (sq_orders s)" using row_of_mem [OF update(1)] by force
  moreover have "distinct (map row_order_id new)" "list_all row_ok new"
    using update(8,9) assms(1) distinct_replace [of "sq_orders s" row] by (auto simp: new_def sqlite_inv_def list_all_iff)
  ultimately show ?thesis using assms(1) update(5,6) unfolding update(10) new_def [symmetric]
    by (auto simp: sqlite_inv_def)
qed

lemma sqlite_get_save:
  assumes "sqlite_save s r = Inr s'"
  shows "sqlite_get s' n = (if n = or_order_id r then Inr (Some (normal r)) else sqlite_get s n)"
  using assms
proof (cases rule: sqlite_save_cases)
  case (insert row)
  then show ?thesis by (auto simp: sqlite_get_def row_of_append split: option.splits)
next
  case (update existing prev old row)
  then have "row_of s' n = (if n = or_order_id r then Some row else row_of s n)"
    using row_of_mem [OF update(1)] find_replace [of row "or_order_id r" n "sq_orders s"] by (auto simp: row_of_def)
  then show ?thesis using update by (simp add: sqlite_get_def)
qed

interpretation sqlite: state_store sqlite_inv sqlite_save sqlite_get sqlite_mark_intent sqlite_is_duplicate_intent normal
proof unfold_locales
  show "sqlite_is_duplicate_intent s' k = sqlite_is_duplicate_intent s k" if "sqlite_save s r = Inr s'" for s r s' k
    using that by (cases rule: sqlite_save_cases) (simp_all add: sqlite_is_duplicate_intent_def)
  show "sqlite_inv (sqlite_mark_intent s k)" if "sqlite_inv s" for s k
    using that by (simp add: sqlite_mark_intent_def sqlite_inv_def)
  show "sqlite_get (sqlite_mark_intent s k) n = sqlite_get s n" for s k n
    by (simp add: sqlite_mark_intent_def sqlite_get_def row_of_def)
qed (auto simp: sqlite_get_save sqlite_mark_intent_def sqlite_is_duplicate_intent_def intro: sqlite_save_inv)

section \<open>The audit trail\<close>

text \<open>One step of an order's life: a transition of the table, or progress of a submitted order whose
  filled quantity does not decrease.\<close>

definition legal_step :: "order_state_record \<Rightarrow> order_state_record \<Rightarrow> bool" where
  "legal_step prev nxt \<longleftrightarrow> allowed_transition (or_state prev) (or_state nxt)
     \<or> or_state prev = SUBMITTED \<and> or_state nxt = SUBMITTED \<and> fle (or_filled_quantity prev) (or_filled_quantity nxt)"

definition saves_of :: "string \<Rightarrow> (order_state_record + string) list \<Rightarrow> order_state_record list" where
  "saves_of n cs = concat (map (\<lambda>c. case c of Inl r \<Rightarrow> if or_order_id r = n then [normal r] else [] | Inr _ \<Rightarrow> []) cs)"

definition trail_rows :: "sqlite_store \<Rightarrow> string \<Rightarrow> order_row list" where
  "trail_rows s n = filter (\<lambda>row. row_order_id row = n) (sq_history s) @ (case row_of s n of None \<Rightarrow> [] | Some row \<Rightarrow> [row])"

lemma check_transition_legal:
  assumes "decode row = Inr prev" "row_ok row" "check_transition prev r = Inr ()"
  shows "legal_step prev (normal r)"
proof -
  have "as_float (or_filled_quantity prev) = Inr (or_filled_quantity prev)"
    using assms by (simp add: decode_fields row_ok_def)
  then show ?thesis using assms(3)
    by (auto simp: check_transition_def legal_step_def normal_def floated_Inr res_simps split: if_splits)
qed

lemma mapM_append:
  "mapM f (xs @ ys) = res_bind (mapM f xs) (\<lambda>us. res_bind (mapM f ys) (\<lambda>vs. Inr (us @ vs)))"
proof (induction xs)
  case Nil
  show ?case by (cases "mapM f ys") auto
next
  case (Cons x xs)
  then show ?case by (cases "f x"; cases "mapM f xs"; cases "mapM f ys") auto
qed

text \<open>A save appends to the trail of its own order, one legal step after the last entry, and leaves the
  trails of the others alone.\<close>

lemma save_trail:
  assumes inv: "sqlite_inv s" and save: "sqlite_save s r = Inr s'" and trail: "mapM decode (trail_rows s n) = Inr xs"
    and legal: "successively legal_step xs"
  shows "\<exists>ys. mapM decode (trail_rows s' n) = Inr ys \<and> successively legal_step ys
    \<and> ys = xs @ (if or_order_id r = n then [normal r] else [])"
  using save
proof (cases rule: sqlite_save_cases)
  case (insert row)
  then have "filter (\<lambda>x. row_order_id x = or_order_id r) (sq_history s) = []"
    using inv by (force simp: filter_empty_conv row_of_None sqlite_inv_def)
  with insert show ?thesis using trail legal
    by (cases "or_order_id r = n") (auto simp: trail_rows_def row_of_append mapM_append res_simps successively_append_iff
        split: option.splits)
next
  case (update existing prev old row)
  have "row_ok existing" using row_of_mem [OF update(1)] inv by (auto simp: sqlite_inv_def list_all_iff)
  moreover from this have "normal prev = prev" using update(2) by (rule row_ok_normal)
  moreover have "row_of s' n = (if n = or_order_id r then Some row else row_of s n)"
    using update row_of_mem [OF update(1)] find_replace [of row "or_order_id r" n "sq_orders s"] by (auto simp: row_of_def)
  ultimately show ?thesis using update trail legal check_transition_legal [OF update(2) _ update(3)]
    by (auto simp: trail_rows_def mapM_append res_simps successively_append_iff)
qed

lemma calls_trail:
  assumes "sqlite_inv s" "foldM sqlite.store_call s cs = Inr s'" "mapM decode (trail_rows s n) = Inr xs"
    and "successively legal_step xs"
  shows "mapM decode (trail_rows s' n) = Inr (xs @ saves_of n cs) \<and> successively legal_step (xs @ saves_of n cs)"
  using assms
proof (induction cs arbitrary: s xs)
  case (Cons c cs)
  from Cons.prems(2) obtain u where u: "sqlite.store_call s c = Inr u" "foldM sqlite.store_call u cs = Inr s'"
    by (auto simp: res_simps)
  show ?case
  proof (cases c)
    case (Inl r)
    with save_trail [OF Cons.prems(1) _ Cons.prems(3,4), of r u] u(1)
      Cons.IH [OF sqlite_save_inv [OF Cons.prems(1)] u(2), of r "xs @ (if or_order_id r = n then [normal r] else [])"]
    show ?thesis by (auto simp: saves_of_def)
  next
    case (Inr k)
    with u(1) have "u = sqlite_mark_intent s k" by simp
    then have "trail_rows u n = trail_rows s n" "sqlite_inv u"
      using Cons.prems(1) by (simp_all add: sqlite_mark_intent_def trail_rows_def row_of_def sqlite_inv_def)
    with Cons.IH [OF _ u(2)] Cons.prems(3,4) Inr show ?thesis by (simp add: saves_of_def)
  qed
qed (simp add: saves_of_def)

text \<open>C21. The audit trail is complete and legal: after any sequence of accepted saves and marks on a new
  store, the history of an order followed by its current record is exactly the list of records saved under
  its id, in order, and every two neighbours are one legal transition apart.\<close>

theorem order_history_is_complete_and_legal:
  assumes "foldM sqlite.store_call sqlite_init cs = Inr s"
  shows "\<exists>past current. sqlite_order_history s n = Inr past \<and> sqlite_get s n = Inr current
    \<and> past @ (case current of None \<Rightarrow> [] | Some r \<Rightarrow> [r]) = saves_of n cs \<and> successively legal_step (saves_of n cs)"
proof -
  have "sqlite_inv sqlite_init" "trail_rows sqlite_init n = []"
    by (simp_all add: sqlite_inv_def sqlite_init_def trail_rows_def row_of_def)
  with calls_trail [OF _ assms, of n "[]"]
  have "mapM decode (trail_rows s n) = Inr (saves_of n cs)" "successively legal_step (saves_of n cs)" by simp_all
  then show ?thesis
    by (auto simp: trail_rows_def mapM_append sqlite_order_history_def sqlite_get_def res_simps split: option.splits)
qed

lemma demo_calls:
  "\<exists>s. foldM sqlite.store_call sqlite_init
     [Inl demo_record, Inr ''2026-03-03:A'', Inl (demo_record\<lparr>or_filled_quantity := Fin 10, or_state := FILLED\<rparr>)] = Inr s"
  using demo_doubles
  by (simp add: sqlite_init_def sqlite_save_def demo_record_def encode_def sql_bind_def is_double_def row_of_def
      sqlite_mark_intent_def decode_def check_transition_def allowed_transition_def
      del: asset_kind_value.simps side_value.simps state_value.simps)

theorem order_history_is_complete_and_legal_witness:
  "\<exists>s past. foldM sqlite.store_call sqlite_init
       [Inl demo_record, Inr ''2026-03-03:A'', Inl (demo_record\<lparr>or_filled_quantity := Fin 10, or_state := FILLED\<rparr>)] = Inr s
     \<and> sqlite_order_history s ''order:2026-03-03:A'' = Inr past"
  using demo_calls order_history_is_complete_and_legal [where n = "''order:2026-03-03:A''"] by blast

end
