(* ===== verification/SubmitProps.thy ===== *)
theory SubmitProps
  imports Submit StoreProps FloatOrder
begin

text \<open>
  What the submission path promises: an order moves the holding exactly to its target, sells go first, live
  mode needs the whole evidence, and no idempotency key reaches the broker twice, neither under one gate nor
  across restarts over a durable store.
\<close>

section \<open>Sizing\<close>

lemma floor_to_lot_nonneg:
  assumes "floor_to_lot v price lot = Inr q" "at_least 0 v" "at_least 0 price" "0 < lot"
  shows "0 \<le> q \<and> q mod lot = 0"
proof -
  from assms(1) obtain shares flot lots n where *: "fdiv v price = Inr shares" "float_of_int lot = Inr flot"
    "fdiv shares flot = Inr lots" "int_of_float lots = Inr n" "q = n * lot"
    by (auto simp: floor_to_lot_def res_simps)
  have "at_least 0 lots"
    using at_least_0_fdiv [OF at_least_0_fdiv [OF assms(2,3) *(1)] at_least_0_float_of_int [OF _ *(2)] *(3)] assms(4) by simp
  then have "0 \<le> n" using *(4) by (rule int_of_float_nonneg [rotated])
  with *(5) assms(4) show ?thesis by simp
qed

lemma planned_quantity_nonneg:
  assumes "planned_quantity intent price lot = Inr q" "trade_intent_init intent = Inr intent" "\<not> fle price (Fin 0)" "0 < lot"
  shows "0 \<le> q \<and> q mod lot = 0"
proof -
  have "at_least 0 (ti_target_value intent)" "at_least 0 price"
    using assms(2,3) by (auto simp: trade_intent_init_def res_simps at_least_0_iff fle_def)
  then show ?thesis
    using assms(1,4) floor_to_lot_nonneg by (auto simp: planned_quantity_def res_simps split: option.splits)
qed

lemma planned_quantity_error:
  assumes "planned_quantity intent price lot = Inl e"
  shows "e \<noteq> ValueError ''quantity shortfall: cannot sell more than broker holdings''"
proof -
  have "fdiv a b = Inl e \<Longrightarrow> ?thesis" for a b by (cases a; cases b) (auto split: if_splits)
  moreover have "int_of_float a = Inl e \<Longrightarrow> ?thesis" for a by (cases a) auto
  moreover have "float_of_int n = Inl e \<Longrightarrow> ?thesis" for n by (auto simp: float_of_int_def split: pyfloat.splits)
  ultimately show ?thesis
    using assms by (auto simp: planned_quantity_def floor_to_lot_def res_simps split: option.splits)
qed

text \<open>C23. Sizing is exact: for a constructed intent, planning never reports a shortfall, and when it
  returns, the order moves the held quantity exactly to the planned target, a non-negative multiple of the
  lot: nothing is ordered at the target, a buy adds the difference, and a sell takes at most what is held.\<close>

theorem plan_order_request_reaches_target:
  assumes "trade_intent_init intent = Inr intent"
    and "plan_order_request intent oid now price held lot = result"
  shows "result \<noteq> Inl (ValueError ''quantity shortfall: cannot sell more than broker holdings'')
    \<and> (\<forall>order. result = Inr order \<longrightarrow>
        (\<exists>target. planned_quantity intent price lot = Inr target \<and> 0 \<le> target \<and> target mod lot = 0 \<and>
          (case order of None \<Rightarrow> target = held
           | Some r \<Rightarrow> 0 < rq_quantity r \<and> rq_idempotency_key r = ti_idempotency_key intent \<and>
               target = (case rq_side r of OBUY \<Rightarrow> held + rq_quantity r | OSELL \<Rightarrow> held - rq_quantity r))))"
proof (cases "planned_quantity intent price lot")
  case (Inl e)
  then show ?thesis
    using planned_quantity_error [OF Inl] assms(2) [symmetric]
    by (auto simp: plan_order_request_def guard_def)
next
  case (Inr target)
  show ?thesis
  proof (cases "fle price (Fin 0) \<or> lot < 1 \<or> held < 0 \<or> ti_account_snapshot_id intent = []")
    case True
    then show ?thesis using assms(2) [symmetric] by (auto simp: plan_order_request_def guard_def)
  next
    case False
    then have "0 \<le> target" "target mod lot = 0" using planned_quantity_nonneg [OF Inr assms(1)] by auto
    with False Inr show ?thesis using assms(2) [symmetric]
      by (auto simp: plan_order_request_def guard_def Let_def order_request_init_def)
  qed
qed

section \<open>What one turn of the loop can do\<close>

text \<open>The ports with every order handed to the broker written down, whatever the broker answers.\<close>

definition logged :: "('s, 'b) ports \<Rightarrow> ('s, 'b \<times> order_request list) ports" where
  "logged p = \<lparr>pt_submit = (\<lambda>(b, log) order. case pt_submit p b order of (b', r) \<Rightarrow> ((b', log @ [order]), r)),
     pt_save = pt_save p, pt_mark_intent = pt_mark_intent p, pt_is_duplicate_intent = pt_is_duplicate_intent p,
     pt_price_of = pt_price_of p\<rparr>"

abbreviation sent :: "('s, 'b \<times> order_request list) execution_state \<Rightarrow> order_request list" where
  "sent st \<equiv> snd (xs_broker st)"

abbreviation sent_keys :: "('s, 'b \<times> order_request list) execution_state \<Rightarrow> string list" where
  "sent_keys st \<equiv> map rq_idempotency_key (sent st)"

definition order_for :: "('s, 'b) ports \<Rightarrow> execution_context \<Rightarrow> trade_intent \<Rightarrow> order_request option res" where
  "order_for p ctx intent =
     res_bind (pt_price_of p (ti_instrument_id intent)) (\<lambda>price.
     res_bind (quantity_of (context_positions ctx) (ti_instrument_id intent)) (\<lambda>held.
     plan_order_request intent (''order:'' @ ti_intent_id intent) (ec_now ctx) price held (lot_size_of ctx (ti_instrument_id intent))))"

lemma authorize_Inr:
  assumes "authorize g rq = Inr g'"
  shows "ti_idempotency_key (sr_intent rq) \<notin> set (sg_processed_keys g)"
    "set (sg_processed_keys g') = insert (ti_idempotency_key (sr_intent rq)) (set (sg_processed_keys g))"
    "sg_readiness g' = sg_readiness g" "sr_mode rq = ''live'' \<Longrightarrow> complete (sg_readiness g)"
  using assms by (auto simp: authorize_def res_simps Let_def)

lemma order_for_key: "order_for p ctx intent = Inr (Some order) \<Longrightarrow> rq_idempotency_key order = ti_idempotency_key intent"
  by (auto simp: order_for_def plan_order_request_def order_request_init_def res_simps Let_def split: if_splits)

definition request_of :: "execution_context \<Rightarrow> trade_intent \<Rightarrow> submission_request" where
  "request_of ctx intent = \<lparr>sr_intent = intent, sr_mode = es_default_mode (ec_settings ctx), sr_account = ec_account ctx,
     sr_submitted_at = None\<rparr>"

lemma request_of_sels [simp]:
  "sr_intent (request_of ctx intent) = intent" "sr_mode (request_of ctx intent) = es_default_mode (ec_settings ctx)"
  by (simp_all add: request_of_def)

lemma submit_one_cases:
  assumes "submit_one (logged p) ctx st intent = (st', r)"
  obtains (refused) e where "st' = st" "r = Inl e"
  | (idle) g where "authorize (xs_gate st) (request_of ctx intent) = Inr g" "st' = st\<lparr>xs_gate := g\<rparr>" "\<And>x. r \<noteq> Inr (Some x)"
  | (failed) g order b e where "authorize (xs_gate st) (request_of ctx intent) = Inr g"
      "\<not> pt_is_duplicate_intent p (xs_store st) (ti_idempotency_key intent)" "order_for p ctx intent = Inr (Some order)"
      "st' = st\<lparr>xs_gate := g, xs_broker := (b, sent st @ [order])\<rparr>" "r = Inl e"
  | (accepted) g order b x s where "authorize (xs_gate st) (request_of ctx intent) = Inr g"
      "\<not> pt_is_duplicate_intent p (xs_store st) (ti_idempotency_key intent)" "order_for p ctx intent = Inr (Some order)"
      "pt_save p (xs_store st) x = Inr s"
      "st' = st\<lparr>xs_gate := g, xs_broker := (b, sent st @ [order]), xs_store := pt_mark_intent p s (ti_idempotency_key intent)\<rparr>"
      "r = Inr (Some x)"
proof (cases "res_bind (validate (ec_zone ctx) (ec_system_utc ctx) (pt_is_duplicate_intent p (xs_store st)) intent)
    (\<lambda>_. authorize (xs_gate st) (request_of ctx intent))")
  case (Inl e)
  with assms show ?thesis by (intro refused) (auto simp: submit_one_def logged_def request_of_def)
next
  case (Inr g)
  then have g: "authorize (xs_gate st) (request_of ctx intent) = Inr g"
    and new: "\<not> pt_is_duplicate_intent p (xs_store st) (ti_idempotency_key intent)"
    by (auto simp: res_simps validate_def)
  show ?thesis
  proof (cases "order_for p ctx intent")
    case (Inr plan)
    show ?thesis
    proof (cases plan)
      case (Some order)
      obtain b x where bx: "pt_submit p (fst (xs_broker st)) order = (b, x)" by force
      show ?thesis
      proof (cases "res_bind x (pt_save p (xs_store st))")
        case (Inl e)
        with assms g new \<open>order_for p ctx intent = Inr plan\<close> Some bx
          \<open>res_bind (validate _ _ _ _) _ = Inr g\<close>
        show ?thesis
          by (intro failed [of g order b e])
            (auto simp: submit_one_def logged_def request_of_def order_for_def Let_def res_simps split: sum.splits prod.splits)
      next
        case (Inr s)
        then obtain y where "x = Inr y" "pt_save p (xs_store st) y = Inr s" by (auto simp: res_simps)
        with assms g new \<open>order_for p ctx intent = Inr plan\<close> Some bx
          \<open>res_bind (validate _ _ _ _) _ = Inr g\<close>
        show ?thesis
          by (intro accepted [of g order y s b])
            (auto simp: submit_one_def logged_def request_of_def order_for_def Let_def split: prod.splits)
      qed
    qed (use assms \<open>res_bind (validate _ _ _ _) _ = Inr g\<close> \<open>order_for p ctx intent = Inr plan\<close> g in
      \<open>auto simp: submit_one_def logged_def request_of_def order_for_def Let_def intro!: idle\<close>)
  qed (use assms \<open>res_bind (validate _ _ _ _) _ = Inr g\<close> g in
    \<open>auto simp: submit_one_def logged_def request_of_def order_for_def Let_def intro!: idle\<close>)
qed

section \<open>One gate, one order per key\<close>

definition gate_covers :: "('s, 'b \<times> order_request list) execution_state \<Rightarrow> bool" where
  "gate_covers st \<longleftrightarrow> distinct (sent_keys st) \<and> set (sent_keys st) \<subseteq> set (sg_processed_keys (xs_gate st))"

lemma submit_one_gate_covers:
  assumes "submit_one (logged p) ctx st intent = (st', r)" "gate_covers st"
  shows "gate_covers st'"
proof -
  have key: "ti_idempotency_key intent \<notin> rq_idempotency_key ` set (sent st)"
    "set (sg_processed_keys g) = insert (ti_idempotency_key intent) (set (sg_processed_keys (xs_gate st)))"
    if "authorize (xs_gate st) (request_of ctx intent) = Inr g" for g
    using authorize_Inr(1,2) [OF that] assms(2) by (auto simp: gate_covers_def)
  show ?thesis
    using assms(1) by (cases rule: submit_one_cases) (use assms(2) key in \<open>auto simp: gate_covers_def order_for_key\<close>)
qed

lemma submit_loop_gate_covers:
  "submit_loop (logged p) ctx st acc xs = (st', r) \<Longrightarrow> gate_covers st \<Longrightarrow> gate_covers st'"
proof (induction xs arbitrary: st acc)
  case (Cons x xs)
  obtain u v where u: "submit_one (logged p) ctx st x = (u, v)" by force
  then have "gate_covers u" using Cons.prems(2) by (rule submit_one_gate_covers)
  with u Cons show ?case by (auto split: sum.splits option.splits)
qed simp

lemma submit_intents_gate_covers:
  "submit_intents (logged p) ctx st xs = (st', r) \<Longrightarrow> gate_covers st \<Longrightarrow> gate_covers st'"
  by (auto simp: submit_intents_def intro: submit_loop_gate_covers split: sum.splits)

text \<open>Batches submitted one after the other under the same gate, each whether or not it raises.\<close>

definition submit_batches ::
  "('s, 'b) ports \<Rightarrow> ('s, 'b) execution_state \<Rightarrow> (execution_context \<times> trade_intent list) list \<Rightarrow> ('s, 'b) execution_state" where
  "submit_batches p st batches = fold (\<lambda>(ctx, xs) st. fst (submit_intents p ctx st xs)) batches st"

text \<open>C17. Under one gate no idempotency key reaches the broker twice, for any broker, store and price
  provider, any batches and contexts, and however the batches fail in between.\<close>

theorem one_gate_sends_each_key_once:
  fixes p :: "('s, 'b) ports"
  assumes "xs_gate st = submission_gate_init evidence" "sent st = []"
  shows "distinct (sent_keys (submit_batches (logged p) st batches))"
proof -
  have "gate_covers st \<Longrightarrow> gate_covers (submit_batches (logged p) st batches)" for st
    unfolding submit_batches_def
  proof (induction batches arbitrary: st)
    case (Cons b bs)
    then have "gate_covers (fst (submit_intents (logged p) (fst b) st (snd b)))"
      using submit_intents_gate_covers [OF prod.collapse [symmetric]] by blast
    with Cons.IH show ?case by (simp add: case_prod_unfold)
  qed simp
  with assms show ?thesis by (simp add: gate_covers_def)
qed

section \<open>Live mode\<close>

lemma live_submit_one:
  assumes "submit_one (logged p) ctx st intent = (st', r)" "es_default_mode (ec_settings ctx) = ''live''"
    and "\<not> complete (sg_readiness (xs_gate st))"
  shows "st' = st \<and> (\<exists>e. r = Inl e)"
  using assms(1) by (cases rule: submit_one_cases) (use assms(2,3) authorize_Inr(4) in fastforce)+

text \<open>C25. Live submission is impossible on incomplete evidence: whatever the batch, the broker receives no
  order, the store is unchanged, and a batch with an intent raises.\<close>

theorem live_mode_requires_complete_evidence:
  assumes "es_default_mode (ec_settings ctx) = ''live''" "\<not> complete (sg_readiness (xs_gate st))"
    and "submit_intents (logged p) ctx st batch = (st', r)"
  shows "st' = st \<and> (batch \<noteq> [] \<longrightarrow> (\<exists>e. r = Inl e))"
proof (cases "sorted_intents (pt_price_of (logged p)) ctx batch")
  case (Inl e)
  with assms(3) show ?thesis by (auto simp: submit_intents_def)
next
  case (Inr xs)
  then have "length xs = length batch" by (auto simp: sorted_intents_def res_simps dest: mapM_Inr_length)
  with assms(3) Inr show ?thesis
    using live_submit_one [OF _ assms(1,2), of p] by (cases xs) (auto simp: submit_intents_def split: prod.splits sum.splits)
qed

section \<open>Sells before buys\<close>

lemma order_for_rank:
  assumes "order_for p ctx intent = Inr (Some order)" "submission_order (pt_price_of p) ctx intent = Inr (k, n, m)"
  shows "k = (case rq_side order of OSELL \<Rightarrow> 0 | OBUY \<Rightarrow> 1)"
  using assms by (auto simp: order_for_def submission_order_def plan_order_request_def planned_quantity_def
      order_request_init_def res_simps Let_def split: option.splits if_splits)

definition sent_for :: "('s, 'b) ports \<Rightarrow> execution_context \<Rightarrow> order_request list \<Rightarrow> trade_intent list \<Rightarrow> bool" where
  "sent_for p ctx os xs \<longleftrightarrow> (\<exists>ys. subseq ys xs \<and> list_all2 (\<lambda>order intent. order_for p ctx intent = Inr (Some order)) os ys)"

lemma sent_for_append: "sent_for p ctx os xs \<Longrightarrow> sent_for p ctx os' xs' \<Longrightarrow> sent_for p ctx (os @ os') (xs @ xs')"
  unfolding sent_for_def by (meson list_all2_appendI list_emb_append_mono)

lemma sent_for_simps:
  "sent_for p ctx [] xs" "order_for p ctx x = Inr (Some order) \<Longrightarrow> sent_for p ctx [order] [x]"
  by (force simp: sent_for_def)+

lemma submit_loop_sent_for:
  "submit_loop (logged p) ctx st acc xs = (st', r) \<Longrightarrow> \<exists>os. sent st' = sent st @ os \<and> sent_for p ctx os xs"
proof (induction xs arbitrary: st acc)
  case (Cons x xs)
  obtain u v where u: "submit_one (logged p) ctx st x = (u, v)" by force
  then obtain o1 where o1: "sent u = sent st @ o1" "sent_for p ctx o1 [x]"
    by (cases rule: submit_one_cases) (auto intro: sent_for_simps)
  show ?case
  proof (cases v)
    case (Inl e)
    with u Cons.prems o1(1) show ?thesis using sent_for_append [OF o1(2) sent_for_simps(1)] by auto
  next
    case (Inr m)
    with u Cons.prems obtain acc' where "submit_loop (logged p) ctx u acc' xs = (st', r)" by (cases m) auto
    from Cons.IH [OF this] obtain o2 where "sent st' = sent u @ o2" "sent_for p ctx o2 xs" by blast
    with o1(1) show ?thesis using sent_for_append [OF o1(2)] by fastforce
  qed
qed (simp add: sent_for_simps)

lemma sent_for_sorted_wrt:
  assumes "sent_for p ctx os xs" "sorted_wrt P xs"
    and "\<And>a b x y. order_for p ctx x = Inr (Some a) \<Longrightarrow> order_for p ctx y = Inr (Some b) \<Longrightarrow> P x y \<Longrightarrow>
      x \<in> set xs \<Longrightarrow> y \<in> set xs \<Longrightarrow> Q a b"
  shows "sorted_wrt Q os"
proof -
  from assms(1) obtain ys where ys: "subseq ys xs" "list_all2 (\<lambda>order intent. order_for p ctx intent = Inr (Some order)) os ys"
    by (auto simp: sent_for_def)
  have mem: "y \<in> set xs" if "y \<in> set ys" for y using list_emb_set [OF ys(1) that] by auto
  have "sorted_wrt P ys" using subseq_sorted_wrt [OF ys(1) assms(2)] .
  show ?thesis unfolding sorted_wrt_iff_nth_less
  proof (intro allI impI)
    fix i j assume ij: "i < j" "j < length os"
    then have "P (ys ! i) (ys ! j)" "i < length ys" "j < length ys"
      using \<open>sorted_wrt P ys\<close> list_all2_lengthD [OF ys(2)] by (auto simp: sorted_wrt_iff_nth_less)
    with ij show "Q (os ! i) (os ! j)"
      using list_all2_nthD [OF ys(2), of i] list_all2_nthD [OF ys(2), of j] by (intro assms(3)) (auto intro: mem)
  qed
qed

lemma split_by_side:
  "sorted_wrt (\<lambda>a b. rq_side a = OBUY \<longrightarrow> rq_side b = OBUY) os \<Longrightarrow>
   \<exists>sells buys. os = sells @ buys \<and> (\<forall>x \<in> set sells. rq_side x = OSELL) \<and> (\<forall>x \<in> set buys. rq_side x = OBUY)"
proof (induction os)
  case (Cons a os)
  then obtain sells buys where *: "os = sells @ buys" "\<forall>x \<in> set sells. rq_side x = OSELL" "\<forall>x \<in> set buys. rq_side x = OBUY"
    by auto
  show ?case
  proof (cases "rq_side a")
    case OBUY
    with Cons.prems have "\<forall>x \<in> set (a # os). rq_side x = OBUY" by simp
    then show ?thesis by (intro exI [of _ "[]"] exI [of _ "a # os"]) simp
  next
    case OSELL
    with * show ?thesis by (intro exI [of _ "a # sells"] exI [of _ buys]) simp
  qed
qed simp

lemma sorted_intents_ranks:
  assumes "sorted_intents price_of ctx batch = Inr xs"
  shows "\<forall>x \<in> set xs. \<exists>k. submission_order price_of ctx x = Inr k"
    "sorted_wrt (\<lambda>x y. \<forall>k l. submission_order price_of ctx x = Inr k \<longrightarrow> submission_order price_of ctx y = Inr l \<longrightarrow> k \<le> l) xs"
proof -
  from assms obtain keys where keys: "mapM (submission_order price_of ctx) batch = Inr keys"
    and xs: "xs = map snd (sort_key fst (zip keys batch))" by (auto simp: sorted_intents_def res_simps)
  have k: "submission_order price_of ctx (snd x) = Inr (fst x)" if "x \<in> set (zip keys batch)" for x
    using keys that by (auto simp: mapM_Inr_list_all2 list_all2_conv_all_nth set_zip)
  then show "\<forall>x \<in> set xs. \<exists>k. submission_order price_of ctx x = Inr k" by (auto simp: xs)
  have "sorted_wrt (\<lambda>x y. fst x \<le> fst y) (sort_key fst (zip keys batch))"
    using sorted_sort_key [of fst "zip keys batch"] by (simp add: sorted_map)
  then have "sorted_wrt (\<lambda>x y. \<forall>k l. submission_order price_of ctx (snd x) = Inr k \<longrightarrow>
      submission_order price_of ctx (snd y) = Inr l \<longrightarrow> k \<le> l) (sort_key fst (zip keys batch))"
    by (rule sorted_wrt_mono_rel [rotated]) (simp add: k)
  then show "sorted_wrt (\<lambda>x y. \<forall>k l. submission_order price_of ctx x = Inr k \<longrightarrow>
      submission_order price_of ctx y = Inr l \<longrightarrow> k \<le> l) xs" by (simp add: xs sorted_wrt_map)
qed

text \<open>C24. A batch is sent sells first: the orders handed to the broker, up to the point where the batch
  returns or raises, are some sells followed by some buys.\<close>

theorem sells_reach_broker_before_buys:
  "\<exists>sells buys. sent (fst (submit_intents (logged p) ctx st batch)) = sent st @ sells @ buys
     \<and> list_all (\<lambda>x. rq_side x = OSELL) sells \<and> list_all (\<lambda>x. rq_side x = OBUY) buys"
proof (cases "sorted_intents (pt_price_of p) ctx batch")
  case (Inl e)
  then show ?thesis by (auto simp: submit_intents_def logged_def intro: exI [of _ "[]"])
next
  case (Inr xs)
  obtain st' r where run: "submit_loop (logged p) ctx st [] xs = (st', r)" by force
  from submit_loop_sent_for [OF this] obtain os where os: "sent st' = sent st @ os" "sent_for p ctx os xs" by blast
  have "sorted_wrt (\<lambda>a b. rq_side a = OBUY \<longrightarrow> rq_side b = OBUY) os"
  proof (rule sent_for_sorted_wrt [OF os(2) sorted_intents_ranks(2) [OF Inr]])
    fix a b x y
    assume "order_for p ctx x = Inr (Some a)" "order_for p ctx y = Inr (Some b)" "x \<in> set xs" "y \<in> set xs"
      and le: "\<forall>k l. submission_order (pt_price_of p) ctx x = Inr k \<longrightarrow> submission_order (pt_price_of p) ctx y = Inr l \<longrightarrow> k \<le> l"
    moreover obtain k l where kl: "submission_order (pt_price_of p) ctx x = Inr k" "submission_order (pt_price_of p) ctx y = Inr l"
      using sorted_intents_ranks(1) [OF Inr] calculation by blast
    ultimately have "fst k = (case rq_side a of OSELL \<Rightarrow> 0 | OBUY \<Rightarrow> 1)" "fst l = (case rq_side b of OSELL \<Rightarrow> 0 | OBUY \<Rightarrow> 1)"
      using order_for_rank by (metis prod.collapse)+
    moreover have "k \<le> l" using le kl by blast
    then have "fst k \<le> fst l" by (auto simp: less_eq_prod_def)
    ultimately show "rq_side a = OBUY \<longrightarrow> rq_side b = OBUY" by (auto split: order_side.splits)
  qed
  from split_by_side [OF this] run os Inr show ?thesis by (auto simp: submit_intents_def logged_def list_all_iff)
qed

section \<open>Restarts over a durable store\<close>

text \<open>A client of a store sends through ports whose store operations are the store's own.\<close>

locale durable_submission = state_store inv save get mark dup norm
  for inv :: "'s \<Rightarrow> bool" and save get mark dup norm +
  fixes p :: "('s, 'b) ports"
  assumes port_save: "pt_save p = save" and port_mark: "pt_mark_intent p = mark"
    and port_dup: "pt_is_duplicate_intent p = dup"
begin

definition marked :: "('s, 'b \<times> order_request list) execution_state \<Rightarrow> bool" where
  "marked st \<longleftrightarrow> distinct (sent_keys st) \<and> (\<forall>k \<in> set (sent_keys st). dup (xs_store st) k)"

lemma submit_one_marked:
  assumes "submit_one (logged p) ctx st intent = (st', r)" "marked st"
  shows "distinct (sent_keys st') \<and> (\<forall>x. r = Inr x \<longrightarrow> marked st')"
  using assms(1)
  by (cases rule: submit_one_cases)
    (use assms(2) in \<open>auto simp: marked_def port_save port_mark port_dup order_for_key dup_mark dup_save\<close>)

lemma submit_loop_marked:
  "submit_loop (logged p) ctx st acc xs = (st', r) \<Longrightarrow> marked st \<Longrightarrow>
   distinct (sent_keys st') \<and> (\<forall>x. r = Inr x \<longrightarrow> marked st')"
proof (induction xs arbitrary: st acc)
  case (Cons x xs)
  obtain u v where u: "submit_one (logged p) ctx st x = (u, v)" by force
  then have "distinct (sent_keys u) \<and> (\<forall>x. v = Inr x \<longrightarrow> marked u)" using Cons.prems(2) by (rule submit_one_marked)
  with u Cons show ?case by (auto split: sum.splits option.splits)
qed (auto simp: marked_def)

lemma submit_intents_marked:
  "submit_intents (logged p) ctx st xs = (st', r) \<Longrightarrow> marked st \<Longrightarrow>
   distinct (sent_keys st') \<and> (\<forall>x. r = Inr x \<longrightarrow> marked st')"
  by (auto simp: submit_intents_def marked_def dest: submit_loop_marked split: sum.splits)

end

text \<open>Every run of the process starts with a new gate over the same broker and store; the sequence goes on
  as long as the runs return.\<close>

definition restart :: "readiness_evidence option \<Rightarrow> ('s, 'b) execution_state \<Rightarrow> ('s, 'b) execution_state" where
  "restart evidence st = st\<lparr>xs_gate := submission_gate_init evidence\<rparr>"

fun completed_runs ::
  "('s, 'b) ports \<Rightarrow> ('s, 'b) execution_state \<Rightarrow> (execution_context \<times> readiness_evidence option \<times> trade_intent list) list \<Rightarrow>
   ('s, 'b) execution_state option" where
  "completed_runs p st [] = Some st"
| "completed_runs p st ((ctx, evidence, xs) # rest) =
     (case submit_intents p ctx (restart evidence st) xs of
        (st', Inr _) \<Rightarrow> completed_runs p st' rest
      | (st', Inl _) \<Rightarrow> None)"

context durable_submission
begin

lemma restart_marked: "marked (restart ev st) = marked st"
  by (simp add: marked_def restart_def)

lemma completed_runs_marked: "completed_runs (logged p) st runs = Some st' \<Longrightarrow> marked st \<Longrightarrow> marked st'"
proof (induction runs arbitrary: st)
  case (Cons run runs)
  obtain ctx ev xs where run: "run = (ctx, ev, xs)" using prod_cases3 by blast
  obtain u v where u: "submit_intents (logged p) ctx (restart ev st) xs = (u, v)" by force
  with Cons.prems(1) run obtain x where "v = Inr x" "completed_runs (logged p) u runs = Some st'"
    by (auto split: sum.splits)
  with submit_intents_marked [OF u] Cons.prems(2) Cons.IH show ?case by (simp add: restart_marked)
qed simp

lemma restarts_send_each_key_once:
  assumes "completed_runs (logged p) st runs = Some st'" "sent st = []"
  shows "distinct (sent_keys (fst (submit_intents (logged p) ctx (restart ev st') xs)))"
  using submit_intents_marked [OF prod.collapse [symmetric]] completed_runs_marked [OF assms(1)] assms(2)
  by (simp add: marked_def [of st] restart_marked)

end

definition sqlite_ports ::
  "('b \<Rightarrow> order_request \<Rightarrow> 'b \<times> order_state_record res) \<Rightarrow> (string \<Rightarrow> pyfloat res) \<Rightarrow> (sqlite_store, 'b) ports" where
  "sqlite_ports submit price_of = \<lparr>pt_submit = submit, pt_save = sqlite_save, pt_mark_intent = sqlite_mark_intent,
     pt_is_duplicate_intent = sqlite_is_duplicate_intent, pt_price_of = price_of\<rparr>"

definition memory_ports ::
  "('b \<Rightarrow> order_request \<Rightarrow> 'b \<times> order_state_record res) \<Rightarrow> (string \<Rightarrow> pyfloat res) \<Rightarrow> (memory_store, 'b) ports" where
  "memory_ports submit price_of = \<lparr>pt_submit = submit, pt_save = memory_save, pt_mark_intent = memory_mark_intent,
     pt_is_duplicate_intent = memory_is_duplicate_intent, pt_price_of = price_of\<rparr>"

interpretation sqlite_submission: durable_submission sqlite_inv sqlite_save sqlite_get sqlite_mark_intent
  sqlite_is_duplicate_intent normal "sqlite_ports submit price_of" for submit price_of
  by unfold_locales (simp_all add: sqlite_ports_def)

interpretation memory_submission: durable_submission "\<lambda>_. True" memory_save memory_get memory_mark_intent
  memory_is_duplicate_intent id "memory_ports submit price_of" for submit price_of
  by unfold_locales (simp_all add: memory_ports_def)

text \<open>C18. The store makes the promise survive restarts: after any number of process runs that returned,
  each with its own new gate over the same SQLite store, the next run cannot hand the broker a key that any
  run has sent, even when that next run raises half way.\<close>

theorem restarts_over_sqlite_send_each_key_once:
  assumes "completed_runs (logged (sqlite_ports submit price_of)) st runs = Some st'" "sent st = []"
  shows "distinct (sent_keys (fst (submit_intents (logged (sqlite_ports submit price_of)) ctx (restart ev st') batch)))"
  using assms by (rule sqlite_submission.restarts_send_each_key_once)

section \<open>A concrete batch\<close>

definition demo_intent :: trade_intent where
  "demo_intent = \<lparr>ti_intent_id = ''i1'', ti_asset_kind = STOCK, ti_instrument_id = ''A'', ti_target_value = Fin 1000,
     ti_decision_time = Aware 0, ti_execution_time = Aware 36000000000, ti_strategy_id = ''s'', ti_reason = ''sealed-target'',
     ti_idempotency_key = ''k1'', ti_account_snapshot_id = ''snap'', ti_reference_price_guard_bps = None,
     ti_target_quantity = Some 10\<rparr>"

definition demo_context :: "string \<Rightarrow> execution_context" where
  "demo_context mode = \<lparr>ec_settings = DEFAULT_EXECUTION\<lparr>es_default_mode := mode\<rparr>, ec_account = ''paper'', ec_now = Aware 0,
     ec_positions = None, ec_instruments = [], ec_zone = (\<lambda>_. 0), ec_system_utc = (\<lambda>t. t)\<rparr>"

definition demo_state :: "(sqlite_store, paper_broker \<times> order_request list) execution_state" where
  "demo_state = \<lparr>xs_gate = submission_gate_init None, xs_broker = (paper_broker_init ''paper'', []), xs_store = sqlite_init\<rparr>"

abbreviation demo_ports :: "(sqlite_store, paper_broker \<times> order_request list) ports" where
  "demo_ports \<equiv> logged (sqlite_ports paper_submit (constant_price_of (Fin 100)))"

lemma demo_double: "to_float 10 = Fin 10" "to_float 100 = Fin 100"
  using is_double_of_int [of 10] is_double_of_int [of 100] by (simp_all add: is_double_def)

lemmas demo_submit = submit_intents_def sorted_intents_def submission_order_def constant_price_of_def quantity_of_def
  context_positions_def lot_size_of_def submit_one_def validate_def in_session_def KRX_DAILY_def local_time_def day_us_def
  authorize_def plan_order_request_def planned_quantity_def order_request_init_def paper_submit_def logged_def sqlite_ports_def
  demo_intent_def demo_context_def DEFAULT_EXECUTION_def submission_gate_init_def no_evidence_def fle_def
  sqlite_save_def encode_def sql_bind_def row_of_def sqlite_mark_intent_def sqlite_is_duplicate_intent_def

lemma demo_completed_run:
  "\<exists>st. completed_runs demo_ports demo_state [(demo_context ''paper'', None, [demo_intent])] = Some st \<and> length (sent st) = 1"
  by (simp add: demo_submit demo_state_def restart_def sqlite_init_def demo_double Let_def)

theorem plan_order_request_reaches_target_witness:
  "\<exists>r. plan_order_request demo_intent ''o'' (Aware 0) (Fin 100) 12 1 = Inr (Some r) \<and> rq_side r = OSELL \<and> rq_quantity r = 2
     \<and> planned_quantity demo_intent (Fin 100) 1 = Inr 10"
  using plan_order_request_reaches_target [of demo_intent "''o''" "Aware 0" "Fin 100" 12 1, OF _ refl]
  by (auto simp: demo_submit trade_intent_init_def Let_def)

theorem one_gate_sends_each_key_once_witness:
  "distinct (sent_keys (submit_batches demo_ports demo_state
     [(demo_context ''paper'', [demo_intent]), (demo_context ''paper'', [demo_intent])]))"
  by (rule one_gate_sends_each_key_once [of _ None]) (simp_all add: demo_state_def)

theorem live_mode_requires_complete_evidence_witness:
  "fst (submit_intents demo_ports (demo_context ''live'') demo_state [demo_intent]) = demo_state
     \<and> (\<exists>e. snd (submit_intents demo_ports (demo_context ''live'') demo_state [demo_intent]) = Inl e)"
  using live_mode_requires_complete_evidence [of "demo_context ''live''" demo_state _ "[demo_intent]", OF _ _ prod.collapse [symmetric]]
  by (simp add: demo_context_def demo_state_def submission_gate_init_def no_evidence_def complete_def)

theorem restarts_over_sqlite_send_each_key_once_witness:
  "\<exists>st. completed_runs demo_ports demo_state [(demo_context ''paper'', None, [demo_intent])] = Some st \<and> length (sent st) = 1
     \<and> distinct (sent_keys (fst (submit_intents demo_ports (demo_context ''paper'') (restart None st) [demo_intent])))"
proof -
  obtain st where st: "completed_runs demo_ports demo_state [(demo_context ''paper'', None, [demo_intent])] = Some st" "length (sent st) = 1"
    using demo_completed_run by blast
  moreover have "sent demo_state = []" by (simp add: demo_state_def)
  ultimately show ?thesis using restarts_over_sqlite_send_each_key_once [OF st(1)] by blast
qed

end
