(* ===== verification/PlanProps.thy ===== *)
theory PlanProps
  imports PlanOrders SubmitProps
begin

text \<open>
  The planner against its two neighbours: it sizes positions as the backtest engine does, and what it plans
  is what the submission path accepts.
\<close>

section \<open>One instrument\<close>

lemma plan_one_skip:
  assumes "plan_one c n = Inr None"
  obtains price held weight q where "sealed_price (pc_decision c) (pc_reference_prices c) n = Inr price"
    "quantity_of (pc_snapshot c) n = Inr held" "target_shares (pc_decision c) (pc_nav_krw c) (pc_scale c) price n = Inr (weight, q)"
    "q = held \<or> (\<exists>p. float_of_int price = Inr p \<and> inside_band (pc_band c) held weight q (q - held) p = Inr True)"
  using assms by (auto simp: plan_one_def Let_def res_simps split: if_splits)

lemma plan_one_intent:
  assumes "plan_one c n = Inr (Some i)"
  obtains price held weight q p where "sealed_price (pc_decision c) (pc_reference_prices c) n = Inr price"
    "quantity_of (pc_snapshot c) n = Inr held" "target_shares (pc_decision c) (pc_nav_krw c) (pc_scale c) price n = Inr (weight, q)"
    "q \<noteq> held" "float_of_int price = Inr p" "inside_band (pc_band c) held weight q (q - held) p = Inr False"
    "trade_intent_init i = Inr i" "ti_target_quantity i = Some q" "ti_instrument_id i = n"
    "ti_idempotency_key i = take 16 (td_hash (pc_decision c)) @ '':'' @ n"
    "ti_intent_id i = isoformat (td_execution_session (pc_decision c)) @ '':'' @ n"
    "ti_execution_time i = pc_execution_time c" "ti_decision_time i = td_sealed_at (pc_decision c)"
    "ti_account_snapshot_id i = ps_account_snapshot_id (pc_snapshot c)"
proof -
  let ?x = "\<lambda>tv q. \<lparr>ti_intent_id = isoformat (td_execution_session (pc_decision c)) @ '':'' @ n,
     ti_asset_kind = dict_get (add_kinds [] (ps_positions (pc_snapshot c))) n STOCK, ti_instrument_id = n,
     ti_target_value = tv, ti_decision_time = td_sealed_at (pc_decision c),
     ti_execution_time = pc_execution_time c, ti_strategy_id = pc_strategy_id c, ti_reason = ''sealed-target'',
     ti_idempotency_key = take 16 (td_hash (pc_decision c)) @ '':'' @ n,
     ti_account_snapshot_id = ps_account_snapshot_id (pc_snapshot c), ti_reference_price_guard_bps = None,
     ti_target_quantity = Some q\<rparr>"
  have init: "y = x" if "trade_intent_init x = Inr y" for x y using that by (auto simp: trade_intent_init_def res_simps)
  from assms obtain price held weight q p tv where f: "sealed_price (pc_decision c) (pc_reference_prices c) n = Inr price"
    "quantity_of (pc_snapshot c) n = Inr held" "target_shares (pc_decision c) (pc_nav_krw c) (pc_scale c) price n = Inr (weight, q)"
    "q \<noteq> held" "float_of_int price = Inr p" "inside_band (pc_band c) held weight q (q - held) p = Inr False"
    "trade_intent_init (?x tv q) = Inr i"
    by (auto simp: plan_one_def Let_def res_simps split: if_splits)
  moreover have "i = ?x tv q" by (rule init [OF f(7)])
  ultimately show thesis using that [of price held weight q p] by simp
qed

lemma fdiv_double: "fdiv a b = Inr (Fin x) \<Longrightarrow> is_double x"
  by (cases a; cases b) (auto simp: inf_of_sign_def split: if_splits intro: to_float_double)

lemma inside_band_at_target:
  assumes "fdiv a b = Inr x" "math_floor x = Inr q"
  shows "\<exists>skip. inside_band band held weight q 0 p = Inr skip"
proof (cases x)
  case (Fin y)
  then have "float_of_int q = Inr (Fin (of_int q))" if "0 < q"
  proof -
    have "0 \<le> y" using that assms(2) Fin by (metis math_floor.simps(1) sum.inject(2) floor_less_zero not_le order.asym)
    then show ?thesis using assms Fin fdiv_double [of a b y] float_of_int_floor [of y] by simp
  qed
  moreover have "float_of_int 0 = Inr (Fin 0)" using float_of_int_exact [of 0] by simp
  ultimately show ?thesis by (cases "fless (Fin 0) band \<and> 0 < held \<and> fless (Fin 0) weight \<and> 0 < q") (auto simp: inside_band_def)
qed (use assms in auto)

lemma engine_size:
  assumes "target_shares d nav scale price n = Inr (weight, q)" "map_of (td_targets d) n = Some w" "0 < price"
    and "array_get present k = Inr True" "array_get close k = Inr price" "float_of_int price = Inr p"
  shows "w = weight \<and> weight_orders close present t holdings nav scale band (k, weight) =
    (let held = dict_get holdings k 0; delta = q - held in
     res_bind (inside_band band held weight q delta p) (\<lambda>skip.
     if skip then Inr [] else if 0 < delta then Inr [mk_order k SideBUY delta t]
     else if delta < 0 then Inr [mk_order k SideSELL (- delta) t] else Inr []))"
  using assms by (auto simp: target_shares_def weight_orders_def res_simps Let_def)

definition engine_side :: "order_side \<Rightarrow> side" where
  "engine_side sd = (case sd of OBUY \<Rightarrow> SideBUY | OSELL \<Rightarrow> SideSELL)"

lemma plan_order_request_hard_target:
  assumes "trade_intent_init i = Inr i" "ti_target_quantity i = Some q" "0 \<le> held" "0 < price" "q \<noteq> held"
  shows "\<exists>rq. plan_order_request i oid now (Fin (of_int price)) held 1 = Inr (Some rq)
    \<and> rq_side rq = (if held < q then OBUY else OSELL) \<and> rq_quantity rq = \<bar>q - held\<bar>"
proof -
  have "0 \<le> q" "ti_account_snapshot_id i \<noteq> []" using assms(1,2) by (auto simp: trade_intent_init_def res_simps)
  with assms show ?thesis
    by (auto simp: plan_order_request_def planned_quantity_def order_request_init_def guard_def Let_def fle_def)
qed

lemma target_shares_weight: "target_shares d nav scale price n = Inr (weight, q) \<Longrightarrow> map_of (td_targets d) n = Some w \<Longrightarrow> w = weight"
  by (auto simp: target_shares_def res_simps)

text \<open>C20. Live planning and the backtest size alike: for an instrument of the decision, with the same
  price, holding, net asset value, buffer scale and band, the planner emits an intent exactly when the engine
  emits an order, and the order the submission path makes of the intent has the engine's side and quantity.\<close>

theorem live_orders_match_backtest_orders:
  assumes plan: "plan_one c n = Inr out" and weight: "map_of (td_targets (pc_decision c)) n = Some weight"
    and price: "map_of (pc_reference_prices c) n = Some price" and held: "quantity_of (pc_snapshot c) n = Inr held" "0 \<le> held"
    and day: "array_get present k = Inr True" "array_get close k = Inr price" "dict_get holdings k 0 = held"
  shows "\<exists>orders. weight_orders close present t holdings (pc_nav_krw c) (pc_scale c) (pc_band c) (k, weight) = Inr orders
    \<and> (case out of None \<Rightarrow> orders = []
       | Some i \<Rightarrow> \<exists>rq. plan_order_request i oid now (Fin (of_int price)) held 1 = Inr (Some rq)
           \<and> orders = [mk_order k (engine_side (rq_side rq)) (rq_quantity rq) t])"
proof (cases out)
  case None
  obtain price' held' w q where *: "sealed_price (pc_decision c) (pc_reference_prices c) n = Inr price'"
    "quantity_of (pc_snapshot c) n = Inr held'" "target_shares (pc_decision c) (pc_nav_krw c) (pc_scale c) price' n = Inr (w, q)"
    "q = held' \<or> (\<exists>p. float_of_int price' = Inr p \<and> inside_band (pc_band c) held' w q (q - held') p = Inr True)"
    by (rule plan_one_skip [OF plan [unfolded None]])
  have [simp]: "price' = price" "held' = held" using *(1,2) price held by (auto simp: sealed_price_def res_simps)
  note q = *(1,3,4) [simplified]
  from q(2) weight obtain p a b x where p: "float_of_int price = Inr p" "fdiv a b = Inr x" "math_floor x = Inr q"
    by (auto simp: target_shares_def res_simps)
  have "0 < price" using q(1) price by (auto simp: sealed_price_def res_simps)
  note size = engine_size [OF q(2) weight this day(1,2) p(1)] day(3)
  from q(3) inside_band_at_target [OF p(2,3)] p(1) size None show ?thesis
    by (auto simp: Let_def) (metis res_bind_simps(2))+
next
  case (Some i)
  obtain price' held' w q p where *: "sealed_price (pc_decision c) (pc_reference_prices c) n = Inr price'"
    "quantity_of (pc_snapshot c) n = Inr held'" "target_shares (pc_decision c) (pc_nav_krw c) (pc_scale c) price' n = Inr (w, q)"
    "q \<noteq> held'" "float_of_int price' = Inr p" "inside_band (pc_band c) held' w q (q - held') p = Inr False"
    "trade_intent_init i = Inr i" "ti_target_quantity i = Some q"
    by (rule plan_one_intent [OF plan [unfolded Some]])
  have [simp]: "price' = price" "held' = held" using *(1,2) price held by (auto simp: sealed_price_def res_simps)
  note q = *(1,3-8) [simplified]
  have "0 < price" using q(1) price by (auto simp: sealed_price_def res_simps)
  with plan_order_request_hard_target [OF q(6,7) held(2) this q(3), of oid now]
    engine_size [OF q(2) weight this day(1,2) q(4), of t holdings "pc_band c"] q(3,5) day(3) Some show ?thesis
    by (auto simp: Let_def engine_side_def)
qed

section \<open>The whole plan\<close>

abbreviation opt_list :: "'a option \<Rightarrow> 'a list" where
  "opt_list x \<equiv> case x of None \<Rightarrow> [] | Some i \<Rightarrow> [i]"

lemma plan_intents_Inr:
  assumes "plan_intents at_wall d s nav refs buf band sid pt = Inr intents"
  obtains c found where "pc_decision c = d" "pc_snapshot c = s"
    "pc_execution_time c = Aware (session_open_instant at_wall (td_execution_session d))"
    "mapM (plan_one c) (planned_names d s) = Inr found" "intents = concat (map opt_list found)"
    "pc_nav_krw c = nav" "pc_reference_prices c = refs" "pc_scale c = fsub (Fin 1) buf" "pc_band c = band"
proof -
  let ?c = "\<lparr>pc_decision = d, pc_snapshot = s, pc_nav_krw = nav, pc_reference_prices = refs, pc_scale = fsub (Fin 1) buf,
    pc_band = band, pc_strategy_id = sid, pc_execution_time = Aware (session_open_instant at_wall (td_execution_session d))\<rparr>"
  from assms obtain found where "mapM (plan_one ?c) (planned_names d s) = Inr found" "intents = concat (map opt_list found)"
    by (auto simp: plan_intents_def res_simps Let_def)
  then show thesis by (intro that [of ?c]) simp_all
qed

lemma planned_names_sorted: "sorted_wrt (<) (planned_names d s)"
  by (simp add: planned_names_def strict_sorted_iff)

lemma planned_subseq:
  "mapM (plan_one c) names = Inr found \<Longrightarrow> subseq (map ti_instrument_id (concat (map opt_list found))) names"
proof (induction names arbitrary: found)
  case (Cons n names)
  then obtain x rest where x: "plan_one c n = Inr x" "mapM (plan_one c) names = Inr rest" "found = x # rest" by (auto simp: res_simps)
  with Cons.IH [OF x(2)] show ?case by (cases x) (auto elim: plan_one_intent)
qed simp

lemma planned_mem:
  "mapM (plan_one c) names = Inr found \<Longrightarrow> i \<in> set (concat (map opt_list found)) \<Longrightarrow> \<exists>n \<in> set names. plan_one c n = Inr (Some i)"
proof (induction names arbitrary: found)
  case (Cons n names)
  then obtain x rest where x: "plan_one c n = Inr x" "mapM (plan_one c) names = Inr rest" "found = x # rest" by (auto simp: res_simps)
  with Cons.IH [OF x(2)] Cons.prems(2) show ?case by (cases x) auto
qed simp

lemma planned_ids_keys:
  assumes "plan_intents at_wall d s nav refs buf band sid pt = Inr intents"
  shows "sorted_wrt (<) (map ti_instrument_id intents)"
    "map ti_idempotency_key intents = map (\<lambda>i. take 16 (td_hash d) @ '':'' @ ti_instrument_id i) intents"
    "map ti_intent_id intents = map (\<lambda>i. isoformat (td_execution_session d) @ '':'' @ ti_instrument_id i) intents"
proof -
  from plan_intents_Inr [OF assms] obtain c found where c: "pc_decision c = d"
    "mapM (plan_one c) (planned_names d s) = Inr found" "intents = concat (map opt_list found)" by metis
  show "sorted_wrt (<) (map ti_instrument_id intents)"
    using subseq_sorted_wrt [OF planned_subseq [OF c(2)] planned_names_sorted] c(3) by simp
  have "ti_idempotency_key i = take 16 (td_hash d) @ '':'' @ ti_instrument_id i
      \<and> ti_intent_id i = isoformat (td_execution_session d) @ '':'' @ ti_instrument_id i" if "i \<in> set intents" for i
  proof -
    from planned_mem [OF c(2)] that c(3) obtain n where "plan_one c n = Inr (Some i)" by blast
    then show ?thesis by (rule plan_one_intent) (use c(1) in simp)
  qed
  then show "map ti_idempotency_key intents = map (\<lambda>i. take 16 (td_hash d) @ '':'' @ ti_instrument_id i) intents"
    "map ti_intent_id intents = map (\<lambda>i. isoformat (td_execution_session d) @ '':'' @ ti_instrument_id i) intents"
    by simp_all
qed

lemma distinct_prefixed: "distinct xs \<Longrightarrow> distinct (map (\<lambda>x. p @ q @ x) xs)"
  by (simp add: distinct_map inj_on_def)

lemma planned_distinct:
  assumes "plan_intents at_wall d s nav refs buf band sid pt = Inr intents"
  shows "distinct (map ti_idempotency_key intents)" "distinct (map ti_intent_id intents)"
proof -
  have "distinct (map (\<lambda>i. p @ q @ ti_instrument_id i) intents)" for p q
    using planned_ids_keys(1) [OF assms] distinct_prefixed [of "map ti_instrument_id intents"]
    by (simp add: strict_sorted_iff comp_def)
  then show "distinct (map ti_idempotency_key intents)" "distinct (map ti_intent_id intents)"
    unfolding planned_ids_keys(2,3) [OF assms] by blast+
qed

lemma target_shares_absent:
  "target_shares d nav scale price n = Inr (w, q) \<Longrightarrow> n \<notin> set (dict_keys (td_targets d)) \<Longrightarrow> q = 0"
  using map_of_eq_None_iff [of "td_targets d" n] by (simp add: target_shares_def dict_keys_def)

lemma planned_complete:
  "mapM (plan_one c) names = Inr found \<Longrightarrow> n \<in> set names \<Longrightarrow>
   \<exists>x. plan_one c n = Inr x \<and> (\<forall>i. x = Some i \<longrightarrow> i \<in> set (concat (map opt_list found)))"
proof (induction names arbitrary: found)
  case (Cons m names)
  then obtain x rest where x: "plan_one c m = Inr x" "mapM (plan_one c) names = Inr rest" "found = x # rest" by (auto simp: res_simps)
  with Cons.IH [OF x(2)] Cons.prems(2) show ?case by (cases "n = m") auto
qed simp

lemma inside_band_no_weight: "inside_band band held (Fin 0) q delta p = Inr False"
  by (simp add: inside_band_def)

text \<open>The outcome for one instrument: what the sealed prices and the snapshot say it needs, and whether it is skipped.\<close>

definition stays :: "pyfloat \<Rightarrow> int \<Rightarrow> pyfloat \<Rightarrow> int \<Rightarrow> int \<Rightarrow> bool" where
  "stays band held weight q price \<longleftrightarrow> q = held \<or> (\<exists>p. float_of_int price = Inr p \<and> inside_band band held weight q (q - held) p = Inr True)"

lemma plan_one_outcome:
  assumes "plan_one c n = Inr x"
  obtains price held weight q where "sealed_price (pc_decision c) (pc_reference_prices c) n = Inr price"
    "quantity_of (pc_snapshot c) n = Inr held" "target_shares (pc_decision c) (pc_nav_krw c) (pc_scale c) price n = Inr (weight, q)"
    "case x of None \<Rightarrow> stays (pc_band c) held weight q price
     | Some i \<Rightarrow> \<not> stays (pc_band c) held weight q price \<and> ti_instrument_id i = n \<and> ti_target_quantity i = Some q"
proof (cases x)
  case None
  show ?thesis by (rule plan_one_skip [OF assms [unfolded None]], rule that) (auto simp: None stays_def)
next
  case (Some i)
  show ?thesis by (rule plan_one_intent [OF assms [unfolded Some]], rule that) (auto simp: Some stays_def)
qed

text \<open>C26. A plan moves exactly the instruments that have to move, each once. Over the instruments of the decision and of the snapshot
  (and no others), each has a sealed price, a holding and a target from its weight, the net asset value and the buffer; it has an
  intent, for that target, exactly if the target differs from the holding and the difference is not inside the rebalancing band. What
  is held outside the decision has the target zero and no band, so it is sold off whenever something is held. Instrument ids increase
  strictly, idempotency keys and intent ids are distinct, and every intent passed its constructor.\<close>

theorem plan_moves_each_instrument_once:
  assumes "plan_intents at_wall d s nav refs buf band sid pt = Inr intents"
  shows "sorted_wrt (<) (map ti_instrument_id intents) \<and> distinct (map ti_idempotency_key intents)
    \<and> distinct (map ti_intent_id intents) \<and> (\<forall>i \<in> set intents. trade_intent_init i = Inr i)
    \<and> set (map ti_instrument_id intents) \<subseteq> set (dict_keys (td_targets d) @ map position_id (ps_positions s))
    \<and> (\<forall>n \<in> set (dict_keys (td_targets d) @ map position_id (ps_positions s)). \<exists>price held weight q.
         sealed_price d refs n = Inr price \<and> quantity_of s n = Inr held
         \<and> target_shares d nav (fsub (Fin 1) buf) price n = Inr (weight, q)
         \<and> (if stays band held weight q price then n \<notin> set (map ti_instrument_id intents)
            else \<exists>i \<in> set intents. ti_instrument_id i = n \<and> ti_target_quantity i = Some q)
         \<and> (n \<notin> set (dict_keys (td_targets d)) \<longrightarrow> q = 0 \<and> (stays band held weight q price \<longleftrightarrow> held = 0)))"
proof -
  obtain c found where c: "pc_decision c = d" "pc_snapshot c = s"
    "mapM (plan_one c) (planned_names d s) = Inr found" "intents = concat (map opt_list found)"
    "pc_nav_krw c = nav" "pc_reference_prices c = refs" "pc_scale c = fsub (Fin 1) buf" "pc_band c = band"
    by (rule plan_intents_Inr [OF assms])
  have names: "set (planned_names d s) = set (dict_keys (td_targets d) @ map position_id (ps_positions s))" by (simp add: planned_names_def)
  have from_one: "\<exists>n \<in> set (planned_names d s). plan_one c n = Inr (Some i) \<and> ti_instrument_id i = n \<and> trade_intent_init i = Inr i"
    if "i \<in> set intents" for i
    using planned_mem [OF c(3)] that c(4) by (metis plan_one_intent)
  have outcome: "\<exists>price held weight q. sealed_price d refs n = Inr price \<and> quantity_of s n = Inr held
      \<and> target_shares d nav (fsub (Fin 1) buf) price n = Inr (weight, q)
      \<and> (if stays band held weight q price then n \<notin> set (map ti_instrument_id intents)
         else \<exists>i \<in> set intents. ti_instrument_id i = n \<and> ti_target_quantity i = Some q)
      \<and> (n \<notin> set (dict_keys (td_targets d)) \<longrightarrow> q = 0 \<and> (stays band held weight q price \<longleftrightarrow> held = 0))"
    if n: "n \<in> set (planned_names d s)" for n
  proof -
    obtain x where x: "plan_one c n = Inr x" "\<forall>i. x = Some i \<longrightarrow> i \<in> set intents" using planned_complete [OF c(3) n] c(4) by blast
    obtain price held weight q where o: "sealed_price d refs n = Inr price" "quantity_of s n = Inr held"
      "target_shares d nav (fsub (Fin 1) buf) price n = Inr (weight, q)"
      "case x of None \<Rightarrow> stays band held weight q price
       | Some i \<Rightarrow> \<not> stays band held weight q price \<and> ti_instrument_id i = n \<and> ti_target_quantity i = Some q"
      by (rule plan_one_outcome [OF x(1), unfolded c(1,2,5-8)])
    have absent: "weight = Fin 0 \<and> q = 0" if "n \<notin> set (dict_keys (td_targets d))"
      using o(3) that map_of_eq_None_iff [of "td_targets d" n] by (simp add: target_shares_def dict_keys_def)
    have "n \<notin> set (map ti_instrument_id intents)" if "x = None" using from_one x(1) that by fastforce
    then have "if stays band held weight q price then n \<notin> set (map ti_instrument_id intents)
        else \<exists>i \<in> set intents. ti_instrument_id i = n \<and> ti_target_quantity i = Some q"
      using o(4) x(2) by (cases x) auto
    moreover have "n \<notin> set (dict_keys (td_targets d)) \<longrightarrow> q = 0 \<and> (stays band held weight q price \<longleftrightarrow> held = 0)"
      using absent by (auto simp: stays_def inside_band_no_weight)
    ultimately show ?thesis using o(1-3) by blast
  qed
  have "set (map ti_instrument_id intents) \<subseteq> set (planned_names d s)" using from_one by fastforce
  moreover have "\<forall>i \<in> set intents. trade_intent_init i = Inr i" using from_one by blast
  ultimately show ?thesis unfolding names [symmetric]
    using planned_ids_keys(1) [OF assms] planned_distinct [OF assms] outcome by (intro conjI ballI) blast+
qed

section \<open>What is planned is accepted\<close>

lemma open_in_session:
  assumes "\<forall>w. at_wall w + tz (at_wall w) = w"
  shows "in_session (KRX_DAILY tz) (session_open_instant at_wall d)"
proof -
  have "local_time tz (session_open_instant at_wall d) = (9 * 3600000000 + (toordinal d - 1) * day_us) mod day_us"
    using assms by (simp add: local_time_def session_open_instant_def add.commute)
  also have "\<dots> = 9 * 3600000000" unfolding mod_mult_self1 by (simp add: day_us_def)
  finally show ?thesis by (simp add: in_session_def KRX_DAILY_def)
qed

lemma authorize_all:
  assumes "distinct (map ti_idempotency_key xs)" "es_default_mode (ec_settings ctx) = ''paper''"
    and "set (map ti_idempotency_key xs) \<inter> set (sg_processed_keys g) = {}"
  shows "\<exists>g'. foldM (\<lambda>g i. authorize g (request_of ctx i)) g xs = Inr g'"
  using assms
proof (induction xs arbitrary: g)
  case (Cons x xs)
  let ?g = "g\<lparr>sg_processed_keys := List.insert (ti_idempotency_key x) (sg_processed_keys g)\<rparr>"
  have "authorize g (request_of ctx x) = Inr ?g" using Cons.prems by (simp add: authorize_def)
  moreover have "\<exists>g'. foldM (\<lambda>g i. authorize g (request_of ctx i)) ?g xs = Inr g'"
    by (rule Cons.IH) (use Cons.prems in auto)
  ultimately show ?case by simp
qed simp

text \<open>The planner and the boundary fit together: when the zone data is consistent at the open and none
  of the keys is marked in the store, every planned intent passes the validator, and in paper mode a new gate
  authorises the whole plan.\<close>

theorem planned_intents_pass_the_boundary:
  assumes plan: "plan_intents at_wall d s nav refs buf band sid pt = Inr intents"
    and zone: "\<forall>w. at_wall w + tz (at_wall w) = w"
    and unmarked: "\<forall>i \<in> set intents. \<not> is_duplicate (ti_idempotency_key i)"
    and paper: "es_default_mode (ec_settings ctx) = ''paper''"
  shows "(\<forall>i \<in> set intents. validate tz system_utc is_duplicate i = Inr ())
    \<and> (\<exists>g. foldM (\<lambda>g i. authorize g (request_of ctx i)) (submission_gate_init evidence) intents = Inr g)"
proof -
  obtain c found where c: "pc_execution_time c = Aware (session_open_instant at_wall (td_execution_session d))"
    "mapM (plan_one c) (planned_names d s) = Inr found" "intents = concat (map opt_list found)"
    by (rule plan_intents_Inr [OF plan])
  have "validate tz system_utc is_duplicate i = Inr ()" if i: "i \<in> set intents" for i
  proof -
    from planned_mem [OF c(2)] i c(3) obtain n where "plan_one c n = Inr (Some i)" by blast
    moreover have "\<not> is_duplicate (ti_idempotency_key i)" using unmarked i by blast
    ultimately show ?thesis
      by (elim plan_one_intent)
        (use c(1) open_in_session [OF zone] in \<open>auto simp: validate_def trade_intent_init_def res_simps\<close>)
  qed
  then show ?thesis
    using authorize_all [OF planned_distinct(1) [OF plan] paper] by (auto simp: submission_gate_init_def)
qed

section \<open>A concrete plan\<close>

definition demo_instrument :: instrument where
  "demo_instrument = \<lparr>in_instrument_id = ''B'', in_asset_kind = ETF, in_exchange = ''KRX'', in_symbol = ''B'', in_currency = ''KRW'',
     in_lot_size = 1\<rparr>"

definition demo_decision :: target_decision where
  "demo_decision = \<lparr>td_execution_session = Date 2026 3 3, td_sealed_at = Aware 0, td_models_id = ''m'',
     td_targets = [(''A'', Fin (1 / 2))], td_reference = [(''A'', Fin 100), (''B'', Fin 50)], td_hash = ''h''\<rparr>"

definition demo_snapshot :: portfolio_snapshot where
  "demo_snapshot = \<lparr>ps_account_snapshot_id = ''snap'', ps_as_of = Aware 0, ps_settled_cash = Fin 10000, ps_unsettled_cash = Fin 0,
     ps_positions = [\<lparr>po_instrument = demo_instrument, po_quantity = Fin 3, po_average_cost = Fin 50\<rparr>], ps_open_order_ids = []\<rparr>"

definition seoul_wall :: "int \<Rightarrow> int" where
  "seoul_wall w = w - 32400000000"

definition demo_plan_context :: plan_context where
  "demo_plan_context = \<lparr>pc_decision = demo_decision, pc_snapshot = demo_snapshot, pc_nav_krw = 10000,
     pc_reference_prices = [(''A'', 100), (''B'', 50)], pc_scale = Fin 1, pc_band = Fin 0, pc_strategy_id = ''m'',
     pc_execution_time = Aware (session_open_instant seoul_wall (Date 2026 3 3))\<rparr>"

lemma demo_open_instant: "session_open_instant seoul_wall (Date 2026 3 3) = 63908092800000000"
  by (simp add: session_open_instant_def seoul_wall_def toordinal_def days_before_year_def days_before_month_def days_in_month_def
      is_leap_def day_us_def eval_nat_numeral)

lemma demo_num: "float_of_int 10000 = Inr (Fin 10000)" "float_of_int 100 = Inr (Fin 100)" "float_of_int 50 = Inr (Fin 50)"
  "float_of_int 5000 = Inr (Fin 5000)" "float_of_int 0 = Inr (Fin 0)" "to_float 5000 = Fin 5000" "to_float 50 = Fin 50"
  "to_float 1 = Fin 1"
  using float_of_int_exact [of 10000] float_of_int_exact [of 100] float_of_int_exact [of 50] float_of_int_exact [of 5000]
    float_of_int_exact [of 0] is_double_of_int [of 5000] is_double_of_int [of 50] is_double_1 by (simp_all add: is_double_def)

lemmas demo_plan = plan_one_def sealed_price_def target_shares_def quantity_of_def trade_intent_init_def inside_band_def
  demo_plan_context_def demo_decision_def demo_snapshot_def demo_instrument_def demo_num demo_open_instant fle_def

lemma demo_plan_one:
  "\<exists>i. plan_one demo_plan_context ''A'' = Inr (Some i) \<and> ti_target_quantity i = Some 50"
  "\<exists>i. plan_one demo_plan_context ''B'' = Inr (Some i) \<and> ti_target_quantity i = Some 0"
  by (simp_all add: demo_plan)

lemma demo_plan_intents:
  "\<exists>intents. plan_intents seoul_wall demo_decision demo_snapshot 10000 [(''A'', 100), (''B'', 50)] (Fin 0) (Fin 0) ''m'' None
     = Inr intents \<and> length intents = 2"
proof -
  have "planned_names demo_decision demo_snapshot = [''A'', ''B'']"
    by (simp add: planned_names_def demo_decision_def demo_snapshot_def demo_instrument_def dict_keys_def)
  moreover have "fsub (Fin 1) (Fin 0) = Fin 1" by (simp add: fsub_def demo_num)
  ultimately show ?thesis
    by (simp add: plan_intents_def validate_as_of_def demo_plan Let_def)
qed

theorem live_orders_match_backtest_orders_witness:
  "\<exists>i orders. plan_one demo_plan_context ''A'' = Inr (Some i)
     \<and> weight_orders [100] [True] 0 [] 10000 (Fin 1) (Fin 0) (0, Fin (1 / 2)) = Inr orders \<and> orders \<noteq> []"
proof -
  obtain i where i: "plan_one demo_plan_context ''A'' = Inr (Some i)" using demo_plan_one(1) by blast
  from live_orders_match_backtest_orders [OF i, of "Fin (1 / 2)" 100 0 "[True]" 0 "[100]" "[]" 0]
  show ?thesis using i by (auto simp: demo_plan_context_def demo_decision_def demo_snapshot_def demo_instrument_def
        quantity_of_def array_get_def)
qed

theorem plan_moves_each_instrument_once_witness:
  "\<exists>intents. plan_intents seoul_wall demo_decision demo_snapshot 10000 [(''A'', 100), (''B'', 50)] (Fin 0) (Fin 0) ''m'' None
     = Inr intents \<and> length intents = 2 \<and> distinct (map ti_idempotency_key intents)
     \<and> (\<exists>price held weight q. sealed_price demo_decision [(''A'', 100), (''B'', 50)] ''A'' = Inr price \<and> quantity_of demo_snapshot ''A'' = Inr held
         \<and> (stays (Fin 0) held weight q price \<or> (\<exists>i \<in> set intents. ti_instrument_id i = ''A'' \<and> ti_target_quantity i = Some q)))"
proof -
  obtain intents where run: "plan_intents seoul_wall demo_decision demo_snapshot 10000 [(''A'', 100), (''B'', 50)] (Fin 0) (Fin 0) ''m'' None = Inr intents"
    "length intents = 2" using demo_plan_intents by blast
  have "''A'' \<in> set (dict_keys (td_targets demo_decision) @ map position_id (ps_positions demo_snapshot))"
    by (simp add: demo_decision_def dict_keys_def)
  with plan_moves_each_instrument_once [OF run(1)] have "\<exists>price held weight q. sealed_price demo_decision [(''A'', 100), (''B'', 50)] ''A'' = Inr price
      \<and> quantity_of demo_snapshot ''A'' = Inr held
      \<and> (stays (Fin 0) held weight q price \<or> (\<exists>i \<in> set intents. ti_instrument_id i = ''A'' \<and> ti_target_quantity i = Some q))"
    by (elim conjE) (drule bspec, assumption, metis)
  with run plan_moves_each_instrument_once [OF run(1)] show ?thesis by blast
qed

theorem planned_intents_pass_the_boundary_witness:
  "\<exists>intents. length intents = 2 \<and> (\<forall>i \<in> set intents. validate (\<lambda>_. 32400000000) id (\<lambda>_. False) i = Inr ())"
proof -
  obtain intents where i: "plan_intents seoul_wall demo_decision demo_snapshot 10000 [(''A'', 100), (''B'', 50)] (Fin 0) (Fin 0) ''m'' None
     = Inr intents" "length intents = 2" using demo_plan_intents by blast
  have "\<forall>w. seoul_wall w + 32400000000 = w" by (simp add: seoul_wall_def)
  moreover have "es_default_mode (ec_settings (demo_context ''paper'')) = ''paper''" by (simp add: demo_context_def)
  ultimately show ?thesis
    using planned_intents_pass_the_boundary [OF i(1), of "\<lambda>_. 32400000000" "\<lambda>_. False" "demo_context ''paper''"] i(2) by blast
qed

end
