(* ===== verification/RehearsalProps.thy ===== *)
theory RehearsalProps
  imports Rehearsal PlanProps
begin

text \<open>
  What the rehearsal gives: evidence is complete only after a full window of consecutive clean sessions, so
  live orders rest on one, and repeated rehearsals over the SQLite store send no order twice.
\<close>

section \<open>The window of clean sessions\<close>

definition next_session :: "(date \<Rightarrow> nat option) \<Rightarrow> rehearsal_report \<Rightarrow> rehearsal_report \<Rightarrow> bool" where
  "next_session idx a b \<longleftrightarrow> (\<exists>k. idx (rr_session a) = Some k \<and> idx (rr_session b) = Some (Suc k))"

definition trail_ok :: "(date \<Rightarrow> nat option) \<Rightarrow> rehearsal_report list \<Rightarrow> bool" where
  "trail_ok idx trailing \<longleftrightarrow> successively (next_session idx) trailing
     \<and> (\<forall>r \<in> set trailing. clean r \<and> 0 < rr_intents r \<and> idx (rr_session r) \<noteq> None)"

lemma trail_ok_Nil [simp]: "trail_ok idx []"
  by (simp add: trail_ok_def)

lemma trail_step_ok:
  assumes "trail_ok idx trailing" "suffix trailing seen"
  shows "trail_ok idx (trail_step idx trailing r) \<and> suffix (trail_step idx trailing r) (seen @ [r])"
proof (cases "idx (rr_session r)")
  case (Some k)
  show ?thesis
  proof (cases "trailing = [] \<or> Some k = map_option Suc (idx (rr_session (last trailing)))")
    case True
    then have "trailing = [] \<or> next_session idx (last trailing) r" using Some by (cases "idx (rr_session (last trailing))") (auto simp: next_session_def)
    with True assms Some show ?thesis
      by (auto simp: trail_step_def trail_ok_def successively_append_iff suffix_def)
  next
    case False
    with assms Some show ?thesis by (auto simp: trail_step_def trail_ok_def suffix_def)
  qed
qed (simp add: trail_step_def)

lemma trail_ok_fold:
  "trail_ok idx (foldl (trail_step idx) [] xs) \<and> suffix (foldl (trail_step idx) [] xs) xs"
proof (induction xs rule: rev_induct)
  case (snoc x xs)
  then show ?case using trail_step_ok [of idx "foldl (trail_step idx) [] xs" xs x] by (simp only: foldl_append foldl.simps)
qed simp

lemma trail_ok_suffix: "trail_ok idx xs \<Longrightarrow> suffix ys xs \<Longrightarrow> trail_ok idx ys"
  by (auto simp: trail_ok_def suffix_def successively_append_iff)

definition rehearsed_window ::
  "zone \<Rightarrow> (date \<Rightarrow> date \<Rightarrow> exchange_calendar) \<Rightarrow> rehearsal_report list \<Rightarrow> int \<Rightarrow> rehearsal_report list \<Rightarrow> bool" where
  "rehearsed_window tz get_calendar reports required_days window \<longleftrightarrow>
     int (length window) = required_days \<and> suffix window (sort_key rr_session reports)
     \<and> (\<exists>cal. xkrx_calendar_through get_calendar (rr_session (last window)) = Inr cal
          \<and> successively (next_session (session_indices tz cal)) window)
     \<and> (\<forall>r \<in> set window. rr_rejected r = 0 \<and> rr_position_mismatches r = [] \<and> 0 < rr_intents r \<and> rr_reconciled r
          \<and> rr_terminal_states_verified r \<and> rr_position_book_verified r)
     \<and> (\<exists>r \<in> set reports. 0 < rr_duplicates_blocked r \<and> rr_duplicate_orders_absent r)"

lemma complete_evidence_window:
  assumes "update_readiness tz get_calendar reports required_days = Inr (evidence, payload)" "complete evidence"
  shows "\<exists>window. rehearsed_window tz get_calendar reports required_days window"
proof -
  define ordered where "ordered = sort_key rr_session reports"
  from assms(1) obtain idx where req: "0 < required_days"
    and idx: "(if ordered = [] then Inr (\<lambda>_. None) else res_bind (xkrx_calendar_through get_calendar (rr_session (last ordered)))
        (\<lambda>cal. Inr (session_indices tz cal))) = Inr idx"
    and ev: "evidence = evidence_of ordered (foldl (trail_step idx) [] ordered) required_days"
    unfolding update_readiness_def Let_def ordered_def [symmetric] by (auto simp only: res_simps sum.inject prod.inject not_le)
  define trailing where "trailing = foldl (trail_step idx) [] ordered"
  define window where "window = last_n (nat required_days) trailing"
  have full: "required_days \<le> int (length trailing)"
    using assms(2) req by (auto simp: ev complete_def evidence_of_def trailing_def Let_def split: if_splits)
  then have len: "int (length window) = required_days" using req by (simp add: window_def last_n_def)
  have trail: "trail_ok idx window" "suffix window ordered"
    using trail_ok_fold [of idx ordered] suffix_drop [of _ trailing]
    by (auto simp: window_def last_n_def trailing_def [symmetric] intro: trail_ok_suffix suffix_order.trans)
  have "window \<noteq> []" "ordered \<noteq> []" "last window = last ordered"
    using len req trail(2) by (auto simp: suffix_def)
  then obtain cal where cal: "xkrx_calendar_through get_calendar (rr_session (last window)) = Inr cal" "idx = session_indices tz cal"
    using idx by (auto simp: res_simps)
  have "\<forall>r \<in> set window. rr_reconciled r \<and> rr_terminal_states_verified r \<and> rr_position_book_verified r"
    "\<exists>r \<in> set ordered. 0 < rr_duplicates_blocked r \<and> rr_duplicate_orders_absent r"
    using assms(2) full by (simp_all add: ev complete_def evidence_of_def trailing_def [symmetric] window_def [symmetric] Let_def
        list_all_iff list_ex_iff)
  then show ?thesis
    using len trail cal by (intro exI [of _ window]) (auto simp: rehearsed_window_def ordered_def trail_ok_def clean_def)
qed

text \<open>C19. Live orders rest on rehearsed sessions: if a gate built from the recorded evidence lets even one
  live order through, then the latest \<open>required_days\<close> reports are clean rehearsals of consecutive exchange
  sessions, with orders reconciled, terminal and in the books, and some rehearsal has blocked a duplicate.\<close>

theorem live_orders_rest_on_rehearsed_sessions:
  assumes "update_readiness tz get_calendar reports required_days = Inr (evidence, payload)"
    and "es_default_mode (ec_settings ctx) = ''live''" "xs_gate st = submission_gate_init (Some evidence)"
    and "sent (fst (submit_intents (logged p) ctx st batch)) \<noteq> sent st"
  shows "\<exists>window. rehearsed_window tz get_calendar reports required_days window"
proof -
  have "complete evidence"
  proof (rule ccontr)
    assume "\<not> complete evidence"
    then have inc: "\<not> complete (sg_readiness (xs_gate st))" using assms(3) by (simp add: submission_gate_init_def)
    have loop: "fst (submit_loop (logged p) ctx st acc xs) = st" for acc xs
    proof (cases xs)
      case (Cons x rest)
      obtain u r where "submit_one (logged p) ctx st x = (u, r)" by force
      with live_submit_one [OF this assms(2) inc] Cons show ?thesis by auto
    qed simp
    then show False using assms(4) by (auto simp: submit_intents_def split: sum.splits)
  qed
  with assms(1) show ?thesis by (rule complete_evidence_window)
qed

definition demo_report :: rehearsal_report where
  "demo_report = \<lparr>rr_session = Date 2026 3 3, rr_intents = 2, rr_submitted = 1, rr_rejected = 0, rr_duplicates_blocked = 1,
     rr_reconciled = True, rr_position_mismatches = [], rr_terminal_states_verified = True, rr_duplicate_orders_absent = True,
     rr_position_book_verified = True\<rparr>"

lemma demo_readiness:
  "\<exists>evidence payload. update_readiness (\<lambda>_. 0) (\<lambda>_ _. demo_calendar) [demo_report] 1 = Inr (evidence, payload) \<and> complete evidence"
proof -
  let ?cal = "\<lparr>sessions = [(toordinal (Date 2026 3 2) - 1) * day_us, (toordinal (Date 2026 3 3) - 1) * day_us,
    (toordinal (Date 2026 3 4) - 1) * day_us]\<rparr>"
  have cal: "xkrx_calendar_through (\<lambda>_ _. demo_calendar) (Date 2026 3 3) = Inr ?cal" by code_simp
  have ord: "local_date (\<lambda>_. 0) ((toordinal d - 1) * day_us) = d" if "date_in_month d" "1 \<le> toordinal d" for d
    using that by (simp add: local_date_def day_us_def date_of_ordinal_toordinal)
  have "date_in_month (Date 2026 3 2)" "date_in_month (Date 2026 3 3)" "date_in_month (Date 2026 3 4)"
    "1 \<le> toordinal (Date 2026 3 2)" "1 \<le> toordinal (Date 2026 3 3)" "1 \<le> toordinal (Date 2026 3 4)" by code_simp+
  then have "session_indices (\<lambda>_. 0) ?cal (Date 2026 3 3) = Some 1" by (simp add: session_indices_def ord)
  then show ?thesis
    by (simp add: update_readiness_def cal demo_report_def trail_step_def clean_def evidence_of_def last_n_def complete_def Let_def)
qed

lemma demo_live_send:
  assumes "complete evidence"
  shows "sent (fst (submit_intents demo_ports (demo_context ''live'') (demo_state\<lparr>xs_gate := submission_gate_init (Some evidence)\<rparr>)
    [demo_intent])) \<noteq> []"
  using assms by (simp add: demo_submit demo_state_def sqlite_init_def demo_double Let_def)

theorem live_orders_rest_on_rehearsed_sessions_witness:
  "\<exists>window. rehearsed_window (\<lambda>_. 0) (\<lambda>_ _. demo_calendar) [demo_report] 1 window"
proof -
  obtain evidence payload where e: "update_readiness (\<lambda>_. 0) (\<lambda>_ _. demo_calendar) [demo_report] 1 = Inr (evidence, payload)"
    "complete evidence" using demo_readiness by blast
  have "es_default_mode (ec_settings (demo_context ''live'')) = ''live''" by (simp add: demo_context_def)
  moreover have "sent (demo_state\<lparr>xs_gate := submission_gate_init (Some evidence)\<rparr>) = []" by (simp add: demo_state_def)
  ultimately show ?thesis
    using live_orders_rest_on_rehearsed_sessions [OF e(1), of "demo_context ''live''"
        "demo_state\<lparr>xs_gate := submission_gate_init (Some evidence)\<rparr>"] demo_live_send [OF e(2)] by fastforce
qed

section \<open>Repeated rehearsals\<close>

definition logged_broker :: "'b mock_broker \<Rightarrow> ('b \<times> order_request list) mock_broker" where
  "logged_broker mb = \<lparr>mb_account = (\<lambda>(b, log). mb_account mb b),
     mb_submit = (\<lambda>(b, log) order. case mb_submit mb b order of (b', r) \<Rightarrow> ((b', log @ [order]), r)),
     mb_snapshot = (\<lambda>(b, log) now. case mb_snapshot mb b now of (b', r) \<Rightarrow> ((b', log), r)),
     mb_reconcile = (\<lambda>(b, log) account. case mb_reconcile mb b account of (b', r) \<Rightarrow> ((b', log), r)),
     mb_order_states = (\<lambda>(b, log) session. case mb_order_states mb b session of (b', r) \<Rightarrow> ((b', log), r))\<rparr>"

lemma rehearsal_ports_logged: "rehearsal_ports (logged_broker mb) sp prices = logged (rehearsal_ports mb sp prices)"
  by (simp add: rehearsal_ports_def logged_def logged_broker_def)

definition sqlite_port :: "sqlite_store store_port" where
  "sqlite_port = \<lparr>sp_save = sqlite_save, sp_mark_intent = sqlite_mark_intent, sp_is_duplicate_intent = sqlite_is_duplicate_intent,
     sp_records = (\<lambda>s session. sqlite_records s (isoformat session))\<rparr>"

interpretation rehearsal_submission: durable_submission sqlite_inv sqlite_save sqlite_get sqlite_mark_intent
  sqlite_is_duplicate_intent normal "rehearsal_ports mb sqlite_port prices" for mb prices
  by unfold_locales (simp_all add: rehearsal_ports_def sqlite_port_def)

definition keys_marked :: "('b \<times> order_request list) \<times> sqlite_store \<Rightarrow> bool" where
  "keys_marked st \<longleftrightarrow> distinct (map rq_idempotency_key (snd (fst st)))
     \<and> (\<forall>k \<in> set (map rq_idempotency_key (snd (fst st))). sqlite_is_duplicate_intent (snd st) k)"

lemma submit_fresh_marked:
  assumes "submit_fresh (logged (rehearsal_ports mb sqlite_port prices)) ctx b s fresh = (st', r)" "keys_marked (b, s)"
  shows "distinct (sent_keys st') \<and> (\<forall>x. r = Inr x \<longrightarrow> keys_marked (xs_broker st', xs_store st'))"
proof (cases "fresh = []")
  case True
  then show ?thesis using assms by (auto simp: submit_fresh_def keys_marked_def)
next
  case False
  then have "submit_intents (logged (rehearsal_ports mb sqlite_port prices)) ctx
    \<lparr>xs_gate = submission_gate_init None, xs_broker = b, xs_store = s\<rparr> fresh = (st', r)"
    using assms(1) by (simp add: submit_fresh_def)
  from rehearsal_submission.submit_intents_marked [OF this] assms(2) show ?thesis
    by (simp add: rehearsal_submission.marked_def keys_marked_def)
qed

lemma close_rehearsal_log:
  "close_rehearsal (logged_broker mb) session now before planned blocked records b = (b', r) \<Longrightarrow> snd b' = snd b"
  by (auto simp: close_rehearsal_def logged_broker_def split: prod.splits sum.splits py_error.splits)

lemma rehearse_open_marked:
  assumes "rehearse_open tz at_wall sys (logged_broker mb) sqlite_port d nav buf band now st = (st', r)" "keys_marked st"
  shows "distinct (map rq_idempotency_key (snd (fst st'))) \<and> (\<forall>x. r = Inr x \<longrightarrow> keys_marked st')"
proof -
  obtain b s where st: "st = (b, s)" by (rule prod.exhaust)
  obtain b1 snap where b1: "mb_snapshot (logged_broker mb) b now = (b1, snap)" by (rule prod.exhaust)
  then have log: "snd b1 = snd b" by (auto simp: logged_broker_def split: prod.splits)
  then have km: "keys_marked (b1, s)" using assms(2) by (simp add: keys_marked_def st)
  show ?thesis
  proof (cases "\<exists>before intents. in_entry_window tz now (td_execution_session d) \<and> snap = Inr before
      \<and> plan_rehearsal at_wall d before nav buf band now = Inr intents")
    case False
    then have "st' = (b, s) \<or> st' = (b1, s)" "\<forall>x. r \<noteq> Inr x"
      using assms(1) b1 by (auto simp: rehearse_open_def st split: if_splits sum.splits)
    then show ?thesis using km assms(2) by (auto simp: keys_marked_def st)
  next
    case True
    then obtain before intents where pre: "in_entry_window tz now (td_execution_session d)" "snap = Inr before"
      "plan_rehearsal at_wall d before nav buf band now = Inr intents" by blast
    define fresh where "fresh = filter (\<lambda>i. \<not> sp_is_duplicate_intent sqlite_port s (ti_idempotency_key i)) intents"
    obtain u v where u: "submit_fresh (logged (rehearsal_ports mb sqlite_port (td_reference d)))
      (rehearsal_context tz sys (mb_account (logged_broker mb) b1) now before) b1 s fresh = (u, v)" by force
    note sub = submit_fresh_marked [OF u km]
    note run = assms(1) [unfolded rehearse_open_def st prod.case b1 pre(2) sum.case pre(3) Let_def rehearsal_ports_logged
        fresh_def [symmetric] u]
    show ?thesis
    proof (cases v)
      case (Inl e)
      then show ?thesis using run pre(1) sub by auto
    next
      case (Inr records)
      then show ?thesis using run pre(1) sub
        by (auto split: prod.splits simp: keys_marked_def dest!: close_rehearsal_log)
    qed
  qed
qed

text \<open>The rehearsals of a process and its restarts: each starts from the broker and store the last one left.\<close>

fun completed_rehearsals :: "('x \<Rightarrow> 'st \<Rightarrow> 'st \<times> rehearsal_report res) \<Rightarrow> 'st \<Rightarrow> 'x list \<Rightarrow> 'st option" where
  "completed_rehearsals f st [] = Some st"
| "completed_rehearsals f st (x # xs) =
     (case f x st of (st', Inr _) \<Rightarrow> completed_rehearsals f st' xs | (st', Inl _) \<Rightarrow> None)"

lemma completed_rehearsals_marked:
  assumes "completed_rehearsals (\<lambda>(d, nav, now). rehearse_open tz at_wall sys (logged_broker mb) sqlite_port d nav buf band now) st xs
    = Some st'" "keys_marked st"
  shows "keys_marked st'"
  using assms
proof (induction xs arbitrary: st)
  case (Cons x xs)
  obtain d nav now where x: "x = (d, nav, now)" using prod_cases3 by blast
  obtain u v where u: "rehearse_open tz at_wall sys (logged_broker mb) sqlite_port d nav buf band now st = (u, v)"
    by (rule prod.exhaust)
  from Cons.prems(1) x u obtain y where "v = Inr y" "completed_rehearsals (\<lambda>(d, nav, now). rehearse_open tz at_wall sys
    (logged_broker mb) sqlite_port d nav buf band now) u xs = Some st'" by (auto split: sum.splits)
  with rehearse_open_marked [OF u Cons.prems(2)] Cons.IH show ?case by blast
qed simp

text \<open>C22. Rehearsals over one SQLite store, on whatever sessions and decisions: after any sequence of them that all returned, the next
  one, whether it returns or raises, leaves no idempotency key sent to the broker twice. A rehearsal that raises between a send and the
  marking of its key is not among the completed ones.\<close>

theorem rehearsals_send_each_key_once:
  fixes mb :: "'b mock_broker"
  assumes "completed_rehearsals (\<lambda>(d, nav, now). rehearse_open tz at_wall sys (logged_broker mb) sqlite_port d nav buf band now)
      ((b, []), s) runs = Some st"
  shows "distinct (map rq_idempotency_key (snd (fst (fst
    (rehearse_open tz at_wall sys (logged_broker mb) sqlite_port decision nav_krw buf band now st)))))"
proof -
  have "keys_marked st" by (rule completed_rehearsals_marked [OF assms]) (simp add: keys_marked_def)
  then show ?thesis using rehearse_open_marked [OF prod.collapse [symmetric]] by blast
qed

text \<open>A mock account with the planned snapshot and paper fills.\<close>

definition demo_mock :: "paper_broker mock_broker" where
  "demo_mock = \<lparr>mb_account = pb_account, mb_submit = paper_submit, mb_snapshot = (\<lambda>b now. (b, Inr demo_snapshot)),
     mb_reconcile = (\<lambda>b account. (b, Inr (paper_reconcile b account))), mb_order_states = (\<lambda>b session. (b, Inr (pb_submitted b)))\<rparr>"

abbreviation demo_rehearse where
  "demo_rehearse \<equiv> \<lambda>(d, nav, now). rehearse_open (\<lambda>_. 32400000000) seoul_wall id (logged_broker demo_mock) sqlite_port d nav
     (Fin 0) (Fin 0) now"

definition demo_now :: py_datetime where
  "demo_now = Aware 63908091900000000"

lemma demo_window: "in_entry_window (\<lambda>_. 32400000000) demo_now (Date 2026 3 3)"
proof -
  have "local_date (\<lambda>_. 32400000000) 63908091900000000 = date_of_ordinal (toordinal (Date 2026 3 3))"
    by (simp add: local_date_def day_us_def toordinal_def days_before_year_def days_before_month_table days_in_month_def is_leap_def)
  also have "\<dots> = Date 2026 3 3"
    by (rule date_of_ordinal_toordinal) code_simp+
  finally show ?thesis by (simp add: in_entry_window_def demo_now_def local_time_def day_us_def)
qed

definition demo_planned :: "string \<Rightarrow> asset_kind \<Rightarrow> int \<Rightarrow> rat \<Rightarrow> trade_intent" where
  "demo_planned n kind q v = \<lparr>ti_intent_id = isoformat (Date 2026 3 3) @ '':'' @ n, ti_asset_kind = kind, ti_instrument_id = n,
     ti_target_value = Fin v, ti_decision_time = Aware 0, ti_execution_time = Aware 63908092800000000, ti_strategy_id = ''m'',
     ti_reason = ''sealed-target'', ti_idempotency_key = ''h:'' @ n, ti_account_snapshot_id = ''snap'',
     ti_reference_price_guard_bps = None, ti_target_quantity = Some q\<rparr>"

lemma demo_plan_rehearsal:
  "plan_rehearsal seoul_wall demo_decision demo_snapshot 10000 (Fin 0) (Fin 0) demo_now
   = Inr [demo_planned ''A'' STOCK 50 5000, demo_planned ''B'' ETF 0 0]"
proof -
  have names: "planned_names demo_decision demo_snapshot = [''A'', ''B'']"
    by (simp add: planned_names_def demo_decision_def demo_snapshot_def demo_instrument_def dict_keys_def)
  have "fsub (Fin 1) (Fin 0) = Fin 1" by (simp add: fsub_def demo_num)
  with names show ?thesis
    by (simp add: plan_rehearsal_def plan_intents_def validate_as_of_def demo_plan demo_planned_def demo_now_def Let_def)
qed

lemma demo_rehearsal:
  "\<exists>st. completed_rehearsals demo_rehearse ((paper_broker_init ''mock'', []), sqlite_init) [(demo_decision, 10000, demo_now)] = Some st
     \<and> length (snd (fst st)) = 2"
proof -
  have "to_float 3 = Fin 3" using is_double_of_int [of 3] by (simp add: is_double_def)
  moreover have "td_execution_session demo_decision = Date 2026 3 3" "td_reference demo_decision = [(''A'', Fin 100), (''B'', Fin 50)]"
    by (simp_all add: demo_decision_def)
  ultimately show ?thesis
    using demo_plan_rehearsal demo_window
    by (simp add: rehearse_open_def logged_broker_def demo_mock_def submit_fresh_def rehearsal_ports_def rehearsal_context_def
        sqlite_port_def demo_planned_def sqlite_init_def demo_submit demo_num close_rehearsal_def reference_price_of_def
        demo_snapshot_def demo_instrument_def paper_broker_init_def paper_reconcile_def Let_def)
qed

theorem rehearsals_send_each_key_once_witness:
  "\<exists>st. completed_rehearsals demo_rehearse ((paper_broker_init ''mock'', []), sqlite_init) [(demo_decision, 10000, demo_now)] = Some st
     \<and> length (snd (fst st)) = 2
     \<and> distinct (map rq_idempotency_key (snd (fst (fst (demo_rehearse (demo_decision, 10000, demo_now) st)))))"
proof -
  obtain st where st: "completed_rehearsals demo_rehearse ((paper_broker_init ''mock'', []), sqlite_init)
    [(demo_decision, 10000, demo_now)] = Some st" "length (snd (fst st)) = 2" using demo_rehearsal by blast
  then show ?thesis using rehearsals_send_each_key_once [OF st(1), of demo_decision 10000 demo_now] by auto
qed

end
