(* ===== verification/Actions.thy ===== *)
theory Actions
  imports Prelude
begin

text \<open>
  Stateful code that may raise: an action maps a state to the state it leaves and a result. A raise keeps
  what has been done so far, as an exception in the program does. The rules of \<open>valid\<close> are the Hoare rules
  of the actions, with a postcondition for normal return and one for raising.
\<close>

named_theorems act_rules \<open>inversion rules for runs of actions\<close>

type_synonym ('s, 'a) act = "'s \<Rightarrow> 's \<times> 'a res"

definition ret :: "'a \<Rightarrow> ('s, 'a) act" where
  "ret x s = (s, Inr x)"

definition raise :: "py_error \<Rightarrow> ('s, 'a) act" where
  "raise e s = (s, Inl e)"

definition act_bind :: "('s, 'a) act \<Rightarrow> ('a \<Rightarrow> ('s, 'b) act) \<Rightarrow> ('s, 'b) act" where
  "act_bind m f s = (case m s of (s', Inl e) \<Rightarrow> (s', Inl e) | (s', Inr x) \<Rightarrow> f x s')"

definition read :: "('s \<Rightarrow> 'a) \<Rightarrow> ('s, 'a) act" where
  "read f s = (s, Inr (f s))"

definition read_res :: "('s \<Rightarrow> 'a res) \<Rightarrow> ('s, 'a) act" where
  "read_res f s = (s, f s)"

text \<open>A \<open>for\<close> loop with the mutable locals it carries as the accumulator.\<close>

fun fold_act :: "('a \<Rightarrow> 'x \<Rightarrow> ('s, 'a) act) \<Rightarrow> 'a \<Rightarrow> 'x list \<Rightarrow> ('s, 'a) act" where
  "fold_act f a [] = ret a"
| "fold_act f a (x # xs) = act_bind (f a x) (\<lambda>a'. fold_act f a' xs)"

definition each_act :: "('x \<Rightarrow> ('s, unit) act) \<Rightarrow> 'x list \<Rightarrow> ('s, unit) act" where
  "each_act f xs = fold_act (\<lambda>_ x. f x) () xs"

lemma act_simps [simp]:
  "ret x s = (s, Inr x)" "raise e t = (t, Inl e)" "read f u = (u, Inr (f u))" "read_res g v = (v, g v)"
  by (simp_all add: ret_def raise_def read_def read_res_def)

lemma act_bind_apply: "act_bind m f s = (case m s of (s', r) \<Rightarrow> case r of Inl e \<Rightarrow> (s', Inl e) | Inr x \<Rightarrow> f x s')"
  by (simp add: act_bind_def split: prod.splits sum.splits)

lemma act_bind_steps [simp]:
  "act_bind (ret x) f = f x" "act_bind (raise e) f = raise e"
  by (simp_all add: act_bind_def fun_eq_iff)

lemma act_bind_Inr [act_rules]:
  "act_bind m f s = (s', Inr y) \<longleftrightarrow> (\<exists>t x. m s = (t, Inr x) \<and> f x t = (s', Inr y))"
  by (auto simp: act_bind_def split: prod.splits sum.splits)

section \<open>Hoare rules\<close>

definition valid :: "('s \<Rightarrow> bool) \<Rightarrow> ('s, 'a) act \<Rightarrow> ('a \<Rightarrow> 's \<Rightarrow> bool) \<Rightarrow> ('s \<Rightarrow> bool) \<Rightarrow> bool" where
  "valid P m Q E \<longleftrightarrow> (\<forall>s s' r. P s \<longrightarrow> m s = (s', r) \<longrightarrow> (case r of Inr x \<Rightarrow> Q x s' | Inl e \<Rightarrow> E s'))"

lemma validI: "(\<And>s s' r. P s \<Longrightarrow> m s = (s', r) \<Longrightarrow> (case r of Inr x \<Rightarrow> Q x s' | Inl e \<Rightarrow> E s')) \<Longrightarrow> valid P m Q E"
  unfolding valid_def by blast

lemma valid_Inr: "valid P m Q E \<Longrightarrow> P s \<Longrightarrow> m s = (s', Inr x) \<Longrightarrow> Q x s'"
  unfolding valid_def by fastforce

lemma valid_Inl: "valid P m Q E \<Longrightarrow> P s \<Longrightarrow> m s = (s', Inl e) \<Longrightarrow> E s'"
  unfolding valid_def by fastforce

lemma valid_ret: "(\<And>s. P s \<Longrightarrow> Q x s) \<Longrightarrow> valid P (ret x) Q E"
  by (simp add: valid_def)

lemma valid_raise: "(\<And>s. P s \<Longrightarrow> E s) \<Longrightarrow> valid P (raise e) Q E"
  by (simp add: valid_def)

lemma valid_read: "(\<And>s. P s \<Longrightarrow> Q (f s) s) \<Longrightarrow> valid P (read f) Q E"
  by (simp add: valid_def)

lemma valid_read_res: "(\<And>s. P s \<Longrightarrow> case f s of Inr x \<Rightarrow> Q x s | Inl e \<Rightarrow> E s) \<Longrightarrow> valid P (read_res f) Q E"
  by (auto simp: valid_def split: sum.splits)

lemma valid_bind:
  assumes "valid P m R E" "\<And>x. valid (R x) (f x) Q E"
  shows "valid P (act_bind m f) Q E"
proof (rule validI)
  fix s s' r assume P: "P s" and run: "act_bind m f s = (s', r)"
  obtain t v where t: "m s = (t, v)" by (rule prod.exhaust)
  show "case r of Inr x \<Rightarrow> Q x s' | Inl e \<Rightarrow> E s'"
  proof (cases v)
    case (Inl e)
    with valid_Inl [OF assms(1) P] t run show ?thesis by (auto simp: act_bind_def)
  next
    case (Inr x)
    then have "R x t" "f x t = (s', r)" using valid_Inr [OF assms(1) P] t run by (auto simp: act_bind_def)
    then show ?thesis using assms(2) [of x] by (simp add: valid_def)
  qed
qed

lemma valid_weaken:
  assumes "valid P m Q E" "\<And>s. P' s \<Longrightarrow> P s" "\<And>x s. Q x s \<Longrightarrow> Q' x s" "\<And>s. E s \<Longrightarrow> E' s"
  shows "valid P' m Q' E'"
  using assms unfolding valid_def by (fastforce split: sum.splits)

lemma valid_fold:
  assumes "\<And>a x. x \<in> set xs \<Longrightarrow> valid (I a) (f a x) I E"
  shows "valid (I a) (fold_act f a xs) I E"
  using assms
proof (induction xs arbitrary: a)
  case (Cons x xs)
  have "valid (I a) (f a x) I E" by (rule Cons.prems) simp
  moreover have "valid (I b) (fold_act f b xs) I E" for b by (rule Cons.IH) (rule Cons.prems, simp)
  ultimately show ?case unfolding fold_act.simps by (rule valid_bind)
qed (simp add: valid_ret)

text \<open>The loop rule with the part already processed in the invariant.\<close>

lemma valid_fold_prefix:
  assumes "\<And>pre a x rest. xs = pre @ x # rest \<Longrightarrow> valid (I pre a) (f a x) (I (pre @ [x])) E"
  shows "valid (I [] a) (fold_act f a xs) (I xs) E"
proof -
  have "valid (I pre a) (fold_act f a post) (I xs) E" if "xs = pre @ post" for pre post a
    using that
  proof (induction post arbitrary: pre a)
    case (Cons x post)
    have "valid (I pre a) (f a x) (I (pre @ [x])) E" using assms [OF Cons.prems] .
    moreover have "valid (I (pre @ [x]) b) (fold_act f b post) (I xs) E" for b
      by (rule Cons.IH) (simp add: Cons.prems)
    ultimately show ?case unfolding fold_act.simps by (rule valid_bind)
  qed (simp add: valid_ret)
  from this [of "[]"] show ?thesis by simp
qed

lemma valid_each:
  assumes "\<And>x. x \<in> set xs \<Longrightarrow> valid P (f x) (\<lambda>_. P) E"
  shows "valid P (each_act f xs) (\<lambda>_. P) E"
  unfolding each_act_def using valid_fold [of xs "\<lambda>_. P" "\<lambda>_ x. f x" E "()"] assms by simp

lemma valid_if: "valid P m Q E \<Longrightarrow> valid P' m' Q E \<Longrightarrow> valid (\<lambda>s. if c then P s else P' s) (if c then m else m') Q E"
  by (simp add: valid_def)

end
