(* ===== verification/Datasets.thy ===== *)
theory Datasets
  imports Actions SessionTime PyText "HOL-Library.List_Lexorder" "HOL-Library.Char_ord" "HOL-Library.Product_Lexorder"
begin

text \<open>
  Identity-bound datasets (\<open>src/data/datasets.py\<close>): the records of a dataset, the kind encoded in a
  dataset id, and the verification of a published directory.

  A directory of the lake is named by its layer and the path below the layer's root. Directories are trees
  of \<open>fnode\<close>; the bytes of a manifest, the digest of a partition and the rows of a Parquet file are read
  through the functions of \<open>lake_ports\<close>, on a world \<open>'w\<close> that the modelled code only passes on.
\<close>

section \<open>Data\<close>

datatype dataset_layer = SILVER | GOLD

datatype param = ParStr string | ParInt int | ParFloat rat | ParBool bool | ParNone | ParTime py_datetime

record dataset_check =
  dc_name :: string
  dc_value :: pyfloat
  dc_limit :: pyfloat
  dc_passed :: bool

record dataset_identity =
  di_kind :: string
  di_layer :: dataset_layer
  di_policy_version :: string
  di_inputs :: "(string, string) dict"
  di_params :: "(string, param) dict"

record dataset_partition =
  dp_path :: string
  dp_rows :: int
  dp_sha256 :: string

record dataset_manifest =
  dm_dataset_id :: string
  dm_kind :: string
  dm_layer :: dataset_layer
  dm_policy_version :: string
  dm_inputs :: "(string, string) dict"
  dm_params :: "(string, param) dict"
  dm_partitions :: "dataset_partition list"
  dm_rows :: int
  dm_checks :: "dataset_check list"

type_synonym path = "dataset_layer \<times> string list"

definition path_name :: "path \<Rightarrow> string" where
  "path_name p = (case snd p of [] \<Rightarrow> [] | parts \<Rightarrow> last parts)"

record dataset_verification =
  dv_dataset_id :: string
  dv_path :: path
  dv_rows :: int
  dv_failures :: "string list"
  dv_failed_checks :: "dataset_check list"

definition passed :: "dataset_verification \<Rightarrow> bool" where
  "passed v \<longleftrightarrow> dv_failures v = []"

record published_dataset =
  pd_dataset_id :: string
  pd_path :: path
  pd_rows :: int

section \<open>Dataset ids\<close>

definition is_alnum :: "char \<Rightarrow> bool" where
  "is_alnum c \<longleftrightarrow> is_digit c \<or> (of_char c \<in> {65..90::nat}) \<or> (of_char c \<in> {97..122::nat})"

definition is_hex :: "char \<Rightarrow> bool" where
  "is_hex c \<longleftrightarrow> is_digit c \<or> (of_char c \<in> {97..102::nat})"

text \<open>The pattern \<open>[A-Za-z0-9][A-Za-z0-9_-]*\<close>.\<close>

definition is_kind :: "string \<Rightarrow> bool" where
  "is_kind s \<longleftrightarrow> (case s of [] \<Rightarrow> False
     | c # cs \<Rightarrow> is_alnum c \<and> list_all (\<lambda>x. is_alnum x \<or> x = CHR ''_'' \<or> x = CHR ''-'') cs)"

definition validate_kind :: "string \<Rightarrow> unit res" where
  "validate_kind kind = guard (\<not> is_kind kind) (PITDataError ''dataset kind must be a non-empty path-safe identifier'') (Inr ())"

text \<open>The digest group has a fixed width, so a full match can only split before the last seventeen characters.\<close>

definition is_dataset_id :: "string \<Rightarrow> bool" where
  "is_dataset_id s \<longleftrightarrow> 17 < length s \<and> is_kind (take (length s - 17) s)
     \<and> s ! (length s - 17) = CHR ''_'' \<and> list_all is_hex (drop (length s - 16) s)"

definition dataset_kind_from_id :: "string \<Rightarrow> string res" where
  "dataset_kind_from_id s =
     (if is_dataset_id s then Inr (take (length s - 17) s) else Inl (PITDataError ''invalid dataset id''))"

definition is_bronze_input :: "string \<Rightarrow> bool" where
  "is_bronze_input s \<longleftrightarrow> take 7 s = ''bronze:'' \<and> length s = 71 \<and> list_all is_hex (drop 7 s)"

definition canonical_param :: "param \<Rightarrow> unit res" where
  "canonical_param p = (case p of
       ParTime (Naive _) \<Rightarrow> Inl (PITDataError ''dataset parameter datetimes require an offset'')
     | _ \<Rightarrow> Inr ())"

definition check_input :: "string \<times> string \<Rightarrow> unit res" where
  "check_input p =
     guard (fst p = []) (PITDataError ''dataset input roles must be non-empty strings'') (
     guard (\<not> (is_dataset_id (snd p) \<or> is_bronze_input (snd p))) (PITDataError ''invalid dataset input'') (Inr ()))"

definition check_param :: "string \<times> param \<Rightarrow> unit res" where
  "check_param p = guard (fst p = []) (PITDataError ''dataset parameter names must be non-empty strings'') (canonical_param (snd p))"

definition dataset_identity_init :: "dataset_identity \<Rightarrow> dataset_identity res" where
  "dataset_identity_init d =
     res_bind (validate_kind (di_kind d)) (\<lambda>_.
     res_bind (mapM check_input (di_inputs d)) (\<lambda>_.
     res_bind (mapM check_param (di_params d)) (\<lambda>_. Inr d)))"

section \<open>Directories and verification\<close>

datatype fnode = FDir "(string \<times> fnode) list" | FLink "fnode option" | FFile

definition lookup :: "string \<Rightarrow> fnode \<Rightarrow> fnode option" where
  "lookup name d = (case d of FDir es \<Rightarrow> map_of es name | FLink (Some (FDir es)) \<Rightarrow> map_of es name | _ \<Rightarrow> None)"

definition is_dir :: "fnode option \<Rightarrow> bool" where
  "is_dir n = (case n of Some (FDir _) \<Rightarrow> True | Some (FLink (Some (FDir _))) \<Rightarrow> True | _ \<Rightarrow> False)"

definition is_symlink :: "fnode option \<Rightarrow> bool" where
  "is_symlink n = (case n of Some (FLink _) \<Rightarrow> True | _ \<Rightarrow> False)"

definition is_file :: "fnode option \<Rightarrow> bool" where
  "is_file n = (case n of Some FFile \<Rightarrow> True | Some (FLink (Some FFile)) \<Rightarrow> True | _ \<Rightarrow> False)"

definition iterdir :: "fnode option \<Rightarrow> (string \<times> fnode) list" where
  "iterdir n = (case n of Some (FDir es) \<Rightarrow> sort_key fst es | Some (FLink (Some (FDir es))) \<Rightarrow> sort_key fst es | _ \<Rightarrow> [])"

definition has_manifest :: "fnode option \<Rightarrow> bool" where
  "has_manifest n = (case n of None \<Rightarrow> False | Some d \<Rightarrow> is_file (lookup ''manifest.json'' d))"

text \<open>What verification can find at a partition's path.\<close>

datatype partition_file = PartMissing | PartUnreadable | PartFile string "int option"

record 'w lake_ports =
  lp_root :: "'w \<Rightarrow> dataset_layer \<Rightarrow> fnode option"
  lp_load_manifest :: "'w \<Rightarrow> path \<Rightarrow> dataset_manifest res"
  lp_resolved_layer :: "'w \<Rightarrow> path \<Rightarrow> dataset_layer option"
  lp_partition :: "'w \<Rightarrow> path \<Rightarrow> string \<Rightarrow> partition_file"
  lp_can_write :: "'w \<Rightarrow> bool"

definition input_failures :: "(string \<Rightarrow> bool) \<Rightarrow> (string, string) dict \<Rightarrow> string list" where
  "input_failures known_ids inputs =
     map (\<lambda>(role, i). ''missing dataset input: '' @ role @ ''='' @ i)
       (filter (\<lambda>(role, i). is_dataset_id i \<and> \<not> known_ids i) (sort inputs))"

definition partition_failure :: "(string \<Rightarrow> partition_file) \<Rightarrow> dataset_partition \<Rightarrow> string option" where
  "partition_failure file_at p = (case file_at (dp_path p) of
       PartMissing \<Rightarrow> Some (''missing dataset partition: '' @ dp_path p)
     | PartUnreadable \<Rightarrow> Some (''unreadable dataset partition: '' @ dp_path p)
     | PartFile sha rows \<Rightarrow>
         if sha \<noteq> dp_sha256 p then Some (''dataset partition hash mismatch: '' @ dp_path p)
         else (case rows of None \<Rightarrow> Some (''unreadable dataset partition: '' @ dp_path p)
           | Some n \<Rightarrow> if n \<noteq> dp_rows p then Some (''dataset partition row mismatch: '' @ dp_path p) else None))"

definition verify_dataset :: "'w lake_ports \<Rightarrow> 'w \<Rightarrow> path \<Rightarrow> (string \<Rightarrow> bool) \<Rightarrow> dataset_verification" where
  "verify_dataset P w directory known_ids = (case lp_load_manifest P w directory of
       Inl e \<Rightarrow> \<lparr>dv_dataset_id = path_name directory, dv_path = directory, dv_rows = 0,
                 dv_failures = [''invalid dataset manifest''], dv_failed_checks = []\<rparr>
     | Inr m \<Rightarrow>
         (let failed_checks = filter (\<lambda>c. \<not> dc_passed c) (dm_checks m);
              failures = map (\<lambda>c. ''quality check failed: '' @ dc_name c) failed_checks
                @ input_failures known_ids (dm_inputs m)
                @ List.map_filter (partition_failure (lp_partition P w directory)) (dm_partitions m) in
          \<lparr>dv_dataset_id = dm_dataset_id m, dv_path = directory, dv_rows = dm_rows m,
           dv_failures = failures, dv_failed_checks = failed_checks\<rparr>))"

lemma verified_manifest:
  assumes "passed (verify_dataset P w p known)"
  shows "\<exists>m. lp_load_manifest P w p = Inr m
    \<and> list_all (\<lambda>(role, i). is_dataset_id i \<longrightarrow> known i) (dm_inputs m) \<and> list_all dc_passed (dm_checks m)"
proof (cases "lp_load_manifest P w p")
  case (Inr m)
  with assms have "filter (\<lambda>c. \<not> dc_passed c) (dm_checks m) = []" "input_failures known (dm_inputs m) = []"
    by (auto simp: passed_def verify_dataset_def Let_def)
  then have "list_all dc_passed (dm_checks m)" "list_all (\<lambda>(role, i). is_dataset_id i \<longrightarrow> known i) (dm_inputs m)"
    by (auto simp: filter_empty_conv list_all_iff input_failures_def)
  with Inr show ?thesis by blast
qed (use assms in \<open>simp add: passed_def verify_dataset_def\<close>)

end
