(* ===== verification/Registry.thy ===== *)
theory Registry
  imports Datasets "HOL-Library.Multiset"
begin

text \<open>
  The scope-local dataset registry (\<open>src/data/dataset_registry.py\<close>): the file \<open>datasets.json\<close> with the
  current id of every kind and the retired ids, read and validated on every access, replaced atomically.

  The advisory lock serialises writers, so an operation is one step on the state; the replacement of the
  file succeeds or leaves the old one, as \<open>lp_can_write\<close> says.
\<close>

section \<open>The file\<close>

text \<open>A decoded JSON value, as far as the reader looks: text, objects, and anything else.\<close>

datatype raw = RawStr string | RawObj "(string \<times> raw) list" | RawOther

datatype registry_file = Absent | Unreadable | Stored raw

record 'w rstate =
  rs_registry :: registry_file
  rs_world :: 'w

type_synonym pointers = "(string, string) dict"

definition parse_current_entry :: "pointers \<Rightarrow> string \<times> raw \<Rightarrow> pointers res" where
  "parse_current_entry current e = (case snd e of
       RawStr dataset_id \<Rightarrow>
         res_bind (dataset_kind_from_id dataset_id) (\<lambda>kind.
         guard (kind \<noteq> fst e) (PITDataError ''dataset registry kind mismatch'') (
         Inr (AList.update (fst e) dataset_id current)))
     | _ \<Rightarrow> Inl (PITDataError ''dataset registry current entries must map strings to strings''))"

definition parse_current :: "raw option \<Rightarrow> pointers res" where
  "parse_current r = (case r of
       Some (RawObj es) \<Rightarrow> foldM parse_current_entry [] es
     | _ \<Rightarrow> Inl (PITDataError ''dataset registry current must be an object''))"

definition parse_retired_entry :: "pointers \<Rightarrow> string \<times> raw \<Rightarrow> pointers res" where
  "parse_retired_entry retired e = (case snd e of
       RawStr reason \<Rightarrow>
         guard (reason = []) (PITDataError ''dataset registry retired entries must map ids to non-empty reasons'') (
         res_bind (dataset_kind_from_id (fst e)) (\<lambda>_. Inr (AList.update (fst e) reason retired)))
     | _ \<Rightarrow> Inl (PITDataError ''dataset registry retired entries must map ids to non-empty reasons''))"

definition parse_retired :: "raw option \<Rightarrow> pointers res" where
  "parse_retired r = (case r of
       Some (RawObj es) \<Rightarrow> foldM parse_retired_entry [] es
     | _ \<Rightarrow> Inl (PITDataError ''dataset registry retired must be an object''))"

definition read_unlocked :: "registry_file \<Rightarrow> (pointers \<times> pointers) res" where
  "read_unlocked f = (case f of
       Absent \<Rightarrow> Inr ([], [])
     | Unreadable \<Rightarrow> Inl (PITDataError ''unreadable dataset registry'')
     | Stored (RawObj fs) \<Rightarrow>
         guard (set (dict_keys fs) \<noteq> {''current'', ''retired''}) (PITDataError ''invalid dataset registry'') (
         res_bind (parse_current (map_of fs ''current'')) (\<lambda>current.
         res_bind (parse_retired (map_of fs ''retired'')) (\<lambda>retired. Inr (current, retired))))
     | Stored _ \<Rightarrow> Inl (PITDataError ''invalid dataset registry''))"

definition raw_pointers :: "pointers \<Rightarrow> raw" where
  "raw_pointers d = RawObj (map (\<lambda>(k, v). (k, RawStr v)) (sort d))"

definition registry_payload :: "pointers \<Rightarrow> pointers \<Rightarrow> registry_file" where
  "registry_payload current retired = Stored (RawObj [(''current'', raw_pointers current), (''retired'', raw_pointers retired)])"

definition write_unlocked :: "'w lake_ports \<Rightarrow> pointers \<Rightarrow> pointers \<Rightarrow> ('w rstate, unit) act" where
  "write_unlocked P current retired s =
     (if lp_can_write P (rs_world s) then (s\<lparr>rs_registry := registry_payload current retired\<rparr>, Inr ())
      else (s, Inl (PITDataError ''cannot write dataset registry'')))"

section \<open>Reading\<close>

definition registry_current :: "registry_file \<Rightarrow> string \<Rightarrow> string option res" where
  "registry_current f kind = res_bind (read_unlocked f) (\<lambda>(current, _). Inr (map_of current kind))"

definition registry_require :: "registry_file \<Rightarrow> string \<Rightarrow> string res" where
  "registry_require f kind =
     res_bind (registry_current f kind) (\<lambda>d. case d of None \<Rightarrow> Inl (PITDataError ''dataset kind is not registered'') | Some i \<Rightarrow> Inr i)"

definition snapshot :: "registry_file \<Rightarrow> pointers res" where
  "snapshot f = res_bind (read_unlocked f) (\<lambda>(current, _). Inr current)"

definition retired_ids :: "registry_file \<Rightarrow> pointers res" where
  "retired_ids f = res_bind (read_unlocked f) (\<lambda>(_, retired). Inr retired)"

section \<open>Directories\<close>

definition candidates_in :: "string \<Rightarrow> dataset_layer \<Rightarrow> fnode option \<Rightarrow> path list" where
  "candidates_in i layer base =
     (let direct = (case base of None \<Rightarrow> None | Some d \<Rightarrow> lookup i d);
          first = (if is_dir direct \<and> \<not> is_symlink direct then [(layer, [i])] else []) in
      if \<not> is_dir base \<or> is_symlink base then first
      else first @ List.map_filter (\<lambda>(name, table).
        let nested = lookup i table in
        if \<not> is_dir (Some table) \<or> is_symlink (Some table) \<or> name = i then None
        else if is_dir nested \<and> \<not> is_symlink nested then Some (layer, [name, i]) else None) (iterdir base))"

definition candidate_directories :: "(dataset_layer \<Rightarrow> fnode option) \<Rightarrow> string \<Rightarrow> path list" where
  "candidate_directories base i = candidates_in i SILVER (base SILVER) @ candidates_in i GOLD (base GOLD)"

definition directories_in :: "dataset_layer \<Rightarrow> fnode option \<Rightarrow> path list" where
  "directories_in layer base =
     (if \<not> is_dir base \<or> is_symlink base then []
      else concat (map (\<lambda>(name, d).
        if \<not> is_dir (Some d) \<or> is_symlink (Some d) \<or> take 1 name = ''.'' then []
        else if has_manifest (Some d) then [(layer, [name])]
        else map (\<lambda>(n, _). (layer, [name, n]))
          (filter (\<lambda>(_, x). is_dir (Some x) \<and> \<not> is_symlink (Some x) \<and> has_manifest (Some x)) (iterdir (Some d)))) (iterdir base)))"

definition dataset_directories :: "(dataset_layer \<Rightarrow> fnode option) \<Rightarrow> path list" where
  "dataset_directories base = directories_in SILVER (base SILVER) @ directories_in GOLD (base GOLD)"

text \<open>The ids of the directories whose manifest can be loaded.\<close>

definition loaded_ids :: "'w lake_ports \<Rightarrow> 'w \<Rightarrow> path list \<Rightarrow> string list" where
  "loaded_ids P w dirs = List.map_filter (\<lambda>d. case lp_load_manifest P w d of Inl _ \<Rightarrow> None | Inr m \<Rightarrow> Some (dm_dataset_id m)) dirs"

section \<open>Writing\<close>

definition check_registration :: "'w lake_ports \<Rightarrow> 'w \<Rightarrow> (string \<Rightarrow> bool) \<Rightarrow> string \<times> string \<Rightarrow> path res" where
  "check_registration P w known item =
     res_bind (dataset_kind_from_id (snd item)) (\<lambda>kind.
     guard (kind \<noteq> fst item) (PITDataError ''dataset kind mismatch'') (
     case candidate_directories (lp_root P w) (snd item) of
       [] \<Rightarrow> Inl (PITDataError ''dataset directory does not exist'')
     | [dataset_dir] \<Rightarrow>
         res_bind (lp_load_manifest P w dataset_dir) (\<lambda>manifest.
         case lp_resolved_layer P w dataset_dir of
           None \<Rightarrow> Inl (PITDataError ''dataset directory is outside the data root'')
         | Some expected_layer \<Rightarrow>
             guard (dm_layer manifest \<noteq> expected_layer) (PITDataError ''dataset layer does not match its root'') (
             guard (\<not> passed (verify_dataset P w dataset_dir known)) (PITDataError ''dataset verification failed'') (
             Inr dataset_dir)))
     | _ \<Rightarrow> Inl (PITDataError ''dataset id is ambiguous across Silver and Gold'')))"

definition update_all :: "pointers \<Rightarrow> pointers \<Rightarrow> pointers" where
  "update_all current items = fold (\<lambda>(k, v). AList.update k v) items current"

definition register_many :: "'w lake_ports \<Rightarrow> pointers \<Rightarrow> ('w rstate, unit) act" where
  "register_many P items =
     (if items = [] then ret ()
      else act_bind (read_res (\<lambda>s. retired_ids (rs_registry s))) (\<lambda>retired.
      act_bind (read_res (\<lambda>s.
        let w = rs_world s; known = set (dict_keys retired) \<union> set (loaded_ids P w (dataset_directories (lp_root P w))) in
        mapM (check_registration P w (\<lambda>i. i \<in> known)) (sort items))) (\<lambda>_.
      act_bind (read_res (\<lambda>s. read_unlocked (rs_registry s))) (\<lambda>(current, retired).
      write_unlocked P (update_all current items) retired))))"

definition register :: "'w lake_ports \<Rightarrow> string \<Rightarrow> string \<Rightarrow> ('w rstate, unit) act" where
  "register P kind dataset_id = register_many P [(kind, dataset_id)]"

definition retire :: "'w lake_ports \<Rightarrow> string \<Rightarrow> string \<Rightarrow> ('w rstate, unit) act" where
  "retire P dataset_id reason =
     (if strip reason = [] then raise (PITDataError ''retired dataset reason must be non-empty'')
      else act_bind (read_res (\<lambda>_. dataset_kind_from_id dataset_id)) (\<lambda>_.
      act_bind (read_res (\<lambda>s. read_unlocked (rs_registry s))) (\<lambda>(current, retired).
      if map_of retired dataset_id \<noteq> None \<and> map_of retired dataset_id \<noteq> Some reason
      then raise (PITDataError ''retired dataset already has a different reason'')
      else write_unlocked P current (AList.update dataset_id reason retired))))"

section \<open>What a stored registry holds\<close>

definition current_ok :: "pointers \<Rightarrow> bool" where
  "current_ok d \<longleftrightarrow> distinct (map fst d) \<and> list_all (\<lambda>(k, i). dataset_kind_from_id i = Inr k) d"

definition retired_ok :: "pointers \<Rightarrow> bool" where
  "retired_ok d \<longleftrightarrow> distinct (map fst d) \<and> list_all (\<lambda>(i, reason). is_dataset_id i \<and> reason \<noteq> []) d"

lemma list_all_update:
  assumes "list_all Q d" "Q (k, v)" "distinct (map fst d)"
  shows "list_all Q (AList.update k v d)"
  using assms by (induction d) auto

lemma is_dataset_id_kind: "is_dataset_id i \<longleftrightarrow> (\<exists>k. dataset_kind_from_id i = Inr k)"
  by (simp add: dataset_kind_from_id_def)

lemma parse_current_entry_Inr:
  "parse_current_entry d e = Inr d' \<longleftrightarrow> (\<exists>k i. e = (k, RawStr i) \<and> dataset_kind_from_id i = Inr k \<and> d' = AList.update k i d)"
  by (cases e) (auto simp: parse_current_entry_def res_simps split: raw.splits)

lemma parse_retired_entry_Inr:
  "parse_retired_entry d e = Inr d' \<longleftrightarrow>
    (\<exists>i r. e = (i, RawStr r) \<and> r \<noteq> [] \<and> is_dataset_id i \<and> d' = AList.update i r d)"
  by (cases e) (auto simp: parse_retired_entry_def res_simps is_dataset_id_kind split: raw.splits)

lemma parse_current_ok:
  assumes "foldM parse_current_entry d es = Inr d'" "current_ok d"
  shows "current_ok d'"
  using assms
proof (induction es arbitrary: d)
  case (Cons e es)
  then obtain i k where e: "e = (k, RawStr i)" "dataset_kind_from_id i = Inr k"
      "foldM parse_current_entry (AList.update k i d) es = Inr d'"
    by (auto simp: res_simps parse_current_entry_Inr)
  moreover have "current_ok (AList.update k i d)"
    using Cons.prems(2) e(2) by (simp add: current_ok_def distinct_update list_all_update)
  ultimately show ?case by (rule_tac Cons.IH)
qed simp

lemma parse_retired_ok:
  assumes "foldM parse_retired_entry d es = Inr d'" "retired_ok d"
  shows "retired_ok d'"
  using assms
proof (induction es arbitrary: d)
  case (Cons e es)
  then obtain i r where e: "e = (i, RawStr r)" "r \<noteq> []" "is_dataset_id i"
      "foldM parse_retired_entry (AList.update i r d) es = Inr d'"
    by (auto simp: res_simps parse_retired_entry_Inr)
  moreover have "retired_ok (AList.update i r d)"
    using Cons.prems(2) e(2,3) by (simp add: retired_ok_def distinct_update list_all_update)
  ultimately show ?case by (rule_tac Cons.IH)
qed simp

lemma parse_pointers_ok:
  "parse_current r = Inr d \<Longrightarrow> current_ok d" "parse_retired r = Inr d \<Longrightarrow> retired_ok d"
  using parse_current_ok [of "[]" _ d] parse_retired_ok [of "[]" _ d]
  by (auto simp: parse_current_def parse_retired_def current_ok_def retired_ok_def split: option.splits raw.splits)

lemma read_unlocked_ok:
  assumes "read_unlocked f = Inr (current, retired)"
  shows "current_ok current \<and> retired_ok retired"
proof (cases f)
  case Absent
  with assms show ?thesis by (simp add: read_unlocked_def current_ok_def retired_ok_def)
next
  case (Stored r)
  with assms show ?thesis by (cases r) (auto simp: read_unlocked_def res_simps dest: parse_pointers_ok)
qed (use assms in \<open>simp add: read_unlocked_def\<close>)

section \<open>Reading back what was written\<close>

lemma parse_current_entries:
  assumes "current_ok (d @ es)"
  shows "foldM parse_current_entry d (map (\<lambda>(k, v). (k, RawStr v)) es) = Inr (d @ es)"
  using assms
proof (induction es arbitrary: d)
  case (Cons e es)
  obtain k i where e: "e = (k, i)" by (rule prod.exhaust)
  with Cons.prems have "k \<notin> fst ` set d" "dataset_kind_from_id i = Inr k" by (auto simp: current_ok_def)
  with Cons.IH [of "d @ [e]"] Cons.prems e show ?case by (simp add: parse_current_entry_def update_fresh)
qed simp

lemma parse_retired_entries:
  assumes "retired_ok (d @ es)"
  shows "foldM parse_retired_entry d (map (\<lambda>(k, v). (k, RawStr v)) es) = Inr (d @ es)"
  using assms
proof (induction es arbitrary: d)
  case (Cons e es)
  obtain i r where e: "e = (i, r)" by (rule prod.exhaust)
  with Cons.prems obtain k where "i \<notin> fst ` set d" "r \<noteq> []" "dataset_kind_from_id i = Inr k"
    by (auto simp: retired_ok_def is_dataset_id_kind)
  with Cons.IH [of "d @ [e]"] Cons.prems e show ?case by (simp add: parse_retired_entry_def update_fresh)
qed simp

lemma distinct_fst_perm: "mset d = mset e \<Longrightarrow> distinct (map fst d) \<longleftrightarrow> distinct (map fst e)"
  by (metis mset_eq_imp_distinct_iff mset_map)

lemma sorted_pointers_ok: "current_ok d \<Longrightarrow> current_ok (sort d)" "retired_ok d \<Longrightarrow> retired_ok (sort d)"
  using distinct_fst_perm [of "sort d" d] by (auto simp: current_ok_def retired_ok_def list_all_iff)

lemma read_registry_payload:
  assumes "current_ok current" "retired_ok retired"
  shows "read_unlocked (registry_payload current retired) = Inr (sort current, sort retired)"
  using parse_current_entries [of "[]" "sort current"] parse_retired_entries [of "[]" "sort retired"]
    sorted_pointers_ok [of current] sorted_pointers_ok [of retired] assms
  by (simp add: read_unlocked_def registry_payload_def raw_pointers_def parse_current_def parse_retired_def dict_keys_def)

lemma map_of_sort: "distinct (map fst d) \<Longrightarrow> map_of (sort d) = map_of d"
  using distinct_fst_perm [of "sort d" d] by (simp add: map_of_inject_set)

lemma map_of_update_all:
  assumes "distinct (map fst items)"
  shows "map_of (update_all current items) = map_of current ++ map_of items"
  using assms
proof (induction items arbitrary: current)
  case (Cons i items)
  obtain k v where i: "i = (k, v)" by (rule prod.exhaust)
  with Cons.prems have "map_of items k = None" by (simp add: map_of_eq_None_iff)
  with Cons.IH [of "AList.update k v current"] Cons.prems i show ?case
    by (auto simp: update_all_def update_conv' fun_eq_iff map_add_def split: option.splits)
qed (simp add: update_all_def)

lemma current_ok_update_all:
  assumes "current_ok current" "list_all (\<lambda>(k, i). dataset_kind_from_id i = Inr k) items"
  shows "current_ok (update_all current items)"
  using assms
proof (induction items arbitrary: current)
  case (Cons i items)
  obtain k v where i: "i = (k, v)" by (rule prod.exhaust)
  with Cons.prems have "current_ok (AList.update k v current)"
    by (simp add: current_ok_def distinct_update list_all_update)
  with Cons.IH [of "AList.update k v current"] Cons.prems i show ?case by (simp add: update_all_def)
qed (simp add: update_all_def)

end
