(* ===== verification/RefreshGraph.thy ===== *)
theory RefreshGraph
  imports Registry
begin

text \<open>
  The build graph of a scope (\<open>src/data/pipeline_graph.py\<close>): the sixteen nodes, the validation that runs
  when the module is loaded, the collection gates, and the split of a plan into phases.

  The build function of a node is one of the functions of \<open>refresh_ports\<close> (theory \<open>RefreshRun\<close>), found by the
  node's kind. Sets of names that the code only tests for membership are HOL sets.
\<close>

section \<open>The graph\<close>

record build_node =
  bn_kind :: string
  bn_inputs :: "string list"
  bn_bronze_sources :: "string list"

definition build_node_init :: "string \<Rightarrow> string list \<Rightarrow> string list \<Rightarrow> build_node" where
  "build_node_init kind inputs sources = \<lparr>bn_kind = kind, bn_inputs = inputs, bn_bronze_sources = sources\<rparr>"

definition SCOPE_GRAPH :: "build_node list" where
  "SCOPE_GRAPH =
    [build_node_init ''ordinary_universe'' [] [''krx_security_master''],
     build_node_init ''industry'' [] [''industry''],
     build_node_init ''financial_facts'' [] [''financial_facts''],
     build_node_init ''daily_market'' [''ordinary_universe''] [''krx_daily_market''],
     build_node_init ''hedge_series'' [''ordinary_universe''] [''krx_hedge_series''],
     build_node_init ''trend_series'' [''ordinary_universe''] [''krx_trend_series''],
     build_node_init ''cash_series'' [''ordinary_universe''] [''krx_cash_series''],
     build_node_init ''dividend_events'' [''daily_market''] [''corporate_actions''],
     build_node_init ''earnings_releases'' [] [''disclosures''],
     build_node_init ''investor_flow_ls'' [''ordinary_universe''] [''investor_flow''],
     build_node_init ''financial_quality'' [''financial_facts''] [],
     build_node_init ''market_actions'' [''daily_market''] [''corporate_actions'', ''krx_daily_market''],
     build_node_init ''market_panel'' [''daily_market'', ''ordinary_universe'', ''market_actions''] [],
     build_node_init ''investor_flow_kis_supplement'' [''ordinary_universe'', ''daily_market'', ''investor_flow_ls''] [''investor_flow''],
     build_node_init ''investor_flow'' [''investor_flow_ls'', ''investor_flow_kis_supplement''] [],
     build_node_init ''reference_benchmarks'' [''market_panel''] []]"

type_synonym remaining = "(string, string list) dict"

text \<open>\<open>del remaining[kind]\<close>, then \<open>discard(kind)\<close> on every set that is left.\<close>

definition release :: "remaining \<Rightarrow> string \<Rightarrow> remaining" where
  "release r kind = map (\<lambda>(k, ds). (k, filter (\<lambda>d. d \<noteq> kind) ds)) (AList.delete kind r)"

definition ready_kinds :: "remaining \<Rightarrow> string list" where
  "ready_kinds r = sort (map fst (filter (\<lambda>(k, ds). ds = []) r))"

lemma length_release: "length (release r k) = length (AList.delete k r)"
  by (simp add: release_def)

lemma length_release_le: "length (foldl release r ks) \<le> length r"
proof (induction ks arbitrary: r)
  case (Cons k ks)
  from Cons.IH [of "release r k"] show ?case using length_delete_le [of k r] by (simp add: length_release)
qed simp

lemma length_foldl_release:
  assumes "k \<in> fst ` set r"
  shows "length (foldl release r (k # ks)) < length r"
proof -
  have "length (AList.delete k r) < length r"
    using assms by (induction r) (auto simp: le_imp_less_Suc length_delete_le)
  then show ?thesis using length_release_le [of "release r k" ks] by (simp add: length_release)
qed

function order_loop :: "remaining \<Rightarrow> string list \<Rightarrow> string list res" where
  "order_loop r ordered =
     (if r = [] then Inr ordered
      else if ready_kinds r = [] then Inl (PITDataError ''scope graph has a dependency cycle'')
      else order_loop (foldl release r (ready_kinds r)) (ordered @ ready_kinds r))"
  by pat_completeness auto
termination
proof (relation "measure (\<lambda>(r, _). length r)")
  fix r :: remaining and ordered :: "string list"
  assume "ready_kinds r \<noteq> []"
  then obtain k ks where ks: "ready_kinds r = k # ks" by (cases "ready_kinds r") auto
  then have "k \<in> set (ready_kinds r)" by simp
  then have "k \<in> fst ` set r" by (auto simp: ready_kinds_def)
  then show "((foldl release r (ready_kinds r), ordered @ ready_kinds r), (r, ordered)) \<in> measure (\<lambda>(r, _). length r)"
    using length_foldl_release [of k r ks] ks by simp
qed simp

declare order_loop.simps [simp del]

definition validate_scope_graph :: "build_node list \<Rightarrow> build_node list res" where
  "validate_scope_graph graph =
     (let kinds = map bn_kind graph in
      guard (length (remdups kinds) \<noteq> length kinds) (PITDataError ''scope graph has duplicate kinds'') (
      guard (\<not> list_all (\<lambda>node. list_all (\<lambda>d. d \<in> set kinds) (bn_inputs node)) graph)
        (PITDataError ''scope graph node depends on unknown kind'') (
      res_bind (order_loop (map (\<lambda>node. (bn_kind node, remdups (bn_inputs node))) graph) []) (\<lambda>_. Inr graph))))"

section \<open>The loop accepts exactly the acyclic graphs\<close>

definition depends :: "build_node list \<Rightarrow> (string \<times> string) set" where
  "depends graph = {(d, k). \<exists>node \<in> set graph. bn_kind node = k \<and> d \<in> set (bn_inputs node)}"

definition waits :: "remaining \<Rightarrow> (string \<times> string) set" where
  "waits r = {(d, k). \<exists>ds. (k, ds) \<in> set r \<and> d \<in> set ds}"

definition closed_deps :: "remaining \<Rightarrow> bool" where
  "closed_deps r \<longleftrightarrow> distinct (map fst r) \<and> fst ` waits r \<subseteq> fst ` set r"

lemma finite_waits: "finite (waits r)"
proof -
  have "waits r \<subseteq> (\<Union>(k, ds) \<in> set r. set ds \<times> {k})" by (auto simp: waits_def)
  then show ?thesis by (rule finite_subset) auto
qed

lemma set_release: "set (release r x) = {(k, filter (\<lambda>d. d \<noteq> x) ds) | k ds. (k, ds) \<in> set r \<and> k \<noteq> x}"
  by (force simp: release_def AList.delete_eq)

lemma waits_release: "waits (release r x) = {(d, k) \<in> waits r. d \<noteq> x \<and> k \<noteq> x}"
  unfolding waits_def set_release by fastforce

lemma map_fst_release: "map fst (release r x) = map fst (AList.delete x r)"
  by (simp add: release_def case_prod_beta)

lemma keys_release: "fst ` set (release r x) = fst ` set r - {x}"
  using arg_cong [OF map_fst_release, of set r x] by (simp add: delete_keys image_Un)

lemma distinct_release: "distinct (map fst r) \<Longrightarrow> distinct (map fst (release r x))"
  by (simp add: map_fst_release distinct_delete)

lemma closed_release: "closed_deps r \<Longrightarrow> closed_deps (release r x)"
  by (auto simp: closed_deps_def distinct_release waits_release keys_release)

text \<open>A kind with no inputs left starts no cycle, so removing it changes nothing about cycles.\<close>

lemma acyclic_without_source:
  assumes "acyclic {(d, k) \<in> R. d \<noteq> x \<and> k \<noteq> x}" "x \<notin> snd ` R"
  shows "acyclic R"
proof (rule acyclicI, rule allI)
  fix y
  have keep: "(a, b) \<in> R\<^sup>+ \<Longrightarrow> a \<noteq> x \<Longrightarrow> (a, b) \<in> {(d, k) \<in> R. d \<noteq> x \<and> k \<noteq> x}\<^sup>+ \<and> b \<noteq> x" for a b
  proof (induction rule: trancl_induct)
    case (base b)
    with assms(2) have "(a, b) \<in> {(d, k) \<in> R. d \<noteq> x \<and> k \<noteq> x}" "b \<noteq> x" by force+
    then show ?case by blast
  next
    case (step b c)
    with assms(2) have "(b, c) \<in> {(d, k) \<in> R. d \<noteq> x \<and> k \<noteq> x}" "c \<noteq> x" by force+
    with step show ?case by (meson trancl_into_trancl)
  qed
  show "(y, y) \<notin> R\<^sup>+"
  proof
    assume c: "(y, y) \<in> R\<^sup>+"
    then have "y \<noteq> x" using assms(2) by (metis snd_conv imageI tranclE)
    with keep [OF c] assms(1) show False by (auto simp: acyclic_def)
  qed
qed

lemma acyclic_release:
  assumes "x \<notin> snd ` waits r"
  shows "acyclic (waits (release r x)) \<longleftrightarrow> acyclic (waits r)"
  using acyclic_without_source [of "waits r" x] assms acyclic_subset [of "waits r" "waits (release r x)"]
  by (auto simp: waits_release)

lemma acyclic_foldl_release:
  assumes "\<forall>x \<in> set xs. x \<notin> snd ` waits r" "closed_deps r"
  shows "(acyclic (waits (foldl release r xs)) \<longleftrightarrow> acyclic (waits r)) \<and> closed_deps (foldl release r xs)"
  using assms
proof (induction xs arbitrary: r)
  case (Cons x xs)
  have "\<forall>y \<in> set xs. y \<notin> snd ` waits (release r x)" using Cons.prems by (force simp: waits_release)
  moreover have "closed_deps (release r x)" using Cons.prems by (simp add: closed_release)
  ultimately show ?case using Cons.IH [of "release r x"] acyclic_release [of x r] Cons.prems by simp
qed simp

lemma ready_not_waiting:
  assumes "x \<in> set (ready_kinds r)" "closed_deps r"
  shows "x \<notin> snd ` waits r"
proof -
  have "(x, []) \<in> set r" using assms(1) by (auto simp: ready_kinds_def)
  moreover have "distinct (map fst r)" using assms(2) by (simp add: closed_deps_def)
  ultimately have "(x, ds) \<in> set r \<Longrightarrow> ds = []" for ds by (metis eq_key_imp_eq_value)
  then show ?thesis by (force simp: waits_def)
qed

lemma stuck_cyclic:
  assumes "ready_kinds r = []" "r \<noteq> []" "closed_deps r"
  shows "\<not> acyclic (waits r)"
proof
  assume "acyclic (waits r)"
  then have "wf (waits r)" using finite_waits by (simp add: finite_acyclic_wf)
  moreover obtain k where "k \<in> fst ` set r" using assms(2) by (cases r) auto
  ultimately obtain m where m: "m \<in> fst ` set r" "\<And>d. (d, m) \<in> waits r \<Longrightarrow> d \<notin> fst ` set r"
    using wfE_min [of "waits r" k "fst ` set r"] by metis
  then obtain ds where ds: "(m, ds) \<in> set r" by auto
  have "m \<in> set (ready_kinds r)" if "ds = []" using ds that by (force simp: ready_kinds_def)
  with assms(1) have "ds \<noteq> []" by auto
  then have "(hd ds, m) \<in> waits r" using ds by (auto simp: waits_def)
  with m(2) assms(3) show False by (force simp: closed_deps_def)
qed

lemma order_loop_acyclic: "closed_deps r \<Longrightarrow> (\<exists>done_kinds. order_loop r ordered = Inr done_kinds) \<longleftrightarrow> acyclic (waits r)"
proof (induction r ordered rule: order_loop.induct)
  case (1 r ordered)
  show ?case
  proof (cases "r = [] \<or> ready_kinds r = []")
    case True
    then show ?thesis using stuck_cyclic [of r] 1(2) by (subst order_loop.simps) (auto simp: waits_def acyclic_def)
  next
    case False
    have source: "\<forall>x \<in> set (ready_kinds r). x \<notin> snd ` waits r" using ready_not_waiting 1(2) by blast
    from False 1(1) acyclic_foldl_release [OF source 1(2)] show ?thesis by (simp add: order_loop.simps [of r])
  qed
qed

lemma validate_scope_graph_Inr:
  "validate_scope_graph graph = Inr g \<longleftrightarrow> g = graph \<and> distinct (map bn_kind graph)
     \<and> list_all (\<lambda>node. set (bn_inputs node) \<subseteq> bn_kind ` set graph) graph \<and> acyclic (depends graph)"
proof -
  let ?r = "map (\<lambda>node. (bn_kind node, remdups (bn_inputs node))) graph"
  let ?known = "list_all (\<lambda>node. set (bn_inputs node) \<subseteq> bn_kind ` set graph) graph"
  have waits: "waits ?r = depends graph" by (force simp: waits_def depends_def)
  have known: "list_all (\<lambda>node. list_all (\<lambda>d. d \<in> set (map bn_kind graph)) (bn_inputs node)) graph \<longleftrightarrow> ?known"
    by (auto simp: list_all_iff)
  have "distinct (map bn_kind graph) \<and> ?known \<Longrightarrow> closed_deps ?r"
    unfolding closed_deps_def waits by (force simp: comp_def depends_def list_all_iff)
  then have "distinct (map bn_kind graph) \<and> ?known \<Longrightarrow> (\<exists>o'. order_loop ?r [] = Inr o') \<longleftrightarrow> acyclic (depends graph)"
    using order_loop_acyclic [of ?r "[]"] by (simp add: waits)
  moreover have "length (remdups (map bn_kind graph)) = length (map bn_kind graph) \<longleftrightarrow> distinct (map bn_kind graph)"
    by (metis length_remdups_eq remdups_id_iff_distinct)
  ultimately show ?thesis
    unfolding validate_scope_graph_def Let_def known by (auto simp: res_simps)
qed

section \<open>Collection gates\<close>

definition DART_COLLECTION_STEPS :: "string set" where
  "DART_COLLECTION_STEPS = {''dart_corp_codes'', ''dart_disclosures'', ''dart_facts'', ''dividend_decisions'', ''earnings_releases''}"

definition NODE_COLLECTION_GATES :: "(string, string set) dict" where
  "NODE_COLLECTION_GATES =
    [(''ordinary_universe'', {''krx_security_master''}),
     (''daily_market'', {''krx_daily_market''}),
     (''hedge_series'', {''krx_hedge_series''}),
     (''trend_series'', {''krx_trend_series''}),
     (''cash_series'', {''krx_cash_series''}),
     (''investor_flow_ls'', {''ls_investor_flow''}),
     (''investor_flow_kis_supplement'', {''kis_investor_flow''}),
     (''financial_facts'', DART_COLLECTION_STEPS),
     (''dividend_events'', DART_COLLECTION_STEPS),
     (''earnings_releases'', DART_COLLECTION_STEPS),
     (''market_actions'', DART_COLLECTION_STEPS \<union> {''krx_daily_market''}),
     (''industry'', {}), (''financial_quality'', {}), (''market_panel'', {}), (''investor_flow'', {}), (''reference_benchmarks'', {})]"

definition KIS_PREREQUISITE_KINDS :: "string list" where
  "KIS_PREREQUISITE_KINDS = [''ordinary_universe'', ''daily_market'', ''investor_flow_ls'']"

definition FLOW_COMPLETION_KINDS :: "string list" where
  "FLOW_COMPLETION_KINDS = [''investor_flow_kis_supplement'', ''investor_flow'']"

definition inputs_by_kind :: "build_node list \<Rightarrow> (string, string list) dict" where
  "inputs_by_kind graph = map (\<lambda>node. (bn_kind node, bn_inputs node)) graph"

text \<open>
  The recursion follows the inputs with a memo; on a cyclic graph the interpreter's recursion limit ends
  it with an error, so the depth that is left is an argument.
\<close>

type_synonym memo = "(string, string set) dict"

fun effective_gate_at :: "nat \<Rightarrow> (string, string list) dict \<Rightarrow> string \<Rightarrow> memo \<Rightarrow> (string set \<times> memo) res"
  and union_gates_at :: "nat \<Rightarrow> (string, string list) dict \<Rightarrow> string list \<Rightarrow> string set \<times> memo \<Rightarrow> (string set \<times> memo) res" where
  "effective_gate_at 0 inputs kind memo = Inl (RuntimeError ''maximum recursion depth exceeded'')"
| "effective_gate_at (Suc n) inputs kind memo =
     (case map_of memo kind of Some cached \<Rightarrow> Inr (cached, memo)
      | None \<Rightarrow>
          res_bind (union_gates_at n inputs (dict_get inputs kind []) (dict_get NODE_COLLECTION_GATES kind {}, memo))
            (\<lambda>(result, memo). Inr (result, AList.update kind result memo)))"
| "union_gates_at n inputs [] acc = Inr acc"
| "union_gates_at n inputs (d # ds) acc =
     res_bind (effective_gate_at n inputs d (snd acc)) (\<lambda>(gate, memo). union_gates_at n inputs ds (fst acc \<union> gate, memo))"

definition RECURSION_LIMIT :: nat where
  "RECURSION_LIMIT = 1000"

definition effective_gate :: "(string, string list) dict \<Rightarrow> string \<Rightarrow> memo \<Rightarrow> (string set \<times> memo) res" where
  "effective_gate = effective_gate_at RECURSION_LIMIT"

function closure_loop :: "(string, string list) dict \<Rightarrow> string set \<Rightarrow> string list \<Rightarrow> string set" where
  "closure_loop inputs found stack =
     (if stack = [] then found
      else let kind = last stack; rest = butlast stack in
        if kind \<in> found then closure_loop inputs found rest
        else case map_of inputs kind of None \<Rightarrow> closure_loop inputs found rest
          | Some deps \<Rightarrow> closure_loop inputs (insert kind found) (rest @ deps))"
  by pat_completeness auto
termination
proof (relation "measures [\<lambda>(inputs, found, stack). card (fst ` set inputs - found), \<lambda>(inputs, found, stack). length stack]")
  fix inputs :: "(string, string list) dict" and found :: "string set" and stack kind rest deps
  assume "kind \<notin> found" "map_of inputs kind = Some deps"
  then have "kind \<in> fst ` set inputs - found" by (force dest: map_of_SomeD)
  then have "card (fst ` set inputs - insert kind found) < card (fst ` set inputs - found)"
    by (intro psubset_card_mono) auto
  then show "((inputs, insert kind found, rest @ deps), (inputs, found, stack)) \<in>
      measures [\<lambda>(inputs, found, stack). card (fst ` set inputs - found), \<lambda>(inputs, found, stack). length stack]" by simp
qed auto

declare closure_loop.simps [simp del]

definition closure :: "string list \<Rightarrow> (string, string list) dict \<Rightarrow> string set" where
  "closure seeds inputs = closure_loop inputs {} seeds"

definition phase_split :: "build_node list \<Rightarrow> build_node list \<times> build_node list \<times> build_node list" where
  "phase_split plan =
     (let inputs = inputs_by_kind SCOPE_GRAPH;
          present = set (dict_keys inputs);
          phase_a = closure KIS_PREREQUISITE_KINDS inputs \<inter> present;
          phase_b = closure FLOW_COMPLETION_KINDS inputs \<inter> present - phase_a;
          wanted = set (map bn_kind plan) in
      (filter (\<lambda>node. bn_kind node \<in> phase_a \<and> bn_kind node \<in> wanted) SCOPE_GRAPH,
       filter (\<lambda>node. bn_kind node \<in> phase_b \<and> bn_kind node \<in> wanted) SCOPE_GRAPH,
       filter (\<lambda>node. bn_kind node \<notin> phase_a \<and> bn_kind node \<notin> phase_b \<and> bn_kind node \<in> wanted) SCOPE_GRAPH))"

definition blocked_step :: "string set \<Rightarrow> string list \<times> memo \<Rightarrow> build_node \<Rightarrow> (string list \<times> memo) res" where
  "blocked_step incomplete acc node =
     res_bind (effective_gate (inputs_by_kind SCOPE_GRAPH) (bn_kind node) (snd acc)) (\<lambda>(gate, memo).
     Inr (if gate \<inter> incomplete \<noteq> {} then fst acc @ [bn_kind node] else fst acc, memo))"

definition blocked_kinds :: "build_node list \<Rightarrow> string set \<Rightarrow> string list res" where
  "blocked_kinds plan incomplete =
     (if incomplete = {} then Inr []
      else res_bind (foldM (blocked_step incomplete) ([], []) plan) (\<lambda>acc. Inr (fst acc)))"

end
