(* ===== verification/RefreshRun.thy ===== *)
theory RefreshRun
  imports RefreshGraph
begin

text \<open>
  The refresh of a scope (\<open>src/data/pipeline_graph.py\<close>): planning the stale nodes, building and verifying
  them in order, registering the results, and the collection phases that gate the builds.

  The builders, the previews of the would-be identities, the collection steps and the progress sink are
  functions the graph is handed; they act on the world and read the registry, and only \<open>register_many\<close>
  moves a pointer. Log lines carry no state and are left out.
\<close>

section \<open>Context, ports and reports\<close>

record refresh_context =
  rc_decision_time :: py_datetime
  rc_superseded_receipts :: "string set"
  rc_deferred_build_kinds :: "string set"
  rc_retry_krx_session :: "date option"

definition build_refresh_context :: "py_datetime \<Rightarrow> py_datetime option \<Rightarrow> string set res \<Rightarrow> string set option \<Rightarrow> refresh_context res" where
  "build_refresh_context now cutoff loaded superseded =
     (let moment = (case cutoff of Some t \<Rightarrow> t | None \<Rightarrow> now) in
      case moment of
        Naive _ \<Rightarrow> Inl (PITDataError ''refresh decision_time must be timezone-aware'')
      | Aware _ \<Rightarrow>
          res_bind (case superseded of Some s \<Rightarrow> Inr s | None \<Rightarrow> loaded) (\<lambda>receipts.
          Inr \<lparr>rc_decision_time = moment, rc_superseded_receipts = receipts,
               rc_deferred_build_kinds = {}, rc_retry_krx_session = None\<rparr>))"

record collection_step_report =
  cs_job :: string
  cs_status :: string
  cs_done :: int
  cs_pending_left :: int
  cs_requests_used :: int

datatype event =
    EvPlan string
  | EvSkipped string "string option"
  | EvDataset string string "pyfloat option"
  | EvCollection collection_step_report
  | EvCoverage collection_step_report "string list"

record 'w refresh_ports =
  rp_lake :: "'w lake_ports"
  rp_preview :: "string \<Rightarrow> refresh_context \<Rightarrow> 'w rstate \<Rightarrow> dataset_identity res"
  rp_build :: "string \<Rightarrow> refresh_context \<Rightarrow> registry_file \<Rightarrow> (string, string) dict \<Rightarrow> 'w \<Rightarrow> 'w \<times> published_dataset res"
  rp_reset_peak :: "'w \<Rightarrow> 'w"
  rp_peak :: "'w \<Rightarrow> pyfloat option"
  rp_emit :: "event \<Rightarrow> 'w \<Rightarrow> 'w \<times> unit res"

record refresh_report =
  rf_decision_time :: py_datetime
  rf_status :: string
  rf_planned :: "string list"
  rf_built :: "string list"
  rf_datasets :: "(string, string) dict"
  rf_blocking_job :: "string option"
  rf_collection :: "collection_step_report list"
  rf_degraded_jobs :: "string list"
  rf_node_peak :: "(string, pyfloat) dict"

text \<open>A call that touches the world only.\<close>

definition on_world :: "('w \<Rightarrow> 'w \<times> 'a res) \<Rightarrow> ('w rstate, 'a) act" where
  "on_world f s = (case f (rs_world s) of (w, r) \<Rightarrow> (s\<lparr>rs_world := w\<rparr>, r))"

definition emit :: "'w refresh_ports \<Rightarrow> event \<Rightarrow> ('w rstate, unit) act" where
  "emit P e = on_world (rp_emit P e)"

section \<open>Planning\<close>

definition param_number :: "param \<Rightarrow> rat option" where
  "param_number p = (case p of ParInt i \<Rightarrow> Some (of_int i) | ParFloat x \<Rightarrow> Some x
     | ParBool b \<Rightarrow> Some (if b then 1 else 0) | _ \<Rightarrow> None)"

text \<open>Equality of parameter values: numbers and booleans compare by value, everything else by type and value.\<close>

definition param_eq :: "param \<Rightarrow> param \<Rightarrow> bool" where
  "param_eq p q \<longleftrightarrow> (case (param_number p, param_number q) of (Some x, Some y) \<Rightarrow> x = y | _ \<Rightarrow> p = q)"

definition dict_eq :: "('v \<Rightarrow> 'v \<Rightarrow> bool) \<Rightarrow> ('k, 'v) dict \<Rightarrow> ('k, 'v) dict \<Rightarrow> bool" where
  "dict_eq eq d e \<longleftrightarrow> length d = length e
     \<and> list_all (\<lambda>(k, v). case map_of e k of None \<Rightarrow> False | Some w \<Rightarrow> eq v w) d"

definition NON_STALENESS_PARAMS :: "string set" where
  "NON_STALENESS_PARAMS = {''decision_time''}"

definition staleness_params :: "(string, param) dict \<Rightarrow> (string, param) dict" where
  "staleness_params ps = filter (\<lambda>(name, _). name \<notin> NON_STALENESS_PARAMS) ps"

definition expected_matches_registered :: "'w lake_ports \<Rightarrow> 'w \<Rightarrow> dataset_identity \<Rightarrow> path \<Rightarrow> bool" where
  "expected_matches_registered L w expected dataset_dir = (case lp_load_manifest L w dataset_dir of
       Inl _ \<Rightarrow> False
     | Inr manifest \<Rightarrow>
         di_layer expected = dm_layer manifest \<and> di_policy_version expected = dm_policy_version manifest
         \<and> dict_eq (=) (di_inputs expected) (dm_inputs manifest)
         \<and> dict_eq param_eq (staleness_params (di_params expected)) (staleness_params (dm_params manifest)))"

definition registered_dataset_dir :: "'w lake_ports \<Rightarrow> 'w \<Rightarrow> string \<Rightarrow> path option" where
  "registered_dataset_dir L w i =
     (let at_layer = (\<lambda>layer. case lp_root L w layer of None \<Rightarrow> None | Some d \<Rightarrow> lookup i d) in
      case filter (\<lambda>layer. has_manifest (at_layer layer)) [SILVER, GOLD] of
        [layer] \<Rightarrow> Some (layer, [i]) | _ \<Rightarrow> None)"

definition node_stale :: "'w refresh_ports \<Rightarrow> refresh_context \<Rightarrow> 'w rstate \<Rightarrow> pointers \<Rightarrow> string set \<Rightarrow> build_node \<Rightarrow> bool" where
  "node_stale P ctx s current stale node = (case map_of current (bn_kind node) of
       None \<Rightarrow> True
     | Some dataset_id \<Rightarrow>
         list_ex (\<lambda>d. d \<in> stale) (bn_inputs node)
         \<or> (case registered_dataset_dir (rp_lake P) (rs_world s) dataset_id of None \<Rightarrow> True
            | Some dataset_dir \<Rightarrow> (case rp_preview P (bn_kind node) ctx s of Inl _ \<Rightarrow> True
              | Inr expected \<Rightarrow> \<not> expected_matches_registered (rp_lake P) (rs_world s) expected dataset_dir)))"

definition plan_step :: "'w refresh_ports \<Rightarrow> refresh_context \<Rightarrow> 'w rstate \<Rightarrow> pointers
    \<Rightarrow> string set \<times> build_node list \<Rightarrow> build_node \<Rightarrow> string set \<times> build_node list" where
  "plan_step P ctx s current acc node =
     (if bn_kind node \<in> rc_deferred_build_kinds ctx then acc
      else if node_stale P ctx s current (fst acc) node
      then (insert (bn_kind node) (fst acc), snd acc @ [node]) else acc)"

definition plan_refresh :: "'w refresh_ports \<Rightarrow> refresh_context \<Rightarrow> 'w rstate \<Rightarrow> build_node list res" where
  "plan_refresh P ctx s =
     res_bind (snapshot (rs_registry s)) (\<lambda>current.
     guard (\<not> set (dict_keys current) \<subseteq> bn_kind ` set SCOPE_GRAPH)
       (PITDataError ''dataset registry has kinds outside the scope graph'') (
     Inr (snd (foldl (plan_step P ctx s current) ({}, []) SCOPE_GRAPH))))"

section \<open>Building\<close>

definition disk_dataset_ids :: "'w lake_ports \<Rightarrow> 'w rstate \<Rightarrow> string set \<Rightarrow> string set res" where
  "disk_dataset_ids L s extra =
     res_bind (retired_ids (rs_registry s)) (\<lambda>retired.
     let dirs = (\<lambda>layer. let base = lp_root L (rs_world s) layer in
       if \<not> is_dir base then []
       else map (\<lambda>(name, _). (layer, [name])) (filter (\<lambda>(name, d). is_dir (Some d) \<and> take 1 name \<noteq> ''.'') (iterdir base))) in
     Inr (extra \<union> set (dict_keys retired) \<union> set (loaded_ids L (rs_world s) (dirs SILVER @ dirs GOLD))))"

definition build_with_peak :: "'w refresh_ports \<Rightarrow> refresh_context \<Rightarrow> build_node \<Rightarrow> (string, string) dict
    \<Rightarrow> ('w rstate, published_dataset \<times> pyfloat option) act" where
  "build_with_peak P ctx node inputs =
     act_bind (on_world (\<lambda>w. (rp_reset_peak P w, Inr ()))) (\<lambda>_.
     act_bind (read rs_registry) (\<lambda>reg.
     act_bind (on_world (rp_build P (bn_kind node) ctx reg inputs)) (\<lambda>outcome.
     act_bind (read (\<lambda>s. rp_peak P (rs_world s))) (\<lambda>peak. ret (outcome, peak)))))"

record build_state =
  bs_built :: "(string, published_dataset) dict"
  bs_known :: "string set"
  bs_peaks :: "(string, pyfloat) dict"

definition resolve_input :: "(string, published_dataset) dict \<Rightarrow> pointers \<Rightarrow> string \<Rightarrow> (string \<times> string) res" where
  "resolve_input built current dependency = (case map_of built dependency of
       Some outcome \<Rightarrow> Inr (dependency, pd_dataset_id outcome)
     | None \<Rightarrow> (case map_of current dependency of Some i \<Rightarrow> Inr (dependency, i)
        | None \<Rightarrow> Inl (PITDataError ''refresh input is not registered'')))"

definition build_one :: "'w refresh_ports \<Rightarrow> refresh_context \<Rightarrow> pointers \<Rightarrow> build_state \<Rightarrow> build_node \<Rightarrow> ('w rstate, build_state) act" where
  "build_one P ctx current b node =
     act_bind (read_res (\<lambda>_. mapM (resolve_input (bs_built b) current) (bn_inputs node))) (\<lambda>resolved.
     act_bind (build_with_peak P ctx node resolved) (\<lambda>(outcome, peak).
     act_bind (read (\<lambda>s. verify_dataset (rp_lake P) (rs_world s) (pd_path outcome) (\<lambda>i. i \<in> bs_known b))) (\<lambda>verification.
     if \<not> passed verification then raise (PITDataError ''refresh verification failed'')
     else act_bind (emit P (EvDataset (bn_kind node) (pd_dataset_id outcome) peak)) (\<lambda>_.
       ret \<lparr>bs_built = AList.update (bn_kind node) outcome (bs_built b),
            bs_known = insert (pd_dataset_id outcome) (bs_known b),
            bs_peaks = (case peak of None \<Rightarrow> bs_peaks b | Some x \<Rightarrow> AList.update (bn_kind node) x (bs_peaks b))\<rparr>))))"

definition build_nodes :: "'w refresh_ports \<Rightarrow> refresh_context \<Rightarrow> pointers \<Rightarrow> build_state \<Rightarrow> build_node list \<Rightarrow> ('w rstate, build_state) act" where
  "build_nodes P ctx current = fold_act (build_one P ctx current)"

definition built_ids :: "(string, published_dataset) dict \<Rightarrow> pointers" where
  "built_ids built = map (\<lambda>(kind, outcome). (kind, pd_dataset_id outcome)) built"

definition no_builds :: "string set \<Rightarrow> build_state" where
  "no_builds known = \<lparr>bs_built = [], bs_known = known, bs_peaks = []\<rparr>"

definition run_refresh :: "'w refresh_ports \<Rightarrow> refresh_context \<Rightarrow> bool \<Rightarrow> ('w rstate, refresh_report) act" where
  "run_refresh P ctx dry_run =
     act_bind (read_res (plan_refresh P ctx)) (\<lambda>plan.
     act_bind (each_act (\<lambda>node. emit P (EvPlan (bn_kind node))) plan) (\<lambda>_.
     if dry_run then
       ret \<lparr>rf_decision_time = rc_decision_time ctx, rf_status = ''dry_run'', rf_planned = map bn_kind plan, rf_built = [],
            rf_datasets = [], rf_blocking_job = None, rf_collection = [], rf_degraded_jobs = [], rf_node_peak = []\<rparr>
     else
       act_bind (read_res (\<lambda>s. snapshot (rs_registry s))) (\<lambda>current.
       act_bind (read_res (\<lambda>s. disk_dataset_ids (rp_lake P) s (snd ` set current))) (\<lambda>known.
       act_bind (build_nodes P ctx current (no_builds known) plan) (\<lambda>b.
       act_bind (if bs_built b = [] then ret () else register_many (rp_lake P) (built_ids (bs_built b))) (\<lambda>_.
       ret \<lparr>rf_decision_time = rc_decision_time ctx, rf_status = ''complete'', rf_planned = map bn_kind plan,
            rf_built = map fst (bs_built b), rf_datasets = built_ids (bs_built b), rf_blocking_job = None, rf_collection = [],
            rf_degraded_jobs = [], rf_node_peak = bs_peaks b\<rparr>))))))"

section \<open>Collecting\<close>

record collection_report =
  cr_steps :: "collection_step_report list"
  cr_optional :: "string set"

definition OPTIONAL_COLLECTION_JOBS :: "string set" where
  "OPTIONAL_COLLECTION_JOBS = {''kind_notice_search'', ''kind_notice_documents'', ''kis_industry'',
     ''dbsec_ticker_master'', ''dbsec_daily_chart'', ''dbsec_closing_bar''}"

definition step_complete :: "collection_step_report \<Rightarrow> bool" where
  "step_complete st \<longleftrightarrow> cs_status st = ''complete''"

definition collection_complete :: "collection_report \<Rightarrow> bool" where
  "collection_complete c \<longleftrightarrow> cr_steps c \<noteq> []
     \<and> list_all step_complete (filter (\<lambda>st. cs_job st \<notin> cr_optional c) (cr_steps c))"

definition blocking_job :: "collection_report \<Rightarrow> string option" where
  "blocking_job c = map_option cs_job (List.find (\<lambda>st. \<not> step_complete st \<and> cs_job st \<notin> cr_optional c) (cr_steps c))"

definition degraded_jobs :: "collection_report \<Rightarrow> string list" where
  "degraded_jobs c = map cs_job (filter (\<lambda>st. \<not> step_complete st \<and> cs_job st \<in> cr_optional c) (cr_steps c))"

text \<open>
  How a step ends: with a report, with the exception its progress sink raised, with a disclosure coverage
  error naming the periods, or with another exception.
\<close>

datatype step_outcome =
    StepReport collection_step_report
  | StepEmitFailure py_error
  | StepCoverageError "string list"
  | StepFailure py_error

type_synonym 'w collection_step = "string \<times> (refresh_context \<Rightarrow> bool \<Rightarrow> registry_file \<Rightarrow> 'w \<Rightarrow> 'w \<times> step_outcome)"

definition call_step :: "'w collection_step \<Rightarrow> refresh_context \<Rightarrow> bool \<Rightarrow> ('w rstate, step_outcome) act" where
  "call_step step ctx dry_run s =
     (case snd step ctx dry_run (rs_registry s) (rs_world s) of (w, r) \<Rightarrow> (s\<lparr>rs_world := w\<rparr>, Inr r))"

definition failed_step :: "string \<Rightarrow> string \<Rightarrow> collection_step_report" where
  "failed_step name status = \<lparr>cs_job = name, cs_status = status, cs_done = 0, cs_pending_left = 0, cs_requests_used = 0\<rparr>"

definition collect_one :: "'w refresh_ports \<Rightarrow> refresh_context \<Rightarrow> bool \<Rightarrow> collection_step_report list \<Rightarrow> 'w collection_step
    \<Rightarrow> ('w rstate, collection_step_report list) act" where
  "collect_one P ctx dry_run reports step =
     act_bind (call_step step ctx dry_run) (\<lambda>r.
     case r of
       StepEmitFailure e \<Rightarrow> raise e
     | StepCoverageError periods \<Rightarrow>
         if fst step \<notin> OPTIONAL_COLLECTION_JOBS then
           (let report = failed_step (fst step) ''coverage_gap'' in
            act_bind (emit P (EvCoverage report periods)) (\<lambda>_. ret (reports @ [report])))
         else
           (let report = failed_step (fst step) ''failed'' in
            act_bind (emit P (EvCollection report)) (\<lambda>_. ret (reports @ [report])))
     | StepFailure e \<Rightarrow>
         (let report = failed_step (fst step) ''failed'' in
          act_bind (emit P (EvCollection report)) (\<lambda>_. ret (reports @ [report])))
     | StepReport report \<Rightarrow>
         if cs_job report \<noteq> fst step then raise (PITDataError ''collection step name mismatch'')
         else act_bind (emit P (EvCollection report)) (\<lambda>_. ret (reports @ [report])))"

definition run_collection_jobs :: "'w refresh_ports \<Rightarrow> refresh_context \<Rightarrow> bool \<Rightarrow> 'w collection_step list
    \<Rightarrow> ('w rstate, collection_report) act" where
  "run_collection_jobs P ctx dry_run steps =
     act_bind (fold_act (collect_one P ctx dry_run) [] steps) (\<lambda>reports.
     ret \<lparr>cr_steps = reports, cr_optional = OPTIONAL_COLLECTION_JOBS\<rparr>)"

text \<open>The steps of a full collection in their order; the runner behind a name is a parameter.\<close>

definition default_collection_steps :: "(string \<Rightarrow> refresh_context \<Rightarrow> bool \<Rightarrow> registry_file \<Rightarrow> 'w \<Rightarrow> 'w \<times> step_outcome) \<Rightarrow> 'w collection_step list" where
  "default_collection_steps run = map (\<lambda>name. (name, run name))
     [''dart_corp_codes'', ''dart_disclosures'', ''dart_facts'', ''dividend_decisions'', ''earnings_releases'', ''krx_daily_market'',
      ''krx_security_master'', ''krx_hedge_series'', ''krx_trend_series'', ''krx_cash_series'', ''kind_notice_search'',
      ''kind_notice_documents'', ''ls_investor_flow'', ''kis_investor_flow'', ''kis_industry'', ''dbsec_ticker_master'',
      ''dbsec_daily_chart'', ''dbsec_closing_bar'']"

section \<open>The scope\<close>

definition KIS_STEP :: string where
  "KIS_STEP = ''kis_investor_flow''"

definition select_steps :: "'w collection_step list \<Rightarrow> string set option \<Rightarrow> 'w collection_step list res" where
  "select_steps steps collect_steps = (case collect_steps of None \<Rightarrow> Inr steps
     | Some wanted \<Rightarrow>
         guard (\<not> wanted \<subseteq> fst ` set steps) (ValueError ''unknown collection steps'') (
         Inr (filter (\<lambda>st. fst st \<in> wanted) steps)))"

definition emit_plan :: "'w refresh_ports \<Rightarrow> build_node list \<Rightarrow> ('w rstate, unit) act" where
  "emit_plan P = each_act (\<lambda>node. emit P (EvPlan (bn_kind node)))"

definition report_of :: "refresh_context \<Rightarrow> string \<Rightarrow> string list \<Rightarrow> (string, published_dataset) dict \<Rightarrow> (string, pyfloat) dict
    \<Rightarrow> string option \<Rightarrow> collection_step_report list \<Rightarrow> string list \<Rightarrow> refresh_report" where
  "report_of ctx status planned built peaks blocking steps degraded =
     (let order = map bn_kind SCOPE_GRAPH;
          ordered_built = sort_key (\<lambda>kind. case list_index order kind of None \<Rightarrow> 0 | Some n \<Rightarrow> n) (map fst built);
          ids = map_of (built_ids built) in
      \<lparr>rf_decision_time = rc_decision_time ctx, rf_status = status, rf_planned = planned, rf_built = ordered_built,
       rf_datasets = List.map_filter (\<lambda>kind. map_option (Pair kind) (ids kind)) ordered_built,
       rf_blocking_job = blocking, rf_collection = steps, rf_degraded_jobs = degraded,
       rf_node_peak = List.map_filter (\<lambda>kind. map_option (Pair kind) (map_of peaks kind)) ordered_built\<rparr>)"

text \<open>Collection without the flow step, or no collection: one gate before the whole refresh.\<close>

definition refresh_simple :: "'w refresh_ports \<Rightarrow> refresh_context \<Rightarrow> bool \<Rightarrow> bool \<Rightarrow> 'w collection_step list
    \<Rightarrow> ('w rstate, refresh_report) act" where
  "refresh_simple P ctx collect dry_run steps =
     (if collect then
        act_bind (run_collection_jobs P ctx dry_run steps) (\<lambda>collection.
        if \<not> dry_run \<and> blocking_job collection \<noteq> None then
          ret (report_of ctx ''blocked'' [] [] [] (blocking_job collection) (cr_steps collection) (degraded_jobs collection))
        else act_bind (run_refresh P ctx dry_run) (\<lambda>report.
          if dry_run then ret (report\<lparr>rf_collection := cr_steps collection\<rparr>)
          else ret (report\<lparr>rf_collection := cr_steps collection, rf_degraded_jobs := degraded_jobs collection\<rparr>)))
      else act_bind (run_refresh P ctx dry_run) (\<lambda>report. ret (report\<lparr>rf_collection := []\<rparr>)))"

definition refresh_dry :: "'w refresh_ports \<Rightarrow> refresh_context \<Rightarrow> 'w collection_step list \<Rightarrow> 'w collection_step list
    \<Rightarrow> ('w rstate, refresh_report) act" where
  "refresh_dry P ctx pre_steps kis_steps =
     act_bind (run_collection_jobs P ctx True pre_steps) (\<lambda>pre.
     act_bind (read_res (plan_refresh P ctx)) (\<lambda>plan.
     case phase_split plan of (first, flow_done, rest) \<Rightarrow>
     act_bind (emit_plan P first) (\<lambda>_.
     act_bind (run_collection_jobs P ctx True kis_steps) (\<lambda>kis.
     act_bind (emit_plan P (flow_done @ rest)) (\<lambda>_.
     ret \<lparr>rf_decision_time = rc_decision_time ctx, rf_status = ''dry_run'', rf_planned = map bn_kind plan, rf_built = [],
          rf_datasets = [], rf_blocking_job = None, rf_collection = cr_steps pre @ cr_steps kis, rf_degraded_jobs = [],
          rf_node_peak = []\<rparr>)))))"

text \<open>The gates of the flow prerequisites, one memo for the whole loop.\<close>

definition gate_step :: "string set \<times> memo \<Rightarrow> build_node \<Rightarrow> (string set \<times> memo) res" where
  "gate_step acc node =
     res_bind (effective_gate (inputs_by_kind SCOPE_GRAPH) (bn_kind node) (snd acc)) (\<lambda>(gate, memo). Inr (fst acc \<union> gate, memo))"

definition flow_gate :: "string set res" where
  "flow_gate = res_bind (foldM gate_step ({}, []) (fst (phase_split SCOPE_GRAPH))) (\<lambda>acc. Inr (fst acc))"

definition phase_items :: "build_node list \<Rightarrow> build_state \<Rightarrow> pointers" where
  "phase_items nodes b = List.map_filter (\<lambda>node. map_option (\<lambda>o'. (bn_kind node, pd_dataset_id o')) (map_of (bs_built b) (bn_kind node))) nodes"

definition register_phase :: "'w refresh_ports \<Rightarrow> build_node list \<Rightarrow> build_state \<Rightarrow> pointers \<Rightarrow> ('w rstate, pointers) act" where
  "register_phase P nodes b current =
     (if phase_items nodes b = [] then ret current
      else act_bind (register_many (rp_lake P) (phase_items nodes b)) (\<lambda>_. read_res (\<lambda>s. snapshot (rs_registry s))))"

definition incomplete_required :: "collection_step_report list \<Rightarrow> string set" where
  "incomplete_required steps = set (map cs_job (filter (\<lambda>st. \<not> step_complete st \<and> cs_job st \<notin> OPTIONAL_COLLECTION_JOBS) steps))"

definition skip_one :: "'w refresh_ports \<Rightarrow> string list \<Rightarrow> string set \<Rightarrow> string list \<Rightarrow> build_node list \<times> memo \<Rightarrow> build_node
    \<Rightarrow> ('w rstate, build_node list \<times> memo) act" where
  "skip_one P blocked incomplete step_order acc node =
     (if bn_kind node \<notin> set blocked then ret (fst acc @ [node], snd acc)
      else act_bind (read_res (\<lambda>_. effective_gate (inputs_by_kind SCOPE_GRAPH) (bn_kind node) (snd acc))) (\<lambda>(gate, memo).
        act_bind (emit P (EvSkipped (bn_kind node) (List.find (\<lambda>job. job \<in> gate \<and> job \<in> incomplete) step_order))) (\<lambda>_.
        ret (fst acc, memo))))"

definition refresh_rest :: "'w refresh_ports \<Rightarrow> refresh_context \<Rightarrow> collection_report \<Rightarrow> collection_report \<Rightarrow> string list
    \<Rightarrow> pointers \<Rightarrow> build_state \<Rightarrow> build_node list \<Rightarrow> ('w rstate, refresh_report) act" where
  "refresh_rest P ctx pre kis planned current b rest =
     (let steps = cr_steps pre @ cr_steps kis;
          incomplete = incomplete_required steps;
          degraded = degraded_jobs pre @ degraded_jobs kis in
      act_bind (read_res (\<lambda>_. blocked_kinds rest incomplete)) (\<lambda>blocked.
      act_bind (fold_act (skip_one P blocked incomplete (map cs_job steps)) ([], []) rest) (\<lambda>(buildable, _).
      act_bind (build_nodes P ctx current b buildable) (\<lambda>b.
      act_bind (if phase_items buildable b = [] then ret () else register_many (rp_lake P) (phase_items buildable b)) (\<lambda>_.
      ret (report_of ctx (if blocking_job pre \<noteq> None then ''blocked'' else ''complete'') planned (bs_built b) (bs_peaks b)
        (blocking_job pre) steps degraded))))))"

definition refresh_flow :: "'w refresh_ports \<Rightarrow> refresh_context \<Rightarrow> collection_report \<Rightarrow> collection_report \<Rightarrow> string list
    \<Rightarrow> pointers \<Rightarrow> build_state \<Rightarrow> ('w rstate, refresh_report) act" where
  "refresh_flow P ctx pre kis planned current b =
     (if \<not> collection_complete kis then
        ret (report_of ctx ''blocked'' planned (bs_built b) (bs_peaks b)
          (case blocking_job pre of None \<Rightarrow> blocking_job kis
           | Some job \<Rightarrow> if job = [] then blocking_job kis else Some job)
          (cr_steps pre @ cr_steps kis) (degraded_jobs pre @ degraded_jobs kis))
      else
        act_bind (read_res (plan_refresh P ctx)) (\<lambda>remaining.
        case phase_split remaining of (_, flow_done, rest) \<Rightarrow>
        act_bind (build_nodes P ctx current b flow_done) (\<lambda>b.
        act_bind (register_phase P flow_done b current) (\<lambda>current.
        refresh_rest P ctx pre kis planned current b rest))))"

definition refresh_phased :: "'w refresh_ports \<Rightarrow> refresh_context \<Rightarrow> 'w collection_step list \<Rightarrow> 'w collection_step list
    \<Rightarrow> ('w rstate, refresh_report) act" where
  "refresh_phased P ctx pre_steps kis_steps =
     act_bind (run_collection_jobs P ctx False pre_steps) (\<lambda>pre.
     act_bind (read_res (\<lambda>_. flow_gate)) (\<lambda>gate.
     if list_ex (\<lambda>st. cs_job st \<in> gate \<and> \<not> step_complete st) (cr_steps pre) then
       ret (report_of ctx ''blocked'' [] [] [] (blocking_job pre) (cr_steps pre) (degraded_jobs pre))
     else
       act_bind (read_res (plan_refresh P ctx)) (\<lambda>plan.
       act_bind (emit_plan P plan) (\<lambda>_.
       case phase_split plan of (first, _, _) \<Rightarrow>
       act_bind (read_res (\<lambda>s. snapshot (rs_registry s))) (\<lambda>current.
       act_bind (read_res (\<lambda>s. disk_dataset_ids (rp_lake P) s (snd ` set current))) (\<lambda>known.
       act_bind (build_nodes P ctx current (no_builds known) first) (\<lambda>b.
       act_bind (register_phase P first b current) (\<lambda>current.
       act_bind (run_collection_jobs P ctx False kis_steps) (\<lambda>kis.
       refresh_flow P ctx pre kis (map bn_kind plan) current b)))))))))"

definition refresh_scope :: "'w refresh_ports \<Rightarrow> refresh_context \<Rightarrow> bool \<Rightarrow> bool \<Rightarrow> 'w collection_step list \<Rightarrow> string set option
    \<Rightarrow> ('w rstate, refresh_report) act" where
  "refresh_scope P ctx collect dry_run steps collect_steps =
     act_bind (read_res (\<lambda>_. select_steps steps collect_steps)) (\<lambda>steps.
     if \<not> collect \<or> \<not> list_ex (\<lambda>st. fst st = KIS_STEP) steps then refresh_simple P ctx collect dry_run steps
     else if dry_run
     then refresh_dry P ctx (filter (\<lambda>st. fst st \<noteq> KIS_STEP) steps) (filter (\<lambda>st. fst st = KIS_STEP) steps)
     else refresh_phased P ctx (filter (\<lambda>st. fst st \<noteq> KIS_STEP) steps) (filter (\<lambda>st. fst st = KIS_STEP) steps))"

end
