(* ===== verification/RefreshGates.thy ===== *)
theory RefreshGates
  imports RefreshRun
begin

text \<open>
  The gates of the scope graph: the memoised recursion computes the union of the gates of all transitive
  inputs, and the three phases of a refresh have the gates their builds rely on.
\<close>

section \<open>The memoised gate is the transitive gate\<close>

definition input_of :: "(string, string list) dict \<Rightarrow> (string \<times> string) set" where
  "input_of inputs = {(d, k). d \<in> set (dict_get inputs k [])}"

definition transitive_gate :: "(string, string list) dict \<Rightarrow> string \<Rightarrow> string set" where
  "transitive_gate inputs kind = {step. \<exists>k. (k, kind) \<in> (input_of inputs)\<^sup>* \<and> step \<in> dict_get NODE_COLLECTION_GATES k {}}"

definition memo_ok :: "(string, string list) dict \<Rightarrow> memo \<Rightarrow> bool" where
  "memo_ok inputs memo \<longleftrightarrow> (\<forall>k g. map_of memo k = Some g \<longrightarrow> g = transitive_gate inputs k)"

lemma memo_ok_Nil: "memo_ok inputs []"
  by (simp add: memo_ok_def)

lemma memo_ok_update: "memo_ok inputs memo \<Longrightarrow> memo_ok inputs (AList.update k (transitive_gate inputs k) memo)"
  by (simp add: memo_ok_def update_conv)

lemma transitive_gate_unfold:
  "transitive_gate inputs kind = dict_get NODE_COLLECTION_GATES kind {} \<union> (\<Union>d \<in> set (dict_get inputs kind []). transitive_gate inputs d)"
proof -
  have "(k, kind) \<in> (input_of inputs)\<^sup>* \<longleftrightarrow> k = kind \<or> (\<exists>d \<in> set (dict_get inputs kind []). (k, d) \<in> (input_of inputs)\<^sup>*)" for k
    using rtrancl_unfold [of "input_of inputs"] by (auto simp: input_of_def)
  then show ?thesis unfolding transitive_gate_def by auto
qed

lemma effective_gate_spec:
  "effective_gate_at n inputs kind memo = Inr (g, memo') \<Longrightarrow> memo_ok inputs memo
    \<Longrightarrow> g = transitive_gate inputs kind \<and> memo_ok inputs memo'"
  "union_gates_at n inputs ds acc = Inr acc' \<Longrightarrow> memo_ok inputs (snd acc)
    \<Longrightarrow> fst acc' = fst acc \<union> (\<Union>d \<in> set ds. transitive_gate inputs d) \<and> memo_ok inputs (snd acc')"
proof (induction n inputs kind memo and n inputs ds acc arbitrary: g memo' and acc' rule: effective_gate_at_union_gates_at.induct)
  case (2 n inputs kind memo)
  show ?case
  proof (cases "map_of memo kind")
    case None
    then obtain r where r: "union_gates_at n inputs (dict_get inputs kind []) (dict_get NODE_COLLECTION_GATES kind {}, memo) = Inr r"
        "g = fst r" "memo' = AList.update kind (fst r) (snd r)"
      using 2(2) by (auto simp: res_simps)
    with 2(1) [OF None r(1)] 2(3) transitive_gate_unfold [of inputs kind] memo_ok_update [of inputs "snd r" kind]
    show ?thesis by simp
  qed (use 2 in \<open>auto simp: memo_ok_def\<close>)
next
  case (4 n inputs d ds acc)
  then obtain g memo where g: "effective_gate_at n inputs d (snd acc) = Inr (g, memo)"
      "union_gates_at n inputs ds (fst acc \<union> g, memo) = Inr acc'"
    by (auto simp: res_simps)
  from 4(1) [OF g(1) 4(4)] have d: "g = transitive_gate inputs d" "memo_ok inputs memo" by auto
  from 4(2) [OF g(2)] d show ?case by auto
qed auto

definition gate_of :: "string \<Rightarrow> string set" where
  "gate_of = transitive_gate (inputs_by_kind SCOPE_GRAPH)"

abbreviation scope_memo_ok :: "memo \<Rightarrow> bool" where
  "scope_memo_ok \<equiv> memo_ok (inputs_by_kind SCOPE_GRAPH)"

lemma effective_gate_gate_of:
  "effective_gate (inputs_by_kind SCOPE_GRAPH) kind memo = Inr (g, memo') \<Longrightarrow> scope_memo_ok memo
    \<Longrightarrow> g = gate_of kind \<and> scope_memo_ok memo'"
  unfolding effective_gate_def gate_of_def by (rule effective_gate_spec(1))

lemma gate_step_Inr:
  assumes "gate_step acc node = Inr acc'" "scope_memo_ok (snd acc)"
  shows "fst acc' = fst acc \<union> gate_of (bn_kind node) \<and> scope_memo_ok (snd acc')"
  using assms effective_gate_gate_of by (fastforce simp: gate_step_def res_simps)

lemma gate_fold_Inr:
  assumes "foldM gate_step acc nodes = Inr acc'" "scope_memo_ok (snd acc)"
  shows "fst acc' = fst acc \<union> (\<Union>node \<in> set nodes. gate_of (bn_kind node))"
  using assms
proof (induction nodes arbitrary: acc)
  case (Cons node nodes)
  then obtain mid where "gate_step acc node = Inr mid" "foldM gate_step mid nodes = Inr acc'" by (auto simp: res_simps)
  with gate_step_Inr [of acc node mid] Cons.IH [of mid] Cons.prems show ?case by auto
qed simp

lemma blocked_fold_Inr:
  assumes "foldM (blocked_step incomplete) acc nodes = Inr acc'" "scope_memo_ok (snd acc)"
  shows "set (fst acc') = set (fst acc) \<union> {bn_kind node | node. node \<in> set nodes \<and> gate_of (bn_kind node) \<inter> incomplete \<noteq> {}}"
  using assms
proof (induction nodes arbitrary: acc)
  case (Cons node nodes)
  then obtain mid where mid: "blocked_step incomplete acc node = Inr mid" "foldM (blocked_step incomplete) mid nodes = Inr acc'"
    by (auto simp: res_simps)
  from mid(1) obtain g memo where g: "effective_gate (inputs_by_kind SCOPE_GRAPH) (bn_kind node) (snd acc) = Inr (g, memo)"
      "mid = (if g \<inter> incomplete \<noteq> {} then fst acc @ [bn_kind node] else fst acc, memo)"
    by (auto simp: blocked_step_def res_simps)
  then have "scope_memo_ok (snd mid)"
    "fst mid = (if gate_of (bn_kind node) \<inter> incomplete \<noteq> {} then fst acc @ [bn_kind node] else fst acc)"
    using effective_gate_gate_of [OF g(1) Cons.prems(2)] by simp_all
  with Cons.IH [OF mid(2)] show ?case by auto
qed simp

lemma blocked_kinds_Inr:
  assumes "blocked_kinds plan incomplete = Inr blocked" "node \<in> set plan" "bn_kind node \<notin> set blocked"
  shows "gate_of (bn_kind node) \<inter> incomplete = {}"
proof (cases "incomplete = {}")
  case False
  with assms(1) obtain acc where acc: "foldM (blocked_step incomplete) ([], []) plan = Inr acc" "blocked = fst acc"
    by (auto simp: blocked_kinds_def res_simps)
  from blocked_fold_Inr [OF acc(1)] acc(2) assms(2,3) show ?thesis by (auto simp: memo_ok_Nil)
qed simp

section \<open>The gates of the scope graph\<close>

lemma gate_of_unfold:
  "gate_of kind = dict_get NODE_COLLECTION_GATES kind {} \<union> (\<Union>d \<in> set (dict_get (inputs_by_kind SCOPE_GRAPH) kind []). gate_of d)"
  unfolding gate_of_def by (rule transitive_gate_unfold)

lemma flow_inputs:
  "dict_get (inputs_by_kind SCOPE_GRAPH) ''ordinary_universe'' [] = []"
  "dict_get (inputs_by_kind SCOPE_GRAPH) ''daily_market'' [] = [''ordinary_universe'']"
  "dict_get (inputs_by_kind SCOPE_GRAPH) ''investor_flow_ls'' [] = [''ordinary_universe'']"
  "dict_get (inputs_by_kind SCOPE_GRAPH) ''investor_flow_kis_supplement'' [] = [''ordinary_universe'', ''daily_market'', ''investor_flow_ls'']"
  "dict_get (inputs_by_kind SCOPE_GRAPH) ''investor_flow'' [] = [''investor_flow_ls'', ''investor_flow_kis_supplement'']"
  by (simp_all add: inputs_by_kind_def SCOPE_GRAPH_def build_node_init_def dict_get_def)

lemma flow_gates:
  "dict_get NODE_COLLECTION_GATES ''ordinary_universe'' {} = {''krx_security_master''}"
  "dict_get NODE_COLLECTION_GATES ''daily_market'' {} = {''krx_daily_market''}"
  "dict_get NODE_COLLECTION_GATES ''investor_flow_ls'' {} = {''ls_investor_flow''}"
  "dict_get NODE_COLLECTION_GATES ''investor_flow_kis_supplement'' {} = {KIS_STEP}"
  "dict_get NODE_COLLECTION_GATES ''investor_flow'' {} = {}"
  by (simp_all add: NODE_COLLECTION_GATES_def dict_get_def KIS_STEP_def)

lemma gate_universe: "gate_of ''ordinary_universe'' = {''krx_security_master''}"
  by (subst gate_of_unfold) (simp only: flow_inputs flow_gates, simp)

lemma gate_market: "gate_of ''daily_market'' = {''krx_daily_market'', ''krx_security_master''}"
  by (subst gate_of_unfold) (simp only: flow_inputs flow_gates, simp add: gate_universe insert_commute)

lemma gate_ls: "gate_of ''investor_flow_ls'' = {''ls_investor_flow'', ''krx_security_master''}"
  by (subst gate_of_unfold) (simp only: flow_inputs flow_gates, simp add: gate_universe insert_commute)

definition flow_steps :: "string set" where
  "flow_steps = {''krx_security_master'', ''krx_daily_market'', ''ls_investor_flow''}"

lemma gate_kis: "gate_of ''investor_flow_kis_supplement'' = insert KIS_STEP flow_steps"
  by (subst gate_of_unfold)
    (simp only: flow_inputs flow_gates, simp add: gate_universe gate_market gate_ls flow_steps_def insert_commute)

lemma gate_flow: "gate_of ''investor_flow'' = insert KIS_STEP flow_steps"
  by (subst gate_of_unfold) (simp only: flow_inputs flow_gates, simp add: gate_kis gate_ls, simp add: flow_steps_def insert_commute)

lemma kis_not_flow_step: "KIS_STEP \<notin> flow_steps"
  by (simp add: KIS_STEP_def flow_steps_def)

text \<open>No gate names an optional step.\<close>

lemma own_gates_required: "dict_get NODE_COLLECTION_GATES kind {} \<inter> OPTIONAL_COLLECTION_JOBS = {}"
proof -
  have "list_all (\<lambda>(_, g). g \<inter> OPTIONAL_COLLECTION_JOBS = {}) NODE_COLLECTION_GATES"
    unfolding NODE_COLLECTION_GATES_def DART_COLLECTION_STEPS_def OPTIONAL_COLLECTION_JOBS_def by simp
  then show ?thesis by (auto simp: dict_get_def list_all_iff split: option.splits dest: map_of_SomeD)
qed

lemma gate_required: "gate_of kind \<inter> OPTIONAL_COLLECTION_JOBS = {}"
  using own_gates_required unfolding gate_of_def transitive_gate_def by blast

section \<open>The phases\<close>

lemma closure_step:
  "closure_loop inputs found [] = found"
  "closure_loop inputs found (stack @ [kind]) =
     (if kind \<in> found then closure_loop inputs found stack
      else case map_of inputs kind of None \<Rightarrow> closure_loop inputs found stack
        | Some deps \<Rightarrow> closure_loop inputs (insert kind found) (stack @ deps))"
  by (simp_all add: closure_loop.simps [of inputs found "[]"] closure_loop.simps [of inputs found "stack @ [kind]"] Let_def)


lemma phases:
  "closure KIS_PREREQUISITE_KINDS (inputs_by_kind SCOPE_GRAPH) = {''ordinary_universe'', ''daily_market'', ''investor_flow_ls''}"
  "closure FLOW_COMPLETION_KINDS (inputs_by_kind SCOPE_GRAPH) =
    {''ordinary_universe'', ''daily_market'', ''investor_flow_ls'', ''investor_flow_kis_supplement'', ''investor_flow''}"
  by code_simp+

section \<open>The order of the graph\<close>

definition before :: "build_node \<Rightarrow> build_node \<Rightarrow> bool" where
  "before a b \<longleftrightarrow> bn_kind a \<noteq> bn_kind b \<and> bn_kind b \<notin> set (bn_inputs a)"

lemma scope_sorted: "sorted_wrt before SCOPE_GRAPH"
  by code_simp

lemma scope_no_self: "list_all (\<lambda>node. bn_kind node \<notin> set (bn_inputs node)) SCOPE_GRAPH"
  by code_simp

lemma scope_known: "list_all (\<lambda>node. list_all (\<lambda>d. d \<in> set (map bn_kind SCOPE_GRAPH)) (bn_inputs node)) SCOPE_GRAPH"
  by code_simp

lemma scope_inputs_earlier:
  assumes "SCOPE_GRAPH = pre @ node # post" "d \<in> set (bn_inputs node)"
  shows "d \<in> bn_kind ` set pre" "d \<notin> bn_kind ` set (node # post)"
proof -
  have "node \<in> set SCOPE_GRAPH" using assms(1) by (metis in_set_conv_decomp)
  then have d: "d \<in> bn_kind ` set SCOPE_GRAPH" "d \<noteq> bn_kind node"
    using scope_known scope_no_self assms(2) by (auto simp: list_all_iff)
  have "d \<notin> bn_kind ` set post"
    using scope_sorted assms(2) unfolding assms(1) by (auto simp: sorted_wrt_append before_def)
  then show "d \<in> bn_kind ` set pre" "d \<notin> bn_kind ` set (node # post)" using d unfolding assms(1) by auto
qed

lemma sorted_before_distinct: "sorted_wrt before xs \<Longrightarrow> distinct (map bn_kind xs)"
  by (induction xs) (auto simp: before_def)

lemma scope_kind_inj:
  assumes "n \<in> set SCOPE_GRAPH" "m \<in> set SCOPE_GRAPH" "bn_kind n = bn_kind m"
  shows "n = m"
  using sorted_before_distinct [OF scope_sorted] assms by (auto simp: distinct_map dest: inj_onD)

section \<open>The recursion ends\<close>

definition rank :: "string \<Rightarrow> nat" where
  "rank kind = length (takeWhile (\<lambda>node. bn_kind node \<noteq> kind) SCOPE_GRAPH)"

lemma rank_bound: "rank kind < RECURSION_LIMIT"
proof -
  have "rank kind \<le> length SCOPE_GRAPH" unfolding rank_def by (rule length_takeWhile_le)
  also have "length SCOPE_GRAPH < RECURSION_LIMIT" by (simp add: SCOPE_GRAPH_def RECURSION_LIMIT_def)
  finally show ?thesis .
qed

lemma inputs_found:
  assumes "d \<in> set (dict_get (inputs_by_kind SCOPE_GRAPH) kind [])"
  shows "\<exists>node \<in> set SCOPE_GRAPH. bn_kind node = kind \<and> d \<in> set (bn_inputs node)"
proof -
  obtain ds where ds: "map_of (inputs_by_kind SCOPE_GRAPH) kind = Some ds" "d \<in> set ds"
    using assms by (cases "map_of (inputs_by_kind SCOPE_GRAPH) kind") (auto simp: dict_get_def)
  have "(kind, ds) \<in> set (inputs_by_kind SCOPE_GRAPH)" using ds(1) by (rule map_of_SomeD)
  with ds(2) show ?thesis by (auto simp: inputs_by_kind_def)
qed

lemma rank_at:
  assumes "SCOPE_GRAPH = pre @ node # post"
  shows "rank (bn_kind node) = length pre"
proof -
  have "\<forall>n \<in> set pre. bn_kind n \<noteq> bn_kind node" using scope_sorted unfolding assms by (auto simp: sorted_wrt_append before_def)
  then show ?thesis unfolding rank_def assms by simp
qed

lemma rank_input:
  assumes "d \<in> set (dict_get (inputs_by_kind SCOPE_GRAPH) kind [])"
  shows "rank d < rank kind"
proof -
  obtain node where node: "node \<in> set SCOPE_GRAPH" "bn_kind node = kind" "d \<in> set (bn_inputs node)"
    using inputs_found [OF assms] by blast
  obtain pre post where graph: "SCOPE_GRAPH = pre @ node # post" using node(1) by (metis split_list)
  then obtain n where n: "n \<in> set pre" "bn_kind n = d" using scope_inputs_earlier(1) [OF graph node(3)] by auto
  then obtain pre1 pre2 where "pre = pre1 @ n # pre2" by (metis split_list)
  with graph n(2) node(2) rank_at [of pre1 n "pre2 @ node # post"] rank_at [OF graph] show ?thesis by simp
qed

text \<open>The graph is shallower than the recursion limit, so the gate of every kind is computed.\<close>

lemma union_gates_returns:
  assumes "\<And>d memo. d \<in> set ds \<Longrightarrow> \<exists>r. effective_gate_at n inputs d memo = Inr r"
  shows "\<exists>r. union_gates_at n inputs ds acc = Inr r"
  using assms
proof (induction ds arbitrary: acc)
  case (Cons d ds)
  obtain g memo where "effective_gate_at n inputs d (snd acc) = Inr (g, memo)" using Cons.prems by fastforce
  then show ?case using Cons by simp
qed simp

lemma effective_gate_returns:
  "rank kind < n \<Longrightarrow> \<exists>r. effective_gate_at n (inputs_by_kind SCOPE_GRAPH) kind memo = Inr r"
proof (induction n arbitrary: kind memo)
  case (Suc n)
  have "\<exists>r. effective_gate_at n (inputs_by_kind SCOPE_GRAPH) d memo' = Inr r"
    if "d \<in> set (dict_get (inputs_by_kind SCOPE_GRAPH) kind [])" for d memo'
    using Suc.IH [of d memo'] rank_input [OF that] Suc.prems by simp
  then obtain r where "union_gates_at n (inputs_by_kind SCOPE_GRAPH) (dict_get (inputs_by_kind SCOPE_GRAPH) kind [])
      (dict_get NODE_COLLECTION_GATES kind {}, memo) = Inr r"
    using union_gates_returns [of "dict_get (inputs_by_kind SCOPE_GRAPH) kind []"] by blast
  then show ?case by (cases r) (simp split: option.splits)
qed simp

lemma effective_gate_scope:
  assumes "scope_memo_ok memo"
  shows "\<exists>memo'. effective_gate (inputs_by_kind SCOPE_GRAPH) kind memo = Inr (gate_of kind, memo') \<and> scope_memo_ok memo'"
proof -
  obtain g memo' where "effective_gate (inputs_by_kind SCOPE_GRAPH) kind memo = Inr (g, memo')"
    using effective_gate_returns [of kind RECURSION_LIMIT memo] rank_bound [of kind] by (auto simp: effective_gate_def)
  with effective_gate_gate_of [OF this assms] show ?thesis by blast
qed

lemma flow_gate_returns: "\<exists>g. flow_gate = Inr g"
proof -
  have "\<exists>r. foldM gate_step acc nodes = Inr r" if "scope_memo_ok (snd acc)" for acc nodes
    using that
  proof (induction nodes arbitrary: acc)
    case (Cons node nodes)
    from effective_gate_scope [OF Cons.prems, of "bn_kind node"] obtain memo where
      "gate_step acc node = Inr (fst acc \<union> gate_of (bn_kind node), memo)" "scope_memo_ok memo"
      by (auto simp: gate_step_def)
    with Cons.IH [of "(fst acc \<union> gate_of (bn_kind node), memo)"] show ?case by simp
  qed simp
  from this [of "({}, [])" "fst (phase_split SCOPE_GRAPH)"] show ?thesis by (auto simp: flow_gate_def memo_ok_Nil)
qed

end
