(* ===== verification/RefreshDemo.thy ===== *)
theory RefreshDemo
  imports RefreshGates
begin

text \<open>
  A small concrete lake, used to show that the hypotheses of the refresh theorems can hold: every builder
  publishes one fixed directory, and every manifest is readable and lists no inputs.
\<close>

definition demo_id :: "string \<Rightarrow> string" where
  "demo_id kind = kind @ ''_0123456789abcdef''"

definition demo_manifest :: "path \<Rightarrow> dataset_manifest" where
  "demo_manifest p = \<lparr>dm_dataset_id = path_name p, dm_kind = [], dm_layer = SILVER, dm_policy_version = ''v1'', dm_inputs = [],
     dm_params = [], dm_partitions = [], dm_rows = 0, dm_checks = []\<rparr>"

definition demo_lake :: "unit lake_ports" where
  "demo_lake = \<lparr>lp_root = (\<lambda>_ layer. if layer = SILVER
       then Some (FDir (map (\<lambda>node. (demo_id (bn_kind node), FDir [(''manifest.json'', FFile)])) SCOPE_GRAPH)) else None),
     lp_load_manifest = (\<lambda>_ p. Inr (demo_manifest p)), lp_resolved_layer = (\<lambda>_ p. Some (fst p)),
     lp_partition = (\<lambda>_ _ _. PartMissing), lp_can_write = (\<lambda>_. True)\<rparr>"

definition demo_ports :: "unit refresh_ports" where
  "demo_ports = \<lparr>rp_lake = demo_lake, rp_preview = (\<lambda>_ _ _. Inl (PITDataError ''unreadable'')),
     rp_build = (\<lambda>kind _ _ _ w. (w, Inr \<lparr>pd_dataset_id = demo_id kind, pd_path = (SILVER, [demo_id kind]), pd_rows = 0\<rparr>)),
     rp_reset_peak = (\<lambda>w. w), rp_peak = (\<lambda>_. None), rp_emit = (\<lambda>_ w. (w, Inr ()))\<rparr>"

definition demo_context :: refresh_context where
  "demo_context = \<lparr>rc_decision_time = Aware 0, rc_superseded_receipts = {}, rc_deferred_build_kinds = {}, rc_retry_krx_session = None\<rparr>"

definition demo_step :: "string \<Rightarrow> string \<Rightarrow> unit collection_step" where
  "demo_step name status = (name, \<lambda>_ _ _ w. (w, StepReport \<lparr>cs_job = name, cs_status = status, cs_done = 0, cs_pending_left = 0, cs_requests_used = 1\<rparr>))"

definition demo_state :: "unit rstate" where
  "demo_state = \<lparr>rs_registry = Absent, rs_world = ()\<rparr>"

lemma demo_world [simp]: "s\<lparr>rs_world := ()\<rparr> = s"
  by (cases s) simp

lemma demo_id_kind:
  assumes "is_kind kind"
  shows "dataset_kind_from_id (demo_id kind) = Inr kind"
proof -
  have "list_all is_hex ''0123456789abcdef''" by code_simp
  moreover have "kind \<noteq> []" using assms by (auto simp: is_kind_def)
  ultimately show ?thesis using assms by (simp add: dataset_kind_from_id_def is_dataset_id_def demo_id_def nth_append)
qed

lemma scope_is_kind: "list_all is_kind (map bn_kind SCOPE_GRAPH)"
  by code_simp

lemma demo_verified: "passed (verify_dataset demo_lake w p known)"
  by (simp add: passed_def verify_dataset_def demo_lake_def demo_manifest_def Let_def input_failures_def map_filter_def)

lemma demo_lookup: "kind \<in> bn_kind ` set g \<Longrightarrow>
    map_of (map (\<lambda>node. (demo_id (bn_kind node), FDir [(''manifest.json'', FFile)])) g) (demo_id kind) = Some (FDir [(''manifest.json'', FFile)])"
  by (induction g) (auto simp: demo_id_def)

lemma demo_not_manifest: "demo_id kind \<noteq> ''manifest.json''"
proof
  assume "demo_id kind = ''manifest.json''"
  then have "last (demo_id kind) = last ''manifest.json''" by simp
  then show False by (simp add: demo_id_def)
qed

lemma demo_candidates:
  assumes "kind \<in> bn_kind ` set SCOPE_GRAPH"
  shows "candidate_directories (lp_root demo_lake w) (demo_id kind) = [(SILVER, [demo_id kind])]"
proof -
  have none: "lookup (demo_id kind) d = None" if "(name, d) \<in> set (map (\<lambda>node. (demo_id (bn_kind node), FDir [(''manifest.json'', FFile)])) g)" for name d g
    using that demo_not_manifest [of kind] by (auto simp: lookup_def)
  show ?thesis using demo_lookup [OF assms] none
    by (auto simp: candidate_directories_def candidates_in_def demo_lake_def lookup_def is_dir_def is_symlink_def iterdir_def map_filter_def
      filter_empty_conv Let_def)
qed

lemma demo_check:
  assumes "kind \<in> bn_kind ` set SCOPE_GRAPH"
  shows "check_registration demo_lake w known (kind, demo_id kind) = Inr (SILVER, [demo_id kind])"
proof -
  have "dataset_kind_from_id (demo_id kind) = Inr kind" using scope_is_kind assms by (auto simp: list_all_iff demo_id_kind)
  then show ?thesis using demo_candidates [OF assms, of w] demo_verified [of w "(SILVER, [demo_id kind])" known]
    by (simp add: check_registration_def) (simp add: demo_lake_def demo_manifest_def)
qed

lemma demo_register:
  assumes "items \<noteq> []" "list_all (\<lambda>(k, i). k \<in> bn_kind ` set SCOPE_GRAPH \<and> i = demo_id k) items" "read_unlocked f = Inr (current, retired)"
  shows "register_many demo_lake items \<lparr>rs_registry = f, rs_world = ()\<rparr>
    = (\<lparr>rs_registry = registry_payload (update_all current items) retired, rs_world = ()\<rparr>, Inr ())"
proof -
  have "mapM (check_registration demo_lake () known) xs = Inr (map (\<lambda>x. (SILVER, [snd x])) xs)" if "set xs \<subseteq> set items" for known xs
    using that assms(2) by (induction xs) (auto simp: list_all_iff demo_check)
  then show ?thesis using assms(1,3)
    by (simp add: register_many_def act_bind_apply retired_ids_def Let_def write_unlocked_def) (simp add: demo_lake_def)
qed

definition demo_outcome :: "string \<Rightarrow> published_dataset" where
  "demo_outcome kind = \<lparr>pd_dataset_id = demo_id kind, pd_path = (SILVER, [demo_id kind]), pd_rows = 0\<rparr>"

lemma demo_build_one:
  "mapM (resolve_input (bs_built b) current) (bn_inputs node) = Inr inputs \<Longrightarrow>
    build_one demo_ports demo_context current b node s = (s, Inr (b\<lparr>bs_built := AList.update (bn_kind node) (demo_outcome (bn_kind node)) (bs_built b),
      bs_known := insert (demo_id (bn_kind node)) (bs_known b)\<rparr>))"
  using demo_verified
  by (simp add: build_one_def act_bind_apply build_with_peak_def on_world_def emit_def demo_ports_def demo_outcome_def)

lemma demo_plan:
  assumes "snapshot (rs_registry s) = Inr []"
  shows "plan_refresh demo_ports demo_context s = Inr SCOPE_GRAPH"
proof -
  have "snd (foldl (plan_step demo_ports demo_context s []) acc nodes) = snd acc @ nodes" for acc nodes
    by (induction nodes arbitrary: acc) (simp_all add: plan_step_def node_stale_def demo_context_def)
  then show ?thesis using assms by (simp add: plan_refresh_def dict_keys_def)
qed

lemma demo_resolves:
  assumes "set (bn_inputs node) \<subseteq> fst ` set built"
  shows "\<exists>inputs. mapM (resolve_input built current) (bn_inputs node) = Inr inputs"
proof -
  have "\<exists>inputs. mapM (resolve_input built current) ds = Inr inputs" if "set ds \<subseteq> fst ` set built" for ds
    using that
  proof (induction ds)
    case (Cons d ds)
    moreover obtain o' where "map_of built d = Some o'" using Cons.prems by (metis list.set_intros(1) map_of_eq_None_iff not_None_eq subsetD)
    ultimately show ?case by (auto simp: resolve_input_def)
  qed simp
  then show ?thesis using assms by blast
qed

lemma demo_builds:
  assumes "SCOPE_GRAPH = pre @ nodes @ post" "map fst (bs_built b) = map bn_kind pre"
  shows "\<exists>b'. build_nodes demo_ports demo_context current b nodes s = (s, Inr b')
    \<and> bs_built b' = bs_built b @ map (\<lambda>node. (bn_kind node, demo_outcome (bn_kind node))) nodes"
  using assms
proof (induction nodes arbitrary: pre b)
  case (Cons node nodes)
  let ?b = "b\<lparr>bs_built := AList.update (bn_kind node) (demo_outcome (bn_kind node)) (bs_built b), bs_known := insert (demo_id (bn_kind node)) (bs_known b)\<rparr>"
  have graph: "SCOPE_GRAPH = pre @ node # (nodes @ post)" using Cons.prems(1) by simp
  have keys: "fst ` set (bs_built b) = bn_kind ` set pre" using arg_cong [OF Cons.prems(2), of set] by simp
  have fresh: "bn_kind node \<notin> fst ` set (bs_built b)"
    using scope_sorted unfolding graph keys by (auto simp: sorted_wrt_append before_def)
  have "set (bn_inputs node) \<subseteq> fst ` set (bs_built b)" using scope_inputs_earlier(1) [OF graph] keys by blast
  then obtain inputs where "mapM (resolve_input (bs_built b) current) (bn_inputs node) = Inr inputs" using demo_resolves by blast
  then have one: "build_one demo_ports demo_context current b node s = (s, Inr ?b)" by (rule demo_build_one)
  have "map fst (bs_built ?b) = map bn_kind (pre @ [node])" using fresh Cons.prems(2) by (simp add: update_fresh)
  with Cons.IH [of "pre @ [node]" ?b] graph fresh one show ?case
    by (auto simp: build_nodes_def act_bind_apply update_fresh)
qed (auto simp: build_nodes_def)

lemma demo_refresh_run:
  "\<exists>s' rep. run_refresh demo_ports demo_context False demo_state = (s', Inr rep) \<and> rf_built rep = map bn_kind SCOPE_GRAPH"
proof -
  have emits: "each_act (\<lambda>node. emit demo_ports (EvPlan (bn_kind node))) nodes s = (s, Inr ())" for nodes s
    by (induction nodes) (simp_all add: each_act_def act_bind_apply emit_def on_world_def demo_ports_def)
  obtain known where known: "disk_dataset_ids (rp_lake demo_ports) demo_state {} = Inr known"
    by (simp add: disk_dataset_ids_def demo_state_def retired_ids_def read_unlocked_def)
  obtain b where b: "build_nodes demo_ports demo_context [] (no_builds known) SCOPE_GRAPH demo_state = (demo_state, Inr b)"
      "bs_built b = map (\<lambda>node. (bn_kind node, demo_outcome (bn_kind node))) SCOPE_GRAPH"
    using demo_builds [of "[]" SCOPE_GRAPH "[]" "no_builds known" "[]" demo_state] by (auto simp: no_builds_def)
  have items: "built_ids (bs_built b) = map (\<lambda>node. (bn_kind node, demo_id (bn_kind node))) SCOPE_GRAPH"
    by (simp add: built_ids_def b(2) demo_outcome_def)
  have "SCOPE_GRAPH \<noteq> []" by (simp add: SCOPE_GRAPH_def)
  with demo_register [of "built_ids (bs_built b)" Absent "[]" "[]"] have
    "\<exists>s'. register_many (rp_lake demo_ports) (built_ids (bs_built b)) demo_state = (s', Inr ())"
    by (auto simp: items list_all_iff demo_state_def read_unlocked_def demo_ports_def)
  moreover have "snapshot (rs_registry demo_state) = Inr []" by (simp add: demo_state_def snapshot_def read_unlocked_def)
  ultimately show ?thesis using b \<open>SCOPE_GRAPH \<noteq> []\<close> known
    by (auto simp: run_refresh_def act_bind_apply demo_plan emits comp_def)
qed

end
