(* ===== verification/RefreshProps.thy ===== *)
theory RefreshProps
  imports RefreshDemo
begin

text \<open>
  The refresh as a whole: which kinds a run may build given how the collection steps ended, and what the
  registry holds after a run.
\<close>

section \<open>The validation of a graph\<close>

lemma order_loop_ends: "(\<exists>kinds. order_loop r ordered = Inr kinds) \<or> (\<exists>m. order_loop r ordered = Inl (PITDataError m))"
  by (induction r ordered rule: order_loop.induct) (subst (1 2) order_loop.simps, simp)

text \<open>C39. The validation that runs when the pipeline module is loaded ends on every graph, cyclic ones included. It returns the graph
  exactly when the kinds are distinct, every input names a node and no kind depends on itself through its inputs, and raises
  \<open>PITDataError\<close> otherwise.\<close>

theorem scope_graph_validation_ends_and_decides:
  "(validate_scope_graph graph = Inr graph \<or> (\<exists>m. validate_scope_graph graph = Inl (PITDataError m)))
   \<and> (validate_scope_graph graph = Inr graph \<longleftrightarrow> distinct (map bn_kind graph)
       \<and> list_all (\<lambda>node. set (bn_inputs node) \<subseteq> bn_kind ` set graph) graph \<and> acyclic (depends graph))"
proof -
  have "validate_scope_graph graph = Inr graph \<or> (\<exists>m. validate_scope_graph graph = Inl (PITDataError m))"
    using order_loop_ends [of "map (\<lambda>node. (bn_kind node, remdups (bn_inputs node))) graph" "[]"]
    by (auto simp: validate_scope_graph_def Let_def guard_def)
  then show ?thesis by (simp add: validate_scope_graph_Inr)
qed

section \<open>The phases of the scope graph\<close>

lemma scope_phases:
  assumes "phase_split plan = (first, flow_done, rest)"
  shows "bn_kind ` set first \<subseteq> {''ordinary_universe'', ''daily_market'', ''investor_flow_ls''}"
    and "bn_kind ` set flow_done \<subseteq> {''investor_flow_kis_supplement'', ''investor_flow''}"
    and "set first \<union> set flow_done \<union> set rest = {node \<in> set SCOPE_GRAPH. bn_kind node \<in> bn_kind ` set plan}"
  using assms unfolding phase_split_def Let_def phases by auto

lemma first_gate: "kind \<in> {''ordinary_universe'', ''daily_market'', ''investor_flow_ls''} \<Longrightarrow> gate_of kind \<subseteq> flow_steps"
  by (auto simp: gate_universe gate_market gate_ls flow_steps_def)

lemma flow_done_gate: "kind \<in> {''investor_flow_kis_supplement'', ''investor_flow''} \<Longrightarrow> gate_of kind \<subseteq> insert KIS_STEP flow_steps"
  by (auto simp: gate_kis gate_flow)

lemma phase_a_nodes: "bn_kind ` set (fst (phase_split SCOPE_GRAPH)) = {''ordinary_universe'', ''daily_market'', ''investor_flow_ls''}"
proof -
  have "{''ordinary_universe'', ''daily_market'', ''investor_flow_ls''} \<subseteq> bn_kind ` set SCOPE_GRAPH"
    by (simp add: SCOPE_GRAPH_def build_node_init_def)
  then show ?thesis unfolding phase_split_def Let_def phases by (auto simp: dict_keys_def inputs_by_kind_def)
qed

lemma flow_gate_Inr: "flow_gate = Inr g \<Longrightarrow> g = flow_steps"
proof -
  assume "flow_gate = Inr g"
  then obtain acc where acc: "foldM gate_step ({}, []) (fst (phase_split SCOPE_GRAPH)) = Inr acc" "g = fst acc"
    by (auto simp: flow_gate_def res_simps)
  have "g = (\<Union>kind \<in> bn_kind ` set (fst (phase_split SCOPE_GRAPH)). gate_of kind)"
    using gate_fold_Inr [OF acc(1)] acc(2) by (simp add: memo_ok_Nil)
  then show ?thesis unfolding phase_a_nodes by (auto simp: gate_universe gate_market gate_ls flow_steps_def)
qed

section \<open>Collection reports\<close>

lemma collect_one_Inr:
  assumes "collect_one P ctx dry reports step s = (s', Inr reports')"
  shows "\<exists>st. reports' = reports @ [st] \<and> cs_job st = fst step"
proof -
  obtain t r where "call_step step ctx dry s = (t, Inr r)"
    unfolding call_step_def by (cases "snd step ctx dry (rs_registry s) (rs_world s)") simp
  with assms show ?thesis
    by (cases r) (auto simp: collect_one_def act_rules Let_def failed_step_def split: if_splits)
qed

lemma collect_fold_Inr:
  assumes "fold_act (collect_one P ctx dry) reports steps s = (s', Inr reports')"
  shows "map cs_job reports' = map cs_job reports @ map fst steps"
  using assms
proof (induction steps arbitrary: reports s)
  case (Cons step steps)
  then obtain t mid where mid: "collect_one P ctx dry reports step s = (t, Inr mid)"
      "fold_act (collect_one P ctx dry) mid steps t = (s', Inr reports')"
    by (auto simp: act_rules)
  with Cons.IH collect_one_Inr [OF mid(1)] show ?case by fastforce
qed simp

lemma run_collection_Inr:
  assumes "run_collection_jobs P ctx dry steps s = (s', Inr c)"
  shows "map cs_job (cr_steps c) = map fst steps" "cr_optional c = OPTIONAL_COLLECTION_JOBS"
  using assms collect_fold_Inr by (fastforce simp: run_collection_jobs_def act_rules)+

lemma unblocked_steps:
  assumes "blocking_job c = None" "st \<in> set (cr_steps c)"
  shows "step_complete st \<or> cs_job st \<in> cr_optional c"
  using assms by (auto simp: blocking_job_def find_None_iff)

section \<open>Builds stay behind their gates\<close>

lemma keys_update: "fst ` set (AList.update k v d) = insert k (fst ` set d)"
  by (induction d) auto

lemma build_one_kinds:
  assumes "build_one P ctx current b node s = (s', Inr b')"
  shows "fst ` set (bs_built b') = insert (bn_kind node) (fst ` set (bs_built b))"
proof -
  obtain outcome where "bs_built b' = AList.update (bn_kind node) outcome (bs_built b)"
    using assms by (auto simp: build_one_def act_rules split: if_splits)
  then show ?thesis by (simp add: keys_update)
qed

lemma build_nodes_kinds:
  assumes "build_nodes P ctx current b nodes s = (s', Inr b')"
  shows "fst ` set (bs_built b') = fst ` set (bs_built b) \<union> bn_kind ` set nodes"
  using assms unfolding build_nodes_def
proof (induction nodes arbitrary: b s)
  case (Cons node nodes)
  then obtain t mid where mid: "build_one P ctx current b node s = (t, Inr mid)"
      "fold_act (build_one P ctx current) mid nodes t = (s', Inr b')"
    by (auto simp: act_rules)
  with Cons.IH build_one_kinds [OF mid(1)] show ?case by auto
qed simp

lemma report_of_fields [simp]:
  "set (rf_built (report_of ctx status planned built peaks blocking steps degraded)) = fst ` set built"
  "rf_collection (report_of ctx status planned built peaks blocking steps degraded) = steps"
  by (simp_all add: report_of_def Let_def)

text \<open>No step that ran and did not complete gates the kind.\<close>

definition gate_clear :: "collection_step_report list \<Rightarrow> string \<Rightarrow> bool" where
  "gate_clear steps kind \<longleftrightarrow> list_all (\<lambda>st. step_complete st \<or> cs_job st \<notin> gate_of kind) steps"

lemma skip_one_Inr:
  assumes "skip_one P blocked incomplete order acc node s = (s', Inr acc')"
  shows "set (fst acc') \<subseteq> set (fst acc) \<union> {n. n = node \<and> bn_kind n \<notin> set blocked}"
  using assms by (auto simp: skip_one_def act_rules split: if_splits)

lemma skip_fold_Inr:
  assumes "fold_act (skip_one P blocked incomplete order) acc rest s = (s', Inr acc')"
  shows "set (fst acc') \<subseteq> set (fst acc) \<union> {node \<in> set rest. bn_kind node \<notin> set blocked}"
  using assms
proof (induction rest arbitrary: acc s)
  case (Cons node rest)
  then obtain t mid where mid: "skip_one P blocked incomplete order acc node s = (t, Inr mid)"
      "fold_act (skip_one P blocked incomplete order) mid rest t = (s', Inr acc')"
    by (auto simp: act_rules)
  with Cons.IH [OF mid(2)] skip_one_Inr [OF mid(1)] show ?case by auto
qed simp

lemma rest_gate_clear:
  assumes "gate_of kind \<inter> incomplete_required steps = {}"
  shows "gate_clear steps kind"
  using assms gate_required [of kind] by (auto simp: gate_clear_def list_all_iff incomplete_required_def)

lemma refresh_rest_gates:
  assumes "refresh_rest P ctx pre kis planned current b rest s = (s', Inr rep)"
    and "\<forall>kind \<in> fst ` set (bs_built b). gate_clear (cr_steps pre @ cr_steps kis) kind"
  shows "list_all (gate_clear (rf_collection rep)) (rf_built rep)"
proof -
  let ?steps = "cr_steps pre @ cr_steps kis"
  obtain blocked buildable memo b' t u v where run: "blocked_kinds rest (incomplete_required ?steps) = Inr blocked"
      "fold_act (skip_one P blocked (incomplete_required ?steps) (map cs_job ?steps)) ([], []) rest t = (u, Inr (buildable, memo))"
      "build_nodes P ctx current b buildable u = (v, Inr b')" "set (rf_built rep) = fst ` set (bs_built b')" "rf_collection rep = ?steps"
    using assms(1) by (auto simp: refresh_rest_def act_rules Let_def)
  have "gate_clear ?steps (bn_kind node)" if "node \<in> set buildable" for node
    using blocked_kinds_Inr [OF run(1)] skip_fold_Inr [OF run(2)] that rest_gate_clear by auto
  with assms(2) build_nodes_kinds [OF run(3)] run(4,5) show ?thesis by (auto simp: list_all_iff)
qed

lemma refresh_flow_gates:
  assumes run: "refresh_flow P ctx pre kis planned current b s = (s', Inr rep)"
    and kis: "list_all (\<lambda>st. cs_job st = KIS_STEP) (cr_steps kis)" "cr_optional kis = OPTIONAL_COLLECTION_JOBS"
    and pre: "list_all (\<lambda>st. cs_job st \<noteq> KIS_STEP \<and> (step_complete st \<or> cs_job st \<notin> flow_steps)) (cr_steps pre)"
    and b: "fst ` set (bs_built b) \<subseteq> {''ordinary_universe'', ''daily_market'', ''investor_flow_ls''}"
  shows "list_all (gate_clear (rf_collection rep)) (rf_built rep)"
proof -
  have early: "gate_clear (cr_steps pre @ cr_steps kis) kind" if "kind \<in> fst ` set (bs_built b)" for kind
  proof -
    have "gate_of kind \<subseteq> flow_steps" using first_gate [of kind] that b by blast
    then show ?thesis using kis(1) pre kis_not_flow_step by (auto simp: gate_clear_def list_all_iff)
  qed
  show ?thesis
  proof (cases "collection_complete kis")
    case False
    then show ?thesis using run early by (auto simp: refresh_flow_def list_all_iff)
  next
    case True
    obtain remaining where plan: "plan_refresh P ctx s = Inr remaining"
      using run True by (auto simp: refresh_flow_def act_rules)
    obtain first flow_done rest where split: "phase_split remaining = (first, flow_done, rest)" by (rule prod_cases3)
    with run True plan obtain b' current' t u where phase: "build_nodes P ctx current b flow_done s = (t, Inr b')"
        "refresh_rest P ctx pre kis planned current' b' rest u = (s', Inr rep)"
      by (auto simp: refresh_flow_def act_rules)
    have "KIS_STEP \<notin> OPTIONAL_COLLECTION_JOBS" by (simp add: KIS_STEP_def OPTIONAL_COLLECTION_JOBS_def)
    then have all: "list_all step_complete (cr_steps kis)"
      using True kis by (auto simp: collection_complete_def list_all_iff)
    have "gate_clear (cr_steps pre @ cr_steps kis) (bn_kind node)" if "node \<in> set flow_done" for node
    proof -
      have "gate_of (bn_kind node) \<subseteq> insert KIS_STEP flow_steps"
        using flow_done_gate [of "bn_kind node"] scope_phases(2) [OF split] that by blast
      then show ?thesis using all pre by (auto simp: gate_clear_def list_all_iff)
    qed
    with early build_nodes_kinds [OF phase(1)] show ?thesis by (intro refresh_rest_gates [OF phase(2)]) auto
  qed
qed

lemma refresh_phased_gates:
  assumes run: "refresh_phased P ctx (filter (\<lambda>st. fst st \<noteq> KIS_STEP) steps) (filter (\<lambda>st. fst st = KIS_STEP) steps) s = (s', Inr rep)"
  shows "list_all (gate_clear (rf_collection rep)) (rf_built rep)"
proof -
  obtain pre t where pre: "run_collection_jobs P ctx False (filter (\<lambda>st. fst st \<noteq> KIS_STEP) steps) s = (t, Inr pre)"
    using run by (auto simp: refresh_phased_def act_rules)
  have jobs: "cs_job st \<noteq> KIS_STEP" if "st \<in> set (cr_steps pre)" for st
    using arg_cong [OF run_collection_Inr(1) [OF pre], of set] that by auto
  obtain gate where gate: "flow_gate = Inr gate" "gate = flow_steps"
    using run flow_gate_Inr by (auto simp: refresh_phased_def act_rules)
  show ?thesis
  proof (cases "list_ex (\<lambda>st. cs_job st \<in> gate \<and> \<not> step_complete st) (cr_steps pre)")
    case True
    have "rep = report_of ctx ''blocked'' [] [] [] (blocking_job pre) (cr_steps pre) (degraded_jobs pre)"
      using run True by (auto simp: refresh_phased_def act_rules pre gate(1))
    then show ?thesis by (simp add: list_all_iff)
  next
    case False
    obtain plan where plan: "plan_refresh P ctx t = Inr plan"
      using run False by (auto simp: refresh_phased_def act_rules pre gate(1))
    obtain first flow_done rest where split: "phase_split plan = (first, flow_done, rest)" by (rule prod_cases3)
    with run False obtain current known b u v w x y current' kis where chain:
        "build_nodes P ctx current (no_builds known) first u = (v, Inr b)"
        "run_collection_jobs P ctx False (filter (\<lambda>st. fst st = KIS_STEP) steps) w = (x, Inr kis)"
        "refresh_flow P ctx pre kis (map bn_kind plan) current' b x = (s', Inr rep)"
      by (auto simp: refresh_phased_def act_rules pre gate(1) plan)
    have "list_all (\<lambda>st. cs_job st = KIS_STEP) (cr_steps kis)"
      using arg_cong [OF run_collection_Inr(1) [OF chain(2)], of set] by (force simp: list_all_iff)
    moreover have "list_all (\<lambda>st. cs_job st \<noteq> KIS_STEP \<and> (step_complete st \<or> cs_job st \<notin> flow_steps)) (cr_steps pre)"
      using False jobs gate(2) by (auto simp: list_all_iff list_ex_iff)
    moreover have "fst ` set (bs_built b) \<subseteq> {''ordinary_universe'', ''daily_market'', ''investor_flow_ls''}"
      using build_nodes_kinds [OF chain(1)] scope_phases(1) [OF split] by (simp add: no_builds_def)
    ultimately show ?thesis using refresh_flow_gates [OF chain(3)] run_collection_Inr(2) [OF chain(2)] by blast
  qed
qed

lemma run_refresh_dry: "run_refresh P ctx True s = (s', Inr rep) \<Longrightarrow> rf_built rep = []"
  by (auto simp: run_refresh_def act_rules)

lemma refresh_simple_gates:
  assumes "refresh_simple P ctx collect dry_run steps s = (s', Inr rep)"
  shows "list_all (gate_clear (rf_collection rep)) (rf_built rep)"
proof (cases collect)
  case True
  obtain c t where c: "run_collection_jobs P ctx dry_run steps s = (t, Inr c)"
    using assms True by (auto simp: refresh_simple_def act_rules)
  have steps: "rf_collection rep = cr_steps c" "rf_built rep = [] \<or> blocking_job c = None"
    using assms True c by (auto simp: refresh_simple_def act_rules report_of_def Let_def split: if_splits dest: run_refresh_dry)
  have "gate_clear (cr_steps c) kind" if "blocking_job c = None" for kind
    using unblocked_steps [OF that] run_collection_Inr(2) [OF c] gate_required [of kind]
    by (auto simp: gate_clear_def list_all_iff)
  with steps show ?thesis by (auto simp: list_all_iff)
qed (use assms in \<open>auto simp: refresh_simple_def act_rules gate_clear_def list_all_iff\<close>)

lemma refresh_dry_gates:
  assumes "refresh_dry P ctx pre_steps kis_steps s = (s', Inr rep)"
  shows "list_all (gate_clear (rf_collection rep)) (rf_built rep)"
proof -
  obtain pre t plan where plan: "run_collection_jobs P ctx True pre_steps s = (t, Inr pre)" "plan_refresh P ctx t = Inr plan"
    using assms by (auto simp: refresh_dry_def act_rules)
  obtain first flow_done rest where "phase_split plan = (first, flow_done, rest)" by (rule prod_cases3)
  with assms plan have "rf_built rep = []" by (auto simp: refresh_dry_def act_rules)
  then show ?thesis by simp
qed

text \<open>C38. Whatever the collection steps, builders and previews do, a refresh of the scope that returns a report (blocked, dry or
  complete) has built no kind behind an open gate: no step in its collection report that ended without completing belongs to the
  gate of a built kind or to the gate of any dataset that kind is transitively built from.\<close>

theorem refresh_builds_only_behind_complete_gates:
  assumes "refresh_scope P ctx collect dry_run steps collect_steps s = (s', Inr rep)"
  shows "list_all (\<lambda>kind. list_all (\<lambda>st. step_complete st \<or> cs_job st \<notin> gate_of kind) (rf_collection rep)) (rf_built rep)"
proof -
  obtain chosen where run: "select_steps steps collect_steps = Inr chosen"
      "(if \<not> collect \<or> \<not> list_ex (\<lambda>st. fst st = KIS_STEP) chosen then refresh_simple P ctx collect dry_run chosen
        else if dry_run then refresh_dry P ctx (filter (\<lambda>st. fst st \<noteq> KIS_STEP) chosen) (filter (\<lambda>st. fst st = KIS_STEP) chosen)
        else refresh_phased P ctx (filter (\<lambda>st. fst st \<noteq> KIS_STEP) chosen) (filter (\<lambda>st. fst st = KIS_STEP) chosen)) s = (s', Inr rep)"
    using assms unfolding refresh_scope_def by (auto simp only: act_rules act_simps prod.inject)
  have "list_all (gate_clear (rf_collection rep)) (rf_built rep)"
    using run(2) by (simp split: if_splits add: refresh_simple_gates refresh_dry_gates refresh_phased_gates)
  then show ?thesis unfolding gate_clear_def .
qed

section \<open>A blocked refresh\<close>

definition demo_steps :: "unit collection_step list" where
  "demo_steps = [demo_step ''krx_daily_market'' ''complete'', demo_step KIS_STEP ''failed'']"

definition demo_first :: "build_node list" where
  "demo_first = [build_node_init ''ordinary_universe'' [] [''krx_security_master''],
     build_node_init ''daily_market'' [''ordinary_universe''] [''krx_daily_market''],
     build_node_init ''investor_flow_ls'' [''ordinary_universe''] [''investor_flow'']]"

lemma demo_first_phase: "\<exists>flow_done rest. phase_split SCOPE_GRAPH = (demo_first, flow_done, rest)"
proof -
  have "fst (phase_split SCOPE_GRAPH) = demo_first" by code_simp
  then show ?thesis by (metis prod.exhaust_sel)
qed

lemma demo_first_builds: "\<exists>b. build_nodes demo_ports demo_context [] (no_builds known) demo_first s = (s, Inr b)
    \<and> bs_built b = map (\<lambda>node. (bn_kind node, demo_outcome (bn_kind node))) demo_first"
  by (simp add: build_nodes_def demo_first_def act_bind_apply build_node_init_def demo_build_one no_builds_def resolve_input_def)

lemma demo_collect:
  "run_collection_jobs demo_ports demo_context False [demo_step name status] s
    = (s, Inr \<lparr>cr_steps = [\<lparr>cs_job = name, cs_status = status, cs_done = 0, cs_pending_left = 0, cs_requests_used = 1\<rparr>],
        cr_optional = OPTIONAL_COLLECTION_JOBS\<rparr>)"
  by (simp add: run_collection_jobs_def act_bind_apply collect_one_def call_step_def demo_step_def emit_def on_world_def demo_ports_def)

lemma demo_register_first:
  assumes "bs_built b = map (\<lambda>node. (bn_kind node, demo_outcome (bn_kind node))) demo_first"
  shows "\<exists>s' current. register_phase demo_ports demo_first b [] demo_state = (s', Inr current)"
proof -
  have items: "phase_items demo_first b = map (\<lambda>node. (bn_kind node, demo_id (bn_kind node))) demo_first"
    by (simp add: phase_items_def assms demo_first_def build_node_init_def map_filter_def demo_outcome_def)
  have kinds: "bn_kind ` set demo_first \<subseteq> bn_kind ` set SCOPE_GRAPH"
    by (simp add: demo_first_def SCOPE_GRAPH_def build_node_init_def)
  then have ids: "list_all (\<lambda>(k, i). dataset_kind_from_id i = Inr k) (phase_items demo_first b)"
    using scope_is_kind by (auto simp: items list_all_iff intro!: demo_id_kind)
  have "current_ok (update_all [] (phase_items demo_first b))" using current_ok_update_all [OF _ ids, of "[]"] by (simp add: current_ok_def)
  then have "snapshot (registry_payload (update_all [] (phase_items demo_first b)) []) = Inr (sort (update_all [] (phase_items demo_first b)))"
    by (simp add: snapshot_def read_registry_payload retired_ok_def)
  with demo_register [of "phase_items demo_first b" Absent "[]" "[]"] kinds show ?thesis
    by (auto simp: register_phase_def act_bind_apply demo_ports_def demo_state_def items list_all_iff read_unlocked_def) (simp add: demo_first_def)
qed

theorem refresh_builds_only_behind_complete_gates_witness:
  "\<exists>s' rep. refresh_scope demo_ports demo_context True False demo_steps None demo_state = (s', Inr rep)
    \<and> set (rf_built rep) = {''ordinary_universe'', ''daily_market'', ''investor_flow_ls''} \<and> map cs_job (rf_collection rep) = [''krx_daily_market'', KIS_STEP]
    \<and> list_all (\<lambda>kind. list_all (\<lambda>st. step_complete st \<or> cs_job st \<notin> gate_of kind) (rf_collection rep)) (rf_built rep)"
proof -
  obtain gate where gate: "flow_gate = Inr gate" using flow_gate_returns by blast
  obtain flow_done rest where split: "phase_split SCOPE_GRAPH = (demo_first, flow_done, rest)" using demo_first_phase by blast
  have start: "snapshot (rs_registry demo_state) = Inr []" by (simp add: demo_state_def snapshot_def read_unlocked_def)
  obtain known where known: "disk_dataset_ids (rp_lake demo_ports) demo_state {} = Inr known"
    by (simp add: disk_dataset_ids_def demo_state_def retired_ids_def read_unlocked_def)
  obtain b where b: "build_nodes demo_ports demo_context [] (no_builds known) demo_first demo_state = (demo_state, Inr b)"
      "bs_built b = map (\<lambda>node. (bn_kind node, demo_outcome (bn_kind node))) demo_first" using demo_first_builds by blast
  obtain s' current where reg: "register_phase demo_ports demo_first b [] demo_state = (s', Inr current)"
    using demo_register_first [OF b(2)] by blast
  have parts: "filter (\<lambda>st. fst st \<noteq> KIS_STEP) demo_steps = [demo_step ''krx_daily_market'' ''complete'']"
      "filter (\<lambda>st. fst st = KIS_STEP) demo_steps = [demo_step KIS_STEP ''failed'']" "list_ex (\<lambda>st. fst st = KIS_STEP) demo_steps"
    by (simp_all add: demo_steps_def demo_step_def KIS_STEP_def)
  have required: "KIS_STEP \<notin> OPTIONAL_COLLECTION_JOBS" by (simp add: KIS_STEP_def OPTIONAL_COLLECTION_JOBS_def)
  have emits: "emit_plan demo_ports nodes s = (s, Inr ())" for nodes and s :: "unit rstate"
    by (induction nodes) (simp_all add: emit_plan_def each_act_def act_bind_apply emit_def on_world_def demo_ports_def)
  have "\<exists>s' rep. refresh_scope demo_ports demo_context True False demo_steps None demo_state = (s', Inr rep)
      \<and> set (rf_built rep) = bn_kind ` set demo_first \<and> map cs_job (rf_collection rep) = [''krx_daily_market'', KIS_STEP]"
    by (simp add: gate split start known b reg demo_plan [OF start] refresh_scope_def select_steps_def parts refresh_phased_def act_bind_apply demo_collect step_complete_def emits
      refresh_flow_def collection_complete_def required image_image)
  then show ?thesis using refresh_builds_only_behind_complete_gates by (fastforce simp: demo_first_def build_node_init_def)
qed

end
