(* ===== verification/RefreshKeeps.thy ===== *)
theory RefreshKeeps
  imports RefreshProps
begin

text \<open>
  What a refresh does to the registry: a run that fails leaves it alone, and a run that completes leaves
  every registered dataset built from the ids that are registered for its inputs.
\<close>

section \<open>The plan\<close>

lemma plan_fold_kinds:
  "fst (foldl (plan_step P ctx s current) acc nodes) \<subseteq> fst acc \<union> bn_kind ` set nodes
   \<and> fst acc \<subseteq> fst (foldl (plan_step P ctx s current) acc nodes)"
proof (induction nodes arbitrary: acc)
  case (Cons node nodes)
  have "fst acc \<subseteq> fst (plan_step P ctx s current acc node) \<and> fst (plan_step P ctx s current acc node) \<subseteq> insert (bn_kind node) (fst acc)"
    by (auto simp: plan_step_def)
  with Cons.IH [of "plan_step P ctx s current acc node"] show ?case by auto
qed simp

lemma plan_fold_nodes:
  assumes "fst acc = bn_kind ` set (snd acc)"
  shows "fst (foldl (plan_step P ctx s current) acc nodes) = bn_kind ` set (snd (foldl (plan_step P ctx s current) acc nodes))
    \<and> (\<exists>chosen. snd (foldl (plan_step P ctx s current) acc nodes) = snd acc @ chosen \<and> subseq chosen nodes)"
  using assms
proof (induction nodes arbitrary: acc)
  case (Cons node nodes)
  let ?mid = "plan_step P ctx s current acc node"
  have "fst ?mid = bn_kind ` set (snd ?mid)" using Cons.prems by (auto simp: plan_step_def)
  from Cons.IH [OF this] obtain chosen where
    "fst (foldl (plan_step P ctx s current) ?mid nodes) = bn_kind ` set (snd (foldl (plan_step P ctx s current) ?mid nodes))"
    "snd (foldl (plan_step P ctx s current) ?mid nodes) = snd ?mid @ chosen" "subseq chosen nodes" by blast
  moreover have "snd ?mid = snd acc \<or> snd ?mid = snd acc @ [node]" by (simp add: plan_step_def)
  ultimately show ?case by (auto intro: exI [of _ "node # chosen"])
qed simp

lemma plan_refresh_Inr:
  assumes "plan_refresh P ctx s = Inr plan" "snapshot (rs_registry s) = Inr current"
  shows "subseq plan SCOPE_GRAPH"
    "fst (foldl (plan_step P ctx s current) ({}, []) SCOPE_GRAPH) = bn_kind ` set plan"
    "set (map fst current) \<subseteq> bn_kind ` set SCOPE_GRAPH"
  using assms plan_fold_nodes [of "({}, [])" P ctx s current SCOPE_GRAPH]
  by (auto simp: plan_refresh_def res_simps dict_keys_def)

text \<open>Staleness spreads downstream, and an unregistered kind is stale, unless the kind is deferred; a deferred kind is not planned.\<close>

lemma plan_closed:
  assumes "plan_refresh P ctx s = Inr plan" "snapshot (rs_registry s) = Inr current" "bn_kind node \<notin> rc_deferred_build_kinds ctx"
    and node: "node \<in> set SCOPE_GRAPH" and why: "map_of current (bn_kind node) = None \<or> (\<exists>d \<in> set (bn_inputs node). d \<in> bn_kind ` set plan)"
  shows "bn_kind node \<in> bn_kind ` set plan"
proof -
  let ?fold = "foldl (plan_step P ctx s current) ({}, [])"
  note plan = plan_refresh_Inr [OF assms(1,2)]
  obtain pre post where graph: "SCOPE_GRAPH = pre @ node # post" using node by (metis split_list)
  have "d \<in> fst (?fold pre)" if "d \<in> set (bn_inputs node)" "d \<in> bn_kind ` set plan" for d
    using scope_inputs_earlier(2) [OF graph that(1)] that(2) plan_fold_kinds [of P ctx s current "?fold pre" "node # post"] plan(2)
    by (auto simp: graph)
  with why assms(3) have "bn_kind node \<in> fst (?fold (pre @ [node]))"
    by (auto simp: plan_step_def node_stale_def list_ex_iff split: option.splits)
  then show ?thesis using plan_fold_kinds [of P ctx s current "?fold (pre @ [node])" post] plan(2) by (auto simp: graph)
qed

lemma plan_not_deferred:
  assumes "plan_refresh P ctx s = Inr plan"
  shows "bn_kind ` set plan \<inter> rc_deferred_build_kinds ctx = {}"
proof -
  have "\<forall>node \<in> set (snd (foldl (plan_step P ctx s current) acc nodes)). bn_kind node \<notin> rc_deferred_build_kinds ctx"
    if "\<forall>node \<in> set (snd acc). bn_kind node \<notin> rc_deferred_build_kinds ctx" for current acc nodes
    using that
  proof (induction nodes arbitrary: acc)
    case (Cons node nodes)
    have "\<forall>n \<in> set (snd (plan_step P ctx s current acc node)). bn_kind n \<notin> rc_deferred_build_kinds ctx"
      using Cons.prems by (simp add: plan_step_def)
    from Cons.IH [OF this] show ?case by simp
  qed simp
  from this [of "({}, [])"] show ?thesis using assms by (fastforce simp: plan_refresh_def res_simps)
qed

section \<open>The builds\<close>

text \<open>What a builder guarantees of its output: a relation between the kind, the ids it was given and the id it published.\<close>

definition builds_meet :: "(string \<Rightarrow> (string, string) dict \<Rightarrow> string \<Rightarrow> bool) \<Rightarrow> 'w refresh_ports \<Rightarrow> refresh_context \<Rightarrow> bool" where
  "builds_meet R P ctx \<longleftrightarrow>
     (\<forall>kind reg inputs w w' outcome. rp_build P kind ctx reg inputs w = (w', Inr outcome) \<longrightarrow> R kind inputs (pd_dataset_id outcome))"

definition built_from :: "(string \<Rightarrow> (string, string) dict \<Rightarrow> string \<Rightarrow> bool) \<Rightarrow> pointers
    \<Rightarrow> (string, published_dataset) dict \<Rightarrow> build_node \<Rightarrow> bool" where
  "built_from R current built node \<longleftrightarrow> (\<exists>inputs outcome. mapM (resolve_input built current) (bn_inputs node) = Inr inputs
     \<and> map_of built (bn_kind node) = Some outcome \<and> R (bn_kind node) inputs (pd_dataset_id outcome))"

lemma mapM_cong: "(\<And>x. x \<in> set xs \<Longrightarrow> f x = g x) \<Longrightarrow> mapM f xs = mapM g xs"
  by (induction xs) auto

lemma build_one_Inr:
  assumes "build_one P ctx current b node s = (s', Inr b')" "builds_meet R P ctx"
  shows "\<exists>inputs outcome. mapM (resolve_input (bs_built b) current) (bn_inputs node) = Inr inputs
    \<and> bs_built b' = AList.update (bn_kind node) outcome (bs_built b) \<and> R (bn_kind node) inputs (pd_dataset_id outcome)"
proof -
  obtain inputs outcome peak t where run: "mapM (resolve_input (bs_built b) current) (bn_inputs node) = Inr inputs"
      "build_with_peak P ctx node inputs s = (t, Inr (outcome, peak))" "bs_built b' = AList.update (bn_kind node) outcome (bs_built b)"
    using assms(1) by (auto simp: build_one_def act_rules split: if_splits)
  from run(2) obtain reg w w' where "rp_build P (bn_kind node) ctx reg inputs w = (w', Inr outcome)"
    by (auto simp: build_with_peak_def act_rules on_world_def split: prod.splits)
  with run assms(2) show ?thesis unfolding builds_meet_def by blast
qed

lemma built_from_update:
  assumes "built_from R current built node" "bn_kind node \<noteq> kind" "kind \<notin> set (bn_inputs node)"
  shows "built_from R current (AList.update kind outcome built) node"
proof -
  have "mapM (resolve_input (AList.update kind outcome built) current) (bn_inputs node) = mapM (resolve_input built current) (bn_inputs node)"
    using assms(3) by (intro mapM_cong) (auto simp: resolve_input_def update_conv)
  then show ?thesis using assms(1,2) by (simp add: built_from_def update_conv)
qed

lemma build_nodes_Inr:
  assumes "build_nodes P ctx current b nodes s = (s', Inr b')" "builds_meet R P ctx"
    and "sorted_wrt before (pre @ nodes)" "list_all (\<lambda>node. bn_kind node \<notin> set (bn_inputs node)) nodes"
    and "map fst (bs_built b) = map bn_kind pre" "list_all (built_from R current (bs_built b)) pre"
  shows "map fst (bs_built b') = map bn_kind (pre @ nodes) \<and> list_all (built_from R current (bs_built b')) (pre @ nodes)"
  using assms unfolding build_nodes_def
proof (induction nodes arbitrary: b pre s)
  case (Cons node nodes)
  then obtain t mid where mid: "build_one P ctx current b node s = (t, Inr mid)"
      "fold_act (build_one P ctx current) mid nodes t = (s', Inr b')"
    by (auto simp: act_rules)
  obtain inputs outcome where built: "mapM (resolve_input (bs_built b) current) (bn_inputs node) = Inr inputs"
      "bs_built mid = AList.update (bn_kind node) outcome (bs_built b)" "R (bn_kind node) inputs (pd_dataset_id outcome)"
    using build_one_Inr [OF mid(1) Cons.prems(2)] by blast
  have fresh: "bn_kind node \<notin> fst ` set (bs_built b)"
    using Cons.prems(3) arg_cong [OF Cons.prems(5), of set] by (auto simp: sorted_wrt_append before_def)
  have "list_all (built_from R current (bs_built mid)) pre"
    using Cons.prems(3,6) built(2) by (auto simp: list_all_iff sorted_wrt_append before_def intro: built_from_update)
  moreover have "built_from R current (bs_built mid) node"
  proof -
    have "mapM (resolve_input (bs_built mid) current) (bn_inputs node) = mapM (resolve_input (bs_built b) current) (bn_inputs node)"
      using Cons.prems(4) built(2) by (intro mapM_cong) (auto simp: resolve_input_def update_conv)
    then show ?thesis using built by (simp add: built_from_def update_conv)
  qed
  ultimately show ?case
    using Cons.IH [OF mid(2) Cons.prems(2), of "pre @ [node]"] Cons.prems(3-5) built(2) fresh by (simp add: update_fresh)
qed simp

section \<open>Registration\<close>

lemma check_registration_kind: "check_registration L w known item = Inr p \<Longrightarrow> dataset_kind_from_id (snd item) = Inr (fst item)"
  by (auto simp: check_registration_def res_simps)

lemma register_many_Inr:
  assumes "register_many L items s = (s', Inr u)" "items \<noteq> []" "distinct (map fst items)" "snapshot (rs_registry s) = Inr current"
  shows "\<exists>current'. snapshot (rs_registry s') = Inr current' \<and> map_of current' = map_of current ++ map_of items"
proof -
  obtain retired where read: "read_unlocked (rs_registry s) = Inr (current, retired)"
    using assms(4) by (auto simp: snapshot_def res_simps)
  obtain known dirs where checks: "mapM (check_registration L (rs_world s) known) (sort items) = Inr dirs"
      and s': "s' = s\<lparr>rs_registry := registry_payload (update_all current items) retired\<rparr>"
    using assms(1,2) read by (auto simp: register_many_def act_rules Let_def write_unlocked_def split: if_splits)
  have "list_all (\<lambda>i. \<exists>p. check_registration L (rs_world s) known i = Inr p) (sort items)"
    using checks by (auto simp: mapM_Inr_list_all2 list_all2_conv_all_nth list_all_length)
  then have "list_all (\<lambda>(k, i). dataset_kind_from_id i = Inr k) items"
    using check_registration_kind by (fastforce simp: list_all_iff)
  then have ok: "current_ok (update_all current items)" "retired_ok retired"
    using current_ok_update_all read_unlocked_ok [OF read] by auto
  then show ?thesis
    using read_registry_payload [OF ok] map_of_update_all [OF assms(3), of current]
    by (simp add: s' snapshot_def map_of_sort current_ok_def)
qed

lemma register_many_Inl: "register_many L items s = (s', Inl e) \<Longrightarrow> s' = s"
  by (auto simp: register_many_def act_bind_apply Let_def write_unlocked_def split: if_splits sum.splits prod.splits)

section \<open>A failed run\<close>

definition same_registry :: "registry_file \<Rightarrow> 'w rstate \<Rightarrow> bool" where
  "same_registry f s \<longleftrightarrow> rs_registry s = f"

abbreviation keeps :: "registry_file \<Rightarrow> ('w rstate, 'a) act \<Rightarrow> bool" where
  "keeps f m \<equiv> valid (same_registry f) m (\<lambda>_. same_registry f) (same_registry f)"

lemma keeps_reads: "keeps f (ret x)" "keeps f (raise e)" "keeps f (read g)" "keeps f (read_res h)"
  by (simp_all add: valid_def split: sum.splits)

lemma keeps_bind: "keeps f m \<Longrightarrow> (\<And>x. keeps f (k x)) \<Longrightarrow> keeps f (act_bind m k)"
  by (rule valid_bind)

lemma keeps_on_world: "keeps f (on_world g)"
  by (auto simp: valid_def on_world_def same_registry_def split: prod.splits sum.splits)

lemma keeps_build_one: "keeps f (build_one P ctx current b node)"
  unfolding build_one_def build_with_peak_def emit_def
  by (intro keeps_bind keeps_reads keeps_on_world) (auto intro!: keeps_bind keeps_reads keeps_on_world split: prod.splits)

lemma keeps_build_nodes: "keeps f (build_nodes P ctx current b nodes)"
  unfolding build_nodes_def by (rule valid_fold) (rule keeps_build_one)

lemma keeps_emit_plan: "keeps f (each_act (\<lambda>node. emit P (EvPlan (bn_kind node))) plan)"
  by (rule valid_each) (simp add: emit_def keeps_on_world)

lemma run_refresh_Inl:
  assumes "run_refresh P ctx dry_run s = (s', Inl e)"
  shows "rs_registry s' = rs_registry s"
proof -
  let ?f = "rs_registry s"
  have register: "valid (same_registry ?f) (if bs_built b = [] then ret () else register_many (rp_lake P) (built_ids (bs_built b)))
      (\<lambda>_ _. True) (same_registry ?f)" for b
    by (auto simp: valid_def split: sum.splits dest: register_many_Inl)
  have "valid (same_registry ?f) (run_refresh P ctx dry_run) (\<lambda>_ _. True) (same_registry ?f)"
    unfolding run_refresh_def
    by (cases dry_run) (auto intro!: valid_bind [OF keeps_reads(4)] valid_bind [OF keeps_emit_plan] valid_bind [OF keeps_build_nodes]
      valid_bind [OF register] valid_ret)
  from valid_Inl [OF this _ assms] show ?thesis by (simp add: same_registry_def)
qed

section \<open>A completed run\<close>

text \<open>Outside a set of kinds, every registered kind was built from what is registered for its inputs.\<close>

definition consistent :: "(string \<Rightarrow> (string, string) dict \<Rightarrow> string \<Rightarrow> bool) \<Rightarrow> string set \<Rightarrow> pointers \<Rightarrow> bool" where
  "consistent R deferred current \<longleftrightarrow> list_all (\<lambda>node. bn_kind node \<in> deferred \<or> (case map_of current (bn_kind node) of None \<Rightarrow> True
     | Some i \<Rightarrow> (\<exists>inputs. mapM (resolve_input [] current) (bn_inputs node) = Inr inputs \<and> R (bn_kind node) inputs i))) SCOPE_GRAPH"

lemma map_fst_built_ids: "map fst (built_ids built) = map fst built"
  by (simp add: built_ids_def case_prod_beta)

lemma map_of_built_ids: "map_of (built_ids built) k = map_option pd_dataset_id (map_of built k)"
  by (induction built) (auto simp: built_ids_def)

text \<open>Resolving an input against the builds first is resolving it against the registry they are written to.\<close>

lemma resolve_final:
  assumes "map_of final = map_of current ++ map_of (built_ids built)"
  shows "resolve_input [] final d = resolve_input built current d"
  by (simp add: resolve_input_def assms map_add_def map_of_built_ids split: option.splits)

lemma consistent_after:
  assumes plan: "plan_refresh P ctx s = Inr plan" "snapshot (rs_registry s) = Inr current"
    and old: "consistent R (rc_deferred_build_kinds ctx) current"
    and built: "map fst built = map bn_kind plan" "list_all (built_from R current built) plan"
    and final: "map_of final = map_of current ++ map_of (built_ids built)"
  shows "consistent R (rc_deferred_build_kinds ctx) final
    \<and> list_all (\<lambda>node. bn_kind node \<in> rc_deferred_build_kinds ctx \<or> map_of final (bn_kind node) \<noteq> None) SCOPE_GRAPH"
proof -
  have node_ok: "\<exists>inputs i. map_of final (bn_kind node) = Some i
      \<and> mapM (resolve_input [] final) (bn_inputs node) = Inr inputs \<and> R (bn_kind node) inputs i"
    if node: "node \<in> set SCOPE_GRAPH" "bn_kind node \<notin> rc_deferred_build_kinds ctx" for node
  proof (cases "bn_kind node \<in> bn_kind ` set plan")
    case True
    then obtain n where n: "n \<in> set plan" "bn_kind n = bn_kind node" by auto
    moreover have "n \<in> set SCOPE_GRAPH" using n(1) subseq_set [OF plan_refresh_Inr(1) [OF plan(1,2)]] by blast
    ultimately have "n = node" using node(1) scope_kind_inj by blast
    with n(1) built(2) have "built_from R current built node" by (simp add: list_all_iff)
    then show ?thesis
      by (auto simp: built_from_def resolve_final [OF final, abs_def] final map_add_def map_of_built_ids)
  next
    case False
    with plan_closed [OF plan node(2,1)] have "map_of current (bn_kind node) \<noteq> None"
      and inputs: "d \<in> set (bn_inputs node) \<Longrightarrow> d \<notin> bn_kind ` set plan" for d by metis+
    then obtain i where i: "map_of current (bn_kind node) = Some i" by (meson not_None_eq)
    have keys: "fst ` set built = bn_kind ` set plan" using arg_cong [OF built(1), of set] by simp
    have "map_of built d = None" if "d \<notin> bn_kind ` set plan" for d using that keys by (simp add: map_of_eq_None_iff)
    then have "map_of final (bn_kind node) = Some i"
        "mapM (resolve_input [] final) (bn_inputs node) = mapM (resolve_input [] current) (bn_inputs node)"
      using i inputs False by (auto simp: final map_add_def map_of_built_ids resolve_final [OF final] resolve_input_def intro!: mapM_cong)
    then show ?thesis using old i node by (auto simp: consistent_def list_all_iff)
  qed
  then show ?thesis unfolding consistent_def list_all_iff by (fastforce split: option.splits)
qed

lemma run_refresh_Inr:
  assumes run: "run_refresh P ctx False s = (s', Inr rep)" and meets: "builds_meet R P ctx"
    and current: "snapshot (rs_registry s) = Inr current"
  shows "\<exists>plan built final. plan_refresh P ctx s = Inr plan \<and> rf_planned rep = map bn_kind plan \<and> rf_built rep = map fst built
    \<and> rf_datasets rep = built_ids built \<and> map fst built = map bn_kind plan \<and> list_all (built_from R current built) plan
    \<and> snapshot (rs_registry s') = Inr final \<and> map_of final = map_of current ++ map_of (built_ids built)"
proof -
  obtain plan t where plan: "plan_refresh P ctx s = Inr plan" "each_act (\<lambda>node. emit P (EvPlan (bn_kind node))) plan s = (t, Inr ())"
    using run by (auto simp: run_refresh_def act_rules)
  have t: "rs_registry t = rs_registry s"
    using valid_Inr [OF keeps_emit_plan _ plan(2), of "rs_registry s"] by (simp add: same_registry_def)
  obtain known b u where b: "build_nodes P ctx current (no_builds known) plan t = (u, Inr b)"
      "(if bs_built b = [] then ret () else register_many (rp_lake P) (built_ids (bs_built b))) u = (s', Inr ())"
      "rf_planned rep = map bn_kind plan" "rf_built rep = map fst (bs_built b)" "rf_datasets rep = built_ids (bs_built b)"
    using run by (auto simp: run_refresh_def act_rules plan t current)
  have u: "rs_registry u = rs_registry s"
    using valid_Inr [OF keeps_build_nodes _ b(1), of "rs_registry s"] t by (simp add: same_registry_def)
  have sub: "subseq plan SCOPE_GRAPH" by (rule plan_refresh_Inr(1) [OF plan(1) current])
  have sorted: "sorted_wrt before plan" by (rule subseq_sorted_wrt [OF sub scope_sorted])
  moreover have "list_all (\<lambda>node. bn_kind node \<notin> set (bn_inputs node)) plan"
    using scope_no_self subseq_set [OF sub] by (auto simp: list_all_iff)
  ultimately have built: "map fst (bs_built b) = map bn_kind plan" "list_all (built_from R current (bs_built b)) plan"
    using build_nodes_Inr [OF b(1) meets, of "[]"] by (simp_all add: no_builds_def)
  have keys: "map fst (built_ids (bs_built b)) = map bn_kind plan" using built(1) by (simp add: map_fst_built_ids)
  have "\<exists>final. snapshot (rs_registry s') = Inr final \<and> map_of final = map_of current ++ map_of (built_ids (bs_built b))"
  proof (cases "bs_built b = []")
    case True
    then show ?thesis using b(2) u current by (auto simp: built_ids_def)
  next
    case False
    then show ?thesis
      using register_many_Inr [of "rp_lake P" "built_ids (bs_built b)" u s' "()" current] b(2) u current keys sorted_before_distinct [OF sorted]
      by (simp add: built_ids_def)
  qed
  then obtain final where "snapshot (rs_registry s') = Inr final" "map_of final = map_of current ++ map_of (built_ids (bs_built b))" by blast
  with plan(1) b(3-5) built show ?thesis by (intro exI [of _ plan] exI [of _ "bs_built b"] exI [of _ final]) simp
qed

text \<open>C32. A refresh moves the registry in one consistent step or not at all. Let a builder guarantee some relation between the ids it
  was given and the id it publishes, and let the registry satisfy that relation for every registered kind that the context does not
  defer and the ids registered for its inputs. Then after a completed refresh it does so again for those kinds, every kind that is not
  deferred is registered, no deferred kind was built, exactly the planned kinds were rebuilt and only their pointers moved, so a deferred
  kind keeps its pointer while its inputs may move on; after a refresh that raised, the registry is what it was. Without deferred kinds
  this is the consistency of the whole registry.\<close>

theorem refresh_keeps_registry_consistent:
  assumes "builds_meet R P ctx" "snapshot (rs_registry s) = Inr current" "consistent R (rc_deferred_build_kinds ctx) current"
    and "run_refresh P ctx False s = (s', r)"
  shows "case r of
      Inl e \<Rightarrow> rs_registry s' = rs_registry s
    | Inr rep \<Rightarrow> (\<exists>final. snapshot (rs_registry s') = Inr final \<and> consistent R (rc_deferred_build_kinds ctx) final
        \<and> list_all (\<lambda>node. bn_kind node \<in> rc_deferred_build_kinds ctx \<or> map_of final (bn_kind node) \<noteq> None) SCOPE_GRAPH
        \<and> map_of final = map_of current ++ map_of (rf_datasets rep) \<and> set (rf_built rep) \<inter> rc_deferred_build_kinds ctx = {}
        \<and> rf_built rep = rf_planned rep \<and> map fst (rf_datasets rep) = rf_built rep)"
proof (cases r)
  case (Inr rep)
  with run_refresh_Inr [OF _ assms(1,2), of s' rep] assms(4) obtain plan built final where
    run: "plan_refresh P ctx s = Inr plan" "rf_planned rep = map bn_kind plan" "rf_built rep = map fst built"
    "rf_datasets rep = built_ids built" "map fst built = map bn_kind plan" "list_all (built_from R current built) plan"
    "snapshot (rs_registry s') = Inr final" "map_of final = map_of current ++ map_of (built_ids built)" by auto
  have "consistent R (rc_deferred_build_kinds ctx) final
      \<and> list_all (\<lambda>node. bn_kind node \<in> rc_deferred_build_kinds ctx \<or> map_of final (bn_kind node) \<noteq> None) SCOPE_GRAPH"
    by (rule consistent_after [OF run(1) assms(2,3) run(5,6,8)])
  moreover have "set (rf_built rep) \<inter> rc_deferred_build_kinds ctx = {}" using plan_not_deferred [OF run(1)] run(3,5) by simp
  ultimately show ?thesis unfolding Inr sum.case using run by (intro exI [of _ final]) (simp only: map_fst_built_ids simp_thms)
qed (use run_refresh_Inl assms(4) in auto)

theorem refresh_keeps_registry_consistent_witness:
  "\<exists>s' rep final. run_refresh demo_ports demo_context False demo_state = (s', Inr rep) \<and> rf_built rep = map bn_kind SCOPE_GRAPH
    \<and> snapshot (rs_registry s') = Inr final \<and> consistent (\<lambda>kind _ i. i = demo_id kind) {} final"
proof -
  obtain s' rep where run: "run_refresh demo_ports demo_context False demo_state = (s', Inr rep)" "rf_built rep = map bn_kind SCOPE_GRAPH"
    using demo_refresh_run by blast
  have "builds_meet (\<lambda>kind _ i. i = demo_id kind) demo_ports demo_context" by (simp add: builds_meet_def demo_ports_def)
  moreover have "rc_deferred_build_kinds demo_context = {}" by (simp add: demo_context_def)
  moreover have "snapshot (rs_registry demo_state) = Inr []" by (simp add: demo_state_def snapshot_def read_unlocked_def)
  moreover have "consistent (\<lambda>kind _ i. i = demo_id kind) {} []" by (simp add: consistent_def list_all_iff)
  ultimately show ?thesis using refresh_keeps_registry_consistent [OF _ _ _ run(1)] run by fastforce
qed

end
