(* ===== verification/Quota.thy ===== *)
theory Quota
  imports IsoText SessionTime "HOL-Library.List_Lexorder" "HOL-Library.Char_ord" "HOL-Library.Sublist"
begin

text \<open>
  The durable provider quota ledger (\<open>src/integrations/quota.py\<close>): per provider and endpoint the attempts of
  the current Korean day, the lifetime counters and a block after a rate limit.

  Every operation holds an inter-process lock from its read to its write, so a run of several processes is a
  sequence of operations on the stored dictionary; an operation that raises writes nothing. A \<open>datetime\<close> is
  the microseconds of its wall clock since 0001-01-01 with the UTC offset of an aware one, because the code
  adds nine hours to the wall clock whatever the zone is. The text parser of \<open>datetime\<close> that
  \<open>add_attempts\<close> calls only to reject bad input is a parameter.
\<close>

section \<open>Datetimes\<close>

datatype stamp = Stamp (wall: int) (offset: "int option")

definition hour_us :: int where
  "hour_us = 3600000000"

definition max_wall :: int where
  "max_wall = 3652059 * day_us"

definition shift :: "stamp \<Rightarrow> int \<Rightarrow> stamp res" where
  "shift t us = guard (wall t + us < 0 \<or> max_wall \<le> wall t + us) (OverflowError ''date value out of range'')
     (Inr (Stamp (wall t + us) (offset t)))"

definition assume_utc :: "stamp \<Rightarrow> stamp" where
  "assume_utc t = (case offset t of None \<Rightarrow> Stamp (wall t) (Some 0) | Some _ \<Rightarrow> t)"

definition stamp_less :: "stamp \<Rightarrow> stamp \<Rightarrow> bool res" where
  "stamp_less a b = (case (offset a, offset b) of
       (Some x, Some y) \<Rightarrow> Inr (wall a - x < wall b - y)
     | (None, None) \<Rightarrow> Inr (wall a < wall b)
     | _ \<Rightarrow> Inl (TypeError ''cannot compare offset-naive and offset-aware datetimes''))"

definition wall_date :: "stamp \<Rightarrow> date" where
  "wall_date t = date_of_ordinal (wall t div day_us + 1)"

definition next_kst_midnight_utc :: "stamp \<Rightarrow> stamp res" where
  "next_kst_midnight_utc now =
     res_bind (shift (assume_utc now) (9 * hour_us)) (\<lambda>kst.
     res_bind (shift kst day_us) (\<lambda>tomorrow.
     res_bind (shift (Stamp (wall tomorrow div day_us * day_us) (offset tomorrow)) (- 9 * hour_us)) (\<lambda>nxt.
     shift (Stamp (wall nxt) (Some 0)) (- the (offset nxt)))))"

text \<open>\<open>timedelta(seconds=x)\<close>: whole seconds exactly, the fraction as a double product rounded half to even.\<close>

definition seconds_us :: "pyfloat \<Rightarrow> int res" where
  "seconds_us x = (case x of
       Fin q \<Rightarrow> (let whole = (if 0 \<le> q then \<lfloor>q\<rfloor> else \<lceil>q\<rceil>) in
         Inr (whole * 1000000 + rhe (fl_round ((q - of_int whole) * 1000000))))
     | NaN \<Rightarrow> Inl (ValueError ''cannot convert float NaN to integer'')
     | _ \<Rightarrow> Inl (OverflowError ''cannot convert float infinity to integer''))"

section \<open>The ledger\<close>

record quota_entry =
  qe_attempted :: int
  qe_rate_limited :: int
  qe_day :: "string option"
  qe_daily :: int
  qe_blocked :: "stamp option"
  qe_updated :: "stamp option"

definition no_entry :: quota_entry where
  "no_entry = \<lparr>qe_attempted = 0, qe_rate_limited = 0, qe_day = None, qe_daily = 0, qe_blocked = None, qe_updated = None\<rparr>"

type_synonym quota = "(string, quota_entry) dict"

datatype quota_file = NoQuota | TornQuota | SavedQuota quota

definition load_nolock :: "quota_file \<Rightarrow> quota" where
  "load_nolock f = (case f of SavedQuota st \<Rightarrow> st | _ \<Rightarrow> [])"

record provider_quota_state =
  pq_provider :: string
  pq_endpoint :: string
  pq_blocked_until :: "stamp option"
  pq_attempted :: int
  pq_rate_limited :: int

definition quota_store_init :: "int option \<Rightarrow> int option res" where
  "quota_store_init daily_limit = (case daily_limit of
       Some l \<Rightarrow> guard (l < 1) (ValueError ''daily_limit must be a positive integer'') (Inr daily_limit)
     | None \<Rightarrow> Inr None)"

definition quota_key :: "string \<Rightarrow> string \<Rightarrow> string" where
  "quota_key provider endpoint = provider @ ''|'' @ endpoint"

definition kst_day :: "stamp \<Rightarrow> string res" where
  "kst_day now = res_bind (shift (assume_utc now) (9 * hour_us)) (\<lambda>t. Inr (isoformat (wall_date t)))"

definition counts_for :: "string \<Rightarrow> string \<Rightarrow> string \<times> quota_entry \<Rightarrow> bool" where
  "counts_for provider today ke \<longleftrightarrow> prefix (provider @ ''|'') (fst ke) \<and> qe_day (snd ke) = Some today"

definition daily_attempts :: "quota \<Rightarrow> string \<Rightarrow> string \<Rightarrow> int" where
  "daily_attempts st provider today = sum_list (map (\<lambda>ke. qe_daily (snd ke)) (filter (counts_for provider today) st))"

definition remaining_daily_attempts :: "quota \<Rightarrow> string \<Rightarrow> stamp \<Rightarrow> int \<Rightarrow> int res" where
  "remaining_daily_attempts st provider now daily_limit =
     guard (daily_limit < 1) (ValueError ''daily_limit must be positive'') (
     res_bind (kst_day now) (\<lambda>today. Inr (max 0 (daily_limit - daily_attempts st provider today))))"

definition check_blocked :: "quota \<Rightarrow> string \<Rightarrow> string \<Rightarrow> stamp \<Rightarrow> unit res" where
  "check_blocked st provider endpoint now =
     (case qe_blocked (dict_get st (quota_key provider endpoint) no_entry) of
        None \<Rightarrow> Inr ()
      | Some until \<Rightarrow> res_bind (stamp_less now until) (\<lambda>b.
          guard b (ProviderQuotaExhaustedError ''blocked until'') (Inr ())))"

definition chosen_limit :: "int option \<Rightarrow> int option \<Rightarrow> int option" where
  "chosen_limit store_limit daily_limit = (case daily_limit of Some l \<Rightarrow> Some l | None \<Rightarrow> store_limit)"

definition check_limit :: "int option \<Rightarrow> quota \<Rightarrow> string \<Rightarrow> string \<Rightarrow> unit res" where
  "check_limit limit st provider today = (case limit of None \<Rightarrow> Inr ()
     | Some l \<Rightarrow> guard (l \<le> daily_attempts st provider today) (ProviderQuotaExhaustedError ''daily quota safety limit reached'') (Inr ()))"

definition acquire :: "int option \<Rightarrow> quota \<Rightarrow> string \<Rightarrow> string \<Rightarrow> stamp \<Rightarrow> int option \<Rightarrow> unit res" where
  "acquire store_limit st provider endpoint now daily_limit =
     res_bind (check_blocked st provider endpoint now) (\<lambda>_.
     res_bind (kst_day now) (\<lambda>today.
     check_limit (chosen_limit store_limit daily_limit) st provider today))"

definition count_attempts :: "quota_entry \<Rightarrow> string \<Rightarrow> int \<Rightarrow> quota_entry" where
  "count_attempts entry today count = entry\<lparr>qe_attempted := qe_attempted entry + count, qe_day := Some today,
     qe_daily := (if qe_day entry = Some today then qe_daily entry else 0) + count\<rparr>"

definition book_attempt :: "quota \<Rightarrow> string \<Rightarrow> string \<Rightarrow> stamp \<Rightarrow> string \<Rightarrow> quota" where
  "book_attempt st provider endpoint now today =
     (let key = quota_key provider endpoint in
      AList.update key ((count_attempts (dict_get st key no_entry) today 1)\<lparr>qe_updated := Some now\<rparr>) st)"

definition acquire_and_record :: "int option \<Rightarrow> quota \<Rightarrow> string \<Rightarrow> string \<Rightarrow> stamp \<Rightarrow> int option \<Rightarrow> quota res" where
  "acquire_and_record store_limit st provider endpoint now daily_limit =
     res_bind (check_blocked st provider endpoint now) (\<lambda>_.
     res_bind (kst_day now) (\<lambda>today.
     res_bind (check_limit (chosen_limit store_limit daily_limit) st provider today) (\<lambda>_.
     Inr (book_attempt st provider endpoint now today))))"

definition record_attempt :: "int option \<Rightarrow> quota \<Rightarrow> string \<Rightarrow> string \<Rightarrow> stamp \<Rightarrow> int option \<Rightarrow> quota res" where
  "record_attempt store_limit st provider endpoint now daily_limit =
     res_bind (kst_day now) (\<lambda>today.
     res_bind (check_limit (chosen_limit store_limit daily_limit) st provider today) (\<lambda>_.
     Inr (book_attempt st provider endpoint now today)))"

definition add_attempts :: "(string \<Rightarrow> unit res) \<Rightarrow> quota \<Rightarrow> string \<Rightarrow> string \<Rightarrow> string \<Rightarrow> int \<Rightarrow> quota res" where
  "add_attempts parse_iso st provider endpoint today count =
     guard (count < 0) (ValueError ''count must not be negative'') (
     res_bind (parse_iso today) (\<lambda>_.
     if count = 0 then Inr st
     else let key = quota_key provider endpoint in
       Inr (AList.update key (count_attempts (dict_get st key no_entry) today count) st)))"

definition record_rate_limit :: "quota \<Rightarrow> string \<Rightarrow> string \<Rightarrow> stamp \<Rightarrow> pyfloat option \<Rightarrow> (quota \<times> provider_quota_state) res" where
  "record_rate_limit st provider endpoint now retry_after =
     res_bind (case retry_after of Some x \<Rightarrow> res_bind (seconds_us x) (shift now) | None \<Rightarrow> next_kst_midnight_utc now) (\<lambda>until.
     let key = quota_key provider endpoint; old = dict_get st key no_entry;
         entry = old\<lparr>qe_attempted := qe_attempted old + 1, qe_rate_limited := qe_rate_limited old + 1,
           qe_blocked := Some until, qe_updated := Some now\<rparr> in
     Inr (AList.update key entry st,
       \<lparr>pq_provider = provider, pq_endpoint = endpoint, pq_blocked_until = Some until,
        pq_attempted = qe_attempted entry, pq_rate_limited = qe_rate_limited entry\<rparr>))"

section \<open>The gate\<close>

record ledger_quota_gate =
  lg_provider :: string
  lg_daily_limit :: "int option"
  lg_now :: "stamp option"

definition bind_now :: "ledger_quota_gate \<Rightarrow> stamp \<Rightarrow> ledger_quota_gate" where
  "bind_now g now = g\<lparr>lg_now := Some now\<rparr>"

definition current_time :: "ledger_quota_gate \<Rightarrow> stamp \<Rightarrow> stamp" where
  "current_time g clock = (case lg_now g of Some t \<Rightarrow> t | None \<Rightarrow> clock)"

definition gate_acquire :: "int option \<Rightarrow> ledger_quota_gate \<Rightarrow> stamp \<Rightarrow> quota \<Rightarrow> string \<Rightarrow> quota res" where
  "gate_acquire store_limit g clock st endpoint =
     acquire_and_record store_limit st (lg_provider g) endpoint (current_time g clock) (lg_daily_limit g)"

definition gate_record_rate_limit :: "ledger_quota_gate \<Rightarrow> stamp \<Rightarrow> quota \<Rightarrow> string \<Rightarrow> pyfloat option \<Rightarrow> (quota \<times> provider_quota_state) res" where
  "gate_record_rate_limit g clock st endpoint retry_after =
     record_rate_limit st (lg_provider g) endpoint (current_time g clock) retry_after"

end
