(* ===== verification/QuotaProps.thy ===== *)
theory QuotaProps
  imports Quota
begin

text \<open>
  The daily limit of the quota ledger: the contract shared by the two recording operations, and the bound it
  gives over any serialisation of the operations of several processes.
\<close>

section \<open>The daily count under an update\<close>

definition contribution :: "string \<Rightarrow> string \<Rightarrow> string \<Rightarrow> quota_entry \<Rightarrow> int" where
  "contribution p d key entry = (if counts_for p d (key, entry) then qe_daily entry else 0)"

lemma contribution_no_entry [simp]: "contribution p d key no_entry = 0"
  by (simp add: contribution_def counts_for_def no_entry_def)

lemma daily_attempts_update:
  "daily_attempts (AList.update key entry st) p d
    = daily_attempts st p d - contribution p d key (dict_get st key no_entry) + contribution p d key entry"
proof (induction st)
  case (Cons ke st)
  obtain k e where ke: "ke = (k, e)" by (rule prod.exhaust)
  with Cons show ?case by (auto simp: daily_attempts_def contribution_def dict_get_def counts_for_def)
qed (simp add: daily_attempts_def contribution_def dict_get_def counts_for_def no_entry_def)

lemma own_contribution:
  "counts_for p d (quota_key p e, entry) \<longleftrightarrow> qe_day entry = Some d"
  by (simp add: counts_for_def quota_key_def prefix_def)

section \<open>The contract of a recording call\<close>

text \<open>A recording call refuses at its limit and otherwise books one attempt for the day of its clock.\<close>

locale metered_call =
  fixes call :: "int option \<Rightarrow> quota \<Rightarrow> string \<Rightarrow> string \<Rightarrow> stamp \<Rightarrow> int option \<Rightarrow> quota res"
  assumes books: "call sl st p e now dl = Inr st' \<Longrightarrow> kst_day now = Inr d \<Longrightarrow>
      st' = book_attempt st p e now d \<and> (case chosen_limit sl dl of None \<Rightarrow> True | Some l \<Rightarrow> daily_attempts st p d < l)"
    and dated: "call sl st p e now dl = Inr st' \<Longrightarrow> \<exists>d. kst_day now = Inr d"
begin

lemma counted:
  assumes "call sl st p e now dl = Inr st'" "kst_day now = Inr d"
  shows "daily_attempts st' p d = daily_attempts st p d + 1"
proof -
  have "st' = book_attempt st p e now d" using books [OF assms] by blast
  then show ?thesis
    by (simp add: book_attempt_def Let_def daily_attempts_update contribution_def own_contribution count_attempts_def)
qed

lemma below_limit:
  assumes "call sl st p e now dl = Inr st'" "kst_day now = Inr d" "chosen_limit sl dl = Some l"
  shows "daily_attempts st' p d \<le> l"
  using books [OF assms(1,2)] counted [OF assms(1,2)] assms(3) by simp

end

interpretation acquiring: metered_call acquire_and_record
  by unfold_locales
    (auto simp: acquire_and_record_def res_simps check_limit_def split: option.splits)

interpretation recording: metered_call record_attempt
  by unfold_locales
    (auto simp: record_attempt_def res_simps check_limit_def split: option.splits)

section \<open>Runs of operations\<close>

datatype quota_op =
    AcquireOp string string stamp "int option"
  | AcquireRecordOp string string stamp "int option"
  | RecordOp string string stamp "int option"
  | AddOp string string string int
  | RateLimitOp string string stamp "pyfloat option"

definition quota_apply :: "(string \<Rightarrow> unit res) \<Rightarrow> int option \<Rightarrow> quota \<Rightarrow> quota_op \<Rightarrow> quota res" where
  "quota_apply parse_iso sl st op = (case op of
       AcquireOp p e now dl \<Rightarrow> res_bind (acquire sl st p e now dl) (\<lambda>_. Inr st)
     | AcquireRecordOp p e now dl \<Rightarrow> acquire_and_record sl st p e now dl
     | RecordOp p e now dl \<Rightarrow> record_attempt sl st p e now dl
     | AddOp p e d n \<Rightarrow> add_attempts parse_iso st p e d n
     | RateLimitOp p e now ra \<Rightarrow> res_bind (record_rate_limit st p e now ra) (\<lambda>r. Inr (fst r)))"

text \<open>The day an operation writes into an entry, and whether it books a request of a provider on a day.\<close>

definition op_day :: "quota_op \<Rightarrow> string option" where
  "op_day op = (case op of
       AcquireRecordOp _ _ now _ \<Rightarrow> (case kst_day now of Inr d \<Rightarrow> Some d | Inl _ \<Rightarrow> None)
     | RecordOp _ _ now _ \<Rightarrow> (case kst_day now of Inr d \<Rightarrow> Some d | Inl _ \<Rightarrow> None)
     | AddOp _ _ d _ \<Rightarrow> Some d
     | _ \<Rightarrow> None)"

definition books_for :: "string \<Rightarrow> string \<Rightarrow> quota_op \<Rightarrow> bool" where
  "books_for p d op = (case op of
       AcquireRecordOp q _ now _ \<Rightarrow> q = p \<and> kst_day now = Inr d
     | RecordOp q _ now _ \<Rightarrow> q = p \<and> kst_day now = Inr d
     | _ \<Rightarrow> False)"

definition limited :: "int option \<Rightarrow> string \<Rightarrow> int \<Rightarrow> quota_op \<Rightarrow> bool" where
  "limited sl p L op = (case op of
       AcquireRecordOp q _ _ dl \<Rightarrow> q \<noteq> p \<or> (case chosen_limit sl dl of None \<Rightarrow> False | Some l \<Rightarrow> l \<le> L)
     | RecordOp q _ _ dl \<Rightarrow> q \<noteq> p \<or> (case chosen_limit sl dl of None \<Rightarrow> False | Some l \<Rightarrow> l \<le> L)
     | _ \<Rightarrow> True)"

fun booked :: "(string \<Rightarrow> unit res) \<Rightarrow> int option \<Rightarrow> string \<Rightarrow> string \<Rightarrow> quota \<Rightarrow> quota_op list \<Rightarrow> int" where
  "booked parse_iso sl p d st [] = 0"
| "booked parse_iso sl p d st (op # ops) = (case quota_apply parse_iso sl st op of
       Inl _ \<Rightarrow> booked parse_iso sl p d st ops
     | Inr st' \<Rightarrow> (if books_for p d op then 1 else 0) + booked parse_iso sl p d st' ops)"

definition stored_until :: "string \<Rightarrow> quota \<Rightarrow> bool" where
  "stored_until d st \<longleftrightarrow> list_all (\<lambda>(_, e). case qe_day e of None \<Rightarrow> True | Some x \<Rightarrow> x \<le> d) st"

lemma books_for_day: "books_for p d op \<Longrightarrow> op_day op = Some d"
  by (auto simp: books_for_def op_day_def split: quota_op.splits)

text \<open>How a successful operation changes the dictionary.\<close>

inductive quota_effect :: "string option \<Rightarrow> quota \<Rightarrow> quota \<Rightarrow> bool" where
  same: "quota_effect d st st"
| attempts: "0 \<le> n \<Longrightarrow> quota_effect (Some d) st
    (AList.update key ((count_attempts (dict_get st key no_entry) d n)\<lparr>qe_updated := upd\<rparr>) st)"
| flags: "qe_day entry = qe_day (dict_get st key no_entry) \<Longrightarrow> qe_daily entry = qe_daily (dict_get st key no_entry)
    \<Longrightarrow> quota_effect None st (AList.update key entry st)"

lemma book_attempt_effect: "quota_effect (Some d) st (book_attempt st p e now d)"
  unfolding book_attempt_def Let_def by (rule quota_effect.attempts) simp

lemma add_attempts_effect:
  assumes "add_attempts parse_iso st p e d n = Inr st'"
  shows "quota_effect (Some d) st st'"
proof -
  let ?entry = "count_attempts (dict_get st (quota_key p e) no_entry) d n"
  from assms have "0 \<le> n" "st' = st \<or> st' = AList.update (quota_key p e) (?entry\<lparr>qe_updated := qe_updated ?entry\<rparr>) st"
    by (auto simp: add_attempts_def res_simps Let_def split: if_splits)
  then show ?thesis using quota_effect.same quota_effect.attempts by metis
qed

lemma rate_limit_effect:
  assumes "record_rate_limit st p e now ra = Inr (st', r)"
  shows "quota_effect None st st'"
  using assms by (auto simp: record_rate_limit_def res_simps Let_def intro!: quota_effect.flags)

lemma quota_apply_effect:
  assumes "quota_apply parse_iso sl st op = Inr st'"
  shows "quota_effect (op_day op) st st'"
proof (cases op)
  case (AcquireRecordOp p e now dl)
  then have run: "acquire_and_record sl st p e now dl = Inr st'" using assms by (simp add: quota_apply_def)
  obtain d where "kst_day now = Inr d" using acquiring.dated [OF run] by blast
  with acquiring.books [OF run] AcquireRecordOp show ?thesis by (simp add: op_day_def book_attempt_effect)
next
  case (RecordOp p e now dl)
  then have run: "record_attempt sl st p e now dl = Inr st'" using assms by (simp add: quota_apply_def)
  obtain d where "kst_day now = Inr d" using recording.dated [OF run] by blast
  with recording.books [OF run] RecordOp show ?thesis by (simp add: op_day_def book_attempt_effect)
next
  case (AddOp p e d n)
  then show ?thesis using assms by (simp add: quota_apply_def op_day_def add_attempts_effect)
next
  case (RateLimitOp p e now ra)
  then show ?thesis using assms by (auto simp: quota_apply_def op_day_def res_simps intro: rate_limit_effect)
qed (use assms in \<open>auto simp: quota_apply_def res_simps intro: quota_effect.same\<close>)

lemma effect_stored:
  assumes "quota_effect od st st'" "stored_until d st" "case od of None \<Rightarrow> True | Some x \<Rightarrow> x \<le> d"
  shows "stored_until d st'"
  using assms
proof (induction rule: quota_effect.induct)
  case (attempts n x st key upd)
  then show ?case unfolding stored_until_def by (induction st) (auto simp: count_attempts_def)
next
  case (flags entry st key)
  have "case qe_day (dict_get st key no_entry) of None \<Rightarrow> True | Some x \<Rightarrow> x \<le> d"
    using flags(3) by (auto simp: stored_until_def dict_get_def list_all_iff no_entry_def split: option.splits dest!: map_of_SomeD)
  then have "case qe_day entry of None \<Rightarrow> True | Some x \<Rightarrow> x \<le> d" using flags(1) by simp
  with flags(3) show ?case unfolding stored_until_def by (induction st) auto
qed simp

text \<open>The count of a day never falls while operations carry that day or an earlier one.\<close>

lemma effect_daily:
  assumes "quota_effect od st st'" "case od of None \<Rightarrow> True | Some x \<Rightarrow> stored_until x st \<and> x \<le> d"
  shows "daily_attempts st p d \<le> daily_attempts st' p d"
  using assms
proof (induction rule: quota_effect.induct)
  case (attempts n x st key upd)
  have "qe_day (dict_get st key no_entry) = Some d \<Longrightarrow> x = d"
    using attempts by (auto simp: stored_until_def dict_get_def list_all_iff no_entry_def split: option.splits dest!: map_of_SomeD)
  with attempts show ?case
    by (auto simp: daily_attempts_update contribution_def counts_for_def count_attempts_def)
qed (simp_all add: daily_attempts_update contribution_def counts_for_def)

lemma books_for_counted:
  assumes "quota_apply parse_iso sl st op = Inr st'" "books_for p d op" "limited sl p L op"
  shows "daily_attempts st' p d = daily_attempts st p d + 1 \<and> daily_attempts st' p d \<le> L"
  using assms acquiring.counted acquiring.below_limit recording.counted recording.below_limit
  by (cases op) (fastforce simp: books_for_def limited_def quota_apply_def split: option.splits)+

lemma booked_later: "list_all (\<lambda>op. op_day op \<noteq> Some d) ops \<Longrightarrow> booked parse_iso sl p d st ops = 0"
  by (induction ops arbitrary: st) (auto dest: books_for_day split: sum.splits)

lemma booked_bound:
  assumes "sorted (List.map_filter op_day ops)" "\<forall>x \<in> set (List.map_filter op_day ops). stored_until x st" "list_all (limited sl p L) ops"
  shows "booked parse_iso sl p d st ops \<le> max 0 (L - daily_attempts st p d)"
  using assms
proof (induction ops arbitrary: st)
  case (Cons op ops)
  have rest: "sorted (List.map_filter op_day ops)" "list_all (limited sl p L) ops" "limited sl p L op"
    using Cons.prems by (auto simp: map_filter_simps split: option.splits)
  show ?case
  proof (cases "quota_apply parse_iso sl st op")
    case (Inl e)
    then show ?thesis using Cons.IH [OF rest(1) _ rest(2), of st] Cons.prems(2) by (auto simp: map_filter_simps split: option.splits)
  next
    case (Inr st')
    note effect = quota_apply_effect [OF Inr]
    have later: "case op_day op of None \<Rightarrow> True | Some x \<Rightarrow> \<forall>y \<in> set (List.map_filter op_day ops). x \<le> y"
      and now: "case op_day op of None \<Rightarrow> True | Some x \<Rightarrow> stored_until x st"
      using Cons.prems(1,2) by (auto simp: map_filter_simps split: option.splits)
    have "stored_until y st'" if "y \<in> set (List.map_filter op_day ops)" for y
      using effect_stored [OF effect] Cons.prems(2) later that by (auto simp: map_filter_simps split: option.splits)
    then have IH: "booked parse_iso sl p d st' ops \<le> max 0 (L - daily_attempts st' p d)" using Cons.IH rest by blast
    show ?thesis
    proof (cases "\<exists>x. op_day op = Some x \<and> d < x")
      case True
      then obtain x where x: "op_day op = Some x" "d < x" by blast
      have "list_all (\<lambda>op. op_day op \<noteq> Some d) ops"
        using later x by (force simp: list_all_iff map_filter_def)
      then show ?thesis using x Inr books_for_day [of p d op] by (auto simp: booked_later)
    next
      case False
      then have grows: "daily_attempts st p d \<le> daily_attempts st' p d"
        using effect_daily [OF effect] now by (auto split: option.splits)
      show ?thesis using IH grows books_for_counted [OF Inr _ rest(3), of d] by (auto simp: Inr)
    qed
  qed
qed simp

text \<open>C40. However many processes share the ledger, on a fresh ledger and with clocks whose Korean days never go back, the number of
  requests the gate lets through and books for a provider on one day never exceeds the largest daily limit any of its callers uses,
  whatever endpoints they call and whatever checks, folded-in counts and rate-limit blocks are interleaved.\<close>

theorem daily_quota_bounds_booked_requests:
  assumes "sorted (List.map_filter op_day ops)" "list_all (limited store_limit provider L) ops" "0 \<le> L"
  shows "booked parse_iso store_limit provider d (load_nolock NoQuota) ops \<le> L"
  using booked_bound [OF assms(1) _ assms(2), of "[]" parse_iso d] assms(3)
  by (simp add: load_nolock_def stored_until_def daily_attempts_def)

theorem daily_quota_bounds_booked_requests_witness:
  "booked (\<lambda>_. Inr ()) (Some 1) ''krx'' ''0001-01-01'' (load_nolock NoQuota)
     [AcquireRecordOp ''krx'' ''a'' (Stamp (0) (Some 0)) None, RecordOp ''krx'' ''b'' (Stamp (0) (Some 0)) None] \<le> 1"
proof -
  have day: "kst_day (Stamp (0) (Some 0)) = Inr ''0001-01-01''" by code_simp
  show ?thesis
    by (rule daily_quota_bounds_booked_requests) (simp_all add: map_filter_simps op_day_def day limited_def chosen_limit_def)
qed

end
