(* ===== verification/Policy.thy ===== *)
theory Policy
  imports FloatOrder SessionTime Overlay PyText
begin

text \<open>
  The selection policy (\<open>src/research/policy.py\<close>): the tradable universe, the rows on which a sleeve
  decides, the selection of one row and the targets of a window.

  An array of floats is a list of \<open>pyfloat\<close>, a two-dimensional one a \<open>matrix\<close> with its width; the arrays
  are read at the double the code converts them to. Validation of a policy by the settings library
  gathers every failed field into one \<open>ValueError\<close>.
\<close>

section \<open>Arrays\<close>

datatype 'a matrix = Matrix (width: nat) (mrows: "'a list list")

definition shape :: "'a matrix \<Rightarrow> nat \<times> nat" where
  "shape m = (length (mrows m), width m)"

definition matrix_ok :: "'a matrix \<Rightarrow> bool" where
  "matrix_ok m \<longleftrightarrow> list_all (\<lambda>r. length r = width m) (mrows m)"

definition zip_with :: "('a \<Rightarrow> 'b \<Rightarrow> 'c) \<Rightarrow> 'a matrix \<Rightarrow> 'b matrix \<Rightarrow> 'c matrix" where
  "zip_with f a b = Matrix (width a) (map2 (map2 f) (mrows a) (mrows b))"

definition map_cells :: "('a \<Rightarrow> 'b) \<Rightarrow> 'a matrix \<Rightarrow> 'b matrix" where
  "map_cells f m = Matrix (width m) (map (map f) (mrows m))"

section \<open>The universe\<close>

record universe_rule =
  ur_min_adtv20_krw :: int
  ur_min_price_krw :: int

definition universe_rule_init :: "universe_rule \<Rightarrow> universe_rule res" where
  "universe_rule_init r = guard (ur_min_adtv20_krw r < 0 \<or> ur_min_price_krw r < 0)
     (ValueError ''universe threshold must be a non-negative int'') (Inr r)"

record cube_arrays =
  ca_present :: "bool matrix"
  ca_eligible :: "bool matrix"
  ca_entry_blocked :: "bool matrix"
  ca_volume :: "pyfloat matrix"
  ca_adtv20 :: "pyfloat matrix"
  ca_close :: "pyfloat matrix"
  ca_ret_vol60 :: "pyfloat matrix"

definition universe_mask :: "cube_arrays \<Rightarrow> universe_rule \<Rightarrow> bool matrix res" where
  "universe_mask c rule =
     res_bind (float_of_int (ur_min_adtv20_krw rule)) (\<lambda>adtv_floor.
     res_bind (float_of_int (ur_min_price_krw rule)) (\<lambda>price_floor.
     let also_ok = zip_with (\<and>) in
     Inr (also_ok (ca_present c) (also_ok (ca_eligible c) (also_ok (map_cells Not (ca_entry_blocked c))
       (also_ok (map_cells (\<lambda>v. fless (Fin 0) v) (ca_volume c)) (also_ok (map_cells (\<lambda>v. fle adtv_floor v) (ca_adtv20 c))
       (also_ok (map_cells (\<lambda>v. fle price_floor v) (ca_close c)) (map_cells is_finite (ca_ret_vol60 c))))))))))"

section \<open>The policy\<close>

record trend_cash_policy =
  tp_family :: string
  tp_n :: int
  tp_keep_rank_multiple :: pyfloat
  tp_rebalance_every_sessions :: int
  tp_universe :: universe_rule
  tp_trend_min_dev_ma20 :: "pyfloat option"
  tp_trend_min_ret21 :: "pyfloat option"
  tp_redistribute_cap_multiple :: "pyfloat option"
  tp_trend_fail_weight_fraction :: "pyfloat option"
  tp_min_units_per_slot :: int

definition if_set :: "('a \<Rightarrow> bool) \<Rightarrow> 'a option \<Rightarrow> bool" where
  "if_set P x = (case x of None \<Rightarrow> True | Some v \<Rightarrow> P v)"

definition policy_fields_ok :: "trend_cash_policy \<Rightarrow> bool" where
  "policy_fields_ok p \<longleftrightarrow> strip (tp_family p) \<noteq> [] \<and> 1 \<le> tp_n p
     \<and> is_finite (tp_keep_rank_multiple p) \<and> \<not> fless (tp_keep_rank_multiple p) (Fin 0)
     \<and> 1 \<le> tp_rebalance_every_sessions p \<and> 0 \<le> tp_min_units_per_slot p
     \<and> if_set is_finite (tp_trend_min_dev_ma20 p) \<and> if_set is_finite (tp_trend_min_ret21 p)
     \<and> if_set (\<lambda>c. is_finite c \<and> \<not> fless c (Fin 1)) (tp_redistribute_cap_multiple p)
     \<and> if_set (\<lambda>f. is_finite f \<and> fle (Fin 0) f \<and> fless f (Fin 1)) (tp_trend_fail_weight_fraction p)"

definition trend_cash_policy_init :: "trend_cash_policy \<Rightarrow> trend_cash_policy res" where
  "trend_cash_policy_init p =
     res_bind (universe_rule_init (tp_universe p)) (\<lambda>_.
     guard (\<not> policy_fields_ok p) (ValueError ''policy fields'') (
     guard (tp_trend_fail_weight_fraction p \<noteq> None \<and> tp_redistribute_cap_multiple p \<noteq> None)
       (ValueError ''trend_fail_weight_fraction and redistribute_cap_multiple are mutually exclusive'') (Inr p)))"

section \<open>Decision rows\<close>

function row_loop :: "int \<Rightarrow> int \<Rightarrow> int \<Rightarrow> int list" where
  "row_loop every hi row =
     (if 1 \<le> every \<and> row < hi then (if 0 \<le> row then [row] else []) @ row_loop every hi (row + every) else [])"
  by pat_completeness auto
termination by (relation "measure (\<lambda>(every, hi, row). nat (hi - row))") auto

declare row_loop.simps [simp del]

definition decision_rows :: "date list \<Rightarrow> int \<Rightarrow> int \<Rightarrow> int \<Rightarrow> int \<Rightarrow> int list res" where
  "decision_rows days lo hi every phase =
     guard (\<not> (0 \<le> lo \<and> lo \<le> hi \<and> hi \<le> int (length days))) (ValueError ''window is not within the sessions'') (
     guard (every < 1) (ValueError ''every must be an int >= 1'') (
     guard (\<not> (0 \<le> phase \<and> phase < every)) (ValueError ''phase must satisfy 0 <= phase < every'') (
     Inr (row_loop every hi (lo - 1 + phase)))))"

section \<open>Selecting one row\<close>

definition affordable_row :: "trend_cash_policy \<Rightarrow> pyfloat list \<Rightarrow> pyfloat \<Rightarrow> nat \<Rightarrow> bool list res" where
  "affordable_row p close_row slot_krw n_names =
     (if 0 < tp_min_units_per_slot p then
        res_bind (float_of_int (tp_min_units_per_slot p)) (\<lambda>units.
        Inr (map (\<lambda>c. is_finite c \<and> fless (Fin 0) c \<and> fle (fmul c units) slot_krw) close_row))
      else Inr (replicate n_names True))"

definition score_value :: "pyfloat \<Rightarrow> rat" where
  "score_value v = (case v of Fin x \<Rightarrow> x | _ \<Rightarrow> 0)"

definition candidates :: "pyfloat list \<Rightarrow> bool list \<Rightarrow> bool list \<Rightarrow> nat list" where
  "candidates score_row universe_row affordable =
     filter (\<lambda>i. universe_row ! i \<and> is_finite (score_row ! i) \<and> affordable ! i) [0..<length score_row]"

text \<open>A stable ascending sort of the negated scores.\<close>

definition ranked_names :: "pyfloat list \<Rightarrow> nat list \<Rightarrow> nat list" where
  "ranked_names score_row idx = sort_key (\<lambda>i. - score_value (score_row ! i)) idx"

definition kept_incumbents :: "nat \<Rightarrow> int \<Rightarrow> nat set \<Rightarrow> nat list \<Rightarrow> nat list" where
  "kept_incumbents n keep_limit incumbents ranked =
     take n (map snd (filter (\<lambda>(p, k). k \<in> incumbents \<and> int p < keep_limit) (enumerate 0 ranked)))"

fun fill_by_rank :: "nat \<Rightarrow> nat list \<Rightarrow> nat list \<Rightarrow> nat list" where
  "fill_by_rank n kept [] = kept"
| "fill_by_rank n kept (k # ks) =
     (if n \<le> length kept then kept
      else fill_by_rank n (if k \<in> set kept then kept else kept @ [k]) ks)"

definition leg_passes :: "pyfloat option \<Rightarrow> pyfloat list option \<Rightarrow> nat \<Rightarrow> bool" where
  "leg_passes threshold row k = (case (threshold, row) of
       (Some t, Some r) \<Rightarrow> is_finite (r ! k) \<and> fless t (r ! k) | _ \<Rightarrow> True)"

definition trend_passes :: "trend_cash_policy \<Rightarrow> pyfloat list option \<Rightarrow> pyfloat list option \<Rightarrow> nat \<Rightarrow> bool" where
  "trend_passes p dev_row ret_row k \<longleftrightarrow>
     leg_passes (tp_trend_min_dev_ma20 p) dev_row k \<and> leg_passes (tp_trend_min_ret21 p) ret_row k"

definition fmin :: "pyfloat \<Rightarrow> pyfloat \<Rightarrow> pyfloat" where
  "fmin a b = (if fless b a then b else a)"

text \<open>The weight of a name that passes and of one that fails, for the number that passed.\<close>

definition slot_units :: "trend_cash_policy \<Rightarrow> int \<Rightarrow> (pyfloat \<times> pyfloat) res" where
  "slot_units p n_pass =
     res_bind (float_of_int (tp_n p)) (\<lambda>n.
     res_bind (fdiv (Fin 1) n) (\<lambda>weight.
     res_bind (case tp_redistribute_cap_multiple p of
         Some cap \<Rightarrow> if 0 < n_pass then
             res_bind (float_of_int n_pass) (\<lambda>m. res_bind (fdiv (Fin 1) m) (\<lambda>a.
             res_bind (fdiv cap n) (\<lambda>b. Inr (fmin a b)))) else Inr weight
       | None \<Rightarrow> Inr weight) (\<lambda>unit_weight.
     Inr (unit_weight, fmul weight (case tp_trend_fail_weight_fraction p of None \<Rightarrow> Fin 0 | Some f \<Rightarrow> f)))))"

definition row_weights :: "nat \<Rightarrow> nat list \<Rightarrow> (nat \<Rightarrow> bool) \<Rightarrow> pyfloat \<times> pyfloat \<Rightarrow> pyfloat list" where
  "row_weights n_names kept passing units =
     map (\<lambda>i. if i \<in> set kept then (if passing i then fst units else snd units) else Fin 0) [0..<n_names]"

definition keep_limit :: "trend_cash_policy \<Rightarrow> int res" where
  "keep_limit p = res_bind (float_of_int (tp_n p)) (\<lambda>n. int_of_float (fmul n (tp_keep_rank_multiple p)))"

record row_input =
  ri_score :: "pyfloat list"
  ri_universe :: "bool list"
  ri_close :: "pyfloat list"
  ri_dev :: "pyfloat list option"
  ri_ret :: "pyfloat list option"

definition same_lengths :: "row_input \<Rightarrow> bool" where
  "same_lengths r \<longleftrightarrow> (let n = length (ri_score r) in length (ri_universe r) = n \<and> length (ri_close r) = n
     \<and> if_set (\<lambda>x. length x = n) (ri_dev r) \<and> if_set (\<lambda>x. length x = n) (ri_ret r))"

definition select_row :: "trend_cash_policy \<Rightarrow> row_input \<Rightarrow> nat set \<Rightarrow> pyfloat \<Rightarrow> (pyfloat list \<times> nat set) res" where
  "select_row p r incumbents slot_krw =
     res_bind (keep_limit p) (\<lambda>limit.
     guard (tp_trend_min_dev_ma20 p \<noteq> None \<and> ri_dev r = None) (ValueError ''dev_row is required'') (
     guard (tp_trend_min_ret21 p \<noteq> None \<and> ri_ret r = None) (ValueError ''ret_row is required'') (
     guard (\<not> same_lengths r) (ValueError ''operands could not be broadcast together'') (
     let n_names = length (ri_score r); n = nat (tp_n p) in
     res_bind (affordable_row p (ri_close r) slot_krw n_names) (\<lambda>affordable.
     let idx = candidates (ri_score r) (ri_universe r) affordable in
     if n \<le> length idx then
       let ranked = ranked_names (ri_score r) idx;
           kept = fill_by_rank n (kept_incumbents n limit incumbents ranked) ranked;
           passing = trend_passes p (ri_dev r) (ri_ret r) in
       res_bind (slot_units p (int (length (filter passing kept)))) (\<lambda>units.
       Inr (row_weights n_names kept passing units, set kept))
     else Inr (replicate n_names (Fin 0), {}))))))"

section \<open>The targets of a window\<close>

definition feature :: "(string, pyfloat matrix) dict \<Rightarrow> string \<Rightarrow> pyfloat option \<Rightarrow> pyfloat matrix option res" where
  "feature features name threshold = (case threshold of None \<Rightarrow> Inr None
     | Some _ \<Rightarrow> (case map_of features name of None \<Rightarrow> Inl (KeyError name) | Some m \<Rightarrow> Inr (Some m)))"

record target_input =
  ti_close :: "pyfloat matrix"
  ti_features :: "(string, pyfloat matrix) dict"
  ti_scores :: "pyfloat matrix"
  ti_universe :: "bool matrix"

definition row_at :: "target_input \<Rightarrow> pyfloat matrix option \<Rightarrow> pyfloat matrix option \<Rightarrow> nat \<Rightarrow> row_input" where
  "row_at ti dev ret t = \<lparr>ri_score = mrows (ti_scores ti) ! t, ri_universe = mrows (ti_universe ti) ! t,
     ri_close = mrows (ti_close ti) ! t, ri_dev = map_option (\<lambda>m. mrows m ! t) dev, ri_ret = map_option (\<lambda>m. mrows m ! t) ret\<rparr>"

definition slot_krw_of :: "trend_cash_policy \<Rightarrow> int \<Rightarrow> pyfloat \<Rightarrow> pyfloat res" where
  "slot_krw_of p capital_krw buffer =
     res_bind (float_of_int capital_krw) (\<lambda>capital.
     res_bind (float_of_int (tp_n p)) (\<lambda>n.
     fdiv (fmul capital (fsub (Fin 1) buffer)) n))"

type_synonym sleeve = "(int, pyfloat list) dict \<times> nat set"

definition target_step :: "trend_cash_policy \<Rightarrow> (nat \<Rightarrow> row_input) \<Rightarrow> pyfloat \<Rightarrow> sleeve \<Rightarrow> int \<Rightarrow> sleeve res" where
  "target_step p rows slot_krw acc t =
     res_bind (select_row p (rows (nat t)) (snd acc) slot_krw) (\<lambda>(weights, incumbents).
     Inr (AList.update t weights (fst acc), incumbents))"

definition checked_rows :: "trend_cash_policy \<Rightarrow> target_input \<Rightarrow> int list \<Rightarrow> int \<Rightarrow> pyfloat \<Rightarrow> (nat \<Rightarrow> row_input) res" where
  "checked_rows p ti rows capital_krw buffer =
     res_bind (feature (ti_features ti) ''dev_ma20'' (tp_trend_min_dev_ma20 p)) (\<lambda>dev.
     guard (\<not> if_set (\<lambda>m. shape m = shape (ti_scores ti)) dev) (ValueError ''shapes must match the scores shape'') (
     res_bind (feature (ti_features ti) ''ret_21'' (tp_trend_min_ret21 p)) (\<lambda>ret.
     guard (\<not> if_set (\<lambda>m. shape m = shape (ti_scores ti)) ret) (ValueError ''shapes must match the scores shape'') (
     guard (shape (ti_universe ti) \<noteq> shape (ti_scores ti) \<or> shape (ti_close ti) \<noteq> shape (ti_scores ti))
       (ValueError ''shapes must match the scores shape'') (
     guard (\<not> list_all (\<lambda>t. 0 \<le> t \<and> t < int (length (mrows (ti_scores ti)))) rows) (ValueError ''row has no score row in scores'') (
     guard (capital_krw < 1) (ValueError ''capital_krw must be an int >= 1'') (
     guard (\<not> (is_finite buffer \<and> fle (Fin 0) buffer \<and> fless buffer (Fin 1))) (ValueError ''cash_buffer must satisfy 0 <= cash_buffer < 1'') (
     Inr (row_at ti dev ret)))))))))"

definition build_targets :: "trend_cash_policy \<Rightarrow> target_input \<Rightarrow> int list \<Rightarrow> int \<Rightarrow> pyfloat \<Rightarrow> (int, pyfloat list) dict res" where
  "build_targets p ti rows capital_krw buffer =
     res_bind (checked_rows p ti rows capital_krw buffer) (\<lambda>row_of.
     res_bind (slot_krw_of p capital_krw buffer) (\<lambda>slot_krw.
     res_bind (foldM (target_step p row_of slot_krw) ([], {}) rows) (\<lambda>acc. Inr (fst acc))))"

end
