(* ===== verification/Book.thy ===== *)
theory Book
  imports Policy
begin

text \<open>
  The sleeves of the stock book (\<open>src/research/book.py\<close>): phase-shifted runs of the policy and the combined
  target of every row, the mean of each sleeve's last decision.
\<close>

record book_spec =
  bk_sleeves :: int
  bk_stock_capital_fraction :: pyfloat
  bk_rebalance_band :: pyfloat

definition book_spec_init :: "book_spec \<Rightarrow> book_spec res" where
  "book_spec_init b =
     guard (bk_sleeves b < 1
       \<or> \<not> (is_finite (bk_stock_capital_fraction b) \<and> fless (Fin 0) (bk_stock_capital_fraction b) \<and> fle (bk_stock_capital_fraction b) (Fin 1))
       \<or> \<not> (is_finite (bk_rebalance_band b) \<and> fle (Fin 0) (bk_rebalance_band b) \<and> fless (bk_rebalance_band b) (Fin 1)))
       (ValueError ''book fields'') (Inr b)"

definition sleeve_capital_krw :: "int \<Rightarrow> book_spec \<Rightarrow> int res" where
  "sleeve_capital_krw total_capital_krw spec =
     guard (total_capital_krw < 1) (ValueError ''total_capital_krw must be an int >= 1'') (
     res_bind (float_of_int total_capital_krw) (\<lambda>total.
     res_bind (float_of_int (bk_sleeves spec)) (\<lambda>n.
     res_bind (fdiv (fmul total (bk_stock_capital_fraction spec)) n) (\<lambda>v.
     res_bind (math_floor v) (\<lambda>result.
     guard (result < 1) (ValueError ''sleeve capital is below 1 KRW'') (Inr result))))))"

definition build_sleeve_targets :: "trend_cash_policy \<Rightarrow> target_input \<Rightarrow> date list \<Rightarrow> int \<Rightarrow> int \<Rightarrow> int \<Rightarrow> int \<Rightarrow> pyfloat
    \<Rightarrow> (int, pyfloat list) dict list res" where
  "build_sleeve_targets p ti days sleeves lo hi capital_krw buffer =
     guard (sleeves < 1) (ValueError ''sleeves must be an int >= 1'') (
     guard (sleeves \<noteq> tp_rebalance_every_sessions p) (ValueError ''sleeves must equal the policy rebalance_every_sessions'') (
     mapM (\<lambda>phase. res_bind (decision_rows days lo hi (tp_rebalance_every_sessions p) phase) (\<lambda>rows.
       build_targets p ti rows capital_krw buffer)) [0..sleeves - 1]))"

definition width_step :: "nat option \<Rightarrow> pyfloat list \<Rightarrow> nat option res" where
  "width_step w weights = (case w of None \<Rightarrow> Inr (Some (length weights))
     | Some n \<Rightarrow> guard (length weights \<noteq> n) (ValueError ''sleeve weight lengths must match'') (Inr (Some n)))"

definition last_target :: "(int, pyfloat list) dict \<Rightarrow> int \<Rightarrow> pyfloat list option" where
  "last_target targets row =
     (let rows = sort (dict_keys targets); pos = bisect_right rows row in
      if pos = 0 then None else map_of targets (rows ! (pos - 1)))"

definition combine_row :: "nat \<Rightarrow> (int, pyfloat list) dict list \<Rightarrow> int \<Rightarrow> pyfloat list res" where
  "combine_row w sleeves row =
     (let acc = foldl (\<lambda>acc targets. case last_target targets row of None \<Rightarrow> acc | Some ws \<Rightarrow> map2 fadd acc ws)
           (replicate w (Fin 0)) sleeves in
      res_bind (float_of_int (int (length sleeves))) (\<lambda>n. mapM (\<lambda>v. fdiv v n) acc))"

definition combine_sleeve_targets :: "(int, pyfloat list) dict list \<Rightarrow> int \<Rightarrow> int \<Rightarrow> (int, pyfloat list) dict res" where
  "combine_sleeve_targets sleeves lo hi =
     guard (lo < 1) (ValueError ''lo must be an int >= 1'') (
     guard (hi < lo) (ValueError ''hi must satisfy hi >= lo'') (
     guard (sleeves = []) (ValueError ''sleeve_targets must be non-empty'') (
     res_bind (foldM width_step None (concat (map (map snd) sleeves))) (\<lambda>w.
     case w of None \<Rightarrow> Inl (ValueError ''sleeve_targets contain no weights to infer width'')
     | Some w \<Rightarrow> mapM (\<lambda>row. res_bind (combine_row w sleeves row) (\<lambda>ws. Inr (row, ws))) [lo - 1..hi - 1]))))"

text \<open>The incumbents a sleeve carries after its last decision (\<open>targets_through_last_row\<close> of \<open>src/research/pipeline.py\<close>).\<close>

definition carried_incumbents :: "trend_cash_policy \<Rightarrow> target_input \<Rightarrow> date list \<Rightarrow> int \<Rightarrow> int \<Rightarrow> int \<Rightarrow> int \<Rightarrow> pyfloat \<Rightarrow> nat set list res" where
  "carried_incumbents p ti days sleeves lo hi capital_krw buffer =
     res_bind (slot_krw_of p capital_krw buffer) (\<lambda>slot_krw.
     res_bind (feature (ti_features ti) ''dev_ma20'' (tp_trend_min_dev_ma20 p)) (\<lambda>dev.
     res_bind (feature (ti_features ti) ''ret_21'' (tp_trend_min_ret21 p)) (\<lambda>ret.
     mapM (\<lambda>phase. res_bind (decision_rows days lo hi (tp_rebalance_every_sessions p) phase) (\<lambda>rows.
       foldM (\<lambda>carried row. res_bind (select_row p (row_at ti dev ret (nat row)) carried slot_krw) (\<lambda>r. Inr (snd r))) {} rows)) [0..sleeves - 1])))"

end
