(* ===== verification/Operate.thy ===== *)
theory Operate
  imports Book "HOL-Library.List_Lexorder" "HOL-Library.Char_ord"
begin

text \<open>
  The daily operation of a strategy (\<open>src/research/operate.py\<close>): the sleeve state carried from session to
  session, its construction from a research run, and the advance through new sessions.

  The boosters behind \<open>score_rows\<close> and the exchange calendar are parameters. A dictionary of weights is
  keyed by instrument id, an array of weights by column.
\<close>

section \<open>State\<close>

record sleeve_state =
  ss_phase :: int
  ss_incumbents :: "string list"
  ss_weights :: "(string, pyfloat) dict"
  ss_decided_session :: "date option"

definition fraction_ok :: "pyfloat \<Rightarrow> bool" where
  "fraction_ok v \<longleftrightarrow> is_finite v \<and> fle (Fin 0) v \<and> fle v (Fin 1)"

definition sleeve_state_init :: "sleeve_state \<Rightarrow> sleeve_state res" where
  "sleeve_state_init s =
     guard (sort (remdups (ss_incumbents s)) \<noteq> ss_incumbents s) (ValueError ''sleeve incumbents must be sorted and unique'') (
     guard (\<not> list_all (\<lambda>(_, v). fraction_ok v) (ss_weights s)) (ValueError ''sleeve weights must be finite fractions'') (Inr s))"

record operate_state =
  os_spec_hash :: string
  os_anchor_session :: date
  os_last_session :: date
  os_sessions_since_anchor :: int
  os_sleeves :: "sleeve_state list"

definition operate_state_init :: "operate_state \<Rightarrow> operate_state res" where
  "operate_state_init s =
     guard (os_sessions_since_anchor s < 0 \<or> os_last_session s < os_anchor_session s)
       (ValueError ''state requires a non-negative session count and an ordered timeline'') (Inr s)"

record research_cube =
  rq_days :: "date list"
  rq_instruments :: "string list"
  rq_arrays :: cube_arrays

record feature_panel =
  fp_features :: "(string, pyfloat matrix) dict"
  fp_last_row :: int

record frozen_scorer =
  fs_year :: int
  fs_feature_names :: "string list"
  fs_score :: "pyfloat matrix list \<Rightarrow> bool matrix \<Rightarrow> nat \<Rightarrow> pyfloat list res"

record strategy_spec =
  sp_hash :: string
  sp_policy :: trend_cash_policy
  sp_book :: book_spec
  sp_has_trend_overlay :: bool

section \<open>From a research run\<close>

definition nonzero :: "pyfloat \<Rightarrow> bool" where
  "nonzero v \<longleftrightarrow> is_finite v \<and> v \<noteq> Fin 0"

definition named_weights :: "string list \<Rightarrow> pyfloat list \<Rightarrow> (string, pyfloat) dict" where
  "named_weights insts ws =
     foldl (\<lambda>d (col, v). if col < length insts \<and> nonzero v then AList.update (insts ! col) v d else d) [] (enumerate 0 ws)"

definition incumbent_ids :: "string list \<Rightarrow> nat set \<Rightarrow> string list" where
  "incumbent_ids insts cols = sort (remdups (map (\<lambda>c. insts ! c) (filter (\<lambda>c. c \<in> cols) [0..<length insts])))"

definition bootstrap_sleeve :: "research_cube \<Rightarrow> int \<Rightarrow> (int, pyfloat list) dict \<Rightarrow> nat set \<Rightarrow> int \<Rightarrow> sleeve_state res" where
  "bootstrap_sleeve cube last_row targets cols phase =
     (let rows = sort (filter (\<lambda>row. row \<le> last_row) (dict_keys targets)) in
      res_bind (if rows = [] then Inr ([], None)
        else res_bind (array_get (rq_days cube) (last rows)) (\<lambda>d.
          Inr (named_weights (rq_instruments cube) (dict_get targets (last rows) []), Some d))) (\<lambda>(weights, decided).
      sleeve_state_init \<lparr>ss_phase = phase, ss_incumbents = incumbent_ids (rq_instruments cube) cols,
        ss_weights = weights, ss_decided_session = decided\<rparr>))"

definition bootstrap_state :: "strategy_spec \<Rightarrow> research_cube \<Rightarrow> (int, pyfloat list) dict list \<Rightarrow> nat set list \<Rightarrow> int \<Rightarrow> int \<Rightarrow> operate_state res" where
  "bootstrap_state spec cube sleeve_targets incumbents lo last_row =
     (let total = int (length (rq_days cube)); n = bk_sleeves (sp_book spec) in
      guard (int (length sleeve_targets) \<noteq> n) (ValueError ''sleeve_targets hold a different number of sleeves'') (
      guard (int (length incumbents) \<noteq> n) (ValueError ''incumbents hold a different number of sleeves'') (
      guard (\<not> (1 \<le> lo \<and> lo < total)) (ValueError ''lo is not within the sessions'') (
      guard (\<not> (lo - 1 \<le> last_row \<and> last_row < total)) (ValueError ''last_row is not within the sessions'') (
      res_bind (mapM (\<lambda>phase. bootstrap_sleeve cube last_row (sleeve_targets ! phase) (incumbents ! phase) (int phase)) [0..<nat n]) (\<lambda>sleeves.
      operate_state_init \<lparr>os_spec_hash = sp_hash spec, os_anchor_session = rq_days cube ! nat (lo - 1),
        os_last_session = rq_days cube ! nat last_row, os_sessions_since_anchor = last_row - (lo - 1), os_sleeves = sleeves\<rparr>))))))"

section \<open>One session\<close>

record live_state =
  lv_weights :: "(string, pyfloat) dict list"
  lv_incumbents :: "nat set list"
  lv_decided :: "date option list"
  lv_count :: int

definition live_weights :: "string list \<Rightarrow> pyfloat list \<Rightarrow> (string, pyfloat) dict res" where
  "live_weights insts ws =
     foldM (\<lambda>d (col, v). if nonzero v then res_bind (array_get insts (int col)) (\<lambda>i. Inr (AList.update i v d)) else Inr d)
       [] (enumerate 0 ws)"

definition add_book :: "(string, pyfloat) dict \<Rightarrow> (string, pyfloat) dict \<Rightarrow> (string, pyfloat) dict" where
  "add_book combined book = foldl (\<lambda>d (key, v). AList.update key (fadd (dict_get d key (Fin 0)) v) d) combined book"

definition combined_weights :: "(string, pyfloat) dict list \<Rightarrow> (string, pyfloat) dict res" where
  "combined_weights books =
     res_bind (float_of_int (int (length books))) (\<lambda>n.
     mapM (\<lambda>(key, v). res_bind (fdiv v n) (\<lambda>x. Inr (key, x))) (filter (\<lambda>(_, v). v \<noteq> Fin 0) (foldl add_book [] books)))"

record live_ctx =
  lc_policy :: trend_cash_policy
  lc_days :: "date list"
  lc_instruments :: "string list"
  lc_year :: int
  lc_score :: "nat \<Rightarrow> pyfloat list res"
  lc_row :: "pyfloat list \<Rightarrow> nat \<Rightarrow> row_input res"
  lc_slot :: pyfloat

definition live_step :: "live_ctx \<Rightarrow> live_state \<Rightarrow> nat \<Rightarrow> (live_state \<times> date \<times> (string, pyfloat) dict) res" where
  "live_step c st pos =
     (let k = lv_count st + 1; d = lc_days c ! pos; phase = k mod tp_rebalance_every_sessions (lc_policy c) in
      guard (lc_year c \<noteq> year d) (ValueError ''frozen scorer year differs from the decision year'') (
      res_bind (lc_score c pos) (\<lambda>scored.
      res_bind (lc_row c scored pos) (\<lambda>row.
      res_bind (array_get (lv_incumbents st) phase) (\<lambda>incumbents.
      res_bind (select_row (lc_policy c) row incumbents (lc_slot c)) (\<lambda>(weights, nxt).
      res_bind (live_weights (lc_instruments c) weights) (\<lambda>named.
      let books = (lv_weights st)[nat phase := named] in
      res_bind (combined_weights books) (\<lambda>combined.
      Inr (\<lparr>lv_weights = books, lv_incumbents = (lv_incumbents st)[nat phase := nxt],
            lv_decided = (lv_decided st)[nat phase := Some d], lv_count = k\<rparr>, d, combined)))))))))"

definition snapshot_sleeve :: "string list \<Rightarrow> live_state \<Rightarrow> nat \<times> sleeve_state \<Rightarrow> sleeve_state res" where
  "snapshot_sleeve insts st e =
     (let cols = lv_incumbents st ! fst e in
      guard (\<not> (\<forall>c \<in> cols. c < length insts)) (IndexError ''tuple index out of range'') (
      sleeve_state_init \<lparr>ss_phase = ss_phase (snd e), ss_incumbents = incumbent_ids insts cols,
        ss_weights = lv_weights st ! fst e, ss_decided_session = lv_decided st ! fst e\<rparr>))"

definition snapshot_state :: "string list \<Rightarrow> operate_state \<Rightarrow> live_state \<Rightarrow> date \<Rightarrow> operate_state res" where
  "snapshot_state insts old st d =
     res_bind (mapM (snapshot_sleeve insts st) (enumerate 0 (os_sleeves old))) (\<lambda>sleeves.
     operate_state_init (old\<lparr>os_last_session := d, os_sessions_since_anchor := lv_count st, os_sleeves := sleeves\<rparr>))"

record advance_out =
  ao_state :: live_state
  ao_decisions :: "(date \<times> (string, pyfloat) dict) list"
  ao_snapshots :: "operate_state list"

definition advance_step :: "live_ctx \<Rightarrow> operate_state \<Rightarrow> advance_out \<Rightarrow> nat \<Rightarrow> advance_out res" where
  "advance_step c old out pos =
     res_bind (live_step c (ao_state out) pos) (\<lambda>(st, d, combined).
     res_bind (snapshot_state (lc_instruments c) old st d) (\<lambda>snap.
     Inr \<lparr>ao_state = st, ao_decisions = ao_decisions out @ [(d, combined)], ao_snapshots = ao_snapshots out @ [snap]\<rparr>))"

section \<open>The checks before a run\<close>

definition column_of :: "string list \<Rightarrow> string \<Rightarrow> nat option" where
  "column_of insts inst = map_of (rev (zip insts [0..<length insts])) inst"

definition start_live :: "string list \<Rightarrow> operate_state \<Rightarrow> live_state" where
  "start_live insts s =
     \<lparr>lv_weights = map (\<lambda>sl. filter (\<lambda>(inst, _). column_of insts inst \<noteq> None) (ss_weights sl)) (os_sleeves s),
      lv_incumbents = map (\<lambda>sl. set (List.map_filter (column_of insts) (ss_incumbents sl))) (os_sleeves s),
      lv_decided = map ss_decided_session (os_sleeves s), lv_count = os_sessions_since_anchor s\<rparr>"

definition check_timeline :: "(date \<Rightarrow> date \<Rightarrow> exchange_calendar) \<Rightarrow> zone \<Rightarrow> operate_state \<Rightarrow> date list \<Rightarrow> nat res" where
  "check_timeline get_calendar tz s days = (case list_index days (os_last_session s) of
       None \<Rightarrow> Inl (PITDataError ''state last session is not in the cube'')
     | Some start \<Rightarrow>
         guard (case list_index days (os_anchor_session s) of None \<Rightarrow> False
             | Some anchor \<Rightarrow> int start - int anchor \<noteq> os_sessions_since_anchor s)
           (PITDataError ''state session count differs from the cube timeline'') (
         if start + 1 < length days then
           res_bind (xkrx_calendar_through get_calendar (last days)) (\<lambda>cal.
           guard (drop (start + 1) days \<noteq> filter (\<lambda>d. os_last_session s < d \<and> d \<le> last days) (map (local_date tz) (sessions cal)))
             (PITDataError ''cube skips an XKRX session after the state last session'') (Inr start))
         else Inr start))"

definition check_sleeves :: "operate_state \<Rightarrow> strategy_spec \<Rightarrow> unit res" where
  "check_sleeves s spec =
     guard (int (length (os_sleeves s)) \<noteq> bk_sleeves (sp_book spec)) (ValueError ''state sleeves differ from the strategy book'') (
     guard (map ss_phase (os_sleeves s) \<noteq> map int [0..<length (os_sleeves s)]) (ValueError ''state sleeve phases must tile range(sleeves)'') (Inr ()))"

definition check_series :: "bool \<Rightarrow> nat \<Rightarrow> nat \<Rightarrow> (string, pyfloat list) dict \<Rightarrow> unit res" where
  "check_series has_trend n start series =
     foldM (\<lambda>_ name. case map_of series name of
         None \<Rightarrow> Inl (PITDataError ''series is missing or not aligned to cube sessions'')
       | Some values \<Rightarrow>
           guard (length values \<noteq> n) (PITDataError ''series is missing or not aligned to cube sessions'') (
           guard (\<not> list_all (\<lambda>v. is_finite v \<and> (name \<noteq> ''cash_returns'' \<longrightarrow> fless (Fin 0) v)) (drop (start + 1) values))
             (PITDataError ''series is missing or invalid after the last session'') (Inr ())))
       () ([''cash_returns'', ''hedge_levels'', ''hedge_inverse''] @ (if has_trend then [''trend_levels''] else []))"

definition option_row :: "'a matrix option \<Rightarrow> nat \<Rightarrow> 'a list option res" where
  "option_row m pos = (case m of None \<Rightarrow> Inr None | Some m \<Rightarrow> res_bind (array_get (mrows m) (int pos)) (\<lambda>r. Inr (Some r)))"

definition live_row :: "bool matrix \<Rightarrow> pyfloat matrix \<Rightarrow> pyfloat matrix option \<Rightarrow> pyfloat matrix option \<Rightarrow> pyfloat list \<Rightarrow> nat \<Rightarrow> row_input res" where
  "live_row universe close dev ret scored pos =
     res_bind (array_get (mrows universe) (int pos)) (\<lambda>u.
     res_bind (array_get (mrows close) (int pos)) (\<lambda>c.
     res_bind (option_row dev pos) (\<lambda>d.
     res_bind (option_row ret pos) (\<lambda>r.
     Inr \<lparr>ri_score = scored, ri_universe = u, ri_close = c, ri_dev = d, ri_ret = r\<rparr>))))"

definition feature_matrices :: "feature_panel \<Rightarrow> string list \<Rightarrow> pyfloat matrix list res" where
  "feature_matrices panel names = mapM (\<lambda>name. case map_of (fp_features panel) name of None \<Rightarrow> Inl (KeyError name) | Some m \<Rightarrow> Inr m) names"

definition live_context :: "strategy_spec \<Rightarrow> research_cube \<Rightarrow> feature_panel \<Rightarrow> frozen_scorer \<Rightarrow> int \<Rightarrow> pyfloat \<Rightarrow> live_ctx res" where
  "live_context spec cube panel scorer capital_krw buffer =
     (let p = sp_policy spec; days = rq_days cube in
      guard (fp_last_row panel \<noteq> int (length days) - 1) (ValueError ''panel last_row differs from the cube end'') (
      res_bind (feature_matrices panel (fs_feature_names scorer)) (\<lambda>mats.
      guard ((case mats of [] \<Rightarrow> 0 | m # _ \<Rightarrow> length (mrows m)) \<noteq> length days) (ValueError ''panel features are not aligned to the cube sessions'') (
      res_bind (universe_mask (rq_arrays cube) (tp_universe p)) (\<lambda>universe.
      res_bind (feature (fp_features panel) ''dev_ma20'' (tp_trend_min_dev_ma20 p)) (\<lambda>dev.
      res_bind (feature (fp_features panel) ''ret_21'' (tp_trend_min_ret21 p)) (\<lambda>ret.
      res_bind (sleeve_capital_krw capital_krw (sp_book spec)) (\<lambda>sleeve_capital.
      res_bind (slot_krw_of p sleeve_capital buffer) (\<lambda>slot_krw.
      Inr \<lparr>lc_policy = p, lc_days = days, lc_instruments = rq_instruments cube, lc_year = fs_year scorer,
           lc_score = fs_score scorer mats universe, lc_row = live_row universe (ca_close (rq_arrays cube)) dev ret, lc_slot = slot_krw\<rparr>)))))))))"

definition advance_with_states :: "(date \<Rightarrow> date \<Rightarrow> exchange_calendar) \<Rightarrow> zone \<Rightarrow> operate_state \<Rightarrow> strategy_spec \<Rightarrow> research_cube \<Rightarrow> feature_panel
    \<Rightarrow> frozen_scorer \<Rightarrow> int \<Rightarrow> pyfloat \<Rightarrow> (string, pyfloat list) dict
    \<Rightarrow> (operate_state \<times> (date \<times> (string, pyfloat) dict) list \<times> operate_state list) res" where
  "advance_with_states get_calendar tz s spec cube panel scorer capital_krw buffer series =
     guard (os_spec_hash s \<noteq> sp_hash spec) (ValueError ''state spec hash differs from the strategy spec'') (
     guard (capital_krw < 1) (ValueError ''capital_krw must be an int >= 1'') (
     guard (\<not> (is_finite buffer \<and> fle (Fin 0) buffer \<and> fless buffer (Fin 1))) (ValueError ''cash_buffer must satisfy 0 <= cash_buffer < 1'') (
     guard (tp_rebalance_every_sessions (sp_policy spec) < 1) (ValueError ''rebalance_every_sessions must be >= 1'') (
     res_bind (check_timeline get_calendar tz s (rq_days cube)) (\<lambda>start.
     res_bind (check_sleeves s spec) (\<lambda>_.
     res_bind (live_context spec cube panel scorer capital_krw buffer) (\<lambda>c.
     res_bind (check_series (sp_has_trend_overlay spec) (length (rq_days cube)) start series) (\<lambda>_.
     res_bind (foldM (advance_step c s) \<lparr>ao_state = start_live (rq_instruments cube) s, ao_decisions = [], ao_snapshots = []\<rparr>
       [start + 1..<length (rq_days cube)]) (\<lambda>out.
     Inr (if ao_snapshots out = [] then s else last (ao_snapshots out), ao_decisions out, ao_snapshots out))))))))))"

definition advance_operation :: "(date \<Rightarrow> date \<Rightarrow> exchange_calendar) \<Rightarrow> zone \<Rightarrow> operate_state \<Rightarrow> strategy_spec \<Rightarrow> research_cube \<Rightarrow> feature_panel
    \<Rightarrow> frozen_scorer \<Rightarrow> int \<Rightarrow> pyfloat \<Rightarrow> (string, pyfloat list) dict \<Rightarrow> (operate_state \<times> (date \<times> (string, pyfloat) dict) list) res" where
  "advance_operation get_calendar tz s spec cube panel scorer capital_krw buffer series =
     res_bind (advance_with_states get_calendar tz s spec cube panel scorer capital_krw buffer series) (\<lambda>(final, decisions, _). Inr (final, decisions))"

end
