(* ===== verification/BookProps.thy ===== *)
theory BookProps
  imports Operate
begin

text \<open>
  The research side of the decision path: which rows a sleeve decides on, what its last decision at a row is,
  and the range of the weights a row can hold.
\<close>

section \<open>Decision rows\<close>

lemma row_loop_spec:
  assumes "1 \<le> every"
  shows "set (row_loop every hi row) = {r. 0 \<le> r \<and> row \<le> r \<and> r < hi \<and> (r - row) mod every = 0} \<and> sorted_wrt (<) (row_loop every hi row)"
  using assms
proof (induction every hi row rule: row_loop.induct)
  case (1 every hi row)
  show ?case
  proof (cases "row < hi")
    case True
    have IH: "set (row_loop every hi (row + every)) = {r. 0 \<le> r \<and> row + every \<le> r \<and> r < hi \<and> (r - (row + every)) mod every = 0}"
        "sorted_wrt (<) (row_loop every hi (row + every))"
      using 1 True by auto
    have step: "row \<le> r \<and> (r - row) mod every = 0 \<longleftrightarrow> r = row \<or> (row + every \<le> r \<and> (r - (row + every)) mod every = 0)" for r
    proof -
      have "(r - (row + every)) mod every = (r - row) mod every" by (simp flip: diff_diff_eq)
      moreover have "row + every \<le> r" if "row \<le> r" "(r - row) mod every = 0" "r \<noteq> row"
        using that 1(2) zdvd_imp_le [of every "r - row"] by (auto simp: mod_eq_0_iff_dvd)
      ultimately show ?thesis using 1(2) by auto
    qed
    have rows: "row_loop every hi row = (if 0 \<le> row then [row] else []) @ row_loop every hi (row + every)"
      using True 1(2) by (simp add: row_loop.simps [of every hi row])
    have "set (row_loop every hi row) = {r. 0 \<le> r \<and> r < hi \<and> (r = row \<or> (row + every \<le> r \<and> (r - (row + every)) mod every = 0))}"
      using True by (auto simp: rows IH(1))
    then have "set (row_loop every hi row) = {r. 0 \<le> r \<and> r < hi \<and> row \<le> r \<and> (r - row) mod every = 0}"
      by (simp only: step)
    then have "set (row_loop every hi row) = {r. 0 \<le> r \<and> row \<le> r \<and> r < hi \<and> (r - row) mod every = 0}"
      by (simp only: conj_left_commute [of "r < hi" for r])
    moreover have "sorted_wrt (<) (row_loop every hi row)"
      using 1(2) IH(2) by (auto simp: rows sorted_wrt_append IH(1))
    ultimately show ?thesis by blast
  next
    case False
    then have "row_loop every hi row = []" by (simp add: row_loop.simps [of every hi row])
    then show ?thesis using False by auto
  qed
qed

definition phase_rows :: "int \<Rightarrow> int \<Rightarrow> int \<Rightarrow> int \<Rightarrow> int list" where
  "phase_rows lo every phase hi = filter (\<lambda>r. (r - (lo - 1)) mod every = phase) [lo - 1..hi - 1]"

lemma sorted_upto_less: "sorted_wrt (<) [i..j]"
  by (induction i j rule: upto.induct) (subst upto.simps, auto)

lemma strict_sorted_unique: "sorted_wrt (<) (xs :: int list) \<Longrightarrow> sorted_wrt (<) ys \<Longrightarrow> set xs = set ys \<Longrightarrow> xs = ys"
  by (simp add: strict_sorted_equal)

lemma decision_rows_Inr:
  assumes "decision_rows days lo hi every phase = Inr rows" "1 \<le> lo"
  shows "rows = phase_rows lo every phase hi \<and> 0 \<le> phase \<and> phase < every \<and> hi \<le> int (length days)"
proof -
  have run: "rows = row_loop every hi (lo - 1 + phase)" "1 \<le> every" "0 \<le> phase" "phase < every" "hi \<le> int (length days)"
    using assms(1) by (auto simp: decision_rows_def res_simps)
  have cong: "(r - (lo - 1 + phase)) mod every = 0 \<longleftrightarrow> (r - (lo - 1)) mod every = phase" for r
  proof -
    have "(r - (lo - 1 + phase)) mod every = 0 \<longleftrightarrow> (r - (lo - 1)) mod every = phase mod every"
      by (simp add: mod_eq_dvd_iff mod_eq_0_iff_dvd algebra_simps)
    then show ?thesis using run(3,4) by simp
  qed
  have late: "lo - 1 + phase \<le> r" if "lo - 1 \<le> r" "(r - (lo - 1)) mod every = phase" for r
    using that zmod_le_nonneg_dividend [of "r - (lo - 1)" every] by simp
  have "set rows = set (phase_rows lo every phase hi)"
    using row_loop_spec [OF run(2), of hi "lo - 1 + phase"] run(1,3) assms(2) late cong by (auto simp: phase_rows_def)
  moreover have "sorted_wrt (<) (phase_rows lo every phase hi)"
    unfolding phase_rows_def by (intro sorted_wrt_filter sorted_upto_less)
  moreover have "sorted_wrt (<) rows" using row_loop_spec [OF run(2)] run(1) by blast
  ultimately have "rows = phase_rows lo every phase hi" by (intro strict_sorted_unique)
  then show ?thesis using run(3-5) by blast
qed

lemma phase_rows_until:
  assumes "r < hi"
  shows "filter (\<lambda>t. t \<le> r) (phase_rows lo every phase hi) = phase_rows lo every phase (r + 1)"
proof -
  have "filter (\<lambda>t. t \<le> r) [lo - 1..hi - 1] = [lo - 1..r]"
    using assms by (intro strict_sorted_unique sorted_wrt_filter sorted_upto_less) auto
  moreover have "filter (\<lambda>t. t \<le> r) (filter Q xs) = filter Q (filter (\<lambda>t. t \<le> r) xs)" for Q :: "int \<Rightarrow> bool" and xs
    by (simp add: conj_commute)
  ultimately show ?thesis by (simp only: phase_rows_def add_diff_cancel_right')
qed

section \<open>The last decision of a sleeve\<close>

definition sleeve_step :: "trend_cash_policy \<Rightarrow> (nat \<Rightarrow> row_input) \<Rightarrow> pyfloat \<Rightarrow> pyfloat list option \<times> nat set \<Rightarrow> int
    \<Rightarrow> (pyfloat list option \<times> nat set) res" where
  "sleeve_step p row_of slot_krw acc t =
     res_bind (select_row p (row_of (nat t)) (snd acc) slot_krw) (\<lambda>(ws, inc). Inr (Some ws, inc))"

definition sleeve_at :: "trend_cash_policy \<Rightarrow> (nat \<Rightarrow> row_input) \<Rightarrow> pyfloat \<Rightarrow> int list \<Rightarrow> (pyfloat list option \<times> nat set) res" where
  "sleeve_at p row_of slot_krw rows = foldM (sleeve_step p row_of slot_krw) (None, {}) rows"

lemma sleeve_at_snoc:
  "sleeve_at p row_of slot (rows @ [t]) = res_bind (sleeve_at p row_of slot rows) (\<lambda>acc. sleeve_step p row_of slot acc t)"
  by (simp add: sleeve_at_def foldM_append) (simp add: res_bind_def split: sum.splits)

lemma last_target_snoc:
  assumes "sorted_wrt (<) (map fst d @ [t])"
  shows "last_target (d @ [(t, ws)]) r = (if t \<le> r then Some ws else last_target d r)"
proof -
  have keys: "sort (dict_keys d) = map fst d" "sort (dict_keys (d @ [(t, ws)])) = map fst d @ [t]"
    using assms by (auto simp: dict_keys_def sorted_wrt_append intro!: sort_key_id_if_sorted sorted_wrt_mono_rel [of _ "(<)" "(\<le>)"])
  have small: "k \<in> set (map fst d) \<Longrightarrow> k < t" for k using assms by (auto simp: sorted_wrt_append)
  have fresh: "map_of d t = None" using small [of t] by (auto simp: map_of_eq_None_iff)
  show ?thesis
  proof (cases "t \<le> r")
    case True
    then have "takeWhile (\<lambda>x. x \<le> r) (map fst d @ [t]) = map fst d @ [t]" using small by (force simp: takeWhile_eq_all_conv)
    then have "bisect_right (map fst d @ [t]) r = Suc (length d)" unfolding bisect_right_def by (metis length_append_singleton length_map)
    then show ?thesis using True fresh by (simp add: last_target_def keys nth_append map_add_def)
  next
    case False
    then have same: "takeWhile (\<lambda>x. x \<le> r) (map fst d @ [t]) = takeWhile (\<lambda>x. x \<le> r) (map fst d)"
      by (simp add: takeWhile_tail)
    let ?pos = "length (takeWhile (\<lambda>x. x \<le> r) (map fst d))"
    have "?pos \<le> length d" using length_takeWhile_le [of _ "map fst d"] by simp
    then have near: "?pos - 1 < length (map fst d)" if "0 < ?pos" using that by (simp only: length_map)
    have "map_of (d @ [(t, ws)]) ((map fst d @ [t]) ! (?pos - 1)) = map_of d (map fst d ! (?pos - 1))" if pos: "0 < ?pos"
    proof -
      have "map fst d ! (?pos - 1) \<noteq> t" using small [OF nth_mem [OF near [OF pos]]] by simp
      then show ?thesis by (simp only: nth_append near [OF pos] if_True map_of_append map_add_def) (simp split: option.split)
    qed
    then show ?thesis using False by (simp add: last_target_def Let_def keys bisect_right_def same)
  qed
qed

lemma target_fold:
  assumes "foldM (target_step p row_of slot) ([], {}) rows = Inr (targets, inc)" "sorted_wrt (<) rows"
  shows "map fst targets = rows \<and> sleeve_at p row_of slot rows = Inr (if rows = [] then None else Some (snd (last targets)), inc)
    \<and> (\<forall>r. \<exists>i. sleeve_at p row_of slot (filter (\<lambda>t. t \<le> r) rows) = Inr (last_target targets r, i))"
  using assms
proof (induction rows arbitrary: targets inc rule: rev_induct)
  case Nil
  then show ?case by (simp add: sleeve_at_def last_target_def dict_keys_def bisect_right_def)
next
  case (snoc t rows)
  obtain old inc0 where prefix: "foldM (target_step p row_of slot) ([], {}) rows = Inr (old, inc0)"
      "target_step p row_of slot (old, inc0) t = Inr (targets, inc)"
    using snoc.prems(1) by (auto simp: foldM_append res_simps)
  then obtain ws where old: "foldM (target_step p row_of slot) ([], {}) rows = Inr (old, inc0)"
      "select_row p (row_of (nat t)) inc0 slot = Inr (ws, inc)" "targets = AList.update t ws old"
    by (auto simp: res_simps target_step_def [of p row_of slot "(old, inc0)" t])
  have sorted: "sorted_wrt (<) rows" "\<forall>r \<in> set rows. r < t" using snoc.prems(2) by (auto simp: sorted_wrt_append)
  note IH = snoc.IH [OF old(1) sorted(1)]
  have targets: "targets = old @ [(t, ws)]"
    using old(3) IH sorted(2) update_fresh [of t old ws] by (auto simp flip: set_map)
  have keys: "map fst old = rows" using IH by blast
  have now: "sleeve_at p row_of slot (rows @ [t]) = Inr (Some ws, inc)"
    using IH old(2) by (simp add: sleeve_at_snoc sleeve_step_def)
  have "\<exists>i. sleeve_at p row_of slot (filter (\<lambda>t. t \<le> r) (rows @ [t])) = Inr (last_target targets r, i)" for r
  proof (cases "t \<le> r")
    case True
    then have "filter (\<lambda>t. t \<le> r) rows = rows" using sorted(2) by (auto simp: filter_id_conv)
    with True now show ?thesis using last_target_snoc [of old t ws r] snoc.prems(2) keys by (auto simp: targets)
  next
    case False
    with IH show ?thesis using last_target_snoc [of old t ws r] snoc.prems(2) keys by (auto simp: targets)
  qed
  with now keys show ?case by (auto simp: targets)
qed

section \<open>The weights of a row\<close>

text \<open>A weight is a double between nought and one.\<close>

definition weight_ok :: "pyfloat \<Rightarrow> bool" where
  "weight_ok v \<longleftrightarrow> wf_float v \<and> fraction_ok v"

lemma weight_ok_Fin: "weight_ok v \<longleftrightarrow> (\<exists>x. v = Fin x \<and> is_double x \<and> 0 \<le> x \<and> x \<le> 1)"
  by (cases v) (auto simp: weight_ok_def fraction_ok_def fle_def)

lemma weight_ok_0 [simp]: "weight_ok (Fin 0)"
  by (simp add: weight_ok_Fin)

lemma to_float_unit: "0 \<le> x \<Longrightarrow> x \<le> 1 \<Longrightarrow> weight_ok (to_float x)"
  using to_float_between [of 0 1 x] by (force simp: weight_ok_Fin dest: to_float_double)

lemma float_of_pos_int: "float_of_int n = Inr v \<Longrightarrow> 1 \<le> n \<Longrightarrow> \<exists>x. v = Fin x \<and> 1 \<le> x"
  using to_float_lower [of "of_int n" _ 1] by (force dest!: float_of_int_Inr)

lemma reciprocal_ok: "float_of_int n = Inr v \<Longrightarrow> 1 \<le> n \<Longrightarrow> fdiv (Fin 1) v = Inr w \<Longrightarrow> weight_ok w"
  using to_float_unit [of "1 / x" for x] by (force dest!: float_of_pos_int split: if_splits)

lemma fmin_ok: "weight_ok a \<Longrightarrow> at_least 0 b \<Longrightarrow> wf_float b \<Longrightarrow> weight_ok (fmin a b)"
  by (cases b) (auto simp: fmin_def weight_ok_Fin)

lemma to_float_wf: "wf_float (to_float x)"
  by (cases "to_float x") (auto dest: to_float_double)

lemma fdiv_wf: "fdiv a b = Inr c \<Longrightarrow> wf_float c"
  by (cases "(a, b)" rule: fdiv.cases) (auto split: if_splits simp: inf_of_sign_def to_float_wf)

lemma capped_ok:
  assumes "float_of_int n = Inr u" "1 \<le> n" "is_finite c" "\<not> fless c (Fin 1)" "fdiv c u = Inr b" "weight_ok a"
  shows "weight_ok (fmin a b)"
proof -
  obtain x where "u = Fin x" "1 \<le> x" using float_of_pos_int [OF assms(1,2)] by blast
  moreover obtain y where "c = Fin y" "1 \<le> y" using assms(3,4) by (cases c) auto
  ultimately have "at_least 0 b" using at_least_0_fdiv [OF _ _ assms(5)] by simp
  then show ?thesis using fmin_ok assms(6) fdiv_wf [OF assms(5)] by blast
qed

lemma scaled_ok:
  assumes "weight_ok w" "is_finite f" "fle (Fin 0) f" "fless f (Fin 1)"
  shows "weight_ok (fmul w f)"
proof -
  obtain x y where "w = Fin x" "0 \<le> x" "x \<le> 1" "f = Fin y" "0 \<le> y" "y < 1"
    using assms by (cases f) (auto simp: weight_ok_Fin fle_def)
  then show ?thesis by (simp add: to_float_unit mult_le_one)
qed

lemma slot_units_ok:
  assumes "slot_units p m = Inr units" "policy_fields_ok p"
  shows "weight_ok (fst units) \<and> weight_ok (snd units)"
proof -
  obtain n weight unit where u: "float_of_int (tp_n p) = Inr n" "fdiv (Fin 1) n = Inr weight"
      "(case tp_redistribute_cap_multiple p of
         Some cap \<Rightarrow> if 0 < m then
             res_bind (float_of_int m) (\<lambda>m. res_bind (fdiv (Fin 1) m) (\<lambda>a.
             res_bind (fdiv cap n) (\<lambda>b. Inr (fmin a b)))) else Inr weight
       | None \<Rightarrow> Inr weight) = Inr unit"
      "units = (unit, fmul weight (case tp_trend_fail_weight_fraction p of None \<Rightarrow> Fin 0 | Some f \<Rightarrow> f))"
    using assms(1) by (auto simp: slot_units_def res_simps)
  have n: "1 \<le> tp_n p" using assms(2) by (simp add: policy_fields_ok_def)
  have weight: "weight_ok weight" by (rule reciprocal_ok [OF u(1) n u(2)])
  have "weight_ok unit"
    using u(3) weight capped_ok [OF u(1) n] reciprocal_ok assms(2)
    by (auto simp: policy_fields_ok_def if_set_def res_simps split: option.splits if_splits)
  moreover have "weight_ok (snd units)"
    using u(4) weight scaled_ok [OF weight] scaled_ok [OF weight, of "Fin 0"] assms(2)
    by (auto simp: policy_fields_ok_def if_set_def fle_def split: option.splits)
  ultimately show ?thesis using u(4) by simp
qed

lemma fill_by_rank_set: "set kept \<subseteq> set (fill_by_rank n kept ks) \<and> set (fill_by_rank n kept ks) \<subseteq> set kept \<union> set ks"
  by (induction n kept ks rule: fill_by_rank.induct) auto

lemma fill_by_rank_distinct: "distinct kept \<Longrightarrow> distinct (fill_by_rank n kept ks)"
  by (induction n kept ks rule: fill_by_rank.induct) auto

lemma fill_by_rank_length: "length kept \<le> n \<Longrightarrow> length (fill_by_rank n kept ks) \<le> n"
  by (induction n kept ks rule: fill_by_rank.induct) auto

lemma kept_incumbents_set: "set (kept_incumbents n limit inc ranked) \<subseteq> set ranked \<inter> inc"
  by (auto simp: kept_incumbents_def in_set_enumerate_eq dest!: in_set_takeD)

lemma candidates_bound: "set (candidates score u a) \<subseteq> {..<length score}"
  by (auto simp: candidates_def)

lemma row_weights_ok:
  "weight_ok (fst units) \<Longrightarrow> weight_ok (snd units) \<Longrightarrow> list_all weight_ok (row_weights n kept passing units)"
  by (auto simp: row_weights_def list_all_iff)

lemma select_row_ok:
  assumes "select_row p r inc slot = Inr (ws, nxt)" "policy_fields_ok p"
  shows "length ws = length (ri_score r) \<and> list_all weight_ok ws \<and> nxt \<subseteq> {..<length (ri_score r)}"
proof -
  obtain limit aff where run: "(let n_names = length (ri_score r); n = nat (tp_n p); idx = candidates (ri_score r) (ri_universe r) aff in
     if n \<le> length idx then
       let ranked = ranked_names (ri_score r) idx;
           kept = fill_by_rank n (kept_incumbents n limit inc ranked) ranked;
           passing = trend_passes p (ri_dev r) (ri_ret r) in
       res_bind (slot_units p (int (length (filter passing kept)))) (\<lambda>units.
       Inr (row_weights n_names kept passing units, set kept))
     else Inr (replicate n_names (Fin 0), {})) = Inr (ws, nxt)"
    using assms(1) by (auto simp: select_row_def res_simps Let_def)
  have "set (fill_by_rank n (kept_incumbents n limit inc (ranked_names s idx)) (ranked_names s idx)) \<subseteq> set idx" for n s idx
    using fill_by_rank_set [of "kept_incumbents n limit inc (ranked_names s idx)" n "ranked_names s idx"]
      kept_incumbents_set [of n limit inc "ranked_names s idx"] by (auto simp: ranked_names_def)
  with run show ?thesis
    using candidates_bound [of "ri_score r"] slot_units_ok [OF _ assms(2)] row_weights_ok
    by (fastforce simp: Let_def res_simps row_weights_def [where passing = "trend_passes p (ri_dev r) (ri_ret r)"] list_all_iff split: if_splits)
qed

end
