(* ===== verification/OperateProps.thy ===== *)
theory OperateProps
  imports BookProps
begin

text \<open>
  The live side of the decision path: the weights of a session as dictionaries, their combination, the state
  carried across sessions, and that the daily operation decides what the research run decides.
\<close>

section \<open>Weights by instrument\<close>

lemma foldM_foldl: "(\<And>x d. x \<in> set xs \<Longrightarrow> f d x = Inr (g d x)) \<Longrightarrow> foldM f s xs = Inr (foldl g s xs)"
  by (induction xs arbitrary: s) auto

lemma enumerate_index: "enumerate 0 ws = map (\<lambda>i. (i, ws ! i)) [0..<length ws]"
  by (rule nth_equalityI) (auto simp: nth_enumerate_eq)

lemma named_weights_list:
  assumes "distinct insts" "length ws \<le> length insts"
  shows "named_weights insts ws = map (\<lambda>i. (insts ! i, ws ! i)) (filter (\<lambda>i. nonzero (ws ! i)) [0..<length ws])"
proof -
  let ?add = "\<lambda>d (col, v). if col < length insts \<and> nonzero v then AList.update (insts ! col) v d else d"
  have "foldl ?add [] (map (\<lambda>i. (i, ws ! i)) [0..<k]) = map (\<lambda>i. (insts ! i, ws ! i)) (filter (\<lambda>i. nonzero (ws ! i)) [0..<k])"
    if "k \<le> length ws" for k
    using that
  proof (induction k)
    case (Suc k)
    have "insts ! k \<notin> (\<lambda>i. insts ! i) ` {i. i < k}"
      using Suc.prems assms by (auto simp: nth_eq_iff_index_eq)
    then have "insts ! k \<notin> fst ` set (map (\<lambda>i. (insts ! i, ws ! i)) (filter (\<lambda>i. nonzero (ws ! i)) [0..<k]))"
      by (auto simp: image_image)
    then show ?case using Suc assms(2) by (simp add: update_fresh)
  qed simp
  from this [of "length ws"] show ?thesis by (simp add: named_weights_def enumerate_index)
qed

lemma live_weights_named:
  assumes "live_weights insts ws = Inr named"
  shows "length ws \<le> length insts \<Longrightarrow> named = named_weights insts ws"
proof -
  assume "length ws \<le> length insts"
  then have "live_weights insts ws = Inr (named_weights insts ws)"
    unfolding live_weights_def named_weights_def
    by (intro foldM_foldl) (auto simp: in_set_enumerate_eq array_get_def)
  with assms show ?thesis by simp
qed

lemma named_weights_keys:
  assumes "distinct insts" "length ws \<le> length insts"
  shows "dict_ok (named_weights insts ws) \<and> fst ` set (named_weights insts ws) \<subseteq> set insts"
  using assms by (auto simp: named_weights_list [OF assms] distinct_map comp_def inj_on_def nth_eq_iff_index_eq)

lemma named_weights_get:
  assumes "distinct insts" "length ws = length insts" "col < length insts"
  shows "map_of (named_weights insts ws) (insts ! col) = (if nonzero (ws ! col) then Some (ws ! col) else None)"
proof -
  have ok: "dict_ok (named_weights insts ws)" using named_weights_keys assms by simp
  have list: "set (named_weights insts ws) = (\<lambda>i. (insts ! i, ws ! i)) ` {i. i < length insts \<and> nonzero (ws ! i)}"
    using assms by (auto simp: named_weights_list)
  show ?thesis
  proof (cases "nonzero (ws ! col)")
    case True
    then have "(insts ! col, ws ! col) \<in> set (named_weights insts ws)" using assms(3) by (auto simp: list)
    with ok True show ?thesis by simp
  next
    case False
    then have "insts ! col \<notin> fst ` set (named_weights insts ws)"
      using assms by (auto simp: list image_image nth_eq_iff_index_eq)
    with False show ?thesis by (simp add: map_of_eq_None_iff)
  qed
qed

section \<open>Combining the sleeves\<close>

lemma fadd_zero: "wf_float a \<Longrightarrow> fadd a (Fin 0) = a"
  by (cases a) (auto simp: is_double_def)

lemma fadd_wf: "wf_float (fadd a b)"
  by (cases "(a, b)" rule: fadd.cases) (auto simp: to_float_wf)

lemma add_book_get:
  "dict_ok book \<Longrightarrow> dict_get (add_book d book) j (Fin 0) =
     (case map_of book j of None \<Rightarrow> dict_get d j (Fin 0) | Some v \<Rightarrow> fadd (dict_get d j (Fin 0)) v)"
proof (induction book arbitrary: d)
  case (Cons e book)
  obtain k v where e: "e = (k, v)" by (cases e)
  have "map_of book k = None" using Cons.prems e by (simp add: map_of_eq_None_iff)
  with Cons e show ?case by (auto simp: add_book_def dict_get_update split: option.split)
qed (simp add: add_book_def)

lemma add_book_ok: "dict_ok d \<Longrightarrow> dict_ok (add_book d book)"
  by (induction book arbitrary: d) (auto simp: add_book_def distinct_update)

lemma add_books_ok: "dict_ok d \<Longrightarrow> dict_ok (foldl add_book d books)"
  by (induction books arbitrary: d) (simp_all add: add_book_ok)

definition sleeve_book :: "string list \<Rightarrow> pyfloat list option \<Rightarrow> (string, pyfloat) dict" where
  "sleeve_book insts w = (case w of None \<Rightarrow> [] | Some ws \<Rightarrow> named_weights insts ws)"

definition add_cell :: "nat \<Rightarrow> pyfloat \<Rightarrow> pyfloat list option \<Rightarrow> pyfloat" where
  "add_cell col a w = (case w of None \<Rightarrow> a | Some ws \<Rightarrow> fadd a (ws ! col))"

definition sleeve_ok :: "string list \<Rightarrow> pyfloat list option \<Rightarrow> bool" where
  "sleeve_ok insts w \<longleftrightarrow> if_set (\<lambda>ws. length ws = length insts \<and> list_all weight_ok ws) w"

lemma add_sleeve_book:
  assumes "distinct insts" "col < length insts" "sleeve_ok insts w" "wf_float (dict_get d (insts ! col) (Fin 0))"
  shows "dict_get (add_book d (sleeve_book insts w)) (insts ! col) (Fin 0) = add_cell col (dict_get d (insts ! col) (Fin 0)) w"
proof (cases w)
  case (Some ws)
  then have len: "length ws = length insts" and ok: "weight_ok (ws ! col)"
    using assms(2,3) by (auto simp: sleeve_ok_def if_set_def list_all_length)
  have "nonzero (ws ! col) \<or> ws ! col = Fin 0" using ok by (auto simp: weight_ok_Fin nonzero_def)
  then show ?thesis
    using Some add_book_get [of "named_weights insts ws" d "insts ! col"] named_weights_keys [OF assms(1), of ws] len
      named_weights_get [OF assms(1) len assms(2)] assms(4)
    by (auto simp: sleeve_book_def add_cell_def fadd_zero nonzero_def)
qed (simp add: sleeve_book_def add_cell_def add_book_def)

lemma add_cell_wf: "wf_float a \<Longrightarrow> wf_float (add_cell col a w)"
  by (simp add: add_cell_def fadd_wf split: option.split)

lemma live_cell:
  assumes "distinct insts" "col < length insts" "list_all (sleeve_ok insts) sleeves" "wf_float (dict_get d (insts ! col) (Fin 0))"
  shows "dict_get (foldl add_book d (map (sleeve_book insts) sleeves)) (insts ! col) (Fin 0)
    = foldl (add_cell col) (dict_get d (insts ! col) (Fin 0)) sleeves"
  using assms(3,4)
  by (induction sleeves arbitrary: d) (simp_all add: add_sleeve_book [OF assms(1,2)] add_cell_wf)

lemma research_cell:
  assumes "list_all (sleeve_ok insts) sleeves" "length acc = length insts" "col < length insts"
  shows "length (foldl (\<lambda>acc w. case w of None \<Rightarrow> acc | Some ws \<Rightarrow> map2 fadd acc ws) acc sleeves) = length insts
    \<and> foldl (\<lambda>acc w. case w of None \<Rightarrow> acc | Some ws \<Rightarrow> map2 fadd acc ws) acc sleeves ! col = foldl (add_cell col) (acc ! col) sleeves"
  using assms
proof (induction sleeves arbitrary: acc)
  case (Cons w sleeves)
  then show ?case by (cases w) (simp_all add: add_cell_def sleeve_ok_def if_set_def)
qed simp

lemma scaled_get:
  assumes "mapM (\<lambda>(key, v). res_bind (fdiv v n) (\<lambda>x. Inr (key, x))) (filter (\<lambda>(_, v). v \<noteq> Fin 0) d) = Inr out" "dict_ok d"
    "fdiv (Fin 0) n = Inr (Fin 0)"
  shows "fdiv (dict_get d j (Fin 0)) n = Inr (dict_get out j (Fin 0))"
  using assms
proof (induction d arbitrary: out)
  case (Cons e d)
  obtain k v where e: "e = (k, v)" by (cases e)
  have "map_of d k = None" using Cons.prems(2) e by (simp add: map_of_eq_None_iff)
  then have gone: "dict_get d k (Fin 0) = Fin 0" by (simp add: dict_get_def)
  show ?case
  proof (cases "v = Fin 0")
    case True
    with Cons e gone show ?thesis by auto
  next
    case False
    then obtain x rest where "fdiv v n = Inr x" "out = (k, x) # rest"
        "mapM (\<lambda>(key, v). res_bind (fdiv v n) (\<lambda>x. Inr (key, x))) (filter (\<lambda>(_, v). v \<noteq> Fin 0) d) = Inr rest"
      using Cons.prems(1) e by (auto simp: res_simps)
    with Cons.IH Cons.prems(2,3) e show ?thesis by auto
  qed
qed simp

text \<open>The combined weights of a session are the combined row of the research run, column by column.\<close>

lemma combined_matches_row:
  assumes "combined_weights (map (sleeve_book insts) sleeves) = Inr out" "combine_row (length insts) targets row = Inr ws"
    and "map (\<lambda>t. last_target t row) targets = sleeves" "distinct insts" "list_all (sleeve_ok insts) sleeves" "sleeves \<noteq> []"
  shows "length ws = length insts \<and> (\<forall>col < length insts. dict_get out (insts ! col) (Fin 0) = ws ! col)"
proof -
  let ?acc = "foldl (\<lambda>acc w. case w of None \<Rightarrow> acc | Some ws \<Rightarrow> map2 fadd acc ws) (replicate (length insts) (Fin 0)) sleeves"
  have same: "length targets = length sleeves" using assms(3) by auto
  obtain n where n: "float_of_int (int (length sleeves)) = Inr n"
      "mapM (\<lambda>(key, v). res_bind (fdiv v n) (\<lambda>x. Inr (key, x)))
        (filter (\<lambda>(_, v). v \<noteq> Fin 0) (foldl add_book [] (map (sleeve_book insts) sleeves))) = Inr out"
    using assms(1) by (auto simp: combined_weights_def res_simps)
  have "foldl (\<lambda>acc t. case last_target t row of None \<Rightarrow> acc | Some ws \<Rightarrow> map2 fadd acc ws) (replicate (length insts) (Fin 0)) targets = ?acc"
    unfolding assms(3) [symmetric] by (simp add: foldl_map)
  then have ws: "mapM (\<lambda>v. fdiv v n) ?acc = Inr ws"
    using assms(2) n(1) same by (simp add: combine_row_def)
  then have len: "length ws = length ?acc" and cells: "\<And>i. i < length ?acc \<Longrightarrow> fdiv (?acc ! i) n = Inr (ws ! i)"
    by (auto simp: mapM_Inr_list_all2 list_all2_conv_all_nth)
  have cell: "length ?acc = length insts \<and> ?acc ! col = foldl (add_cell col) (Fin 0) sleeves" if "col < length insts" for col
    using research_cell [OF assms(5), of "replicate (length insts) (Fin 0)" col] that by simp
  have zero: "fdiv (Fin 0) n = Inr (Fin 0)"
    using float_of_pos_int [OF n(1)] assms(6) by (cases sleeves) (auto simp: to_float_def)
  have "dict_get out (insts ! col) (Fin 0) = ws ! col" if col: "col < length insts" for col
  proof -
    have "fdiv (foldl (add_cell col) (Fin 0) sleeves) n = Inr (dict_get out (insts ! col) (Fin 0))"
      using scaled_get [OF n(2) add_books_ok zero, of "insts ! col"] live_cell [OF assms(4) col assms(5), of "[]"] by simp
    then show ?thesis using cells [of col] cell [OF col] col by simp
  qed
  moreover have "length ?acc = length insts"
    using assms(5) by (induction sleeves rule: rev_induct) (auto simp: sleeve_ok_def if_set_def split: option.splits)
  ultimately show ?thesis using len by simp
qed

section \<open>The state carried from session to session\<close>

text \<open>The last decision of sleeve \<open>k\<close> at row \<open>r\<close> and the incumbents it carries, by the research run.\<close>

definition decided :: "trend_cash_policy \<Rightarrow> (nat \<Rightarrow> row_input) \<Rightarrow> pyfloat \<Rightarrow> int \<Rightarrow> nat \<Rightarrow> int \<Rightarrow> nat \<Rightarrow> (pyfloat list option \<times> nat set) res" where
  "decided p row_of slot lo n r k = sleeve_at p row_of slot (phase_rows lo (int n) (int k) (r + 1))"

definition live_matches :: "trend_cash_policy \<Rightarrow> (nat \<Rightarrow> row_input) \<Rightarrow> pyfloat \<Rightarrow> string list \<Rightarrow> int \<Rightarrow> nat \<Rightarrow> int \<Rightarrow> pyfloat list option list
    \<Rightarrow> live_state \<Rightarrow> bool" where
  "live_matches p row_of slot insts lo n r ws st \<longleftrightarrow>
     lv_weights st = map (sleeve_book insts) ws \<and> length ws = n \<and> length (lv_incumbents st) = n \<and> list_all (sleeve_ok insts) ws
     \<and> lv_count st = r - (lo - 1) \<and> (\<forall>k < n. decided p row_of slot lo n r k = Inr (ws ! k, lv_incumbents st ! k))"

lemma phase_rows_step:
  assumes "lo - 1 \<le> r + 1"
  shows "phase_rows lo every phase (r + 1 + 1) = phase_rows lo every phase (r + 1) @ (if (r + 1 - (lo - 1)) mod every = phase then [r + 1] else [])"
proof -
  have "[lo - 1..r + 1] = [lo - 1..r] @ [r + 1]" using assms upto_rec2 [of "lo - 1" "r + 1"] by simp
  then show ?thesis by (simp only: phase_rows_def add_diff_cancel_right' filter_append) simp
qed

lemma decided_step:
  assumes "lo - 1 \<le> r + 1" "1 \<le> n"
  shows "decided p row_of slot lo n (r + 1) k =
    (if int k = (r + 1 - (lo - 1)) mod int n then res_bind (decided p row_of slot lo n r k) (\<lambda>acc. sleeve_step p row_of slot acc (r + 1))
     else decided p row_of slot lo n r k)"
  unfolding decided_def phase_rows_step [OF assms(1)] by (auto simp: sleeve_at_snoc)

lemma live_step_run:
  assumes "live_step c st pos = Inr (st', d, combined)"
  obtains scored row inc weights nxt named where
    "lc_score c pos = Inr scored" "lc_row c scored pos = Inr row"
    "array_get (lv_incumbents st) ((lv_count st + 1) mod tp_rebalance_every_sessions (lc_policy c)) = Inr inc"
    "select_row (lc_policy c) row inc (lc_slot c) = Inr (weights, nxt)" "live_weights (lc_instruments c) weights = Inr named"
    "combined_weights (lv_weights st') = Inr combined" "d = lc_days c ! pos"
    "st' = \<lparr>lv_weights = (lv_weights st)[nat ((lv_count st + 1) mod tp_rebalance_every_sessions (lc_policy c)) := named],
      lv_incumbents = (lv_incumbents st)[nat ((lv_count st + 1) mod tp_rebalance_every_sessions (lc_policy c)) := nxt],
      lv_decided = (lv_decided st)[nat ((lv_count st + 1) mod tp_rebalance_every_sessions (lc_policy c)) := Some d], lv_count = lv_count st + 1\<rparr>"
  using assms by (auto simp: live_step_def Let_def res_simps)

lemma live_step_matches:
  assumes run: "live_step c st pos = Inr (st', d, combined)" and st: "live_matches p row_of slot insts lo n r ws st"
    and ctx: "lc_policy c = p" "lc_instruments c = insts" "lc_slot c = slot" "tp_rebalance_every_sessions p = int n" "1 \<le> n"
    and row: "\<And>scored row. lc_score c pos = Inr scored \<Longrightarrow> lc_row c scored pos = Inr row \<Longrightarrow> row = row_of pos"
    and pos: "int pos = r + 1" "lo - 1 \<le> r" and ok: "policy_fields_ok p" "length (ri_score (row_of pos)) = length insts"
  shows "\<exists>ws'. live_matches p row_of slot insts lo n (r + 1) ws' st' \<and> d = lc_days c ! pos \<and> combined_weights (map (sleeve_book insts) ws') = Inr combined"
proof -
  obtain scored r_in inc weights nxt named where s:
    "lc_score c pos = Inr scored" "lc_row c scored pos = Inr r_in"
    "array_get (lv_incumbents st) ((lv_count st + 1) mod int n) = Inr inc"
    "select_row p r_in inc slot = Inr (weights, nxt)" "live_weights insts weights = Inr named"
    "combined_weights (lv_weights st') = Inr combined" "d = lc_days c ! pos"
    "st' = \<lparr>lv_weights = (lv_weights st)[nat ((lv_count st + 1) mod int n) := named],
      lv_incumbents = (lv_incumbents st)[nat ((lv_count st + 1) mod int n) := nxt],
      lv_decided = (lv_decided st)[nat ((lv_count st + 1) mod int n) := Some d], lv_count = lv_count st + 1\<rparr>"
    using run by (rule live_step_run) (simp only: ctx)
  let ?m = "(r + 1 - (lo - 1)) mod int n"
  have sessions: "lv_count st + 1 = r + 1 - (lo - 1)" using st by (simp add: live_matches_def)
  then have count: "(lv_count st + 1) mod int n = ?m" by simp
  have m: "0 \<le> ?m" "?m < int n" using ctx(5) by simp_all
  have r_in: "r_in = row_of pos" using row s(1,2) by blast
  have inc: "inc = lv_incumbents st ! nat ?m" using s(3) m st by (auto simp: count array_get_def live_matches_def split: if_splits)
  have sel: "select_row p (row_of pos) inc slot = Inr (weights, nxt)" using s(4) r_in by simp
  have w: "length weights = length insts" "list_all weight_ok weights" using select_row_ok [OF sel ok(1)] ok(2) by auto
  have named: "named = sleeve_book insts (Some weights)" using live_weights_named [OF s(5)] w(1) by (simp add: sleeve_book_def)
  let ?ws = "ws[nat ?m := Some weights]"
  have "decided p row_of slot lo n (r + 1) k = Inr (?ws ! k, lv_incumbents st' ! k)" if "k < n" for k
  proof -
    have k: "decided p row_of slot lo n r k = Inr (ws ! k, lv_incumbents st ! k)" using st that by (simp add: live_matches_def)
    show ?thesis
    proof (cases "int k = ?m")
      case True
      have "nat (r + 1) = pos" using pos(1) by linarith
      moreover have here: "nat ?m = k" using True by linarith
      ultimately have "sleeve_step p row_of slot (ws ! k, lv_incumbents st ! k) (r + 1) = Inr (Some weights, nxt)"
        using sel by (simp only: sleeve_step_def inc snd_conv) simp
      then have "decided p row_of slot lo n (r + 1) k = Inr (Some weights, nxt)"
        using decided_step [of lo r n p row_of slot k] True k pos(2) ctx(5) by simp
      then show ?thesis using st that by (simp only: s(8) count here live_state.select_convs) (simp add: live_matches_def)
    next
      case False
      then have "nat ?m \<noteq> k" using m by linarith
      with False show ?thesis using k pos ctx(5) by (simp add: decided_step s(8) count)
    qed
  qed
  moreover have "lv_weights st' = map (sleeve_book insts) ?ws" using st by (simp add: s(8) count named map_update live_matches_def)
  moreover have "sleeve_ok insts (Some weights)" using w by (simp add: sleeve_ok_def if_set_def)
  then have "list_all (sleeve_ok insts) ?ws"
    using st set_update_subset_insert [of ws "nat ?m" "Some weights"] by (auto simp: live_matches_def list_all_iff)
  ultimately have "live_matches p row_of slot insts lo n (r + 1) ?ws st'" "lv_weights st' = map (sleeve_book insts) ?ws"
    using st sessions by (simp_all add: live_matches_def s(8))
  then show ?thesis using s(6,7) by auto
qed

text \<open>The decisions of a run: one per session, each the combination of the sleeves' last decisions.\<close>

lemma advance_matches:
  assumes run: "foldM (advance_step c s) \<lparr>ao_state = st, ao_decisions = [], ao_snapshots = []\<rparr> [a..<a + m] = Inr out"
    and st: "live_matches p row_of slot insts lo n (int a - 1) ws st"
    and ctx: "lc_policy c = p" "lc_instruments c = insts" "lc_slot c = slot" "tp_rebalance_every_sessions p = int n" "1 \<le> n"
    and row: "\<And>pos scored row. a \<le> pos \<Longrightarrow> pos < a + m \<Longrightarrow> lc_score c pos = Inr scored \<Longrightarrow> lc_row c scored pos = Inr row \<Longrightarrow> row = row_of pos"
    and width: "\<And>pos. a \<le> pos \<Longrightarrow> pos < a + m \<Longrightarrow> length (ri_score (row_of pos)) = length insts"
    and lo: "lo \<le> int a" and ok: "policy_fields_ok p"
  shows "(\<exists>ws'. live_matches p row_of slot insts lo n (int (a + m) - 1) ws' (ao_state out))
    \<and> map fst (ao_decisions out) = map (\<lambda>i. lc_days c ! i) [a..<a + m]
    \<and> (\<forall>i < m. \<exists>ws' st'. live_matches p row_of slot insts lo n (int (a + i)) ws' st'
        \<and> combined_weights (map (sleeve_book insts) ws') = Inr (snd (ao_decisions out ! i)))"
  using run row width
proof (induction m arbitrary: out)
  case 0
  then show ?case using st by auto
next
  case (Suc m)
  have "[a..<a + Suc m] = [a..<a + m] @ [a + m]" by simp
  then obtain mid where mid: "foldM (advance_step c s) \<lparr>ao_state = st, ao_decisions = [], ao_snapshots = []\<rparr> [a..<a + m] = Inr mid"
      "advance_step c s mid (a + m) = Inr out"
    using Suc.prems(1) by (auto simp: foldM_append res_simps)
  then obtain st' d combined where step: "live_step c (ao_state mid) (a + m) = Inr (st', d, combined)"
      "ao_state out = st'" "ao_decisions out = ao_decisions mid @ [(d, combined)]"
    by (auto simp: advance_step_def res_simps)
  have IH: "\<exists>ws'. live_matches p row_of slot insts lo n (int (a + m) - 1) ws' (ao_state mid)"
      "map fst (ao_decisions mid) = map (\<lambda>i. lc_days c ! i) [a..<a + m]"
      "\<forall>i < m. \<exists>ws' st'. live_matches p row_of slot insts lo n (int (a + i)) ws' st'
        \<and> combined_weights (map (sleeve_book insts) ws') = Inr (snd (ao_decisions mid ! i))"
    using Suc.IH [OF mid(1)] Suc.prems(2,3) by force+
  then have len: "length (ao_decisions mid) = m" by (metis add_diff_cancel_left' length_map length_upt)
  obtain ws0 where ws0: "live_matches p row_of slot insts lo n (int (a + m) - 1) ws0 (ao_state mid)" using IH(1) by blast
  obtain ws' where ws': "live_matches p row_of slot insts lo n (int (a + m) - 1 + 1) ws' st'" "d = lc_days c ! (a + m)"
      "combined_weights (map (sleeve_book insts) ws') = Inr combined"
    using live_step_matches [OF step(1) ws0 ctx] Suc.prems(2,3) lo ok by force
  have "\<exists>ws' st'. live_matches p row_of slot insts lo n (int (a + i)) ws' st'
      \<and> combined_weights (map (sleeve_book insts) ws') = Inr (snd (ao_decisions out ! i))" if "i < Suc m" for i
    using IH(3) ws' that by (cases "i < m") (auto simp: step(3) nth_append len less_Suc_eq)
  then show ?case using IH(2) ws' by (auto simp: step(2,3))
qed

section \<open>The state a research run hands over\<close>

lemma sleeve_at_ok:
  assumes "sleeve_at p row_of slot rows = Inr (w, inc)" "policy_fields_ok p"
    "\<And>t. t \<in> set rows \<Longrightarrow> length (ri_score (row_of (nat t))) = length insts"
  shows "sleeve_ok insts w \<and> inc \<subseteq> {..<length insts}"
proof -
  let ?P = "\<lambda>acc. sleeve_ok insts (fst acc) \<and> snd acc \<subseteq> {..<length insts}"
  have "?P (w, inc)"
  proof (rule foldM_invariant [where P = ?P and f = "sleeve_step p row_of slot"])
    show "foldM (sleeve_step p row_of slot) (None, {}) rows = Inr (w, inc)" using assms(1) by (simp only: sleeve_at_def)
  next
    show "?P (None, {})" by (simp add: sleeve_ok_def if_set_def)
  next
    fix acc t acc' assume t: "t \<in> set rows" "sleeve_step p row_of slot acc t = Inr acc'"
    then obtain ws nxt where "select_row p (row_of (nat t)) (snd acc) slot = Inr (ws, nxt)" "acc' = (Some ws, nxt)"
      by (auto simp: sleeve_step_def res_simps)
    then show "?P acc'" using select_row_ok [OF _ assms(2)] assms(3) [OF t(1)] by (fastforce simp: sleeve_ok_def if_set_def)
  qed
  then show ?thesis by simp
qed

lemma carried_fold:
  "foldM (\<lambda>carried row. res_bind (select_row p (row_of (nat row)) carried slot) (\<lambda>r. Inr (snd r))) (snd acc) rows
     = res_bind (foldM (sleeve_step p row_of slot) acc rows) (\<lambda>a. Inr (snd a))"
proof (induction rows arbitrary: acc)
  case (Cons t rows)
  show ?case
  proof (cases "select_row p (row_of (nat t)) (snd acc) slot")
    case (Inr r)
    then show ?thesis using Cons.IH [of "(Some (fst r), snd r)"] by (cases r) (simp add: sleeve_step_def)
  qed (simp add: sleeve_step_def)
qed simp

lemma column_of_nth: "distinct insts \<Longrightarrow> c < length insts \<Longrightarrow> column_of insts (insts ! c) = Some c"
  unfolding column_of_def by (rule map_of_is_SomeI) (auto simp: set_zip simp flip: rev_map)

lemma map_filter_set: "set (List.map_filter f xs) = {y. \<exists>x \<in> set xs. f x = Some y}"
  by (induction xs) (auto simp: map_filter_simps split: option.splits)

lemma incumbents_round_trip:
  assumes "distinct insts" "cols \<subseteq> {..<length insts}"
  shows "set (List.map_filter (column_of insts) (incumbent_ids insts cols)) = cols"
proof -
  have "set (incumbent_ids insts cols) = (\<lambda>c. insts ! c) ` cols" using assms(2) by (auto simp: incumbent_ids_def)
  then have "set (List.map_filter (column_of insts) (incumbent_ids insts cols)) = {c. \<exists>i \<in> cols. column_of insts (insts ! i) = Some c}"
    by (simp add: map_filter_set)
  also have "\<dots> = cols" using assms column_of_nth by fastforce
  finally show ?thesis .
qed

lemma sleeve_book_known:
  assumes "distinct insts" "sleeve_ok insts w"
  shows "filter (\<lambda>(inst, _). column_of insts inst \<noteq> None) (sleeve_book insts w) = sleeve_book insts w"
proof -
  have "fst ` set (sleeve_book insts w) \<subseteq> set insts"
    using assms named_weights_keys by (auto simp: sleeve_book_def sleeve_ok_def if_set_def split: option.splits)
  moreover have "column_of insts i \<noteq> None" if "i \<in> set insts" for i
    using that column_of_nth [OF assms(1)] by (auto simp: in_set_conv_nth)
  ultimately show ?thesis by (auto simp: filter_id_conv)
qed

lemma bootstrap_sleeve_run:
  assumes run: "bootstrap_sleeve cube r0 targets cols k = Inr sl"
    and fold: "foldM (target_step p row_of slot) ([], {}) rows = Inr (targets, cols)" "sorted_wrt (<) rows" "\<forall>t \<in> set rows. t \<le> r0"
  shows "\<exists>w. sleeve_at p row_of slot rows = Inr (w, cols) \<and> ss_weights sl = sleeve_book (rq_instruments cube) w
    \<and> ss_incumbents sl = incumbent_ids (rq_instruments cube) cols \<and> ss_phase sl = k"
proof -
  note T = target_fold [OF fold(1,2)]
  have keys: "map fst targets = rows" using T by blast
  have dis: "distinct rows" using fold(2) by (simp add: strict_sorted_iff)
  have rows: "sort (filter (\<lambda>row. row \<le> r0) (dict_keys targets)) = rows"
    using fold(2,3) keys by (simp add: dict_keys_def filter_id_conv strict_sorted_iff sorted_sort_id)
  have "dict_get targets (last rows) [] = snd (last targets)" if "rows \<noteq> []"
  proof -
    have "targets \<noteq> []" using that keys by auto
    then have "(last rows, snd (last targets)) \<in> set targets" using keys by (metis last_in_set last_map prod.collapse)
    then have "map_of targets (last rows) = Some (snd (last targets))" using dis keys by simp
    then show ?thesis by (simp add: dict_get_def)
  qed
  then show ?thesis
    using run T by (auto simp: bootstrap_sleeve_def rows sleeve_state_init_def sleeve_book_def res_simps split: if_splits)
qed

lemma bootstrap_matches:
  assumes boot: "bootstrap_state spec cube T0 I0 lo r0 = Inr s" and n: "bk_sleeves (sp_book spec) = int n"
    and insts: "insts = rq_instruments cube" "distinct insts"
    and folds: "\<And>k. k < n \<Longrightarrow> foldM (target_step p row_of slot) ([], {}) (phase_rows lo (int n) (int k) (r0 + 1)) = Inr (T0 ! k, I0 ! k)"
    and ok: "policy_fields_ok p" "\<And>t. lo - 1 \<le> t \<Longrightarrow> t \<le> r0 \<Longrightarrow> length (ri_score (row_of (nat t))) = length insts"
  shows "\<exists>ws. live_matches p row_of slot insts lo n r0 ws (start_live insts s)"
proof -
  have s: "os_sessions_since_anchor s = r0 - (lo - 1)"
      "mapM (\<lambda>phase. bootstrap_sleeve cube r0 (T0 ! phase) (I0 ! phase) (int phase)) [0..<n] = Inr (os_sleeves s)"
    using boot by (auto simp: bootstrap_state_def Let_def res_simps operate_state_init_def n)
  have len: "length (os_sleeves s) = n" using mapM_Inr_length [OF s(2)] by simp
  have sleeve: "bootstrap_sleeve cube r0 (T0 ! k) (I0 ! k) (int k) = Inr (os_sleeves s ! k)" if "k < n" for k
    using s(2) that by (auto simp: mapM_Inr_list_all2 list_all2_conv_all_nth)
  have sorted: "sorted_wrt (<) (phase_rows lo (int n) (int k) (r0 + 1))" for k
    unfolding phase_rows_def by (intro sorted_wrt_filter sorted_upto_less)
  have bound: "lo - 1 \<le> t \<and> t \<le> r0" if "t \<in> set (phase_rows lo (int n) (int k) (r0 + 1))" for t k
    using that by (auto simp: phase_rows_def)
  have "\<exists>w. decided p row_of slot lo n r0 k = Inr (w, I0 ! k) \<and> ss_weights (os_sleeves s ! k) = sleeve_book insts w
      \<and> ss_incumbents (os_sleeves s ! k) = incumbent_ids insts (I0 ! k) \<and> sleeve_ok insts w \<and> I0 ! k \<subseteq> {..<length insts}" if k: "k < n" for k
  proof -
    obtain w where w: "sleeve_at p row_of slot (phase_rows lo (int n) (int k) (r0 + 1)) = Inr (w, I0 ! k)"
        "ss_weights (os_sleeves s ! k) = sleeve_book insts w" "ss_incumbents (os_sleeves s ! k) = incumbent_ids insts (I0 ! k)"
      using bootstrap_sleeve_run [OF sleeve [OF k] folds [OF k] sorted] bound unfolding insts(1) by blast
    moreover have "sleeve_ok insts w \<and> I0 ! k \<subseteq> {..<length insts}" using sleeve_at_ok [OF w(1) ok(1)] ok(2) bound by blast
    ultimately show ?thesis by (auto simp: decided_def)
  qed
  then obtain w where w: "\<And>k. k < n \<Longrightarrow> decided p row_of slot lo n r0 k = Inr (w k, I0 ! k) \<and> ss_weights (os_sleeves s ! k) = sleeve_book insts (w k)
      \<and> ss_incumbents (os_sleeves s ! k) = incumbent_ids insts (I0 ! k) \<and> sleeve_ok insts (w k) \<and> I0 ! k \<subseteq> {..<length insts}"
    by metis
  have "lv_weights (start_live insts s) = map (sleeve_book insts) (map w [0..<n])"
    using w sleeve_book_known [OF insts(2)] by (intro nth_equalityI) (auto simp: start_live_def len)
  moreover have "lv_incumbents (start_live insts s) ! k = I0 ! k" if "k < n" for k
    using w [OF that] incumbents_round_trip [OF insts(2)] that by (simp add: start_live_def len)
  ultimately have "live_matches p row_of slot insts lo n r0 (map w [0..<n]) (start_live insts s)"
    using w s(1) by (auto simp: live_matches_def list_all_iff start_live_def len)
  then show ?thesis by blast
qed

section \<open>The targets of a research run\<close>

lemma sleeve_targets_run:
  assumes "build_sleeve_targets p ti days n lo hi capital buffer = Inr T" "1 \<le> lo"
  shows "1 \<le> n \<and> tp_rebalance_every_sessions p = n \<and> length T = nat n \<and> hi \<le> int (length days) \<and> (\<exists>dev ret slot.
    feature (ti_features ti) ''dev_ma20'' (tp_trend_min_dev_ma20 p) = Inr dev \<and> feature (ti_features ti) ''ret_21'' (tp_trend_min_ret21 p) = Inr ret
    \<and> slot_krw_of p capital buffer = Inr slot
    \<and> (\<forall>k < nat n. \<exists>inc. foldM (target_step p (row_at ti dev ret) slot) ([], {}) (phase_rows lo n (int k) hi) = Inr (T ! k, inc)
        \<and> (\<forall>t \<in> set (phase_rows lo n (int k) hi). t < int (length (mrows (ti_scores ti))))))"
proof -
  have g: "1 \<le> n" "n = tp_rebalance_every_sessions p"
      "mapM (\<lambda>phase. res_bind (decision_rows days lo hi n phase) (\<lambda>rows. build_targets p ti rows capital buffer)) [0..n - 1] = Inr T"
    using assms(1) by (auto simp: build_sleeve_targets_def res_simps)
  have len: "length T = nat n" using mapM_Inr_length [OF g(3)] g(1) by simp
  have each: "\<exists>rows. decision_rows days lo hi n (int k) = Inr rows \<and> build_targets p ti rows capital buffer = Inr (T ! k)" if "k < nat n" for k
    using g(3) that by (auto simp: mapM_Inr_list_all2 list_all2_conv_all_nth res_simps)
  have k: "phase_rows lo n (int k) hi = rows \<and> hi \<le> int (length days)" if "decision_rows days lo hi n (int k) = Inr rows" for k rows
    using decision_rows_Inr [OF that assms(2)] by simp
  have run: "\<exists>dev ret slot inc. feature (ti_features ti) ''dev_ma20'' (tp_trend_min_dev_ma20 p) = Inr dev
      \<and> feature (ti_features ti) ''ret_21'' (tp_trend_min_ret21 p) = Inr ret \<and> slot_krw_of p capital buffer = Inr slot
      \<and> foldM (target_step p (row_at ti dev ret) slot) ([], {}) (phase_rows lo n (int k) hi) = Inr (T ! k, inc)
      \<and> (\<forall>t \<in> set (phase_rows lo n (int k) hi). t < int (length (mrows (ti_scores ti))))" if "k < nat n" for k
    using each [OF that] k by (fastforce simp: build_targets_def checked_rows_def res_simps list_all_iff)
  have "hi \<le> int (length days)" using each [of 0] g(1) k [of 0] by auto
  then show ?thesis using g(1,2) len run [of 0] run by auto
qed

lemma carried_run:
  assumes "carried_incumbents p ti days n lo hi capital buffer = Inr I0" "1 \<le> lo" "tp_rebalance_every_sessions p = n" "k < nat n"
    and "feature (ti_features ti) ''dev_ma20'' (tp_trend_min_dev_ma20 p) = Inr dev" "feature (ti_features ti) ''ret_21'' (tp_trend_min_ret21 p) = Inr ret"
    and "slot_krw_of p capital buffer = Inr slot"
    and "foldM (target_step p (row_at ti dev ret) slot) ([], {}) (phase_rows lo n (int k) hi) = Inr (targets, inc)"
  shows "I0 ! k = inc"
proof -
  let ?carry = "foldM (\<lambda>carried row. res_bind (select_row p (row_at ti dev ret (nat row)) carried slot) (\<lambda>r. Inr (snd r))) {}"
  have "mapM (\<lambda>phase. res_bind (decision_rows days lo hi n phase) ?carry) [0..n - 1] = Inr I0"
    using assms(1,3,5-7) by (simp add: carried_incumbents_def)
  then obtain rows where rows: "decision_rows days lo hi n (int k) = Inr rows" "?carry rows = Inr (I0 ! k)"
    using assms(4) by (auto simp: mapM_Inr_list_all2 list_all2_conv_all_nth res_simps)
  have eq: "rows = phase_rows lo n (int k) hi" using decision_rows_Inr [OF rows(1) assms(2)] by simp
  have "sorted_wrt (<) rows" unfolding eq phase_rows_def by (intro sorted_wrt_filter sorted_upto_less)
  then have "sleeve_at p (row_at ti dev ret) slot rows = Inr (if rows = [] then None else Some (snd (last targets)), inc)"
    using target_fold assms(8) eq by blast
  then show ?thesis
    using rows(2) carried_fold [of p "row_at ti dev ret" slot "(None, {})" rows] by (simp add: sleeve_at_def)
qed

lemma target_widths:
  assumes "foldM (target_step p row_of slot) ([], {}) rows = Inr (targets, inc)" "policy_fields_ok p"
    "\<And>t. t \<in> set rows \<Longrightarrow> length (ri_score (row_of (nat t))) = w"
  shows "\<forall>ws \<in> snd ` set targets. length ws = w"
proof -
  let ?P = "\<lambda>acc. \<forall>ws \<in> snd ` set (fst acc). length ws = w"
  have "?P (targets, inc)"
  proof (rule foldM_invariant [OF assms(1), of ?P])
    fix acc t acc' assume t: "t \<in> set rows" "?P acc" "target_step p row_of slot acc t = Inr acc'"
    then obtain ws nxt where "select_row p (row_of (nat t)) (snd acc) slot = Inr (ws, nxt)" "acc' = (AList.update t ws (fst acc), nxt)"
      by (auto simp: target_step_def res_simps)
    moreover have "length ws = w" using select_row_ok [OF calculation(1) assms(2)] assms(3) [OF t(1)] by simp
    moreover have "snd ` set (AList.update t ws d) \<subseteq> insert ws (snd ` set d)" for d by (induction d) auto
    ultimately show "?P acc'" using t(2) by (metis (no_types, lifting) fst_conv in_mono insert_iff)
  qed simp
  then show ?thesis by simp
qed

lemma width_fold: "foldM width_step w0 xs = Inr (Some w) \<Longrightarrow> w0 = Some w \<or> w \<in> length ` set xs"
  by (induction xs arbitrary: w0) (auto simp: width_step_def res_simps split: option.splits)

lemma combined_row:
  assumes "combine_sleeve_targets T lo hi = Inr R" "lo - 1 \<le> r" "r < hi" "\<forall>t \<in> set T. \<forall>ws \<in> snd ` set t. length ws = w"
  shows "combine_row w T r = Inr (the (map_of R r))"
proof -
  obtain v where v: "foldM width_step None (concat (map (map snd) T)) = Inr (Some v)"
      "mapM (\<lambda>row. res_bind (combine_row v T row) (\<lambda>ws. Inr (row, ws))) [lo - 1..hi - 1] = Inr R"
    using assms(1) by (auto simp: combine_sleeve_targets_def res_simps split: option.splits)
  have "v = w" using width_fold [OF v(1)] assms(4) by fastforce
  have all: "list_all2 (\<lambda>row e. fst e = row \<and> combine_row w T row = Inr (snd e)) [lo - 1..hi - 1] R"
    using v(2) \<open>v = w\<close> by (auto simp: mapM_Inr_list_all2 res_simps elim!: list_all2_mono)
  then have keys: "map fst R = [lo - 1..hi - 1]" by (auto simp: list_all2_conv_all_nth intro!: nth_equalityI)
  obtain e where e: "e \<in> set R" "fst e = r" using assms(2,3) keys by (metis atLeastAtMost_iff imageE list.set_map set_upto zle_diff1_eq)
  then have "map_of R r = Some (snd e)" using keys by (auto intro!: map_of_is_SomeI)
  moreover have "combine_row w T r = Inr (snd e)" using all e by (auto simp: list_all2_conv_all_nth in_set_conv_nth)
  ultimately show ?thesis by simp
qed

end
