(* ===== verification/LiveDemo.thy ===== *)
theory LiveDemo
  imports Operate
begin

text \<open>
  A concrete operation: three sessions, two instruments, one sleeve that rebalances every session, and a
  scorer that reads its scores from the one feature of the panel.
\<close>

section \<open>The inputs\<close>

definition demo_days :: "date list" where
  "demo_days = [Date 2026 3 2, Date 2026 3 3, Date 2026 3 4]"

definition demo_cells :: "'a \<Rightarrow> 'a matrix" where
  "demo_cells v = Matrix 2 [[v, v], [v, v], [v, v]]"

definition demo_cube :: research_cube where
  "demo_cube = \<lparr>rq_days = demo_days, rq_instruments = [''A'', ''B''],
     rq_arrays = \<lparr>ca_present = demo_cells True, ca_eligible = demo_cells True, ca_entry_blocked = demo_cells False, ca_volume = demo_cells (Fin 1),
       ca_adtv20 = demo_cells (Fin 1), ca_close = demo_cells (Fin 1), ca_ret_vol60 = demo_cells (Fin 1)\<rparr>\<rparr>"

definition demo_policy :: trend_cash_policy where
  "demo_policy = \<lparr>tp_family = ''t'', tp_n = 1, tp_keep_rank_multiple = Fin 1, tp_rebalance_every_sessions = 1,
     tp_universe = \<lparr>ur_min_adtv20_krw = 0, ur_min_price_krw = 0\<rparr>, tp_trend_min_dev_ma20 = None, tp_trend_min_ret21 = None,
     tp_redistribute_cap_multiple = None, tp_trend_fail_weight_fraction = None, tp_min_units_per_slot = 0\<rparr>"

definition demo_strategy :: strategy_spec where
  "demo_strategy = \<lparr>sp_hash = ''h'', sp_policy = demo_policy,
     sp_book = \<lparr>bk_sleeves = 1, bk_stock_capital_fraction = Fin 1, bk_rebalance_band = Fin 0\<rparr>, sp_has_trend_overlay = False\<rparr>"

definition demo_scores :: "pyfloat matrix" where
  "demo_scores = Matrix 2 [[Fin 1, Fin 2], [Fin 2, Fin 1], [Fin 1, Fin 2]]"

definition demo_panel :: feature_panel where
  "demo_panel = \<lparr>fp_features = [(''f'', demo_scores)], fp_last_row = 2\<rparr>"

definition demo_scorer :: frozen_scorer where
  "demo_scorer = \<lparr>fs_year = 2026, fs_feature_names = [''f''], fs_score = (\<lambda>mats _ pos. array_get (mrows (hd mats)) (int pos))\<rparr>"

definition demo_targets_input :: target_input where
  "demo_targets_input = \<lparr>ti_close = demo_cells (Fin 1), ti_features = fp_features demo_panel, ti_scores = demo_scores, ti_universe = demo_cells True\<rparr>"

definition demo_series :: "(string, pyfloat list) dict" where
  "demo_series = [(''cash_returns'', [Fin 0, Fin 0, Fin 0]), (''hedge_levels'', [Fin 1, Fin 1, Fin 1]), (''hedge_inverse'', [Fin 1, Fin 1, Fin 1])]"

definition demo_handed :: operate_state where
  "demo_handed = \<lparr>os_spec_hash = ''h'', os_anchor_session = Date 2026 3 2, os_last_session = Date 2026 3 2, os_sessions_since_anchor = 0,
     os_sleeves = [\<lparr>ss_phase = 0, ss_incumbents = [''B''], ss_weights = [(''B'', Fin 1)], ss_decided_session = Some (Date 2026 3 2)\<rparr>]\<rparr>"

section \<open>The research run\<close>

lemma demo_sleeve_capital: "sleeve_capital_krw 1000 (sp_book demo_strategy) = Inr 1000"
  by code_simp

lemma demo_targets_until:
  "build_sleeve_targets (sp_policy demo_strategy) demo_targets_input (rq_days demo_cube) (bk_sleeves (sp_book demo_strategy)) 1 1 1000 (Fin 0)
    = Inr [[(0, [Fin 0, Fin 1])]]"
  by code_simp

lemma demo_targets:
  "build_sleeve_targets (sp_policy demo_strategy) demo_targets_input (rq_days demo_cube) (bk_sleeves (sp_book demo_strategy)) 1 3 1000 (Fin 0)
    = Inr [[(0, [Fin 0, Fin 1]), (1, [Fin 1, Fin 0]), (2, [Fin 0, Fin 1])]]"
  by code_simp

lemma demo_carried:
  "carried_incumbents (sp_policy demo_strategy) demo_targets_input (rq_days demo_cube) (bk_sleeves (sp_book demo_strategy)) 1 1 1000 (Fin 0) = Inr [{1}]"
  by code_simp

lemma demo_combined:
  "combine_sleeve_targets [[(0, [Fin 0, Fin 1]), (1, [Fin 1, Fin 0]), (2, [Fin 0, Fin 1])]] 1 3
    = Inr [(0, [Fin 0, Fin 1]), (1, [Fin 1, Fin 0]), (2, [Fin 0, Fin 1])]"
  by code_simp

lemma demo_bootstrap: "bootstrap_state demo_strategy demo_cube [[(0, [Fin 0, Fin 1])]] [{1}] 1 0 = Inr demo_handed"
  by code_simp

section \<open>The operation\<close>

lemma demo_sessions_after:
  "check_timeline (\<lambda>_ _. demo_calendar) (\<lambda>_. 0) demo_handed demo_days = Inr 0"
proof -
  let ?cal = "\<lparr>sessions = [(toordinal (Date 2026 3 2) - 1) * day_us, (toordinal (Date 2026 3 3) - 1) * day_us,
    (toordinal (Date 2026 3 4) - 1) * day_us]\<rparr>"
  have cal: "xkrx_calendar_through (\<lambda>_ _. demo_calendar) (Date 2026 3 4) = Inr ?cal" by code_simp
  have ord: "local_date (\<lambda>_. 0) ((toordinal d - 1) * day_us) = d" if "date_in_month d" "1 \<le> toordinal d" for d
    using that by (simp add: local_date_def day_us_def date_of_ordinal_toordinal)
  have "date_in_month (Date 2026 3 2)" "date_in_month (Date 2026 3 3)" "date_in_month (Date 2026 3 4)"
    "1 \<le> toordinal (Date 2026 3 2)" "1 \<le> toordinal (Date 2026 3 3)" "1 \<le> toordinal (Date 2026 3 4)"
    "Date 2026 3 2 < Date 2026 3 3" "Date 2026 3 2 < Date 2026 3 4" "Date 2026 3 3 \<le> Date 2026 3 4" by code_simp+
  then show ?thesis by (simp add: check_timeline_def demo_handed_def demo_days_def cal ord)
qed

definition demo_live_ctx :: live_ctx where
  "demo_live_ctx = \<lparr>lc_policy = demo_policy, lc_days = demo_days, lc_instruments = [''A'', ''B''], lc_year = 2026,
     lc_score = fs_score demo_scorer [demo_scores] (demo_cells True), lc_row = live_row (demo_cells True) (demo_cells (Fin 1)) None None, lc_slot = Fin 1000\<rparr>"

lemma demo_context_run: "live_context demo_strategy demo_cube demo_panel demo_scorer 1000 (Fin 0) = Inr demo_live_ctx"
proof -
  have "universe_mask (rq_arrays demo_cube) (tp_universe (sp_policy demo_strategy)) = Inr (demo_cells True)"
    "slot_krw_of (sp_policy demo_strategy) 1000 (Fin 0) = Inr (Fin 1000)" by code_simp+
  then show ?thesis
    using demo_sleeve_capital by (simp add: live_context_def demo_live_ctx_def feature_matrices_def feature_def demo_panel_def demo_scorer_def Let_def demo_scores_def demo_days_def demo_cube_def demo_strategy_def demo_policy_def)
qed

lemma demo_advance: "\<exists>final. advance_operation (\<lambda>_ _. demo_calendar) (\<lambda>_. 0) demo_handed demo_strategy demo_cube demo_panel demo_scorer 1000 (Fin 0) demo_series
  = Inr (final, [(Date 2026 3 3, [(''A'', Fin 1)]), (Date 2026 3 4, [(''B'', Fin 1)])])"
proof -
  have series: "check_series (sp_has_trend_overlay demo_strategy) (length demo_days) 0 demo_series = Inr ()"
    and sleeves: "check_sleeves demo_handed demo_strategy = Inr ()" by code_simp+
  have fold: "(case foldM (advance_step demo_live_ctx demo_handed) \<lparr>ao_state = start_live (rq_instruments demo_cube) demo_handed, ao_decisions = [], ao_snapshots = []\<rparr> [0 + 1..<length demo_days]
     of Inl e \<Rightarrow> None | Inr out \<Rightarrow> Some (ao_decisions out)) = Some [(Date 2026 3 3, [(''A'', Fin 1)]), (Date 2026 3 4, [(''B'', Fin 1)])]" by code_simp
  then obtain out where out: "foldM (advance_step demo_live_ctx demo_handed) \<lparr>ao_state = start_live (rq_instruments demo_cube) demo_handed, ao_decisions = [], ao_snapshots = []\<rparr>
      [0 + 1..<length demo_days] = Inr out" "ao_decisions out = [(Date 2026 3 3, [(''A'', Fin 1)]), (Date 2026 3 4, [(''B'', Fin 1)])]"
    by (auto split: sum.splits)
  have days: "rq_days demo_cube = demo_days" by (simp add: demo_cube_def)
  have plain: "os_spec_hash demo_handed = sp_hash demo_strategy" "\<not> tp_rebalance_every_sessions (sp_policy demo_strategy) < 1"
    by (simp_all add: demo_handed_def demo_strategy_def demo_policy_def)
  show ?thesis
    unfolding advance_operation_def advance_with_states_def days
    by (simp only: demo_sessions_after demo_context_run series sleeves out res_bind_simps plain) (simp add: fle_def)
qed

end
