(* ===== verification/LiveProps.thy ===== *)
theory LiveProps
  imports OperateProps LiveDemo
begin

text \<open>
  The daily operation and the research run: started from the state a research run hands over, the operation
  decides on every later session what the research run decides on its row.
\<close>

section \<open>Matching inputs\<close>

text \<open>The research run and the operation read the same arrays; every array has one row per session and one column per instrument.\<close>

definition same_inputs :: "strategy_spec \<Rightarrow> research_cube \<Rightarrow> feature_panel \<Rightarrow> target_input \<Rightarrow> bool" where
  "same_inputs spec cube panel ti \<longleftrightarrow>
     universe_mask (rq_arrays cube) (tp_universe (sp_policy spec)) = Inr (ti_universe ti) \<and> ti_close ti = ca_close (rq_arrays cube)
     \<and> ti_features ti = fp_features panel \<and> matrix_ok (ti_scores ti) \<and> width (ti_scores ti) = length (rq_instruments cube)
     \<and> length (mrows (ti_scores ti)) = length (rq_days cube) \<and> distinct (rq_instruments cube) \<and> distinct (rq_days cube)"

text \<open>The frozen scorer gives the score row of the research run on every session after row \<open>r0\<close>.\<close>

definition scorer_agrees :: "frozen_scorer \<Rightarrow> feature_panel \<Rightarrow> target_input \<Rightarrow> int \<Rightarrow> bool" where
  "scorer_agrees scorer panel ti r0 \<longleftrightarrow> (\<forall>mats pos. feature_matrices panel (fs_feature_names scorer) = Inr mats \<longrightarrow> r0 < int pos
     \<longrightarrow> pos < length (mrows (ti_scores ti)) \<longrightarrow> fs_score scorer mats (ti_universe ti) pos = Inr (mrows (ti_scores ti) ! pos))"

lemma score_width:
  "same_inputs spec cube panel ti \<Longrightarrow> t < length (rq_days cube) \<Longrightarrow> length (ri_score (row_at ti dev ret t)) = length (rq_instruments cube)"
  by (simp add: same_inputs_def row_at_def matrix_ok_def list_all_length)

lemma live_row_same:
  assumes "live_row (ti_universe ti) (ti_close ti) dev ret scored pos = Inr row" "scored = mrows (ti_scores ti) ! pos"
  shows "row = row_at ti dev ret pos"
  using assms by (cases dev; cases ret) (auto simp: live_row_def row_at_def option_row_def array_get_def res_simps split: if_splits)

lemma live_context_run:
  assumes "live_context spec cube panel scorer capital_krw buffer = Inr c" "same_inputs spec cube panel ti"
    "sleeve_capital_krw capital_krw (sp_book spec) = Inr capital"
    "feature (ti_features ti) ''dev_ma20'' (tp_trend_min_dev_ma20 (sp_policy spec)) = Inr dev"
    "feature (ti_features ti) ''ret_21'' (tp_trend_min_ret21 (sp_policy spec)) = Inr ret" "slot_krw_of (sp_policy spec) capital buffer = Inr slot"
  shows "\<exists>mats. feature_matrices panel (fs_feature_names scorer) = Inr mats \<and> c = \<lparr>lc_policy = sp_policy spec, lc_days = rq_days cube,
    lc_instruments = rq_instruments cube, lc_year = fs_year scorer, lc_score = fs_score scorer mats (ti_universe ti),
    lc_row = live_row (ti_universe ti) (ti_close ti) dev ret, lc_slot = slot\<rparr>"
  using assms by (auto simp: live_context_def same_inputs_def Let_def res_simps)

lemma advance_run:
  assumes "advance_operation get_calendar tz s spec cube panel scorer capital_krw buffer series = Inr (final, decisions)"
  obtains start c out where "check_timeline get_calendar tz s (rq_days cube) = Inr start"
    "live_context spec cube panel scorer capital_krw buffer = Inr c"
    "foldM (advance_step c s) \<lparr>ao_state = start_live (rq_instruments cube) s, ao_decisions = [], ao_snapshots = []\<rparr>
       [start + 1..<length (rq_days cube)] = Inr out" "decisions = ao_decisions out"
  using assms by (auto simp: advance_operation_def advance_with_states_def res_simps)

lemma timeline_start:
  assumes "check_timeline get_calendar tz s days = Inr start" "distinct days" "r < length days" "os_last_session s = days ! r"
  shows "start = r"
proof -
  have "list_index days (os_last_session s) = Some r" using assms(2-4) by (auto simp: list_index_Some nth_eq_iff_index_eq)
  then show ?thesis using assms(1) by (auto simp: check_timeline_def res_simps split: if_splits)
qed

lemma bootstrap_bounds:
  "bootstrap_state spec cube T0 I0 lo r0 = Inr s \<Longrightarrow> 1 \<le> lo \<and> lo - 1 \<le> r0 \<and> r0 < int (length (rq_days cube)) \<and> os_last_session s = rq_days cube ! nat r0"
  by (auto simp: bootstrap_state_def Let_def res_simps operate_state_init_def)

section \<open>The decisions agree\<close>

lemma research_folds:
  assumes "build_sleeve_targets p ti days n lo (r0 + 1) capital buffer = Inr T0" "carried_incumbents p ti days n lo (r0 + 1) capital buffer = Inr I0"
    and "1 \<le> lo" "feature (ti_features ti) ''dev_ma20'' (tp_trend_min_dev_ma20 p) = Inr dev" "feature (ti_features ti) ''ret_21'' (tp_trend_min_ret21 p) = Inr ret"
    and "slot_krw_of p capital buffer = Inr slot" "k < nat n"
  shows "foldM (target_step p (row_at ti dev ret) slot) ([], {}) (phase_rows lo n (int k) (r0 + 1)) = Inr (T0 ! k, I0 ! k)"
proof -
  obtain inc where inc: "foldM (target_step p (row_at ti dev ret) slot) ([], {}) (phase_rows lo n (int k) (r0 + 1)) = Inr (T0 ! k, inc)"
    using sleeve_targets_run [OF assms(1,3)] assms(4-7) by auto
  moreover have "I0 ! k = inc"
    using carried_run [OF assms(2,3) _ assms(7) assms(4-6) inc] sleeve_targets_run [OF assms(1,3)] by simp
  ultimately show ?thesis by simp
qed

lemma research_last_targets:
  assumes "build_sleeve_targets p ti days (int n) lo hi capital buffer = Inr T" "1 \<le> lo" "r < hi"
    and "feature (ti_features ti) ''dev_ma20'' (tp_trend_min_dev_ma20 p) = Inr dev" "feature (ti_features ti) ''ret_21'' (tp_trend_min_ret21 p) = Inr ret"
    and "slot_krw_of p capital buffer = Inr slot" and "live_matches p (row_at ti dev ret) slot insts lo n r ws st"
  shows "map (\<lambda>t. last_target t r) T = ws"
proof (rule nth_equalityI)
  show len: "length (map (\<lambda>t. last_target t r) T) = length ws"
    using sleeve_targets_run [OF assms(1,2)] assms(7) by (simp add: live_matches_def)
  fix k assume k: "k < length (map (\<lambda>t. last_target t r) T)"
  then have kn: "k < n" using len assms(7) by (simp add: live_matches_def)
  obtain inc where fold: "foldM (target_step p (row_at ti dev ret) slot) ([], {}) (phase_rows lo (int n) (int k) hi) = Inr (T ! k, inc)"
    using sleeve_targets_run [OF assms(1,2)] assms(4-6) kn by auto
  have sorted: "sorted_wrt (<) (phase_rows lo (int n) (int k) hi)" unfolding phase_rows_def by (intro sorted_wrt_filter sorted_upto_less)
  obtain i where "sleeve_at p (row_at ti dev ret) slot (phase_rows lo (int n) (int k) (r + 1)) = Inr (last_target (T ! k) r, i)"
    using target_fold [OF fold sorted] phase_rows_until [OF assms(3)] by metis
  then show "map (\<lambda>t. last_target t r) T ! k = ws ! k"
    using assms(7) kn k by (simp add: live_matches_def decided_def)
qed

lemma research_widths:
  assumes "build_sleeve_targets p ti days n lo hi capital buffer = Inr T" "1 \<le> lo" "policy_fields_ok p"
    and "matrix_ok (ti_scores ti)"
  shows "\<forall>t \<in> set T. \<forall>ws \<in> snd ` set t. length ws = width (ti_scores ti)"
proof
  fix t assume "t \<in> set T"
  then obtain k where k: "k < nat n" "t = T ! k" using sleeve_targets_run [OF assms(1,2)] by (auto simp: in_set_conv_nth)
  obtain dev ret slot inc where run: "foldM (target_step p (row_at ti dev ret) slot) ([], {}) (phase_rows lo n (int k) hi) = Inr (T ! k, inc)"
      "\<forall>r \<in> set (phase_rows lo n (int k) hi). r < int (length (mrows (ti_scores ti)))"
    using sleeve_targets_run [OF assms(1,2)] k(1) by blast
  have "length (ri_score (row_at ti dev ret (nat r))) = width (ti_scores ti)" if "r \<in> set (phase_rows lo n (int k) hi)" for r
  proof -
    have "0 \<le> r" "r < int (length (mrows (ti_scores ti)))" using that run(2) assms(2) by (auto simp: phase_rows_def)
    then show ?thesis using assms(4) by (simp add: row_at_def matrix_ok_def list_all_length)
  qed
  then show "\<forall>ws \<in> snd ` set t. length ws = width (ti_scores ti)" using target_widths [OF run(1) assms(3)] k(2) by blast
qed

lemma hand_over:
  assumes inputs: "same_inputs spec cube panel ti" and n: "bk_sleeves (sp_book spec) = int n" and ok: "policy_fields_ok (sp_policy spec)"
    and until: "build_sleeve_targets (sp_policy spec) ti (rq_days cube) (int n) lo (r0 + 1) capital buffer = Inr T0"
      "carried_incumbents (sp_policy spec) ti (rq_days cube) (int n) lo (r0 + 1) capital buffer = Inr I0"
    and boot: "bootstrap_state spec cube T0 I0 lo r0 = Inr s"
    and feat: "feature (ti_features ti) ''dev_ma20'' (tp_trend_min_dev_ma20 (sp_policy spec)) = Inr dev"
      "feature (ti_features ti) ''ret_21'' (tp_trend_min_ret21 (sp_policy spec)) = Inr ret" "slot_krw_of (sp_policy spec) capital buffer = Inr slot"
  shows "\<exists>ws. live_matches (sp_policy spec) (row_at ti dev ret) slot (rq_instruments cube) lo n r0 ws (start_live (rq_instruments cube) s)"
proof (rule bootstrap_matches [OF boot n refl _ _ ok])
  note b = bootstrap_bounds [OF boot]
  show "distinct (rq_instruments cube)" using inputs by (simp add: same_inputs_def)
  show "foldM (target_step (sp_policy spec) (row_at ti dev ret) slot) ([], {}) (phase_rows lo (int n) (int k) (r0 + 1)) = Inr (T0 ! k, I0 ! k)" if "k < n" for k
    using research_folds [OF until _ feat] b that by simp
  show "length (ri_score (row_at ti dev ret (nat t))) = length (rq_instruments cube)" if "lo - 1 \<le> t" "t \<le> r0" for t
    by (rule score_width [OF inputs]) (use b that in linarith)
qed

lemma live_run_matches:
  assumes inputs: "same_inputs spec cube panel ti" "scorer_agrees scorer panel ti r0" and capital: "sleeve_capital_krw capital_krw (sp_book spec) = Inr capital"
    and ok: "policy_fields_ok (sp_policy spec)" "tp_rebalance_every_sessions (sp_policy spec) = int n" "1 \<le> n"
    and r0: "lo - 1 \<le> r0" "1 \<le> lo" "r0 < int (length (rq_days cube))" "os_last_session s = rq_days cube ! nat r0"
    and feat: "feature (ti_features ti) ''dev_ma20'' (tp_trend_min_dev_ma20 (sp_policy spec)) = Inr dev"
      "feature (ti_features ti) ''ret_21'' (tp_trend_min_ret21 (sp_policy spec)) = Inr ret" "slot_krw_of (sp_policy spec) capital buffer = Inr slot"
    and ws: "live_matches (sp_policy spec) (row_at ti dev ret) slot (rq_instruments cube) lo n r0 ws (start_live (rq_instruments cube) s)"
    and live: "advance_operation get_calendar tz s spec cube panel scorer capital_krw buffer series = Inr (final, decisions)"
  shows "map fst decisions = drop (nat (r0 + 1)) (rq_days cube)
    \<and> (\<forall>i < length decisions. \<exists>ws' st'. live_matches (sp_policy spec) (row_at ti dev ret) slot (rq_instruments cube) lo n (r0 + 1 + int i) ws' st'
        \<and> combined_weights (map (sleeve_book (rq_instruments cube)) ws') = Inr (snd (decisions ! i)))"
proof -
  let ?p = "sp_policy spec" and ?days = "rq_days cube" and ?insts = "rq_instruments cube" and ?a = "nat (r0 + 1)"
  obtain start c out where run: "check_timeline get_calendar tz s ?days = Inr start" "live_context spec cube panel scorer capital_krw buffer = Inr c"
      "foldM (advance_step c s) \<lparr>ao_state = start_live ?insts s, ao_decisions = [], ao_snapshots = []\<rparr> [start + 1..<length ?days] = Inr out"
      "decisions = ao_decisions out"
    using live by (rule advance_run)
  have "nat r0 < length ?days" using r0 by linarith
  then have "start = nat r0" using timeline_start [OF run(1)] r0(4) inputs(1) by (simp add: same_inputs_def)
  then have start: "start + 1 = ?a" "?a \<le> length ?days" "int ?a = r0 + 1" using r0 by auto
  obtain mats where c: "feature_matrices panel (fs_feature_names scorer) = Inr mats"
      "c = \<lparr>lc_policy = ?p, lc_days = ?days, lc_instruments = ?insts, lc_year = fs_year scorer, lc_score = fs_score scorer mats (ti_universe ti),
        lc_row = live_row (ti_universe ti) (ti_close ti) dev ret, lc_slot = slot\<rparr>"
    using live_context_run [OF run(2) inputs(1) capital feat] by blast
  have ws_a: "live_matches ?p (row_at ti dev ret) slot ?insts lo n (int ?a - 1) ws (start_live ?insts s)" using ws start(3) by simp
  have row: "row = row_at ti dev ret pos"
    if "?a \<le> pos" "pos < ?a + (length ?days - ?a)" "lc_score c pos = Inr scored" "lc_row c scored pos = Inr row" for pos scored row
  proof -
    have "r0 < int pos" "pos < length (mrows (ti_scores ti))" using that(1,2) start inputs(1) by (auto simp: same_inputs_def)
    then have "scored = mrows (ti_scores ti) ! pos" using that(3) inputs(2) c by (simp add: scorer_agrees_def)
    then show ?thesis using that(4) live_row_same by (simp add: c(2))
  qed
  have len: "length (ri_score (row_at ti dev ret pos)) = length ?insts" if "?a \<le> pos" "pos < ?a + (length ?days - ?a)" for pos
    by (rule score_width [OF inputs(1)]) (use that in simp)
  have fold: "foldM (advance_step c s) \<lparr>ao_state = start_live ?insts s, ao_decisions = [], ao_snapshots = []\<rparr> [?a..<?a + (length ?days - ?a)] = Inr out"
    using run(3) start by simp
  have ctx: "lc_policy c = ?p" "lc_instruments c = ?insts" "lc_slot c = slot" "lc_days c = ?days" using c(2) by simp_all
  have "lo \<le> int ?a" using r0 start(3) by simp
  then have adv: "map fst (ao_decisions out) = map (\<lambda>i. lc_days c ! i) [?a..<?a + (length ?days - ?a)]
    \<and> (\<forall>i < length ?days - ?a. \<exists>ws' st'. live_matches ?p (row_at ti dev ret) slot ?insts lo n (int (?a + i)) ws' st'
        \<and> combined_weights (map (sleeve_book ?insts) ws') = Inr (snd (ao_decisions out ! i)))"
    by (intro advance_matches [OF fold ws_a ctx(1-3) ok(2,3) _ _ _ ok(1), THEN conjunct2] row len)
  then have days: "map fst decisions = map (\<lambda>i. ?days ! i) [?a..<length ?days]" using run(4) ctx(4) start(2) by simp
  moreover have "map (\<lambda>i. ?days ! i) [?a..<length ?days] = drop ?a ?days" by (rule nth_equalityI) auto
  moreover have "length decisions = length ?days - ?a" using arg_cong [OF days, of length] by simp
  moreover have "int (?a + i) = r0 + 1 + int i" for i using start(3) by simp
  ultimately show ?thesis using adv run(4) by (simp only: length_upt) blast
qed

text \<open>C9. Live decisions are the research decisions. Let a research run build the sleeve targets through row
  \<open>r0\<close> and hand its state to the daily operation. If the operation then advances through the rest of the
  sessions over the same arrays, its decisions are one per session after \<open>r0\<close>, in order, and the weight it gives
  an instrument is the weight of that instrument in the combined row of a research run through the last session,
  bit for bit, with no entry for a weight of nought.\<close>

theorem live_decisions_match_research:
  assumes policy: "trend_cash_policy_init (sp_policy spec) = Inr (sp_policy spec)"
    and inputs: "same_inputs spec cube panel ti" "scorer_agrees scorer panel ti r0"
    and capital: "sleeve_capital_krw capital_krw (sp_book spec) = Inr capital"
    and until: "build_sleeve_targets (sp_policy spec) ti (rq_days cube) (bk_sleeves (sp_book spec)) lo (r0 + 1) capital buffer = Inr T0"
      "carried_incumbents (sp_policy spec) ti (rq_days cube) (bk_sleeves (sp_book spec)) lo (r0 + 1) capital buffer = Inr I0"
    and boot: "bootstrap_state spec cube T0 I0 lo r0 = Inr s"
    and research: "build_sleeve_targets (sp_policy spec) ti (rq_days cube) (bk_sleeves (sp_book spec)) lo (int (length (rq_days cube))) capital buffer = Inr T"
      "combine_sleeve_targets T lo (int (length (rq_days cube))) = Inr R"
    and live: "advance_operation get_calendar tz s spec cube panel scorer capital_krw buffer series = Inr (final, decisions)"
  shows "map fst decisions = drop (nat (r0 + 1)) (rq_days cube)
    \<and> (\<forall>i < length decisions. \<forall>col < length (rq_instruments cube).
         dict_get (snd (decisions ! i)) (rq_instruments cube ! col) (Fin 0) = the (map_of R (r0 + 1 + int i)) ! col)"
proof -
  let ?p = "sp_policy spec" and ?days = "rq_days cube" and ?insts = "rq_instruments cube"
  define n where "n = nat (bk_sleeves (sp_book spec))"
  note b = bootstrap_bounds [OF boot]
  have lo: "1 \<le> lo" using b by blast
  have ok: "policy_fields_ok ?p" using policy by (simp add: trend_cash_policy_init_def res_simps)
  have dis: "distinct ?insts" using inputs(1) by (simp add: same_inputs_def)
  obtain dev ret slot where feat: "feature (ti_features ti) ''dev_ma20'' (tp_trend_min_dev_ma20 ?p) = Inr dev"
      "feature (ti_features ti) ''ret_21'' (tp_trend_min_ret21 ?p) = Inr ret" "slot_krw_of ?p capital buffer = Inr slot"
    using sleeve_targets_run [OF until(1) lo] by blast
  have n: "bk_sleeves (sp_book spec) = int n" "1 \<le> n" "tp_rebalance_every_sessions ?p = int n"
    using sleeve_targets_run [OF until(1) lo] by (auto simp: n_def)
  obtain ws where ws: "live_matches ?p (row_at ti dev ret) slot ?insts lo n r0 ws (start_live ?insts s)"
    using hand_over [OF inputs(1) n(1) ok until [unfolded n(1)] boot feat] by blast
  have adv: "map fst decisions = drop (nat (r0 + 1)) ?days"
    "\<And>i. i < length decisions \<Longrightarrow> \<exists>ws' st'. live_matches ?p (row_at ti dev ret) slot ?insts lo n (r0 + 1 + int i) ws' st'
      \<and> combined_weights (map (sleeve_book ?insts) ws') = Inr (snd (decisions ! i))"
    using live_run_matches [OF inputs capital ok n(3,2) _ lo _ _ feat ws live] b by auto
  have width: "\<forall>t \<in> set T. \<forall>ws \<in> snd ` set t. length ws = length ?insts"
    using research_widths [OF research(1) lo ok] inputs(1) by (simp add: same_inputs_def)
  have "dict_get (snd (decisions ! i)) (?insts ! col) (Fin 0) = the (map_of R (r0 + 1 + int i)) ! col"
    if i: "i < length decisions" and col: "col < length ?insts" for i col
  proof -
    obtain w st where w: "live_matches ?p (row_at ti dev ret) slot ?insts lo n (r0 + 1 + int i) w st"
        "combined_weights (map (sleeve_book ?insts) w) = Inr (snd (decisions ! i))" using adv(2) [OF i] by blast
    have r: "r0 + 1 + int i < int (length ?days)" using i arg_cong [OF adv(1), of length] b by simp
    have row: "combine_row (length ?insts) T (r0 + 1 + int i) = Inr (the (map_of R (r0 + 1 + int i)))"
      by (rule combined_row [OF research(2) _ r width]) (use b in simp)
    have last: "map (\<lambda>t. last_target t (r0 + 1 + int i)) T = w"
      using research_last_targets [OF _ lo r feat w(1)] research(1) n(1) by simp
    have "list_all (sleeve_ok ?insts) w" "w \<noteq> []" using w(1) n(2) by (auto simp: live_matches_def)
    then show ?thesis using combined_matches_row [OF w(2) row last dis] col by blast
  qed
  then show ?thesis using adv(1) by blast
qed

lemma demo_same_inputs: "same_inputs demo_strategy demo_cube demo_panel demo_targets_input"
  by code_simp

lemma demo_scorer_agrees: "scorer_agrees demo_scorer demo_panel demo_targets_input 0"
  by (auto simp: scorer_agrees_def feature_matrices_def demo_panel_def demo_scorer_def demo_targets_input_def array_get_def)

theorem live_decisions_match_research_witness:
  "\<exists>final decisions. advance_operation (\<lambda>_ _. demo_calendar) (\<lambda>_. 0) demo_handed demo_strategy demo_cube demo_panel demo_scorer 1000 (Fin 0) demo_series
       = Inr (final, decisions)
     \<and> map fst decisions = [Date 2026 3 3, Date 2026 3 4] \<and> dict_get (snd (decisions ! 0)) ''A'' (Fin 0) = Fin 1"
proof -
  obtain final where run: "advance_operation (\<lambda>_ _. demo_calendar) (\<lambda>_. 0) demo_handed demo_strategy demo_cube demo_panel demo_scorer 1000 (Fin 0) demo_series
      = Inr (final, [(Date 2026 3 3, [(''A'', Fin 1)]), (Date 2026 3 4, [(''B'', Fin 1)])])"
    using demo_advance by blast
  have policy: "trend_cash_policy_init (sp_policy demo_strategy) = Inr (sp_policy demo_strategy)" by code_simp
  have three: "int (length (rq_days demo_cube)) = 3" by (simp add: demo_cube_def demo_days_def)
  have until: "build_sleeve_targets (sp_policy demo_strategy) demo_targets_input (rq_days demo_cube) (bk_sleeves (sp_book demo_strategy)) 1 (0 + 1) 1000 (Fin 0)
      = Inr [[(0, [Fin 0, Fin 1])]]"
    "carried_incumbents (sp_policy demo_strategy) demo_targets_input (rq_days demo_cube) (bk_sleeves (sp_book demo_strategy)) 1 (0 + 1) 1000 (Fin 0) = Inr [{1}]"
    using demo_targets_until demo_carried by simp_all
  note live_decisions_match_research [OF policy demo_same_inputs demo_scorer_agrees demo_sleeve_capital
    until demo_bootstrap demo_targets [folded three] demo_combined [folded three] run]
  then show ?thesis using run by (simp add: demo_cube_def demo_days_def)
qed

end
