(* ===== verification/Seal.thy ===== *)
theory Seal
  imports Quota
begin

text \<open>
  The sealed decision chain (\<open>src/research/operate.py\<close>: \<open>read_chain\<close>, \<open>seal\<close>): one file per data session and
  an append-only list of lines, each carrying the hash of its predecessor.

  A line or a file holds the decision that parsing its JSON text yields, or is malformed; writing stores the
  dictionaries sorted by key, as the canonical JSON does. SHA-256 of the previous hash and the canonical
  payload is the parameter \<open>sha\<close>. A seal holds an inter-process lock; its effects are listed in the order the
  code has them, so that a crash is a prefix of the list. A file replacement and the append of one line are
  atomic effects.
\<close>

section \<open>Decisions and their payloads\<close>

record sealed_decision =
  sd_data_session :: date
  sd_execution_session :: date
  sd_sealed_at :: stamp
  sd_spec_hash :: string
  sd_models_id :: string
  sd_inputs :: "(string, string) dict"
  sd_targets :: "(string, pyfloat) dict"
  sd_reference :: "(string, pyfloat) dict"
  sd_overlay :: "(string, pyfloat) dict"
  sd_state_digest :: string
  sd_prev_hash :: string
  sd_hash :: string
  sd_strategy_store_revision :: "string option"

definition GENESIS_HASH :: string where
  "GENESIS_HASH = replicate 64 (CHR ''0'')"

definition sorted_items :: "(string, 'v) dict \<Rightarrow> (string, 'v) dict" where
  "sorted_items d = sort_key fst d"

text \<open>A decision as the canonical JSON keeps it, and its payload: the same without the hash.\<close>

definition stored :: "sealed_decision \<Rightarrow> sealed_decision" where
  "stored d = d\<lparr>sd_inputs := sorted_items (sd_inputs d), sd_targets := sorted_items (sd_targets d),
     sd_reference := sorted_items (sd_reference d), sd_overlay := sorted_items (sd_overlay d)\<rparr>"

definition decision_payload :: "sealed_decision \<Rightarrow> sealed_decision" where
  "decision_payload d = (stored d)\<lparr>sd_hash := []\<rparr>"

definition json_numbers_ok :: "sealed_decision \<Rightarrow> bool" where
  "json_numbers_ok d \<longleftrightarrow> list_all (\<lambda>(_, v). is_finite v) (sd_targets d @ sd_reference d @ sd_overlay d)"

type_synonym digest = "string \<Rightarrow> sealed_decision \<Rightarrow> string"

definition decision_hash :: "digest \<Rightarrow> string \<Rightarrow> sealed_decision \<Rightarrow> string res" where
  "decision_hash sha prev payload =
     guard (\<not> json_numbers_ok payload) (ValueError ''Out of range float values are not JSON compliant'') (Inr (sha prev payload))"

section \<open>The directory\<close>

datatype chain_line = Blank | Malformed | Entry sealed_decision

datatype decision_file = BadFile | Filed sealed_decision

record chain_dir =
  cd_lines :: "chain_line list"
  cd_files :: "(date, decision_file) dict"

section \<open>Reading the chain\<close>

definition check_filed :: "chain_dir \<Rightarrow> sealed_decision \<Rightarrow> unit res" where
  "check_filed dir d = (case map_of (cd_files dir) (sd_data_session d) of
       Some (Filed f) \<Rightarrow>
         guard (decision_payload f \<noteq> decision_payload d \<or> sd_hash f \<noteq> sd_hash d) (ValueError ''sealed decision file was modified'') (Inr ())
     | _ \<Rightarrow> Inl (ValueError ''sealed decision file is missing''))"

definition last_hash :: "sealed_decision list \<Rightarrow> string" where
  "last_hash chain = (if chain = [] then GENESIS_HASH else sd_hash (last chain))"

definition read_line :: "digest \<Rightarrow> chain_dir \<Rightarrow> sealed_decision list \<Rightarrow> chain_line \<Rightarrow> sealed_decision list res" where
  "read_line sha dir out line = (case line of
       Blank \<Rightarrow> Inr out
     | Malformed \<Rightarrow> Inl (ValueError ''malformed decision chain line'')
     | Entry d \<Rightarrow>
         guard (out \<noteq> [] \<and> sd_data_session d \<le> sd_data_session (last out)) (ValueError ''decision sessions must be strictly increasing'') (
         guard (sd_prev_hash d \<noteq> last_hash out) (ValueError ''broken decision chain before'') (
         res_bind (decision_hash sha (sd_prev_hash d) (decision_payload d)) (\<lambda>h.
         guard (h \<noteq> sd_hash d) (ValueError ''broken decision chain at'') (
         res_bind (check_filed dir d) (\<lambda>_. Inr (out @ [d])))))))"

definition read_chain :: "digest \<Rightarrow> chain_dir \<Rightarrow> sealed_decision list res" where
  "read_chain sha dir = foldM (read_line sha dir) [] (cd_lines dir)"

section \<open>Sealing\<close>

datatype seal_effect = WriteFile date sealed_decision | AppendLine sealed_decision

fun apply_effect :: "chain_dir \<Rightarrow> seal_effect \<Rightarrow> chain_dir" where
  "apply_effect dir (WriteFile d r) = dir\<lparr>cd_files := AList.update d (Filed r) (cd_files dir)\<rparr>"
| "apply_effect dir (AppendLine r) = dir\<lparr>cd_lines := cd_lines dir @ [Entry r]\<rparr>"

definition unlinked :: "sealed_decision \<Rightarrow> sealed_decision" where
  "unlinked d = (decision_payload d)\<lparr>sd_prev_hash := []\<rparr>"

text \<open>The session already has a file: the same decision again, or one whose line was never appended.\<close>

definition reseal :: "digest \<Rightarrow> sealed_decision list \<Rightarrow> sealed_decision \<Rightarrow> decision_file \<Rightarrow> (seal_effect list \<times> sealed_decision) res" where
  "reseal sha chain d f = (case f of
       BadFile \<Rightarrow> Inl (ValueError ''unreadable sealed decision'')
     | Filed existing \<Rightarrow>
         if unlinked existing \<noteq> unlinked d then Inl (ValueError ''conflicting seal'')
         else res_bind (decision_hash sha (sd_prev_hash existing) (decision_payload existing)) (\<lambda>h.
           guard (sd_hash existing \<noteq> h) (ValueError ''conflicting seal'') (
           if list_ex (\<lambda>item. sd_data_session item = sd_data_session existing) chain then Inr ([], existing)
           else
             guard (sd_prev_hash existing \<noteq> last_hash chain \<or> (chain \<noteq> [] \<and> sd_data_session existing \<le> sd_data_session (last chain)))
               (ValueError ''orphan decision does not extend the chain'')
               (Inr ([AppendLine (stored existing)], existing)))))"

definition seal_locked :: "digest \<Rightarrow> chain_dir \<Rightarrow> sealed_decision \<Rightarrow> (seal_effect list \<times> sealed_decision) res" where
  "seal_locked sha dir d =
     res_bind (read_chain sha dir) (\<lambda>chain.
     case map_of (cd_files dir) (sd_data_session d) of
       Some f \<Rightarrow> reseal sha chain d f
     | None \<Rightarrow>
         guard (chain \<noteq> [] \<and> sd_data_session d \<le> sd_data_session (last chain)) (ValueError ''decision sessions must be strictly increasing'') (
         let staged = d\<lparr>sd_prev_hash := last_hash chain, sd_hash := []\<rparr> in
         res_bind (decision_hash sha (last_hash chain) (decision_payload staged)) (\<lambda>digest.
         let sealed = staged\<lparr>sd_hash := digest\<rparr> in
         Inr ([WriteFile (sd_data_session d) (stored sealed), AppendLine (stored sealed)], sealed))))"

text \<open>The next exchange session after a data session: \<open>xkrx_calendar_through(day).advance(midnight of day, 1)\<close>.\<close>

definition next_exchange_session :: "(date \<Rightarrow> date \<Rightarrow> exchange_calendar) \<Rightarrow> zone \<Rightarrow> date \<Rightarrow> date res" where
  "next_exchange_session get_calendar tz d =
     res_bind (xkrx_calendar_through get_calendar d) (\<lambda>cal.
     case list_index (map (local_date tz) (sessions cal)) d of
       None \<Rightarrow> Inl (ValueError ''session not found'')
     | Some i \<Rightarrow> guard (length (sessions cal) \<le> i + 1) (ValueError ''coverage exhausted: not enough future sessions'')
         (Inr (local_date tz (sessions cal ! (i + 1)))))"

definition seal :: "(date \<Rightarrow> date \<Rightarrow> exchange_calendar) \<Rightarrow> zone \<Rightarrow> digest \<Rightarrow> chain_dir \<Rightarrow> sealed_decision \<Rightarrow> (seal_effect list \<times> sealed_decision) res" where
  "seal get_calendar tz sha dir d =
     res_bind (next_exchange_session get_calendar tz (sd_data_session d)) (\<lambda>execution.
     guard (sd_execution_session d \<noteq> execution \<or> offset (sd_sealed_at d) = None)
       (ValueError ''decision requires the next XKRX execution session and an aware sealed_at'') (
     seal_locked sha dir d))"

text \<open>A call that is cut after its first \<open>k\<close> effects; a call that raises has none.\<close>

definition sealing :: "(date \<Rightarrow> date \<Rightarrow> exchange_calendar) \<Rightarrow> zone \<Rightarrow> digest \<Rightarrow> chain_dir \<Rightarrow> sealed_decision \<times> nat \<Rightarrow> chain_dir" where
  "sealing get_calendar tz sha dir call = (case seal get_calendar tz sha dir (fst call) of
       Inl _ \<Rightarrow> dir | Inr (effects, _) \<Rightarrow> foldl apply_effect dir (take (snd call) effects))"

end
