(* ===== verification/SealProps.thy ===== *)
theory SealProps
  imports Seal
begin

text \<open>
  The sealed chain: whatever calls run and wherever they are cut, the chain that can be read only grows; a
  repeated call completes a cut one; and two verified chains with one last hash carry the same decisions.
\<close>

section \<open>Logs that only grow\<close>

locale growing_log =
  fixes read :: "'s \<Rightarrow> 'a list res" and step :: "'s \<Rightarrow> 'c \<Rightarrow> 's"
  assumes step_grows: "read s = Inr xs \<Longrightarrow> \<exists>ys. read (step s c) = Inr (xs @ ys)"
begin

lemma run_grows: "read s = Inr xs \<Longrightarrow> \<exists>ys. read (foldl step s cs) = Inr (xs @ ys)"
proof (induction cs arbitrary: s xs)
  case (Cons c cs)
  then obtain ys where "read (step s c) = Inr (xs @ ys)" using step_grows by blast
  then show ?case using Cons.IH [of "step s c" "xs @ ys"] by auto
qed simp

end

section \<open>Stored decisions\<close>

lemma sorted_items_idem [simp]: "sorted_items (sorted_items d) = sorted_items d"
  by (simp add: sorted_items_def sort_key_id_if_sorted)

lemma stored_simps [simp]:
  "stored (stored d) = stored d" "decision_payload (stored d) = decision_payload d" "unlinked (stored d) = unlinked d"
  "sd_data_session (stored d) = sd_data_session d" "sd_prev_hash (stored d) = sd_prev_hash d" "sd_hash (stored d) = sd_hash d"
  by (simp_all add: stored_def decision_payload_def unlinked_def)

lemma payload_simps [simp]:
  "sd_data_session (decision_payload d) = sd_data_session d" "sd_prev_hash (decision_payload d) = sd_prev_hash d"
  "decision_payload (d\<lparr>sd_hash := h\<rparr>) = decision_payload d" "unlinked (d\<lparr>sd_prev_hash := g, sd_hash := h\<rparr>) = unlinked d"
  "stored (d\<lparr>sd_hash := h\<rparr>) = (stored d)\<lparr>sd_hash := h\<rparr>"
  by (simp_all add: stored_def decision_payload_def unlinked_def)

section \<open>Reading\<close>

lemma read_line_mono:
  assumes "read_line sha dir out line = Inr out'"
    and "\<And>s f. map_of (cd_files dir) s = Some f \<Longrightarrow> map_of (cd_files dir') s = Some f"
  shows "read_line sha dir' out line = Inr out'"
  using assms by (cases line) (auto simp: read_line_def check_filed_def res_simps split: option.splits decision_file.splits)

lemma read_lines_mono:
  assumes "foldM (read_line sha dir) out lines = Inr out'"
    and "\<And>s f. map_of (cd_files dir) s = Some f \<Longrightarrow> map_of (cd_files dir') s = Some f"
  shows "foldM (read_line sha dir') out lines = Inr out'"
  using assms(1) by (induction lines arbitrary: out) (auto simp: res_simps dest: read_line_mono [OF _ assms(2)])

lemma read_after_write:
  assumes "read_chain sha dir = Inr chain" "map_of (cd_files dir) s = None"
  shows "read_chain sha (apply_effect dir (WriteFile s r)) = Inr chain"
proof -
  have "foldM (read_line sha (apply_effect dir (WriteFile s r))) [] (cd_lines dir) = Inr chain"
    by (rule read_lines_mono [of sha dir]) (use assms in \<open>auto simp: read_chain_def update_conv'\<close>)
  then show ?thesis by (simp add: read_chain_def)
qed

lemma read_after_append:
  assumes "read_chain sha dir = Inr chain" "map_of (cd_files dir) (sd_data_session r) = Some (Filed f)"
    and "stored f = stored r" "sd_prev_hash r = last_hash chain" "chain = [] \<or> sd_data_session (last chain) < sd_data_session r"
    and "decision_hash sha (sd_prev_hash r) (decision_payload r) = Inr (sd_hash r)"
  shows "read_chain sha (apply_effect dir (AppendLine r)) = Inr (chain @ [r])"
proof -
  have "decision_payload f = decision_payload r" "sd_hash f = sd_hash r"
    using stored_simps(2) [of f] stored_simps(2) [of r] stored_simps(6) [of f] stored_simps(6) [of r] assms(3) by simp_all
  moreover have "\<not> (chain \<noteq> [] \<and> sd_data_session r \<le> sd_data_session (last chain))" using assms(5) by auto
  ultimately have "read_line sha dir chain (Entry r) = Inr (chain @ [r])"
    using assms(2,4,6) by (simp add: read_line_def check_filed_def guard_def)
  then have "foldM (read_line sha (apply_effect dir (AppendLine r))) chain [Entry r] = Inr (chain @ [r])"
    using read_lines_mono [of sha dir chain "[Entry r]" "chain @ [r]" "apply_effect dir (AppendLine r)"] by simp
  moreover have "foldM (read_line sha (apply_effect dir (AppendLine r))) [] (cd_lines dir) = Inr chain"
    by (rule read_lines_mono [of sha dir]) (use assms(1) in \<open>auto simp: read_chain_def\<close>)
  ultimately show ?thesis by (simp add: read_chain_def foldM_append)
qed

lemma sorted_wrt_last:
  fixes f :: "'a \<Rightarrow> 'b :: linorder"
  shows "sorted_wrt (<) (map f xs) \<Longrightarrow> x \<in> set xs \<Longrightarrow> f x \<le> f (last xs)"
  by (induction xs rule: rev_induct) (auto simp: sorted_wrt_append less_imp_le)

lemma read_chain_sessions:
  assumes "read_chain sha dir = Inr chain"
  shows "sorted_wrt (<) (map sd_data_session chain)
    \<and> (\<forall>d \<in> set chain. \<exists>f. map_of (cd_files dir) (sd_data_session d) = Some (Filed f) \<and> decision_payload f = decision_payload d)"
proof (rule foldM_invariant [OF assms [unfolded read_chain_def]])
  fix out line out'
  assume inv: "sorted_wrt (<) (map sd_data_session out)
      \<and> (\<forall>d \<in> set out. \<exists>f. map_of (cd_files dir) (sd_data_session d) = Some (Filed f) \<and> decision_payload f = decision_payload d)"
    and step: "read_line sha dir out line = Inr out'"
  have "sd_data_session x < sd_data_session d" if "x \<in> set out" "sd_data_session (last out) < sd_data_session d" for x d
  proof -
    have "sd_data_session x \<le> sd_data_session (last out)"
      using inv that(1) sorted_wrt_last [of sd_data_session out x] by blast
    with that(2) show ?thesis by simp
  qed
  with inv step show "sorted_wrt (<) (map sd_data_session out')
      \<and> (\<forall>d \<in> set out'. \<exists>f. map_of (cd_files dir) (sd_data_session d) = Some (Filed f) \<and> decision_payload f = decision_payload d)"
    by (cases line) (auto simp: read_line_def check_filed_def res_simps sorted_wrt_append not_le split: option.splits decision_file.splits)
qed simp

section \<open>Sealing\<close>

text \<open>A successful call: the session is sealed already, or its file waits for its line, or it is new.\<close>

lemma seal_locked_cases:
  assumes "seal_locked sha dir d = Inr (effects, sealed)" "read_chain sha dir = Inr chain"
  obtains (done_before) "effects = []" "map_of (cd_files dir) (sd_data_session d) = Some (Filed sealed)" "unlinked sealed = unlinked d"
      "decision_hash sha (sd_prev_hash sealed) (decision_payload sealed) = Inr (sd_hash sealed)"
      "\<exists>item \<in> set chain. sd_data_session item = sd_data_session sealed"
  | (orphan) "effects = [AppendLine (stored sealed)]" "map_of (cd_files dir) (sd_data_session d) = Some (Filed sealed)" "unlinked sealed = unlinked d"
      "decision_hash sha (sd_prev_hash sealed) (decision_payload sealed) = Inr (sd_hash sealed)"
      "sd_prev_hash sealed = last_hash chain" "chain = [] \<or> sd_data_session (last chain) < sd_data_session sealed"
  | (new) "effects = [WriteFile (sd_data_session d) (stored sealed), AppendLine (stored sealed)]"
      "map_of (cd_files dir) (sd_data_session d) = None" "unlinked sealed = unlinked d"
      "decision_hash sha (sd_prev_hash sealed) (decision_payload sealed) = Inr (sd_hash sealed)"
      "sd_prev_hash sealed = last_hash chain" "chain = [] \<or> sd_data_session (last chain) < sd_data_session sealed"
proof (cases "map_of (cd_files dir) (sd_data_session d)")
  case None
  then show ?thesis
    using assms by (intro new) (auto simp: seal_locked_def res_simps Let_def not_le)
next
  case (Some f)
  then have run: "reseal sha chain d f = Inr (effects, sealed)" using assms by (simp add: seal_locked_def)
  then obtain h where f: "f = Filed sealed" "unlinked sealed = unlinked d" "sd_hash sealed = h"
      "decision_hash sha (sd_prev_hash sealed) (decision_payload sealed) = Inr h"
    by (auto simp: reseal_def res_simps split: decision_file.splits if_splits)
  show ?thesis
  proof (cases "list_ex (\<lambda>item. sd_data_session item = sd_data_session sealed) chain")
    case True
    then show ?thesis using run f Some by (intro done_before) (auto simp: reseal_def res_simps list_ex_iff)
  next
    case False
    then show ?thesis using run f Some by (intro orphan) (auto simp: reseal_def res_simps not_le)
  qed
qed

lemma unlinked_session: "unlinked a = unlinked b \<Longrightarrow> sd_data_session a = sd_data_session b"
  by (metis payload_simps(1) sealed_decision.select_convs(1) sealed_decision.surjective sealed_decision.update_convs(11) unlinked_def)

lemma append_grows:
  assumes "read_chain sha dir = Inr chain" "map_of (cd_files dir) (sd_data_session sealed) = Some (Filed f)" "stored f = stored sealed"
    and "decision_hash sha (sd_prev_hash sealed) (decision_payload sealed) = Inr (sd_hash sealed)"
    and "sd_prev_hash sealed = last_hash chain" "chain = [] \<or> sd_data_session (last chain) < sd_data_session sealed"
  shows "read_chain sha (apply_effect dir (AppendLine (stored sealed))) = Inr (chain @ [stored sealed])"
  using read_after_append [of sha dir chain "stored sealed" f] assms by simp

lemma write_append_grows:
  assumes "read_chain sha dir = Inr chain" "map_of (cd_files dir) (sd_data_session sealed) = None"
    and "decision_hash sha (sd_prev_hash sealed) (decision_payload sealed) = Inr (sd_hash sealed)"
    and "sd_prev_hash sealed = last_hash chain" "chain = [] \<or> sd_data_session (last chain) < sd_data_session sealed"
  shows "read_chain sha (apply_effect (apply_effect dir (WriteFile (sd_data_session sealed) (stored sealed))) (AppendLine (stored sealed)))
    = Inr (chain @ [stored sealed])"
  using append_grows [OF read_after_write [OF assms(1,2), of "stored sealed"] _ _ assms(3-5), of "stored sealed"] by (simp add: update_conv')

lemma seal_prefix:
  assumes "seal_locked sha dir d = Inr (effects, sealed)" "read_chain sha dir = Inr chain"
  shows "\<exists>more. read_chain sha (foldl apply_effect dir (take k effects)) = Inr (chain @ more)"
  using assms
proof (cases rule: seal_locked_cases)
  case orphan
  then have "read_chain sha (apply_effect dir (AppendLine (stored sealed))) = Inr (chain @ [stored sealed])"
    using append_grows [OF assms(2)] unlinked_session by metis
  then show ?thesis using orphan(1) assms(2) by (cases k) auto
next
  case new
  let ?dir = "apply_effect dir (WriteFile (sd_data_session d) (stored sealed))"
  have written: "read_chain sha ?dir = Inr chain" by (rule read_after_write [OF assms(2) new(2)])
  have "read_chain sha (apply_effect ?dir (AppendLine (stored sealed))) = Inr (chain @ [stored sealed])"
    using write_append_grows [OF assms(2) _ new(4-6)] new(2) unlinked_session [OF new(3)] by simp
  moreover have "take k effects = [] \<or> take k effects = [WriteFile (sd_data_session d) (stored sealed)] \<or> take k effects = effects"
    using new(1) by (auto simp: take_Cons split: nat.splits)
  ultimately show ?thesis using new(1) written assms(2) by auto
qed (use assms(2) in auto)

interpretation sealed_log: growing_log "read_chain sha" "sealing get_calendar tz sha" for sha get_calendar tz
proof
  fix s xs c assume read: "read_chain sha s = Inr xs"
  then show "\<exists>ys. read_chain sha (sealing get_calendar tz sha s c) = Inr (xs @ ys)"
    using seal_prefix [OF _ read] by (auto simp: sealing_def seal_def res_simps split: sum.splits)
qed

text \<open>A repeated call ends where the uncut call would have.\<close>

lemma seal_filed:
  assumes "read_chain sha dir = Inr chain" "map_of (cd_files dir) (sd_data_session d) = Some (Filed e)" "unlinked e = unlinked d"
    and "decision_hash sha (sd_prev_hash e) (decision_payload e) = Inr (sd_hash e)"
  shows "(\<exists>item \<in> set chain. sd_data_session item = sd_data_session e) \<Longrightarrow> seal_locked sha dir d = Inr ([], e)"
    and "\<forall>item \<in> set chain. sd_data_session item \<noteq> sd_data_session e \<Longrightarrow> sd_prev_hash e = last_hash chain
      \<Longrightarrow> chain = [] \<or> sd_data_session (last chain) < sd_data_session e \<Longrightarrow> seal_locked sha dir d = Inr ([AppendLine (stored e)], e)"
  using assms by (auto simp: seal_locked_def reseal_def list_ex_iff guard_def)

lemma seal_retry:
  assumes "seal_locked sha dir d = Inr (effects, sealed)" "read_chain sha dir = Inr chain"
  shows "\<exists>effects' sealed'. seal_locked sha (foldl apply_effect dir (take k effects)) d = Inr (effects', sealed') \<and> stored sealed' = stored sealed
    \<and> foldl apply_effect (foldl apply_effect dir (take k effects)) effects' = foldl apply_effect dir effects"
proof (cases "take k effects = []")
  case True
  then show ?thesis using assms(1) by auto
next
  case False
  from assms show ?thesis
  proof (cases rule: seal_locked_cases)
    case done_before
    with False show ?thesis by simp
  next
    case orphan
    let ?dir = "apply_effect dir (AppendLine (stored sealed))"
    have "read_chain sha ?dir = Inr (chain @ [stored sealed])"
      using append_grows [OF assms(2)] orphan unlinked_session by metis
    then have "seal_locked sha ?dir d = Inr ([], sealed)" using orphan by (intro seal_filed(1)) auto
    moreover have "take k effects = effects" using False orphan(1) by (cases k) auto
    ultimately show ?thesis using orphan(1) by auto
  next
    case new
    let ?dir = "apply_effect dir (WriteFile (sd_data_session d) (stored sealed))"
    have day: "sd_data_session sealed = sd_data_session d" by (rule unlinked_session [OF new(3)])
    have filed: "map_of (cd_files ?dir) (sd_data_session d) = Some (Filed (stored sealed))" by (simp add: update_conv')
    have written: "read_chain sha ?dir = Inr chain" by (rule read_after_write [OF assms(2) new(2)])
    have full: "read_chain sha (apply_effect ?dir (AppendLine (stored sealed))) = Inr (chain @ [stored sealed])"
      using write_append_grows [OF assms(2) _ new(4-6)] new(2) day by simp
    have "\<forall>item \<in> set chain. sd_data_session item \<noteq> sd_data_session d" using read_chain_sessions [OF assms(2)] new(2) by fastforce
    then have cut: "seal_locked sha ?dir d = Inr ([AppendLine (stored sealed)], stored sealed)"
      using seal_filed(2) [OF written filed] new day by simp
    have whole: "seal_locked sha (apply_effect ?dir (AppendLine (stored sealed))) d = Inr ([], stored sealed)"
      using seal_filed(1) [OF full, of d "stored sealed"] filed new by simp
    have "take k effects = [WriteFile (sd_data_session d) (stored sealed)] \<or> take k effects = effects"
      using False new(1) by (cases k; cases "k - 1") auto
    then show ?thesis using cut whole new(1) by auto
  qed
qed

section \<open>The chain fixes its decisions\<close>

definition linked :: "digest \<Rightarrow> sealed_decision list \<Rightarrow> bool" where
  "linked sha chain \<longleftrightarrow> (\<forall>i < length chain. sd_prev_hash (chain ! i) = last_hash (take i chain)
     \<and> sd_hash (chain ! i) = sha (sd_prev_hash (chain ! i)) (decision_payload (chain ! i)))"

lemma linked_snoc: "linked sha (chain @ [d]) \<longleftrightarrow> linked sha chain \<and> sd_prev_hash d = last_hash chain \<and> sd_hash d = sha (sd_prev_hash d) (decision_payload d)"
  by (auto simp: linked_def nth_append less_Suc_eq)

lemma read_chain_linked: "read_chain sha dir = Inr chain \<Longrightarrow> linked sha chain"
  unfolding read_chain_def
proof (erule foldM_invariant [where P = "linked sha"])
  fix out line out' assume "linked sha out" "read_line sha dir out line = Inr out'"
  then show "linked sha out'"
    using linked_snoc [of sha "[]"] by (cases line) (auto simp: read_line_def decision_hash_def res_simps linked_snoc)
qed (simp add: linked_def)

text \<open>No two of the decisions collide, and none hashes to the start of the chain.\<close>

definition collision_free :: "digest \<Rightarrow> sealed_decision list \<Rightarrow> bool" where
  "collision_free sha ds \<longleftrightarrow> list_all (\<lambda>a. sha (sd_prev_hash a) (decision_payload a) \<noteq> GENESIS_HASH
     \<and> list_all (\<lambda>b. sha (sd_prev_hash a) (decision_payload a) = sha (sd_prev_hash b) (decision_payload b)
         \<longrightarrow> decision_payload a = decision_payload b) ds) ds"

lemma collision_freeD:
  assumes "collision_free sha ds" "a \<in> set ds" "b \<in> set ds" "sha (sd_prev_hash a) (decision_payload a) = sha (sd_prev_hash b) (decision_payload b)"
  shows "decision_payload a = decision_payload b"
  using assms by (simp add: collision_free_def list_all_iff)

lemma linked_determined:
  assumes "linked sha xs" "linked sha ys" "collision_free sha ds" "set xs \<union> set ys \<subseteq> set ds" "last_hash xs = last_hash ys"
  shows "map decision_payload xs = map decision_payload ys"
  using assms
proof (induction xs arbitrary: ys rule: rev_induct)
  case Nil
  then show ?case
    by (cases ys rule: rev_cases) (auto simp: linked_snoc last_hash_def collision_free_def list_all_iff)
next
  case (snoc x xs)
  have x: "linked sha xs" "sd_prev_hash x = last_hash xs" "sd_hash x = sha (sd_prev_hash x) (decision_payload x)" "x \<in> set ds"
    using snoc.prems by (auto simp: linked_snoc)
  show ?case
  proof (cases ys rule: rev_cases)
    case Nil
    then show ?thesis using snoc.prems x by (auto simp: last_hash_def collision_free_def list_all_iff)
  next
    case (snoc zs y)
    then have y: "linked sha zs" "sd_prev_hash y = last_hash zs" "sd_hash y = sha (sd_prev_hash y) (decision_payload y)" "y \<in> set ds"
      using snoc.prems by (auto simp: linked_snoc)
    have "sd_hash x = sd_hash y" using \<open>last_hash (xs @ [x]) = last_hash ys\<close> snoc by (simp add: last_hash_def)
    then have same: "decision_payload x = decision_payload y" using collision_freeD [OF snoc.prems(3) x(4) y(4)] x(3) y(3) by simp
    then have "last_hash xs = last_hash zs" using x(2) y(2) by (metis payload_simps(2))
    then have "map decision_payload xs = map decision_payload zs" using snoc.IH [OF x(1) y(1) snoc.prems(3)] snoc.prems(4) snoc by auto
    with same show ?thesis by (simp add: snoc)
  qed
qed

lemma seal_on_chain:
  assumes "seal_locked sha dir d = Inr (effects, sealed)" "read_chain sha dir = Inr chain"
  shows "\<exists>after. read_chain sha (foldl apply_effect dir effects) = Inr after \<and> decision_payload sealed \<in> decision_payload ` set after"
  using assms
proof (cases rule: seal_locked_cases)
  case done_before
  then obtain item where item: "item \<in> set chain" "sd_data_session item = sd_data_session sealed" by blast
  have "decision_payload item = decision_payload sealed"
    using read_chain_sessions [OF assms(2)] item done_before(2) unlinked_session [OF done_before(3)] by fastforce
  then show ?thesis using done_before(1) assms(2) item(1) by (auto intro: rev_image_eqI)
next
  case orphan
  then show ?thesis using append_grows [OF assms(2), of sealed sealed] unlinked_session [OF orphan(3)] by simp
next
  case new
  have "read_chain sha (apply_effect (apply_effect dir (WriteFile (sd_data_session d) (stored sealed))) (AppendLine (stored sealed))) = Inr (chain @ [stored sealed])"
    using write_append_grows [OF assms(2) _ new(4-6)] new(2) unlinked_session [OF new(3)] by simp
  then show ?thesis using new(1) by simp
qed

section \<open>The properties of the chain\<close>

text \<open>C10. Sealing only extends the chain. From a directory whose chain verifies, run any sequence of seal calls, each
  completed, refused, or cut by a crash after any of its effects: the chain still verifies, it starts with the old
  chain, its data sessions increase strictly, and every decision carries the hash of its predecessor.\<close>

theorem sealing_only_extends_the_chain:
  assumes "read_chain sha dir = Inr chain"
  shows "\<exists>more. read_chain sha (foldl (sealing get_calendar tz sha) dir calls) = Inr (chain @ more)
    \<and> sorted_wrt (<) (map sd_data_session (chain @ more)) \<and> linked sha (chain @ more)"
proof -
  obtain more where "read_chain sha (foldl (sealing get_calendar tz sha) dir calls) = Inr (chain @ more)"
    using sealed_log.run_grows [OF assms] by blast
  with read_chain_sessions [OF this] read_chain_linked [OF this] show ?thesis by blast
qed

text \<open>C11. A cut seal is completed by its retry. If a call seals a decision and is cut after any number of its effects,
  the same call on what it left succeeds with the same stored decision, leaves the directory of the uncut call,
  and that directory's chain verifies and carries the decision.\<close>

theorem cut_seal_is_completed_by_its_retry:
  assumes "read_chain sha dir = Inr chain" "seal get_calendar tz sha dir d = Inr (effects, sealed)"
  shows "\<exists>effects' sealed' after. seal get_calendar tz sha (sealing get_calendar tz sha dir (d, k)) d = Inr (effects', sealed')
    \<and> stored sealed' = stored sealed \<and> foldl apply_effect (sealing get_calendar tz sha dir (d, k)) effects' = foldl apply_effect dir effects
    \<and> read_chain sha (foldl apply_effect dir effects) = Inr after \<and> decision_payload sealed \<in> decision_payload ` set after"
proof -
  have run: "seal_locked sha dir d = Inr (effects, sealed)" using assms(2) by (auto simp: seal_def res_simps)
  have cut: "sealing get_calendar tz sha dir (d, k) = foldl apply_effect dir (take k effects)" using assms(2) by (simp add: sealing_def)
  have "seal get_calendar tz sha dir' d = seal_locked sha dir' d" for dir' using assms(2) by (auto simp: seal_def res_simps)
  then show ?thesis using seal_retry [OF run assms(1), of k] seal_on_chain [OF run assms(1)] by (simp only: cut) blast
qed

text \<open>C12. A chain is fixed by its last hash. Two directories whose chains verify and end in the same hash carry the same
  decisions in the same order, unless two of those decisions collide under the digest.\<close>

theorem chain_is_fixed_by_its_last_hash:
  assumes "read_chain sha dir1 = Inr chain1" "read_chain sha dir2 = Inr chain2"
    and "last_hash chain1 = last_hash chain2" "collision_free sha (chain1 @ chain2)"
  shows "map decision_payload chain1 = map decision_payload chain2"
  using linked_determined [OF read_chain_linked [OF assms(1)] read_chain_linked [OF assms(2)] assms(4) _ assms(3)] by simp

section \<open>A directory\<close>

definition demo_sha :: digest where
  "demo_sha prev d = CHR ''h'' # isoformat (sd_data_session d)"

definition demo_unsealed :: sealed_decision where
  "demo_unsealed = \<lparr>sd_data_session = Date 2026 3 2, sd_execution_session = Date 2026 3 3, sd_sealed_at = Stamp 0 (Some 0), sd_spec_hash = ''s'',
     sd_models_id = ''m'', sd_inputs = [], sd_targets = [(''B'', Fin 1)], sd_reference = [], sd_overlay = [], sd_state_digest = ''g'',
     sd_prev_hash = [], sd_hash = [], sd_strategy_store_revision = None\<rparr>"

definition demo_sealed :: sealed_decision where
  "demo_sealed = demo_unsealed\<lparr>sd_prev_hash := GENESIS_HASH, sd_hash := ''h2026-03-02''\<rparr>"

definition demo_chain_dir :: chain_dir where
  "demo_chain_dir = \<lparr>cd_lines = [Entry demo_sealed], cd_files = [(Date 2026 3 2, Filed demo_sealed)]\<rparr>"

lemma demo_chain: "read_chain demo_sha demo_chain_dir = Inr [demo_sealed]"
  by code_simp

lemma demo_seal_new: "seal_locked demo_sha \<lparr>cd_lines = [], cd_files = []\<rparr> demo_unsealed
    = Inr ([WriteFile (Date 2026 3 2) demo_sealed, AppendLine demo_sealed], demo_sealed)"
  by code_simp


lemma demo_next_session: "next_exchange_session (\<lambda>_ _. demo_calendar) (\<lambda>_. 0) (Date 2026 3 2) = Inr (Date 2026 3 3)"
proof -
  let ?cal = "\<lparr>sessions = [(toordinal (Date 2026 3 2) - 1) * day_us, (toordinal (Date 2026 3 3) - 1) * day_us,
    (toordinal (Date 2026 3 4) - 1) * day_us]\<rparr>"
  have cal: "xkrx_calendar_through (\<lambda>_ _. demo_calendar) (Date 2026 3 2) = Inr ?cal" by code_simp
  have ord: "local_date (\<lambda>_. 0) ((toordinal d - 1) * day_us) = d" if "date_in_month d" "1 \<le> toordinal d" for d
    using that by (simp add: local_date_def day_us_def date_of_ordinal_toordinal)
  have "date_in_month (Date 2026 3 2)" "date_in_month (Date 2026 3 3)" "date_in_month (Date 2026 3 4)"
    "1 \<le> toordinal (Date 2026 3 2)" "1 \<le> toordinal (Date 2026 3 3)" "1 \<le> toordinal (Date 2026 3 4)" by code_simp+
  then show ?thesis by (simp add: next_exchange_session_def cal ord)
qed

lemma demo_seal: "seal (\<lambda>_ _. demo_calendar) (\<lambda>_. 0) demo_sha \<lparr>cd_lines = [], cd_files = []\<rparr> demo_unsealed
    = Inr ([WriteFile (Date 2026 3 2) demo_sealed, AppendLine demo_sealed], demo_sealed)"
  using demo_next_session demo_seal_new by (simp add: seal_def demo_unsealed_def)

lemma demo_empty_chain: "read_chain demo_sha \<lparr>cd_lines = [], cd_files = []\<rparr> = Inr []"
  by (simp add: read_chain_def)

theorem sealing_only_extends_the_chain_witness:
  "\<exists>more. read_chain demo_sha (foldl (sealing (\<lambda>_ _. demo_calendar) (\<lambda>_. 0) demo_sha) demo_chain_dir [(demo_unsealed, 1)]) = Inr ([demo_sealed] @ more)"
  using sealing_only_extends_the_chain [OF demo_chain] by blast

theorem cut_seal_is_completed_by_its_retry_witness:
  "\<exists>effects' sealed'. seal (\<lambda>_ _. demo_calendar) (\<lambda>_. 0) demo_sha
      (sealing (\<lambda>_ _. demo_calendar) (\<lambda>_. 0) demo_sha \<lparr>cd_lines = [], cd_files = []\<rparr> (demo_unsealed, 1)) demo_unsealed = Inr (effects', sealed')"
  using cut_seal_is_completed_by_its_retry [OF demo_empty_chain demo_seal, of 1] by blast

lemma demo_chain_spaced: "read_chain demo_sha (demo_chain_dir\<lparr>cd_lines := [Blank, Entry demo_sealed]\<rparr>) = Inr [demo_sealed]"
  by code_simp

theorem chain_is_fixed_by_its_last_hash_witness:
  "read_chain demo_sha (demo_chain_dir\<lparr>cd_lines := [Blank, Entry demo_sealed]\<rparr>) = Inr [demo_sealed]
    \<and> map decision_payload [demo_sealed] = map decision_payload [demo_sealed]"
proof -
  have "collision_free demo_sha ([demo_sealed] @ [demo_sealed])" by code_simp
  then show ?thesis using chain_is_fixed_by_its_last_hash [OF demo_chain demo_chain_spaced refl] demo_chain_spaced by blast
qed

end
