(* ===== verification/Prune.thy ===== *)
theory Prune
  imports Registry
begin

text \<open>
  Dataset maintenance of one scope (\<open>src/data/dataset_maintenance.py\<close>): the directories of a scope, the
  verification of registered datasets with their stale inputs, and the pruning of datasets that no current
  pointer reaches.

  The file system is read through \<open>lake_ports\<close>; decoded JSON of legacy manifests, recursive removal, the text
  of a path and the \<open>emit\<close> callback are functions of \<open>prune_ports\<close>. The callback may change anything, so
  that other processes can act between the plan and its revalidation. A Python set whose order is not
  specified is a list without duplicates; the results do not depend on its order.
\<close>

section \<open>Legacy manifests\<close>

datatype doc = DocStr string | DocObj "(string \<times> doc) list" | DocList "doc list" | DocOther

datatype prune_event =
    Prunable string path bool
  | UnreadableManifest string path string
  | DeleteFailed string path string
  | Verified string "path option" bool int "string list" "string list" "(string \<times> string \<times> string \<times> string option) list"

record 'w prune_ports =
  pr_lake :: "'w lake_ports"
  pr_read_json :: "'w \<Rightarrow> path \<Rightarrow> string \<Rightarrow> doc option"
  pr_rmtree :: "'w \<Rightarrow> path \<Rightarrow> 'w \<times> string option"
  pr_path_text :: "path \<Rightarrow> string"
  pr_emit :: "prune_event \<Rightarrow> 'w rstate \<Rightarrow> 'w rstate"

definition node_at :: "(dataset_layer \<Rightarrow> fnode option) \<Rightarrow> path \<Rightarrow> fnode option" where
  "node_at base p = foldl (\<lambda>n part. case n of None \<Rightarrow> None | Some d \<Rightarrow> lookup part d) (base (fst p)) (snd p)"

definition file_in :: "string \<Rightarrow> fnode option \<Rightarrow> bool" where
  "file_in name n = (case n of None \<Rightarrow> False | Some d \<Rightarrow> is_file (lookup name d))"

definition partition_path_ok :: "doc \<Rightarrow> bool" where
  "partition_path_ok d = (case d of DocObj es \<Rightarrow> (case map_of es ''path'' of Some (DocStr _) \<Rightarrow> True | _ \<Rightarrow> False) | _ \<Rightarrow> False)"

definition legacy_fields :: "'w prune_ports \<Rightarrow> 'w \<Rightarrow> path \<Rightarrow> (string, doc) dict option" where
  "legacy_fields P w p =
     (if file_in ''manifest.json'' (node_at (lp_root (pr_lake P) w) p) then
        (case pr_read_json P w p ''manifest.json'' of Some (DocObj es) \<Rightarrow> Some es | _ \<Rightarrow> None)
      else (case pr_read_json P w p ''dataset_manifest.json'' of
          Some (DocObj es) \<Rightarrow> (case pr_read_json P w p ''content_manifest.json'' of
              Some (DocObj content) \<Rightarrow>
                Some (AList.update ''dataset_id'' (DocStr (path_name p)) (foldl (\<lambda>d (k, v). AList.update k v d) content es))
            | _ \<Rightarrow> None)
        | _ \<Rightarrow> None))"

definition legacy_prunable_manifest :: "'w prune_ports \<Rightarrow> 'w \<Rightarrow> path \<Rightarrow> (string, doc) dict option" where
  "legacy_prunable_manifest P w p = (case legacy_fields P w p of None \<Rightarrow> None
     | Some es \<Rightarrow>
         if map_of es ''dataset_id'' \<noteq> Some (DocStr (path_name p)) then None
         else (case map_of es ''partitions'' of
             Some (DocList ps) \<Rightarrow> if ps \<noteq> [] \<and> list_all partition_path_ok ps then Some es else None
           | _ \<Rightarrow> None))"

text \<open>The text of anything but a string is no dataset id: it has no underscore before sixteen digits, or has brackets.\<close>

definition doc_id :: "doc \<Rightarrow> string option" where
  "doc_id d = (case d of DocStr s \<Rightarrow> if is_dataset_id s then Some s else None | _ \<Rightarrow> None)"

definition LINEAGE_FIELDS :: "string list" where
  "LINEAGE_FIELDS = [''daily_market_dataset_id'', ''universe_dataset_id'', ''ls_dataset_id'', ''kis_supplement_dataset_id'',
     ''market_panel_dataset_id'', ''source_financial_dataset_id'']"

definition legacy_lineage :: "(string, doc) dict \<Rightarrow> string list" where
  "legacy_lineage es = remdups (List.map_filter doc_id
     ((case map_of es ''inputs'' of Some (DocObj ins) \<Rightarrow> map snd ins | _ \<Rightarrow> [])
      @ List.map_filter (\<lambda>name. case map_of es name of Some (DocStr s) \<Rightarrow> Some (DocStr s) | _ \<Rightarrow> None) LINEAGE_FIELDS))"

section \<open>The directories of a scope\<close>

definition has_any_manifest :: "fnode option \<Rightarrow> bool" where
  "has_any_manifest n \<longleftrightarrow> file_in ''manifest.json'' n \<or> file_in ''dataset_manifest.json'' n \<or> file_in ''content_manifest.json'' n"

definition scope_directories_in :: "dataset_layer \<Rightarrow> fnode option \<Rightarrow> path list" where
  "scope_directories_in layer base =
     (if \<not> is_dir base \<or> is_symlink base then []
      else concat (map (\<lambda>(name, d).
        if \<not> is_dir (Some d) \<or> is_symlink (Some d) \<or> take 1 name = ''.'' then []
        else if is_dataset_id name \<or> file_in ''manifest.json'' (Some d) then [(layer, [name])]
        else map (\<lambda>(n, _). (layer, [name, n]))
          (filter (\<lambda>(_, x). is_dir (Some x) \<and> \<not> is_symlink (Some x) \<and> has_any_manifest (Some x)) (iterdir (Some d)))) (iterdir base)))"

definition scope_directories :: "(dataset_layer \<Rightarrow> fnode option) \<Rightarrow> path list" where
  "scope_directories base = scope_directories_in SILVER (base SILVER) @ scope_directories_in GOLD (base GOLD)"

section \<open>Current datasets\<close>

definition check_current :: "'w lake_ports \<Rightarrow> 'w \<Rightarrow> path list \<Rightarrow> (string \<Rightarrow> bool) \<Rightarrow> string \<times> string \<Rightarrow> unit res" where
  "check_current P w dirs known e =
     (case filter (\<lambda>p. path_name p = snd e) dirs of
        [dataset_dir] \<Rightarrow>
          (case lp_load_manifest P w dataset_dir of
             Inl _ \<Rightarrow> Inl (PITDataError ''current dataset manifest is invalid'')
           | Inr m \<Rightarrow>
               guard (dm_kind m \<noteq> fst e) (PITDataError ''current dataset kind mismatch'') (
               guard (\<not> passed (verify_dataset P w dataset_dir known)) (PITDataError ''current dataset failed verification'') (Inr ())))
      | _ \<Rightarrow> Inl (PITDataError ''current dataset is missing or ambiguous''))"

definition validated_current_directories :: "'w lake_ports \<Rightarrow> 'w rstate \<Rightarrow> (pointers \<times> string list) res" where
  "validated_current_directories P s =
     res_bind (snapshot (rs_registry s)) (\<lambda>current.
     guard (current = []) (PITDataError ''dataset registry has no current datasets'') (
     let w = rs_world s; dirs = scope_directories (lp_root P w) in
     res_bind (retired_ids (rs_registry s)) (\<lambda>retired.
     let known = set (map path_name dirs) \<union> set (dict_keys retired) in
     res_bind (mapM (check_current P w dirs (\<lambda>i. i \<in> known)) (sort current)) (\<lambda>_.
     Inr (current, dict_keys retired)))))"

section \<open>The plan\<close>

type_synonym lineage = "(string, string list) dict"

definition add_upstream :: "lineage \<Rightarrow> string \<Rightarrow> string list \<Rightarrow> lineage" where
  "add_upstream g i ups = AList.update i (remdups (dict_get g i [] @ ups)) g"

definition error_text :: "py_error \<Rightarrow> string" where
  "error_text e = (case e of PITDataError m \<Rightarrow> m | ValueError m \<Rightarrow> m | _ \<Rightarrow> [])"

definition graph_step :: "'w prune_ports \<Rightarrow> 'w \<Rightarrow> lineage \<times> (path \<times> string) list \<Rightarrow> path \<Rightarrow> lineage \<times> (path \<times> string) list" where
  "graph_step P w acc p = (case lp_load_manifest (pr_lake P) w p of
       Inr m \<Rightarrow> (add_upstream (fst acc) (dm_dataset_id m) (filter is_dataset_id (map snd (dm_inputs m))), snd acc)
     | Inl e \<Rightarrow> (case legacy_prunable_manifest P w p of
           None \<Rightarrow> (fst acc, snd acc @ [(p, error_text e)])
         | Some es \<Rightarrow> (add_upstream (fst acc) (path_name p) (legacy_lineage es), snd acc)))"

definition lineage_graph :: "'w prune_ports \<Rightarrow> 'w \<Rightarrow> path list \<Rightarrow> lineage \<times> (path \<times> string) list" where
  "lineage_graph P w dirs = foldl (graph_step P w) ([], []) dirs"

definition visit :: "string list \<times> string list \<Rightarrow> string \<Rightarrow> string list \<times> string list" where
  "visit acc i = (if i \<in> set (fst acc) then acc else (fst acc @ [i], snd acc @ [i]))"

definition graph_ids :: "lineage \<Rightarrow> string set" where
  "graph_ids g = set (concat (map snd g))"

lemma visit_fold:
  "\<exists>new. foldl visit (reach, pending) is = (reach @ new, pending @ new) \<and> distinct new \<and> set new = set is - set reach"
proof (induction "is" arbitrary: reach pending)
  case (Cons i "is")
  show ?case
  proof (cases "i \<in> set reach")
    case True
    from Cons.IH [of reach pending] obtain new where
      "foldl visit (reach, pending) is = (reach @ new, pending @ new) \<and> distinct new \<and> set new = set is - set reach" ..
    moreover have "visit (reach, pending) i = (reach, pending)" "set (i # is) - set reach = set is - set reach"
      using True by (simp_all add: visit_def insert_Diff_if)
    ultimately show ?thesis by (metis foldl_Cons)
  next
    case False
    from Cons.IH [of "reach @ [i]" "pending @ [i]"] obtain new where
      "foldl visit (reach @ [i], pending @ [i]) is = ((reach @ [i]) @ new, (pending @ [i]) @ new) \<and> distinct new \<and> set new = set is - set (reach @ [i])" ..
    moreover have "visit (reach, pending) i = (reach @ [i], pending @ [i])" "set (i # is) - set reach = insert i (set is - set (reach @ [i]))"
      using False by (auto simp: visit_def)
    moreover have "i \<notin> set is - set (reach @ [i])" by simp
    ultimately show ?thesis by (intro exI [of _ "i # new"]) (simp only: foldl_Cons append.assoc append_Cons append_Nil distinct.simps list.simps simp_thms)
  qed
qed simp

lemma graph_ids_get: "i \<in> set (dict_get g d []) \<Longrightarrow> i \<in> graph_ids g"
  by (cases "map_of g d") (force simp: dict_get_def graph_ids_def dest: map_of_SomeD)+

function mark_loop :: "lineage \<Rightarrow> string list \<Rightarrow> string list \<Rightarrow> string list" where
  "mark_loop g reach pending =
     (if pending = [] then reach
      else case foldl visit (reach, butlast pending) (dict_get g (last pending) []) of (reach', pending') \<Rightarrow> mark_loop g reach' pending')"
  by pat_completeness auto
termination
proof (relation "measures [\<lambda>(g, reach, pending). card (graph_ids g - set reach), \<lambda>(g, reach, pending). length pending]")
  fix g :: lineage and reach pending reach' pending'
  assume pending: "pending \<noteq> []" and step: "(reach', pending') = foldl visit (reach, butlast pending) (dict_get g (last pending) [])"
  obtain new where new: "reach' = reach @ new" "pending' = butlast pending @ new" "set new = set (dict_get g (last pending) []) - set reach"
    using visit_fold [of reach "butlast pending" "dict_get g (last pending) []"] step by auto
  have "card (graph_ids g - set reach') < card (graph_ids g - set reach)" if "new \<noteq> []"
  proof (rule psubset_card_mono)
    have "last new \<in> set new" using that by simp
    then have "last new \<in> graph_ids g - set reach" "last new \<in> set reach'" using new graph_ids_get by auto
    then show "graph_ids g - set reach' \<subset> graph_ids g - set reach" using new(1) by auto
  qed (simp add: graph_ids_def)
  then show "((g, reach', pending'), (g, reach, pending))
      \<in> measures [\<lambda>(g, reach, pending). card (graph_ids g - set reach), \<lambda>(g, reach, pending). length pending]"
    using pending new by (cases "new = []") auto
qed simp

declare mark_loop.simps [simp del]

definition prune_plan :: "'w prune_ports \<Rightarrow> 'w rstate \<Rightarrow> (path list \<times> (path \<times> string) list) res" where
  "prune_plan P s =
     res_bind (validated_current_directories (pr_lake P) s) (\<lambda>(current, _).
     let w = rs_world s; dirs = scope_directories (lp_root (pr_lake P) w); (graph, unreadable) = lineage_graph P w dirs;
         by_text = sort_key (\<lambda>e. pr_path_text P (fst e)); unreadable_ids = map (\<lambda>e. path_name (fst e)) unreadable;
         registered = remdups (map snd current) in
     if \<not> list_all (\<lambda>i. i \<notin> set unreadable_ids) registered then Inr ([], by_text unreadable)
     else let reachable = mark_loop graph registered registered in
       Inr (sort_key (pr_path_text P) (filter (\<lambda>p. path_name p \<notin> set reachable \<and> path_name p \<notin> set unreadable_ids) dirs), by_text unreadable))"

section \<open>Verification\<close>

definition stale_inputs_for_directory :: "'w lake_ports \<Rightarrow> 'w \<Rightarrow> path option \<Rightarrow> string \<Rightarrow> string set \<Rightarrow> pointers \<Rightarrow> string set
    \<Rightarrow> (string \<times> string \<times> string \<times> string option) list" where
  "stale_inputs_for_directory P w dataset_dir dataset_id registered_ids current retired = (case dataset_dir of
       None \<Rightarrow> []
     | Some d \<Rightarrow>
         if dataset_id \<notin> registered_ids then []
         else (case lp_load_manifest P w d of
             Inl _ \<Rightarrow> []
           | Inr m \<Rightarrow> List.map_filter (\<lambda>(role, i).
               if i \<in> retired then None
               else (case dataset_kind_from_id i of
                   Inl _ \<Rightarrow> None
                 | Inr kind \<Rightarrow> if map_of current kind \<noteq> Some i then Some (role, kind, i, map_of current kind) else None)) (sort (dm_inputs m))))"

definition prune_emit :: "'w prune_ports \<Rightarrow> prune_event \<Rightarrow> ('w rstate, unit) act" where
  "prune_emit P e s = (pr_emit P e s, Inr ())"

definition verify_one :: "'w prune_ports \<Rightarrow> string set \<Rightarrow> pointers \<Rightarrow> string set \<Rightarrow> int \<times> int \<Rightarrow> string \<times> path option \<Rightarrow> ('w rstate, int \<times> int) act" where
  "verify_one P known current retired counts target s =
     (let w = rs_world s; (dataset_id, dataset_dir) = target;
          v = map_option (\<lambda>d. verify_dataset (pr_lake P) w d (\<lambda>i. i \<in> known)) dataset_dir;
          failures = (case v of None \<Rightarrow> [''registered dataset directory is missing or ambiguous: '' @ dataset_id] | Some v \<Rightarrow> dv_failures v);
          rows = (case v of None \<Rightarrow> 0 | Some v \<Rightarrow> dv_rows v);
          checks = (case v of None \<Rightarrow> [] | Some v \<Rightarrow> map dc_name (dv_failed_checks v));
          stale = stale_inputs_for_directory (pr_lake P) w dataset_dir dataset_id (snd ` set current) current retired in
      act_bind (prune_emit P (Verified dataset_id dataset_dir (failures \<noteq> []) rows failures checks stale)) (\<lambda>_.
      ret (fst counts + (if failures \<noteq> [] then 1 else 0), snd counts + (if stale \<noteq> [] then 1 else 0))) s)"

definition verify_targets :: "bool \<Rightarrow> path list \<Rightarrow> pointers \<Rightarrow> (string \<times> path option) list" where
  "verify_targets verify_all dirs current =
     (if verify_all then map (\<lambda>p. (path_name p, Some p)) dirs
      else map (\<lambda>(_, i). (i, case filter (\<lambda>p. path_name p = i) dirs of [p] \<Rightarrow> Some p | _ \<Rightarrow> None)) (sort current))"

definition verify_datasets :: "'w prune_ports \<Rightarrow> bool \<Rightarrow> ('w rstate, nat \<times> int \<times> int) act" where
  "verify_datasets P verify_all =
     act_bind (read_res (\<lambda>s. snapshot (rs_registry s))) (\<lambda>current.
     if current = [] then raise (PITDataError ''dataset registry has no current datasets'')
     else act_bind (read_res (\<lambda>s. retired_ids (rs_registry s))) (\<lambda>retired.
     act_bind (read (\<lambda>s. scope_directories (lp_root (pr_lake P) (rs_world s)))) (\<lambda>dirs.
     let targets = verify_targets verify_all dirs current; known = set (map path_name dirs) \<union> set (dict_keys retired) in
     act_bind (fold_act (verify_one P known current (set (dict_keys retired))) (0, 0) targets) (\<lambda>(failed, stale).
     ret (length targets, failed, stale)))))"

section \<open>Pruning\<close>

record prune_summary =
  ps_candidates :: nat
  ps_unreadable :: nat
  ps_applied :: bool
  ps_deleted :: "path list"
  ps_failed :: nat

text \<open>The removal of a tree reports the text of an \<open>OSError\<close>, after removing what it could.\<close>

definition keep_dir :: "'w prune_ports \<Rightarrow> path list \<times> nat \<Rightarrow> path \<Rightarrow> string \<Rightarrow> ('w rstate, path list \<times> nat) act" where
  "keep_dir P acc p text = act_bind (prune_emit P (DeleteFailed (path_name p) p text)) (\<lambda>_. ret (fst acc, snd acc + 1))"

definition remove_dir :: "'w prune_ports \<Rightarrow> path list \<times> nat \<Rightarrow> path \<Rightarrow> ('w rstate, path list \<times> nat) act" where
  "remove_dir P acc p s = (case pr_rmtree P (rs_world s) p of
       (w', None) \<Rightarrow> (s\<lparr>rs_world := w'\<rparr>, Inr (fst acc @ [p], snd acc))
     | (w', Some text) \<Rightarrow> keep_dir P acc p text (s\<lparr>rs_world := w'\<rparr>))"

definition delete_one :: "'w prune_ports \<Rightarrow> path list \<Rightarrow> path list \<times> nat \<Rightarrow> path \<Rightarrow> ('w rstate, path list \<times> nat) act" where
  "delete_one P revalidated acc p s =
     (let w = rs_world s; node = node_at (lp_root (pr_lake P) w) p in
      if p \<notin> set revalidated then (s, Inr acc)
      else if is_symlink node \<or> \<not> is_dir node then (s, Inr acc)
      else (case lp_load_manifest (pr_lake P) w p of
          Inr _ \<Rightarrow> remove_dir P acc p s
        | Inl e \<Rightarrow> if legacy_prunable_manifest P w p = None then keep_dir P acc p (error_text e) s else remove_dir P acc p s))"

definition prune_datasets :: "'w prune_ports \<Rightarrow> bool \<Rightarrow> ('w rstate, prune_summary) act" where
  "prune_datasets P apply_deletes =
     act_bind (read_res (prune_plan P)) (\<lambda>(candidates, unreadable).
     act_bind (each_act (\<lambda>p. prune_emit P (Prunable (path_name p) p apply_deletes)) candidates) (\<lambda>_.
     act_bind (each_act (\<lambda>(p, e). prune_emit P (UnreadableManifest (path_name p) p e)) unreadable) (\<lambda>_.
     if \<not> apply_deletes then
       ret \<lparr>ps_candidates = length candidates, ps_unreadable = length unreadable, ps_applied = False, ps_deleted = [], ps_failed = 0\<rparr>
     else act_bind (read_res (prune_plan P)) (\<lambda>(revalidated, again).
     act_bind (fold_act (delete_one P revalidated) ([], 0) candidates) (\<lambda>(deleted, failed).
     ret \<lparr>ps_candidates = length candidates, ps_unreadable = length (unreadable @ filter (\<lambda>e. e \<notin> set unreadable) again),
       ps_applied = True, ps_deleted = deleted, ps_failed = failed\<rparr>)))))"

end
