(* ===== verification/PruneProps.thy ===== *)
theory PruneProps
  imports Prune
begin

text \<open>
  Pruning: the worklist loop computes reachability over the lineage of the readable manifests, the plan is its
  complement, and only directories that are unreferenced at the plan and again at its revalidation are deleted.
\<close>

section \<open>The worklist loop is reachability\<close>

definition lineage_edges :: "lineage \<Rightarrow> (string \<times> string) set" where
  "lineage_edges g = {(d, i). i \<in> set (dict_get g d [])}"

lemma mark_loop_reachable:
  assumes "set pending \<subseteq> set reach" "\<And>d. d \<in> set reach - set pending \<Longrightarrow> lineage_edges g `` {d} \<subseteq> set reach"
  shows "set (mark_loop g reach pending) = (lineage_edges g)\<^sup>* `` set reach"
  using assms
proof (induction g reach pending rule: mark_loop.induct)
  case (1 g reach pending)
  show ?case
  proof (cases "pending = []")
    case True
    then have "lineage_edges g `` set reach \<subseteq> set reach" using 1(3) by auto
    then have "(lineage_edges g)\<^sup>* `` set reach = set reach" by (rule Image_closed_trancl)
    then show ?thesis using True by (simp add: mark_loop.simps [of g reach "[]"])
  next
    case False
    let ?ins = "dict_get g (last pending) []"
    obtain new where new: "foldl visit (reach, butlast pending) ?ins = (reach @ new, butlast pending @ new)" "set new = set ?ins - set reach"
      using visit_fold [of reach "butlast pending" ?ins] by blast
    have loop: "mark_loop g reach pending = mark_loop g (reach @ new) (butlast pending @ new)"
      using False new(1) by (simp add: mark_loop.simps [of g reach pending])
    have edges: "lineage_edges g `` {last pending} = set ?ins" by (auto simp: lineage_edges_def)
    have sub: "set (butlast pending) \<subseteq> set pending" by (auto dest: in_set_butlastD)
    have split: "set pending = insert (last pending) (set (butlast pending))"
      using False by (metis append_butlast_last_id list.set(1) list.set(2) set_append Un_insert_right sup_bot_right)
    have "set (mark_loop g (reach @ new) (butlast pending @ new)) = (lineage_edges g)\<^sup>* `` set (reach @ new)"
    proof (rule 1(1) [OF False new(1) [symmetric]])
      show "set (butlast pending @ new) \<subseteq> set (reach @ new)" using 1(2) sub by auto
      fix d assume d: "d \<in> set (reach @ new) - set (butlast pending @ new)"
      show "lineage_edges g `` {d} \<subseteq> set (reach @ new)"
      proof (cases "d = last pending")
        case True
        then show ?thesis using edges new(2) by auto
      next
        case False
        then have "d \<in> set reach - set pending" using d split by auto
        then show ?thesis using 1(3) by auto
      qed
    qed
    moreover have "set new \<subseteq> (lineage_edges g)\<^sup>* `` set reach"
    proof -
      have "last pending \<in> set reach" using 1(2) False by auto
      then show ?thesis using edges new(2) by (auto intro!: ImageI [of "last pending"])
    qed
    then have "(lineage_edges g)\<^sup>* `` set (reach @ new) = (lineage_edges g)\<^sup>* `` set reach"
      by (auto simp: Image_Un intro: rtrancl_trans)
    ultimately show ?thesis using loop by simp
  qed
qed

section \<open>The plan\<close>

definition scope_graph_at :: "'w prune_ports \<Rightarrow> 'w rstate \<Rightarrow> lineage" where
  "scope_graph_at P s = fst (lineage_graph P (rs_world s) (scope_directories (lp_root (pr_lake P) (rs_world s))))"

definition unreadable_at :: "'w prune_ports \<Rightarrow> 'w rstate \<Rightarrow> string set" where
  "unreadable_at P s = (\<lambda>e. path_name (fst e)) ` set (snd (lineage_graph P (rs_world s) (scope_directories (lp_root (pr_lake P) (rs_world s)))))"

definition unreferenced :: "'w prune_ports \<Rightarrow> 'w rstate \<Rightarrow> path \<Rightarrow> bool" where
  "unreferenced P s p \<longleftrightarrow> (\<exists>current. snapshot (rs_registry s) = Inr current \<and> current \<noteq> [] \<and> p \<in> set (scope_directories (lp_root (pr_lake P) (rs_world s)))
     \<and> path_name p \<notin> unreadable_at P s \<and> path_name p \<notin> (lineage_edges (scope_graph_at P s))\<^sup>* `` (snd ` set current))"

lemma prune_plan_Inr:
  assumes "prune_plan P s = Inr (orphans, unreadable)"
  obtains current where "snapshot (rs_registry s) = Inr current" "current \<noteq> []"
    "if snd ` set current \<inter> unreadable_at P s = {} then set orphans = {p. unreferenced P s p} else orphans = []"
proof -
  obtain current retired where v: "validated_current_directories (pr_lake P) s = Inr (current, retired)" using assms by (auto simp: prune_plan_def res_simps)
  then have cur: "snapshot (rs_registry s) = Inr current" "current \<noteq> []" by (auto simp: validated_current_directories_def res_simps Let_def)
  let ?dirs = "scope_directories (lp_root (pr_lake P) (rs_world s))"
  obtain g un where g: "lineage_graph P (rs_world s) ?dirs = (g, un)" by (rule prod.exhaust)
  have at: "scope_graph_at P s = g" "unreadable_at P s = set (map (\<lambda>e. path_name (fst e)) un)" by (auto simp: scope_graph_at_def unreadable_at_def g)
  have mark: "set (mark_loop g (remdups (map snd current)) (remdups (map snd current))) = (lineage_edges g)\<^sup>* `` (snd ` set current)"
    by (subst mark_loop_reachable) auto
  have "if snd ` set current \<inter> unreadable_at P s = {} then set orphans = {p. unreferenced P s p} else orphans = []"
  proof (cases "snd ` set current \<inter> unreadable_at P s = {}")
    case True
    then have "list_all (\<lambda>i. i \<notin> set (map (\<lambda>e. path_name (fst e)) un)) (remdups (map snd current))" by (auto simp: at list_all_iff)
    then have "orphans = sort_key (pr_path_text P) (filter (\<lambda>p. path_name p \<notin> set (mark_loop g (remdups (map snd current)) (remdups (map snd current)))
        \<and> path_name p \<notin> set (map (\<lambda>e. path_name (fst e)) un)) ?dirs)"
      using assms v g by (simp add: prune_plan_def Let_def)
    then have "set orphans = {p \<in> set ?dirs. path_name p \<notin> (lineage_edges g)\<^sup>* `` (snd ` set current) \<and> path_name p \<notin> unreadable_at P s}"
      by (simp only: set_sort set_filter mark at(2))
    moreover have "unreferenced P s p \<longleftrightarrow> p \<in> set ?dirs \<and> path_name p \<notin> unreadable_at P s \<and> path_name p \<notin> (lineage_edges g)\<^sup>* `` (snd ` set current)" for p
      using cur by (simp add: unreferenced_def at(1))
    ultimately have "set orphans = {p. unreferenced P s p}" by blast
    then show ?thesis using True by simp
  next
    case False
    then have "\<not> list_all (\<lambda>i. i \<notin> set (map (\<lambda>e. path_name (fst e)) un)) (remdups (map snd current))" by (auto simp: at list_all_iff)
    then show ?thesis using False assms v g by (auto simp: prune_plan_def)
  qed
  with that cur show thesis by blast
qed

section \<open>Deleting\<close>

lemma emits_run: "each_act (\<lambda>x. prune_emit P (f x)) xs s = (foldl (\<lambda>s e. pr_emit P e s) s (map f xs), Inr ())"
  unfolding each_act_def by (induction xs arbitrary: s) (simp_all add: act_bind_apply prune_emit_def)

lemma delete_one_deleted: "delete_one P revalidated acc p s = (s', Inr acc') \<Longrightarrow> set (fst acc') \<subseteq> insert p (set (fst acc)) \<and> (p \<in> set revalidated \<or> acc' = acc)"
  by (auto simp: delete_one_def remove_dir_def keep_dir_def Let_def act_bind_apply prune_emit_def split: if_splits sum.splits prod.splits option.splits)

lemma deletes_run:
  "fold_act (delete_one P revalidated) acc ps s = (s', Inr acc') \<Longrightarrow> set (fst acc') \<subseteq> set (fst acc) \<union> (set ps \<inter> set revalidated)"
proof (induction ps arbitrary: acc s)
  case (Cons p ps)
  then obtain t mid where one: "delete_one P revalidated acc p s = (t, Inr mid)" and "fold_act (delete_one P revalidated) mid ps t = (s', Inr acc')"
    by (auto simp: act_rules)
  then have "set (fst acc') \<subseteq> set (fst mid) \<union> (set ps \<inter> set revalidated)" using Cons.IH by blast
  then show ?case using delete_one_deleted [OF one] by auto
qed simp

definition announced :: "'w prune_ports \<Rightarrow> bool \<Rightarrow> path list \<Rightarrow> (path \<times> string) list \<Rightarrow> 'w rstate \<Rightarrow> 'w rstate" where
  "announced P apply_deletes candidates unreadable s = foldl (\<lambda>s e. pr_emit P e s) s
     (map (\<lambda>p. Prunable (path_name p) p apply_deletes) candidates @ map (\<lambda>(p, e). UnreadableManifest (path_name p) p e) unreadable)"

lemma prune_datasets_run:
  assumes "prune_datasets P apply_deletes s = (s', Inr summary)"
  obtains candidates unreadable where "prune_plan P s = Inr (candidates, unreadable)" "ps_candidates summary = length candidates"
    "apply_deletes \<or> ps_deleted summary = []"
    "apply_deletes \<Longrightarrow> \<exists>revalidated again. prune_plan P (announced P apply_deletes candidates unreadable s) = Inr (revalidated, again)
      \<and> set (ps_deleted summary) \<subseteq> set candidates \<inter> set revalidated"
proof -
  obtain candidates unreadable where plan: "prune_plan P s = Inr (candidates, unreadable)"
    using assms by (auto simp: prune_datasets_def act_rules)
  let ?t = "announced P apply_deletes candidates unreadable s"
  have pairs: "(\<lambda>(p, e). prune_emit P (UnreadableManifest (path_name p) p e)) = (\<lambda>x. prune_emit P (case x of (p, e) \<Rightarrow> UnreadableManifest (path_name p) p e))" by auto
  have run: "(if \<not> apply_deletes then
       ret \<lparr>ps_candidates = length candidates, ps_unreadable = length unreadable, ps_applied = False, ps_deleted = [], ps_failed = 0\<rparr>
     else act_bind (read_res (prune_plan P)) (\<lambda>(revalidated, again).
     act_bind (fold_act (delete_one P revalidated) ([], 0) candidates) (\<lambda>(deleted, failed).
     ret \<lparr>ps_candidates = length candidates, ps_unreadable = length (unreadable @ filter (\<lambda>e. e \<notin> set unreadable) again),
       ps_applied = True, ps_deleted = deleted, ps_failed = failed\<rparr>))) ?t = (s', Inr summary)"
    using assms plan by (simp add: prune_datasets_def act_bind_apply emits_run pairs announced_def)
  show thesis
  proof (rule that [OF plan])
    show "ps_candidates summary = length candidates" "apply_deletes \<or> ps_deleted summary = []"
      using run by (auto simp: act_rules split: if_splits)
    show "\<exists>revalidated again. prune_plan P ?t = Inr (revalidated, again) \<and> set (ps_deleted summary) \<subseteq> set candidates \<inter> set revalidated" if "apply_deletes"
      using run that deletes_run by (fastforce simp: act_rules)
  qed
qed

text \<open>C33. Pruning deletes only datasets that nothing current needs. When a prune returns, every directory it deleted was
  unreferenced both in the state it started from and in the state in which it revalidated, after whatever
  happened in between: no current pointer reaches it through the lineage of the readable manifests, and its own
  manifest is readable. Without \<open>apply\<close> nothing is deleted.\<close>

theorem prune_deletes_only_unreferenced:
  assumes "prune_datasets P apply_deletes s = (s', Inr summary)"
  shows "(apply_deletes \<or> ps_deleted summary = []) \<and> (\<exists>candidates unreadable. prune_plan P s = Inr (candidates, unreadable)
    \<and> list_all (\<lambda>p. unreferenced P s p \<and> unreferenced P (announced P apply_deletes candidates unreadable s) p) (ps_deleted summary))"
proof -
  obtain candidates unreadable where run: "prune_plan P s = Inr (candidates, unreadable)" "apply_deletes \<or> ps_deleted summary = []"
      "apply_deletes \<Longrightarrow> \<exists>revalidated again. prune_plan P (announced P apply_deletes candidates unreadable s) = Inr (revalidated, again)
        \<and> set (ps_deleted summary) \<subseteq> set candidates \<inter> set revalidated"
    using assms by (rule prune_datasets_run) blast
  have sub: "p \<in> set orphans \<Longrightarrow> prune_plan P t = Inr (orphans, un) \<Longrightarrow> unreferenced P t p" for p t orphans un
    by (erule prune_plan_Inr) (auto split: if_splits)
  show ?thesis
  proof (cases apply_deletes)
    case True
    with run(3) sub run(1) show ?thesis by (fastforce simp: list_all_iff)
  qed (use run in \<open>auto simp: list_all_iff\<close>)
qed

text \<open>C34. The plan is exactly the garbage. When every current dataset has a readable manifest, the candidates of a plan
  are precisely the directories of the scope with a readable manifest that no current pointer reaches; when a
  current dataset is unreadable there are none.\<close>

theorem prune_plan_is_the_unreachable_part:
  assumes "prune_plan P s = Inr (orphans, unreadable)"
  shows "\<exists>current. snapshot (rs_registry s) = Inr current \<and> current \<noteq> []
    \<and> (if snd ` set current \<inter> unreadable_at P s = {} then set orphans = {p. unreferenced P s p} else orphans = [])"
  using prune_plan_Inr [OF assms] by blast

section \<open>A scope with one dataset to delete\<close>

definition demo_scope_tree :: "path list \<Rightarrow> dataset_layer \<Rightarrow> fnode option" where
  "demo_scope_tree removed layer = (case layer of GOLD \<Rightarrow> None | SILVER \<Rightarrow> Some (FDir
     (filter (\<lambda>(name, _). (SILVER, [name]) \<notin> set removed)
       [(''a_0123456789abcdef'', FDir [(''manifest.json'', FFile)]), (''b_0123456789abcdef'', FDir [(''manifest.json'', FFile)])])))"

definition demo_scope_manifest :: "string \<Rightarrow> dataset_manifest" where
  "demo_scope_manifest i = \<lparr>dm_dataset_id = i, dm_kind = take 1 i, dm_layer = SILVER, dm_policy_version = ''v'', dm_inputs = [], dm_params = [],
     dm_partitions = [], dm_rows = 0, dm_checks = []\<rparr>"

definition demo_prune_ports :: "path list prune_ports" where
  "demo_prune_ports = \<lparr>pr_lake = \<lparr>lp_root = demo_scope_tree, lp_load_manifest = (\<lambda>_ p. Inr (demo_scope_manifest (path_name p))),
       lp_resolved_layer = (\<lambda>_ p. Some (fst p)), lp_partition = (\<lambda>_ _ _. PartMissing), lp_can_write = (\<lambda>_. True)\<rparr>,
     pr_read_json = (\<lambda>_ _ _. None), pr_rmtree = (\<lambda>w p. (p # w, None)), pr_path_text = path_name, pr_emit = (\<lambda>_ s. s)\<rparr>"

definition demo_scope_state :: "path list rstate" where
  "demo_scope_state = \<lparr>rs_registry = registry_payload [(''a'', ''a_0123456789abcdef'')] [], rs_world = []\<rparr>"

lemma demo_prune_plan: "prune_plan demo_prune_ports demo_scope_state = Inr ([(SILVER, [''b_0123456789abcdef''])], [])"
  by code_simp

lemma demo_prune: "snd (prune_datasets demo_prune_ports True demo_scope_state)
    = Inr \<lparr>ps_candidates = 1, ps_unreadable = 0, ps_applied = True, ps_deleted = [(SILVER, [''b_0123456789abcdef''])], ps_failed = 0\<rparr>"
  by code_simp

theorem prune_deletes_only_unreferenced_witness:
  "\<exists>s' summary. prune_datasets demo_prune_ports True demo_scope_state = (s', Inr summary) \<and> ps_deleted summary = [(SILVER, [''b_0123456789abcdef''])]
     \<and> unreferenced demo_prune_ports demo_scope_state (SILVER, [''b_0123456789abcdef''])"
proof -
  obtain s' where run: "prune_datasets demo_prune_ports True demo_scope_state
      = (s', Inr \<lparr>ps_candidates = 1, ps_unreadable = 0, ps_applied = True, ps_deleted = [(SILVER, [''b_0123456789abcdef''])], ps_failed = 0\<rparr>)"
    using demo_prune by (metis prod.collapse)
  then show ?thesis using prune_deletes_only_unreferenced [OF run] by auto
qed

theorem prune_plan_is_the_unreachable_part_witness:
  "\<exists>current. snapshot (rs_registry demo_scope_state) = Inr current \<and> current \<noteq> []"
  using prune_plan_is_the_unreachable_part [OF demo_prune_plan] by blast

text \<open>The lineage of an unreadable dataset is not followed: a dataset the current one was built from keeps its
  directory when its manifest is unreadable, and what it was built from in turn is planned for deletion.\<close>

definition demo_hidden_ports :: "path list prune_ports" where
  "demo_hidden_ports = demo_prune_ports\<lparr>pr_lake := (pr_lake demo_prune_ports)\<lparr>
     lp_root := (\<lambda>_ layer. case layer of GOLD \<Rightarrow> None | SILVER \<Rightarrow> Some (FDir (map (\<lambda>i. (i, FDir [(''manifest.json'', FFile)]))
       [''a_0123456789abcdef'', ''b_0123456789abcdef'', ''c_0123456789abcdef'']))),
     lp_load_manifest := (\<lambda>_ p. if path_name p = ''b_0123456789abcdef'' then Inl (PITDataError ''invalid dataset manifest'')
       else Inr (demo_scope_manifest (path_name p)\<lparr>dm_inputs := (if path_name p = ''a_0123456789abcdef'' then [(''base'', ''b_0123456789abcdef'')] else [])\<rparr>))\<rparr>\<rparr>"

lemma unreadable_datasets_hide_their_inputs:
  "prune_plan demo_hidden_ports demo_scope_state
    = Inr ([(SILVER, [''c_0123456789abcdef''])], [((SILVER, [''b_0123456789abcdef'']), ''invalid dataset manifest'')])"
  by code_simp

end
