(* ===== verification/Alerts.thy ===== *)
theory Alerts
  imports Quota
begin

text \<open>
  The operator alert layer (\<open>src/ops/alerts.py\<close>): one mail per message key and window, a ledger of what was
  sent, and an outbox of messages that could not be delivered.

  A JSON-lines file is the list of its records, \<open>None\<close> for a line that does not parse, and whether its last
  line lacks its line end; a file that is not valid UTF-8 is \<open>Undecodable\<close>. Files that a directory or the
  disk may refuse are outcomes of the environment \<open>alert_io\<close>, asked with the number of external actions so
  far, so that any sequence of failures is an environment. Texts are their UTF-8 bytes; the redaction and the
  normalisation of a text are the functions \<open>io_subject\<close> and \<open>io_body\<close>. The mail log is the record of what a
  sender accepted, with its time and key; the code does not read it, nor the list of dispatched keys. Clocks are
  instants in microseconds since 0001-01-01 UTC: the callers pass aware datetimes, which the normalisation to
  Korean time leaves at their instant.
\<close>

section \<open>Files of JSON lines\<close>

datatype 'a jsonl = Undecodable | Jsonl "'a option list" bool

datatype append_result = Appended | AppendRefused | AppendTorn

text \<open>A record appended behind an unfinished line becomes part of that line, which does not parse.\<close>

fun jsonl_append :: "append_result \<Rightarrow> 'a \<Rightarrow> 'a jsonl \<Rightarrow> 'a jsonl" where
  "jsonl_append r x Undecodable = Undecodable"
| "jsonl_append AppendRefused x (Jsonl xs torn) = Jsonl xs torn"
| "jsonl_append Appended x (Jsonl xs torn) = Jsonl (if torn then xs else xs @ [Some x]) False"
| "jsonl_append AppendTorn x (Jsonl xs torn) = Jsonl (if torn then xs else xs @ [None]) True"

definition decode_error :: py_error where
  "decode_error = ValueError ''codec can't decode byte''"

section \<open>Messages and their environment\<close>

record alert_message =
  am_subject :: string
  am_body :: string
  am_key :: string

datatype dispatch_outcome = SENT | SUPPRESSED | QUEUED

text \<open>\<open>SendFailed\<close> is one of the delivery errors the code catches; any other exception propagates.\<close>

datatype send_result = Delivered | SendFailed | SendRaised py_error

type_synonym alert_sender = "nat \<Rightarrow> string \<Rightarrow> string \<Rightarrow> send_result"

record alert_io =
  io_sender :: "alert_sender option"
  io_zone :: zone
  io_digest :: "string \<Rightarrow> string"
  io_subject :: "string \<Rightarrow> string"
  io_body :: "string \<Rightarrow> string"
  io_readable :: "nat \<Rightarrow> bool"
  io_append :: "nat \<Rightarrow> append_result"
  io_enqueue :: "nat \<Rightarrow> bool"
  io_listable :: "nat \<Rightarrow> bool"
  io_unlink :: "nat \<Rightarrow> bool"

datatype outbox_file = CorruptFile | QueuedFile (qf_subject: string) (qf_body: string) (qf_key: string)

record mail =
  ml_at :: int
  ml_key :: string
  ml_subject :: string
  ml_body :: string

record alert_dir =
  ad_sent :: "(py_datetime \<times> string) jsonl"
  ad_outbox :: "(string, outbox_file) dict"
  ad_mails :: "mail list"
  ad_asked :: "string list"
  ad_tick :: nat

definition ticked :: "'z alert_dir_scheme \<Rightarrow> 'z alert_dir_scheme" where
  "ticked w = w\<lparr>ad_tick := Suc (ad_tick w)\<rparr>"

section \<open>The ledger of sent mails\<close>

definition suppress_window :: int where
  "suppress_window = 24 * hour_us"

text \<open>A stamp without zone is Korean time, so the code subtracts wall clocks there and instants elsewhere.\<close>

definition elapsed :: "zone \<Rightarrow> int \<Rightarrow> py_datetime \<Rightarrow> int" where
  "elapsed tz now stamp = (case stamp of Aware t \<Rightarrow> now - t | Naive w \<Rightarrow> now + tz now - w)"

definition line_suppresses :: "zone \<Rightarrow> string \<Rightarrow> int \<Rightarrow> (py_datetime \<times> string) option \<Rightarrow> bool" where
  "line_suppresses tz key now line = (case line of
       None \<Rightarrow> False
     | Some (stamp, entry_key) \<Rightarrow> entry_key = key \<and> 0 \<le> elapsed tz now stamp \<and> elapsed tz now stamp < suppress_window)"

definition is_suppressed :: "alert_io \<Rightarrow> 'z alert_dir_scheme \<Rightarrow> string \<Rightarrow> int \<Rightarrow> bool res" where
  "is_suppressed io w key now =
     (if \<not> io_readable io (ad_tick w) then Inr False
      else case ad_sent w of
        Undecodable \<Rightarrow> Inl decode_error
      | Jsonl lines _ \<Rightarrow> Inr (list_ex (line_suppresses (io_zone io) key now) lines))"

definition append_ledger :: "alert_io \<Rightarrow> int \<Rightarrow> string \<Rightarrow> 'z alert_dir_scheme \<Rightarrow> 'z alert_dir_scheme" where
  "append_ledger io now key w =
     ticked (w\<lparr>ad_sent := jsonl_append (io_append io (ad_tick w)) (Aware now, key) (ad_sent w)\<rparr>)"

section \<open>The outbox\<close>

definition utc_stamp :: "int \<Rightarrow> string" where
  "utc_stamp t = (let d = date_of_ordinal (t div day_us + 1); r = t mod day_us in
     pad_digits 4 (year d) @ pad_digits 2 (month d) @ pad_digits 2 (day d) @ ''T''
     @ pad_digits 2 (r div hour_us) @ pad_digits 2 (r div 60000000 mod 60) @ pad_digits 2 (r div 1000000 mod 60)
     @ ''-'' @ pad_digits 6 (r mod 1000000) @ ''Z'')"

definition outbox_name :: "alert_io \<Rightarrow> int \<Rightarrow> string \<Rightarrow> string" where
  "outbox_name io now key = utc_stamp now @ ''-'' @ io_digest io key @ ''.json''"

definition is_json_name :: "string \<Rightarrow> bool" where
  "is_json_name name \<longleftrightarrow> suffix ''.json'' name"

definition enqueue :: "alert_io \<Rightarrow> int \<Rightarrow> string \<Rightarrow> string \<Rightarrow> string \<Rightarrow> 'z alert_dir_scheme \<Rightarrow> 'z alert_dir_scheme" where
  "enqueue io now subject body key w =
     ticked (if io_enqueue io (ad_tick w)
       then w\<lparr>ad_outbox := AList.update (outbox_name io now key) (QueuedFile subject body key) (ad_outbox w)\<rparr> else w)"

definition count_undelivered :: "alert_io \<Rightarrow> 'z alert_dir_scheme \<Rightarrow> nat" where
  "count_undelivered io w =
     (if io_listable io (ad_tick w) then length (filter is_json_name (dict_keys (ad_outbox w))) else 0)"

section \<open>Delivery\<close>

definition send_once :: "alert_sender \<Rightarrow> int \<Rightarrow> string \<Rightarrow> string \<Rightarrow> string \<Rightarrow> 'z alert_dir_scheme \<Rightarrow> 'z alert_dir_scheme \<times> send_result" where
  "send_once send now key subject body w = (case send (ad_tick w) subject body of
       Delivered \<Rightarrow> (ticked (w\<lparr>ad_mails := ad_mails w @ [\<lparr>ml_at = now, ml_key = key, ml_subject = subject, ml_body = body\<rparr>]\<rparr>), Delivered)
     | r \<Rightarrow> (ticked w, r))"

fun send_attempts :: "nat \<Rightarrow> alert_sender \<Rightarrow> int \<Rightarrow> string \<Rightarrow> string \<Rightarrow> string \<Rightarrow> 'z alert_dir_scheme \<Rightarrow> 'z alert_dir_scheme \<times> bool res" where
  "send_attempts 0 send now key subject body w = (w, Inr False)"
| "send_attempts (Suc n) send now key subject body w = (case send_once send now key subject body w of
       (w', Delivered) \<Rightarrow> (w', Inr True)
     | (w', SendFailed) \<Rightarrow> send_attempts n send now key subject body w'
     | (w', SendRaised e) \<Rightarrow> (w', Inl e))"

definition deliver :: "alert_io \<Rightarrow> int \<Rightarrow> string \<Rightarrow> string \<Rightarrow> string \<Rightarrow> 'z alert_dir_scheme \<Rightarrow> 'z alert_dir_scheme \<times> dispatch_outcome res" where
  "deliver io now key subject body w = (case io_sender io of
       None \<Rightarrow> (enqueue io now subject body key w, Inr QUEUED)
     | Some send \<Rightarrow> (case send_attempts 2 send now key subject body w of
         (w', Inl e) \<Rightarrow> (w', Inl e)
       | (w', Inr True) \<Rightarrow> (append_ledger io now key w', Inr SENT)
       | (w', Inr False) \<Rightarrow> (enqueue io now subject body key w', Inr QUEUED)))"

text \<open>The ledger that cannot be read never suppresses. A dispatch that returns leaves its key among the dispatched ones.\<close>

definition dispatch :: "alert_io \<Rightarrow> alert_message \<Rightarrow> int \<Rightarrow> 'z alert_dir_scheme \<Rightarrow> 'z alert_dir_scheme \<times> dispatch_outcome res" where
  "dispatch io m now w =
     (let subject = io_subject io (am_subject m); body = io_body io (am_body m); key = am_key m;
          suppressed = (case is_suppressed io w key now of Inl _ \<Rightarrow> False | Inr b \<Rightarrow> b);
          (w', r) = (if suppressed then (ticked w, Inr SUPPRESSED) else deliver io now key subject body (ticked w))
      in (case r of Inl _ \<Rightarrow> w' | Inr _ \<Rightarrow> w'\<lparr>ad_asked := ad_asked w' @ [key]\<rparr>, r))"

section \<open>Draining the outbox\<close>

definition unlink :: "alert_io \<Rightarrow> string \<Rightarrow> 'z alert_dir_scheme \<Rightarrow> 'z alert_dir_scheme \<times> bool" where
  "unlink io name w =
     (if io_unlink io (ad_tick w) then (ticked (w\<lparr>ad_outbox := AList.delete name (ad_outbox w)\<rparr>), True) else (ticked w, False))"

text \<open>One file of the outbox: the number of mails sent so far, and whether the loop goes on.\<close>

definition drain_file :: "alert_io \<Rightarrow> alert_sender \<Rightarrow> int \<Rightarrow> string \<Rightarrow> outbox_file \<Rightarrow> int \<Rightarrow> 'z alert_dir_scheme \<Rightarrow> 'z alert_dir_scheme \<times> (int \<times> bool) res" where
  "drain_file io send now name f delivered w = (case f of
       CorruptFile \<Rightarrow> (w, Inr (delivered, True))
     | QueuedFile s b key \<Rightarrow> (case is_suppressed io w key now of
         Inl e \<Rightarrow> (ticked w, Inl e)
       | Inr True \<Rightarrow> (case unlink io name (ticked w) of (w', gone) \<Rightarrow> (w', Inr (delivered, gone)))
       | Inr False \<Rightarrow> (case send_once send now key (io_subject io s) (io_body io b) (ticked w) of
           (w', SendFailed) \<Rightarrow> (w', Inr (delivered, False))
         | (w', SendRaised e) \<Rightarrow> (w', Inl e)
         | (w', Delivered) \<Rightarrow> (case unlink io name (append_ledger io now key w') of
             (w'', gone) \<Rightarrow> (w'', Inr (delivered + 1, gone))))))"

fun drain_names :: "alert_io \<Rightarrow> alert_sender \<Rightarrow> int \<Rightarrow> int \<Rightarrow> string list \<Rightarrow> int \<Rightarrow> 'z alert_dir_scheme \<Rightarrow> 'z alert_dir_scheme \<times> int res" where
  "drain_names io send now max_items [] delivered w = (w, Inr delivered)"
| "drain_names io send now max_items (name # names) delivered w =
     (if max_items \<le> delivered then (w, Inr delivered)
      else if \<not> is_json_name name then drain_names io send now max_items names delivered w
      else case map_of (ad_outbox w) name of
        None \<Rightarrow> drain_names io send now max_items names delivered w
      | Some f \<Rightarrow> (case drain_file io send now name f delivered w of
          (w', Inl e) \<Rightarrow> (w', Inl e)
        | (w', Inr (delivered', True)) \<Rightarrow> drain_names io send now max_items names delivered' w'
        | (w', Inr (delivered', False)) \<Rightarrow> (w', Inr delivered')))"

definition drain_outbox :: "alert_io \<Rightarrow> int \<Rightarrow> int \<Rightarrow> 'z alert_dir_scheme \<Rightarrow> 'z alert_dir_scheme \<times> int res" where
  "drain_outbox io now max_items w = (case io_sender io of
       None \<Rightarrow> (w, Inr 0)
     | Some send \<Rightarrow>
         if max_items \<le> 0 then (w, Inr 0)
         else if \<not> io_listable io (ad_tick w) then (ticked w, Inr 0)
         else drain_names io send now max_items (sort (dict_keys (ad_outbox w))) 0 (ticked w))"

end
