(* ===== verification/AlertPolicy.thy ===== *)
theory AlertPolicy
  imports Alerts Seal
begin

text \<open>
  The page policy (\<open>src/ops/alert_policy.py\<close>), the daily audit (\<open>src/ops/audit.py\<close>) and the two commands that
  run them (\<open>alert\<close> and \<open>audit\<close> of \<open>src/ops/jobs.py\<close>).

  The alert directory is extended by the failure ledger, the heartbeat of the last audit and the open incidents.
  What the commands only read is the record \<open>observed\<close>: the outcome events of each day, the decision directory,
  the backup status and what the walks over the shadow directory, the loose Bronze files and the data root found.
  The Korean wording of the pages and the text of the failure cause are functions of the environment.
\<close>

section \<open>Incidents\<close>

datatype incident_kind = NO_SEAL | EVENTS_UNREADABLE | BACKUP_STALE | COLLECT_EVE_STREAK | COLLECT_DBSEC_STREAK | AUCTION_OPEN_STREAK

definition all_kinds :: "incident_kind list" where
  "all_kinds = [NO_SEAL, EVENTS_UNREADABLE, BACKUP_STALE, COLLECT_EVE_STREAK, COLLECT_DBSEC_STREAK, AUCTION_OPEN_STREAK]"

fun kind_value :: "incident_kind \<Rightarrow> string" where
  "kind_value NO_SEAL = ''no_seal''"
| "kind_value EVENTS_UNREADABLE = ''events_unreadable''"
| "kind_value BACKUP_STALE = ''backup_stale''"
| "kind_value COLLECT_EVE_STREAK = ''collect_eve_streak''"
| "kind_value COLLECT_DBSEC_STREAK = ''collect_dbsec_streak''"
| "kind_value AUCTION_OPEN_STREAK = ''auction_open_streak''"

text \<open>The kind with a value, if there is one, and \<open>IncidentKind(value)\<close>, which raises otherwise.\<close>

definition kind_of_value :: "string \<Rightarrow> incident_kind option" where
  "kind_of_value v = List.find (\<lambda>k. kind_value k = v) all_kinds"

definition kind_from_value :: "string \<Rightarrow> incident_kind res" where
  "kind_from_value v = (case kind_of_value v of Some k \<Rightarrow> Inr k | None \<Rightarrow> Inl (ValueError ''is not a valid IncidentKind''))"

record alert_policy =
  streak_threshold :: int
  streak_lookback_days :: int
  backup_stale_after :: int
  recovery_units :: "(string, string) dict"
  critical_units :: "(string, incident_kind) dict"
  streak_units :: "(string, string \<times> incident_kind) dict"
  audit_unit :: string
  audit_issue_kinds :: "(string, incident_kind) dict"
  closed_day_kinds :: "incident_kind list"

definition alert_policy_init :: "alert_policy \<Rightarrow> alert_policy res" where
  "alert_policy_init p =
     guard (streak_threshold p < 1) (ValueError ''streak_threshold must be >= 1'') (
     guard (streak_lookback_days p < streak_threshold p) (ValueError ''streak_lookback_days must cover streak_threshold'') (
     guard (backup_stale_after p \<le> 0) (ValueError ''backup_stale_after must be positive'') (Inr p)))"

definition DEFAULT_ALERT_POLICY :: alert_policy where
  "DEFAULT_ALERT_POLICY = \<lparr>streak_threshold = 3, streak_lookback_days = 14, backup_stale_after = 2 * day_us,
     recovery_units = [(''kse-morning.service'', ''kse-morning-late.service'')],
     critical_units = [(''kse-morning-late.service'', NO_SEAL)],
     streak_units = [(''kse-collect-eve.service'', ''collect_eve'', COLLECT_EVE_STREAK),
       (''kse-collect-dbsec.service'', ''collect_dbsec'', COLLECT_DBSEC_STREAK),
       (''kse-auction-open.service'', ''auction_open'', AUCTION_OPEN_STREAK)],
     audit_unit = ''kse-daily-audit.service'',
     audit_issue_kinds = [(''decision'', NO_SEAL), (''events'', EVENTS_UNREADABLE), (''backup_stale'', BACKUP_STALE),
       (''collect_eve_streak'', COLLECT_EVE_STREAK), (''collect_dbsec_streak'', COLLECT_DBSEC_STREAK),
       (''auction_open_streak'', AUCTION_OPEN_STREAK)],
     closed_day_kinds = [BACKUP_STALE]\<rparr>"

definition streak_issue_key :: "string \<Rightarrow> string" where
  "streak_issue_key job = job @ ''_streak''"

definition incident_key :: "incident_kind \<Rightarrow> date \<Rightarrow> string" where
  "incident_key kind d = ''incident|'' @ kind_value kind @ ''|'' @ isoformat d"

definition resolved_key :: "incident_kind \<Rightarrow> date \<Rightarrow> string" where
  "resolved_key kind d = ''resolved|'' @ kind_value kind @ ''|'' @ isoformat d"

text \<open>Subject and body of a page, and of the notice that an incident is resolved, for a streak threshold.\<close>

record wording =
  page_wording :: "incident_kind \<Rightarrow> int \<Rightarrow> string \<times> string"
  resolved_wording :: "incident_kind \<Rightarrow> int \<Rightarrow> string \<times> string"

definition build_page :: "wording \<Rightarrow> incident_kind \<Rightarrow> date \<Rightarrow> alert_message" where
  "build_page words kind d = (case page_wording words kind (streak_threshold DEFAULT_ALERT_POLICY) of
     (subject, body) \<Rightarrow> \<lparr>am_subject = subject, am_body = body, am_key = incident_key kind d\<rparr>)"

definition build_resolved :: "wording \<Rightarrow> incident_kind \<Rightarrow> date \<Rightarrow> alert_message" where
  "build_resolved words kind d = (case resolved_wording words kind (streak_threshold DEFAULT_ALERT_POLICY) of
     (subject, body) \<Rightarrow> \<lparr>am_subject = subject, am_body = body, am_key = resolved_key kind d\<rparr>)"

definition audit_incidents :: "alert_policy \<Rightarrow> (string \<times> string) list \<Rightarrow> incident_kind list" where
  "audit_incidents p issues = foldl (\<lambda>found (key, _). case map_of (audit_issue_kinds p) key of
       Some kind \<Rightarrow> if kind \<in> set found then found else found @ [kind]
     | None \<Rightarrow> found) [] issues"

definition evaluated_kinds :: "alert_policy \<Rightarrow> string \<Rightarrow> incident_kind list" where
  "evaluated_kinds p day_kind = (if day_kind = ''trading'' then all_kinds else closed_day_kinds p)"

section \<open>What the commands read\<close>

datatype stamp_text = NotText | BadText | At py_datetime

record backup_status =
  bs_rc :: "int option"
  bs_finished_at :: "stamp_text option"
  bs_last_ok_at :: "stamp_text option"

datatype status_file = NoStatus | OtherStatus | Status backup_status

text \<open>An event line: blank, a record with its job and outcome where it has them, or anything else.\<close>

datatype event_line = BlankEvent | BadEvent | Event "string option" "string option"

text \<open>The event file of a day: refused by the disk, not valid UTF-8, or its lines, none when it is missing.\<close>

datatype event_file = EventsRefused | EventsUndecodable | Events "event_line list"

record failure_record =
  fr_ts :: int
  fr_date :: string
  fr_unit :: string
  fr_result :: string
  fr_exit_status :: string
  fr_cause :: string

record observed =
  ob_events :: "date \<Rightarrow> event_file"
  ob_calendar :: "date \<Rightarrow> date \<Rightarrow> exchange_calendar"
  ob_sha :: digest
  ob_decisions :: chain_dir
  ob_backup :: status_file
  ob_divergences :: nat
  ob_loose_bronze :: nat
  ob_bytes :: int

record heartbeat =
  hb_finished_at :: int
  hb_severity :: string
  hb_day_kind :: string
  hb_snapshot_date :: string
  hb_undelivered :: nat
  hb_open_issues :: "(string \<times> string) list"
  hb_critical :: "string list"

record ops_dir = alert_dir +
  od_failures :: "failure_record jsonl"
  od_heartbeat :: "heartbeat option"
  od_incidents :: "(string \<times> string) list option"

section \<open>Streaks of failed days\<close>

definition backup_is_stale :: "alert_policy \<Rightarrow> backup_status \<Rightarrow> int \<Rightarrow> bool" where
  "backup_is_stale p s now = (case (if bs_rc s = Some 0 then bs_finished_at s else bs_last_ok_at s) of
       Some (At (Aware t)) \<Rightarrow> backup_stale_after p \<le> now - t
     | _ \<Rightarrow> False)"

text \<open>A missing or refused event file has no records; one that is not UTF-8 raises.\<close>

definition latest_outcome :: "observed \<Rightarrow> date \<Rightarrow> string \<Rightarrow> string option res" where
  "latest_outcome ob d job = (case ob_events ob d of
       EventsUndecodable \<Rightarrow> Inl decode_error
     | EventsRefused \<Rightarrow> Inr None
     | Events lines \<Rightarrow> Inr (foldl (\<lambda>latest line. case line of
           Event (Some j) outcome \<Rightarrow> if j = job then Some (case outcome of None \<Rightarrow> ''None'' | Some s \<Rightarrow> s) else latest
         | _ \<Rightarrow> latest) None lines))"

definition failure_days :: "failure_record jsonl \<Rightarrow> string \<Rightarrow> date list res" where
  "failure_days file unit = (case file of
       Undecodable \<Rightarrow> Inl decode_error
     | Jsonl lines _ \<Rightarrow> Inr (List.map_filter (\<lambda>line. case line of
           None \<Rightarrow> None
         | Some r \<Rightarrow> if fr_unit r \<noteq> unit then None
             else (case fromisoformat (fr_date r) of Inr d \<Rightarrow> Some d | Inl _ \<Rightarrow> None)) lines))"

definition day_before :: "date \<Rightarrow> nat \<Rightarrow> date res" where
  "day_before today n = guard (toordinal today - int n < 1) (OverflowError ''date value out of range'')
     (Inr (date_of_ordinal (toordinal today - int n)))"

text \<open>The loop of \<open>consecutive_failure_days\<close> over the offsets that are left.\<close>

fun streak_loop :: "observed \<Rightarrow> string \<Rightarrow> date list \<Rightarrow> date \<Rightarrow> nat list \<Rightarrow> int \<Rightarrow> int res" where
  "streak_loop ob job failed today [] count = Inr count"
| "streak_loop ob job failed today (n # ns) count =
     res_bind (day_before today n) (\<lambda>d.
     res_bind (latest_outcome ob d job) (\<lambda>outcome.
     if d \<in> set failed \<and> outcome \<noteq> Some ''OK'' then streak_loop ob job failed today ns (count + 1)
     else if n = 0 then Inr 0
     else if outcome = None \<or> outcome = Some ''SKIPPED'' then streak_loop ob job failed today ns count
     else Inr count))"

definition consecutive_failure_days :: "alert_policy \<Rightarrow> observed \<Rightarrow> failure_record jsonl \<Rightarrow> string \<Rightarrow> string \<Rightarrow> date \<Rightarrow> int res" where
  "consecutive_failure_days p ob failures job unit today =
     res_bind (failure_days failures unit) (\<lambda>failed.
     streak_loop ob job failed today [0..<nat (streak_lookback_days p)] 0)"

definition unit_incidents :: "alert_policy \<Rightarrow> observed \<Rightarrow> failure_record jsonl \<Rightarrow> string \<Rightarrow> date \<Rightarrow> string list \<Rightarrow> incident_kind list res" where
  "unit_incidents p ob failures unit today audit_critical =
     (if unit \<in> set (dict_keys (recovery_units p)) then Inr []
      else case map_of (critical_units p) unit of
        Some kind \<Rightarrow> Inr [kind]
      | None \<Rightarrow> (case map_of (streak_units p) unit of
          Some (job, kind) \<Rightarrow> res_bind (consecutive_failure_days p ob failures job unit today) (\<lambda>n.
            Inr (if streak_threshold p \<le> n then [kind] else []))
        | None \<Rightarrow> Inr (if unit = audit_unit p then List.map_filter kind_of_value audit_critical else [])))"

end
