(* ===== verification/OpsJobs.thy ===== *)
theory OpsJobs
  imports AlertPolicy
begin

text \<open>
  The daily audit (\<open>src/ops/audit.py\<close>) and the commands \<open>alert\<close> and \<open>audit\<close> (\<open>src/ops/jobs.py\<close>) over the
  alert directory. The subject line of the heartbeat is not part of
  the model, and an issue's text ends before the class name of an exception. Beside the environment of the
  alert layer the commands have their own: whether the failure ledger takes a record and whether the open
  incidents can be replaced. Writing the heartbeat does not fail here.
\<close>

section \<open>The checks of the audit\<close>

definition trading_day :: "(date \<Rightarrow> date \<Rightarrow> exchange_calendar) \<Rightarrow> zone \<Rightarrow> date \<Rightarrow> bool res" where
  "trading_day get_calendar tz d =
     res_bind (xkrx_calendar_through get_calendar d) (\<lambda>cal. Inr (list_ex (\<lambda>t. local_date tz t = d) (sessions cal)))"

text \<open>The strict reader of the outcomes: any line it cannot use makes the whole file unreadable.\<close>

definition read_outcome :: "(string, string) dict \<Rightarrow> event_line \<Rightarrow> (string, string) dict res" where
  "read_outcome latest line = (case line of
       BlankEvent \<Rightarrow> Inr latest
     | BadEvent \<Rightarrow> Inl (ValueError ''Expecting value'')
     | Event (Some job) (Some outcome) \<Rightarrow> Inr (AList.update job outcome latest)
     | Event _ _ \<Rightarrow> Inl (KeyError ''outcome''))"

definition load_run_outcomes :: "event_file \<Rightarrow> (string, string) dict res" where
  "load_run_outcomes file = (case file of
       EventsRefused \<Rightarrow> Inl (RuntimeError ''event file refused'')
     | EventsUndecodable \<Rightarrow> Inl decode_error
     | Events lines \<Rightarrow> foldM read_outcome [] lines)"

definition EXPECTED_JOBS :: "string list" where
  "EXPECTED_JOBS = [''collect_eve'', ''collect_dbsec'', ''morning'', ''auction_open'', ''backup'']"

type_synonym issue = "string \<times> string"

definition job_issues :: "(string, string) dict \<Rightarrow> issue list" where
  "job_issues outcomes = List.map_filter (\<lambda>job. case map_of outcomes job of
       None \<Rightarrow> Some (job, ''no outcome for '' @ job)
     | Some outcome \<Rightarrow> if outcome = ''DEGRADED'' \<or> outcome = ''NO_DECISION'' then Some (job, job @ '' ended '' @ outcome) else None) EXPECTED_JOBS"

definition backup_issue :: "status_file \<Rightarrow> int \<Rightarrow> string option" where
  "backup_issue file now = (case file of
       NoStatus \<Rightarrow> Some ''backup status is missing or unreadable''
     | OtherStatus \<Rightarrow> Some ''backup status is malformed''
     | Status s \<Rightarrow> (case (bs_finished_at s, bs_rc s) of
         (Some (At finished), Some rc) \<Rightarrow> (case finished of
             Naive _ \<Rightarrow> Some ''backup status finished_at is naive''
           | Aware t \<Rightarrow>
               if rc \<noteq> 0 then Some (''backup last finished with rc='' @ str_int rc)
               else if now < t then Some ''backup timestamp is in the future''
               else if 26 * hour_us < now - t then Some ''backup is older than 26 h''
               else None)
       | _ \<Rightarrow> Some ''backup status is malformed''))"

definition backup_stale_issue :: "alert_policy \<Rightarrow> status_file \<Rightarrow> int \<Rightarrow> issue list" where
  "backup_stale_issue p file now = (case file of
       Status s \<Rightarrow> if backup_is_stale p s now then [(''backup_stale'', ''last successful backup is older than the stale limit'')] else []
     | _ \<Rightarrow> [])"

definition streak_issue :: "alert_policy \<Rightarrow> observed \<Rightarrow> failure_record jsonl \<Rightarrow> date \<Rightarrow> string \<times> string \<times> incident_kind \<Rightarrow> issue list res" where
  "streak_issue p ob failures today entry = (case entry of (unit, job, _) \<Rightarrow>
     res_bind (consecutive_failure_days p ob failures job unit today) (\<lambda>n.
     Inr (if streak_threshold p \<le> n then [(streak_issue_key job, job @ '' failed '' @ str_int n @ '' consecutive run days'')] else [])))"

definition streak_issues :: "alert_policy \<Rightarrow> observed \<Rightarrow> failure_record jsonl \<Rightarrow> date \<Rightarrow> issue list res" where
  "streak_issues p ob failures today = res_bind (mapM (streak_issue p ob failures today) (streak_units p)) (\<lambda>found. Inr (concat found))"

text \<open>\<open>max(todays, key=sealed_at)\<close> keeps the first of equal decisions.\<close>

definition later_sealed :: "sealed_decision \<Rightarrow> sealed_decision \<Rightarrow> sealed_decision res" where
  "later_sealed best item = res_bind (stamp_less (sd_sealed_at best) (sd_sealed_at item)) (\<lambda>later. Inr (if later then item else best))"

definition korean_wall :: "zone \<Rightarrow> stamp \<Rightarrow> int" where
  "korean_wall tz t = (case offset t of None \<Rightarrow> wall t | Some off \<Rightarrow> wall t - off + tz (wall t - off))"

definition decision_issues :: "zone \<Rightarrow> digest \<Rightarrow> chain_dir \<Rightarrow> date \<Rightarrow> issue list res" where
  "decision_issues tz sha dir today = (case read_chain sha dir of
       Inl _ \<Rightarrow> Inr [(''decision'', ''decision chain is broken'')]
     | Inr chain \<Rightarrow> (case filter (\<lambda>d. sd_execution_session d = today) chain of
         [] \<Rightarrow> Inr [(''decision'', ''no sealed decision for today'')]
       | d # ds \<Rightarrow> res_bind (foldM later_sealed d ds) (\<lambda>latest.
           Inr (if (toordinal today - 1) * day_us + 9 * hour_us \<le> korean_wall tz (sd_sealed_at latest)
             then [(''late_seal'', ''latest decision was sealed after the open'')] else []))))"

definition optional_issue :: "string \<Rightarrow> string option \<Rightarrow> issue list" where
  "optional_issue key problem = (case problem of None \<Rightarrow> [] | Some text \<Rightarrow> [(key, text)])"

definition trading_issues :: "zone \<Rightarrow> alert_policy \<Rightarrow> observed \<Rightarrow> failure_record jsonl \<Rightarrow> date \<Rightarrow> int \<Rightarrow> issue list res" where
  "trading_issues tz p ob failures today now =
     (let (outcomes, unreadable) = (case load_run_outcomes (ob_events ob today) of
            Inl _ \<Rightarrow> ([], [(''events'', ''outcomes unreadable'')])
          | Inr outcomes \<Rightarrow> (outcomes, [])) in
     res_bind (decision_issues tz (ob_sha ob) (ob_decisions ob) today) (\<lambda>decision.
     res_bind (streak_issues p ob failures today) (\<lambda>streaks.
     Inr (unreadable @ job_issues outcomes @ decision
       @ (if ob_divergences ob = 0 then [] else [(''divergence'', str_nat (ob_divergences ob) @ '' fresh divergence file(s)'')])
       @ optional_issue ''backup'' (backup_issue (ob_backup ob) now) @ streaks
       @ (if ob_loose_bronze ob = 0 then [] else [(''bronze_loose'', str_nat (ob_loose_bronze ob) @ '' loose Bronze file(s) older than 14 days'')])
       @ (if 10 * 1024 ^ 3 < ob_bytes ob then [(''footprint'', ''data root is above 10 GiB'')] else [])))))"

definition run_daily_audit :: "zone \<Rightarrow> alert_policy \<Rightarrow> observed \<Rightarrow> failure_record jsonl \<Rightarrow> date \<Rightarrow> int \<Rightarrow> nat \<Rightarrow> heartbeat res" where
  "run_daily_audit tz p ob failures today now undelivered =
     res_bind (trading_day (ob_calendar ob) tz today) (\<lambda>trading.
     res_bind (if trading then trading_issues tz p ob failures today now
               else Inr (optional_issue ''backup'' (backup_issue (ob_backup ob) now))) (\<lambda>found.
     let issues = found @ backup_stale_issue p (ob_backup ob) now in
     Inr \<lparr>hb_finished_at = now,
       hb_severity = (if \<not> trading then ''HOLIDAY_SKIP'' else if found = [] then ''OK'' else ''WARNING''),
       hb_day_kind = (if trading then ''trading'' else ''closed''),
       hb_snapshot_date = isoformat today, hb_undelivered = undelivered, hb_open_issues = issues,
       hb_critical = map kind_value (audit_incidents p issues)\<rparr>))"

section \<open>The open incidents\<close>

record ops_io = alert_io +
  io_words :: wording
  io_cause :: "string \<Rightarrow> string"
  io_note :: "nat \<Rightarrow> append_result"
  io_save :: "nat \<Rightarrow> bool"

abbreviation (input) mail_io :: "ops_io \<Rightarrow> alert_io" where
  "mail_io io \<equiv> alert_io.truncate io"

definition load_open_incidents :: "ops_dir \<Rightarrow> (incident_kind, string) dict" where
  "load_open_incidents w = (case od_incidents w of
       None \<Rightarrow> []
     | Some raw \<Rightarrow> List.map_filter (\<lambda>(v, d). map_option (\<lambda>kind. (kind, d)) (kind_of_value v)) raw)"

definition save_open_incidents :: "ops_io \<Rightarrow> (incident_kind, string) dict \<Rightarrow> ops_dir \<Rightarrow> ops_dir" where
  "save_open_incidents io incidents w =
     ticked (if io_save io (ad_tick w)
       then w\<lparr>od_incidents := Some (map (\<lambda>(kind, d). (kind_value kind, d)) (sort_key (\<lambda>(kind, _). kind_value kind) incidents))\<rparr> else w)"

definition record_unit_failure :: "ops_io \<Rightarrow> string \<Rightarrow> string \<Rightarrow> string \<Rightarrow> string \<Rightarrow> int \<Rightarrow> ops_dir \<Rightarrow> ops_dir" where
  "record_unit_failure io unit result exit_status cause now w =
     ticked (w\<lparr>od_failures := jsonl_append (io_note io (ad_tick w))
       \<lparr>fr_ts = now div 1000000 * 1000000, fr_date = isoformat (local_date (io_zone io) now), fr_unit = unit,
         fr_result = result, fr_exit_status = exit_status, fr_cause = cause\<rparr> (od_failures w)\<rparr>)"

definition heartbeat_critical :: "ops_dir \<Rightarrow> date \<Rightarrow> string list" where
  "heartbeat_critical w today = (case od_heartbeat w of
       None \<Rightarrow> []
     | Some hb \<Rightarrow> if hb_snapshot_date hb = isoformat today then hb_critical hb else [])"

section \<open>The commands\<close>

text \<open>The loop over the kinds: one dispatch each, the first page of a kind remembers its day.\<close>

fun page_kinds :: "ops_io \<Rightarrow> date \<Rightarrow> int \<Rightarrow> incident_kind list \<Rightarrow> bool \<Rightarrow> (incident_kind, string) dict \<Rightarrow> ops_dir \<Rightarrow> ops_dir \<times> (bool \<times> (incident_kind, string) dict) res" where
  "page_kinds io today now [] queued opened w = (w, Inr (queued, opened))"
| "page_kinds io today now (kind # kinds) queued opened w = (case dispatch (mail_io io) (build_page (io_words io) kind today) now w of
       (w', Inl e) \<Rightarrow> (w', Inl e)
     | (w', Inr outcome) \<Rightarrow> page_kinds io today now kinds (queued \<or> outcome = QUEUED)
         (if kind \<in> set (dict_keys opened) then opened else AList.update kind (isoformat today) opened) w')"

definition page :: "ops_io \<Rightarrow> incident_kind list \<Rightarrow> date \<Rightarrow> int \<Rightarrow> ops_dir \<Rightarrow> ops_dir \<times> bool res" where
  "page io kinds today now w = (case page_kinds io today now kinds False (load_open_incidents w) w of
       (w', Inl e) \<Rightarrow> (w', Inl e)
     | (w', Inr (queued, opened)) \<Rightarrow> (if kinds = [] then w' else save_open_incidents io opened w', Inr queued))"

definition alert :: "ops_io \<Rightarrow> observed \<Rightarrow> string \<Rightarrow> string \<Rightarrow> string \<Rightarrow> string \<Rightarrow> int \<Rightarrow> ops_dir \<Rightarrow> ops_dir \<times> int res" where
  "alert io ob unit result exit_status journal_tail now w =
     (let today = local_date (io_zone io) now in
     case drain_outbox (mail_io io) now 20 w of
       (w1, Inl e) \<Rightarrow> (w1, Inl e)
     | (w1, Inr _) \<Rightarrow>
         let w2 = record_unit_failure io unit result exit_status (io_cause io journal_tail) now w1;
             critical = (if unit = ''kse-daily-audit.service'' then heartbeat_critical w2 today else []) in
         (case unit_incidents DEFAULT_ALERT_POLICY ob (od_failures w2) unit today critical of
            Inl e \<Rightarrow> (w2, Inl e)
          | Inr kinds \<Rightarrow>
              if kinds = [] then (w2, Inr 0)
              else case page io kinds today now w2 of
                (w3, Inl e) \<Rightarrow> (w3, Inl e)
              | (w3, Inr queued) \<Rightarrow> (w3, Inr (if queued then 1 else 0))))"

fun announce_resolved :: "ops_io \<Rightarrow> date \<Rightarrow> int \<Rightarrow> incident_kind list \<Rightarrow> (incident_kind, string) dict \<Rightarrow> ops_dir \<Rightarrow> ops_dir \<times> (incident_kind, string) dict res" where
  "announce_resolved io today now [] opened w = (w, Inr opened)"
| "announce_resolved io today now (kind # kinds) opened w = (case dispatch (mail_io io) (build_resolved (io_words io) kind today) now w of
       (w', Inl e) \<Rightarrow> (w', Inl e)
     | (w', Inr _) \<Rightarrow> announce_resolved io today now kinds (AList.delete kind opened) w')"

definition resolve_incidents :: "ops_io \<Rightarrow> incident_kind list \<Rightarrow> incident_kind list \<Rightarrow> date \<Rightarrow> int \<Rightarrow> ops_dir \<Rightarrow> ops_dir \<times> unit res" where
  "resolve_incidents io kinds checked today now w =
     (let opened = load_open_incidents w;
          resolved = filter (\<lambda>kind. kind \<in> set checked \<and> kind \<notin> set kinds) (dict_keys opened) in
     case announce_resolved io today now resolved opened w of
       (w', Inl e) \<Rightarrow> (w', Inl e)
     | (w', Inr left) \<Rightarrow> (if resolved = [] then w' else save_open_incidents io left w', Inr ()))"

definition audit :: "ops_io \<Rightarrow> observed \<Rightarrow> date \<Rightarrow> int \<Rightarrow> ops_dir \<Rightarrow> ops_dir \<times> int res" where
  "audit io ob today now w = (case drain_outbox (mail_io io) now 20 w of
       (w1, Inl e) \<Rightarrow> (w1, Inl e)
     | (w1, Inr _) \<Rightarrow> (case run_daily_audit (io_zone io) DEFAULT_ALERT_POLICY ob (od_failures w1) today now (count_undelivered (mail_io io) w1) of
         Inl e \<Rightarrow> (w1, Inl e)
       | Inr hb \<Rightarrow> (case mapM kind_from_value (hb_critical hb) of
           Inl e \<Rightarrow> (w1\<lparr>od_heartbeat := Some hb\<rparr>, Inl e)
         | Inr kinds \<Rightarrow> (case page io kinds today now (w1\<lparr>od_heartbeat := Some hb\<rparr>) of
             (w2, Inl e) \<Rightarrow> (w2, Inl e)
           | (w2, Inr queued) \<Rightarrow> (case resolve_incidents io kinds (evaluated_kinds DEFAULT_ALERT_POLICY (hb_day_kind hb)) today now w2 of
               (w3, Inl e) \<Rightarrow> (w3, Inl e)
             | (w3, Inr _) \<Rightarrow> (w3, Inr (if queued then 1 else 0)))))))"

section \<open>Sequences of commands\<close>

datatype ops_call =
    AlertCall ops_io observed string string string string int
  | AuditCall ops_io observed date int

fun call_io :: "ops_call \<Rightarrow> alert_io" where
  "call_io (AlertCall io _ _ _ _ _ _) = mail_io io"
| "call_io (AuditCall io _ _ _) = mail_io io"

fun call_time :: "ops_call \<Rightarrow> int" where
  "call_time (AlertCall _ _ _ _ _ _ now) = now"
| "call_time (AuditCall _ _ _ now) = now"

fun call_day :: "ops_call \<Rightarrow> date" where
  "call_day (AlertCall io _ _ _ _ _ now) = local_date (io_zone io) now"
| "call_day (AuditCall _ _ today _) = today"

fun run_call :: "ops_dir \<Rightarrow> ops_call \<Rightarrow> ops_dir" where
  "run_call w (AlertCall io ob unit result exit_status tail now) = fst (alert io ob unit result exit_status tail now w)"
| "run_call w (AuditCall io ob today now) = fst (audit io ob today now w)"

end
