(* ===== verification/AlertSteps.thy ===== *)
theory AlertSteps
  imports OpsJobs
begin

text \<open>
  How the alert layer and the commands over it change the alert directory. What a command does to the alert directory is a
  sequence of dispatches, drains and changes of its other files; the locale \<open>ops_invariant\<close> lifts an invariant of
  these to any sequence of commands.
\<close>

section \<open>Steps\<close>

lemma ticked_simps [simp]:
  "ad_sent (ticked w) = ad_sent w" "ad_outbox (ticked w) = ad_outbox w" "ad_mails (ticked w) = ad_mails w"
  "ad_asked (ticked w) = ad_asked w" "alert_dir.more (ticked w) = alert_dir.more w"
  by (simp_all add: ticked_def)

text \<open>What a delivery does: nothing, a file in the outbox, or one mail followed by its ledger line.\<close>

lemma send_once_cases:
  obtains (delivered) "send_once send now key s b w =
      (ticked (w\<lparr>ad_mails := ad_mails w @ [\<lparr>ml_at = now, ml_key = key, ml_subject = s, ml_body = b\<rparr>]\<rparr>), Delivered)"
  | (not_sent) r where "send_once send now key s b w = (ticked w, r)" "r \<noteq> Delivered"
  by (cases "send (ad_tick w) s b") (auto simp: send_once_def)

lemma send_attempts_preserves:
  assumes "P w" and tick: "\<And>w. P w \<Longrightarrow> P (ticked w)"
    and sent: "\<And>w. P w \<Longrightarrow> Q (ticked (w\<lparr>ad_mails := ad_mails w @ [\<lparr>ml_at = now, ml_key = key, ml_subject = s, ml_body = b\<rparr>]\<rparr>))"
  shows "case send_attempts n send now key s b w of (w', r) \<Rightarrow> if r = Inr True then Q w' else P w'"
  using assms(1)
proof (induction n arbitrary: w)
  case (Suc n)
  show ?case
  proof (cases rule: send_once_cases [of send now key s b w])
    case delivered
    then show ?thesis using sent [OF Suc.prems] by simp
  next
    case (not_sent r)
    then show ?thesis using Suc.IH [OF tick [OF Suc.prems]] tick [OF Suc.prems] by (cases r) auto
  qed
qed simp

lemma deliver_preserves:
  assumes "P w" and tick: "\<And>w. P w \<Longrightarrow> P (ticked w)"
    and sent: "\<And>w. P w \<Longrightarrow> Q (append_ledger io now key (ticked (w\<lparr>ad_mails := ad_mails w @ [\<lparr>ml_at = now, ml_key = key, ml_subject = s, ml_body = b\<rparr>]\<rparr>)))"
    and queued: "\<And>w. P w \<Longrightarrow> Q (enqueue io now s b key w)"
  shows "case deliver io now key s b w of (w', Inr r) \<Rightarrow> Q w' | (w', Inl e) \<Rightarrow> P w'"
proof (cases "io_sender io")
  case None
  then show ?thesis using queued [OF assms(1)] by (simp add: deliver_def)
next
  case (Some send)
  show ?thesis
    using send_attempts_preserves [of P w "\<lambda>w. Q (append_ledger io now key w)" now key s b 2 send, OF assms(1) tick sent] queued
    by (auto simp: deliver_def Some split: prod.splits sum.splits bool.splits)
qed

lemma dispatch_preserves:
  assumes "P w" and tick: "\<And>w. P w \<Longrightarrow> P (ticked w)"
    and old: "is_suppressed io w (am_key m) now = Inr True \<Longrightarrow> Q (ticked w)"
    and sent: "\<And>w. P w \<Longrightarrow> is_suppressed io w0 (am_key m) now \<noteq> Inr True
      \<Longrightarrow> Q (append_ledger io now (am_key m) (ticked (w\<lparr>ad_mails := ad_mails w @ [\<lparr>ml_at = now, ml_key = am_key m, ml_subject = io_subject io (am_subject m), ml_body = io_body io (am_body m)\<rparr>]\<rparr>)))"
    and queued: "\<And>w. P w \<Longrightarrow> Q (enqueue io now (io_subject io (am_subject m)) (io_body io (am_body m)) (am_key m) w)"
    and asked: "\<And>w. Q w \<Longrightarrow> R (w\<lparr>ad_asked := ad_asked w @ [am_key m]\<rparr>)" and raised: "\<And>w. P w \<Longrightarrow> R w" and w0: "w0 = w"
  shows "R (fst (dispatch io m now w))"
proof (cases "is_suppressed io w (am_key m) now = Inr True")
  case True
  then show ?thesis using asked [OF old] by (simp add: dispatch_def)
next
  case False
  have "case deliver io now (am_key m) (io_subject io (am_subject m)) (io_body io (am_body m)) (ticked w) of (w', Inr r) \<Rightarrow> Q w' | (w', Inl e) \<Rightarrow> P w'"
    using sent queued False w0 by (intro deliver_preserves tick assms(1)) auto
  with False show ?thesis using asked raised by (auto simp: dispatch_def Let_def split: prod.splits sum.splits bool.splits)
qed


lemma drain_file_preserves:
  assumes "P w" and tick: "\<And>w. P w \<Longrightarrow> P (ticked w)" and weaker: "\<And>w. P w \<Longrightarrow> R w"
    and gone: "\<And>w key b s. P w \<Longrightarrow> f = QueuedFile s b key \<Longrightarrow> is_suppressed io w0 key now = Inr True
      \<Longrightarrow> R (ticked (w\<lparr>ad_outbox := AList.delete name (ad_outbox w)\<rparr>))"
    and sent: "\<And>w key b s. P w \<Longrightarrow> f = QueuedFile s b key \<Longrightarrow> is_suppressed io w0 key now = Inr False
      \<Longrightarrow> Q (append_ledger io now key (ticked (w\<lparr>ad_mails := ad_mails w @ [\<lparr>ml_at = now, ml_key = key, ml_subject = io_subject io s, ml_body = io_body io b\<rparr>]\<rparr>)))"
    and kept: "\<And>w. Q w \<Longrightarrow> R (ticked w)" and removed: "\<And>w. Q w \<Longrightarrow> R (ticked (w\<lparr>ad_outbox := AList.delete name (ad_outbox w)\<rparr>))"
    and w0: "w0 = w"
  shows "R (fst (drain_file io send now name f n w))"
proof (cases f)
  case CorruptFile
  then show ?thesis using weaker assms(1) by (simp add: drain_file_def)
next
  case (QueuedFile s b key)
  have t: "P (ticked w)" by (rule tick [OF assms(1)])
  consider e where "is_suppressed io w key now = Inl e" | "is_suppressed io w key now = Inr True" | "is_suppressed io w key now = Inr False"
    by (cases "is_suppressed io w key now") auto
  then show ?thesis
  proof cases
    case 1
    then show ?thesis using weaker [OF t] by (simp add: drain_file_def QueuedFile)
  next
    case 2
    then show ?thesis using weaker [OF tick [OF t]] gone [OF t QueuedFile] w0 by (simp add: drain_file_def QueuedFile unlink_def)
  next
    case 3
    show ?thesis
    proof (cases rule: send_once_cases [of send now key "io_subject io s" "io_body io b" "ticked w"])
      case delivered
      then show ?thesis using kept removed sent [OF t QueuedFile] 3 w0 by (simp add: drain_file_def QueuedFile unlink_def)
    next
      case (not_sent r)
      then show ?thesis using weaker [OF tick [OF t]] 3 by (cases r) (simp_all add: drain_file_def QueuedFile)
    qed
  qed
qed

lemma drain_names_preserves:
  assumes step: "\<And>w name f n. P w \<Longrightarrow> is_json_name name \<Longrightarrow> map_of (ad_outbox w) name = Some f \<Longrightarrow> P (fst (drain_file io send now name f n w))"
  shows "P w \<Longrightarrow> P (fst (drain_names io send now max_items names n w))"
proof (induction names arbitrary: n w)
  case (Cons name names)
  show ?case
  proof (cases "max_items \<le> n \<or> \<not> is_json_name name \<or> map_of (ad_outbox w) name = None")
    case True
    then show ?thesis using Cons by auto
  next
    case False
    then obtain f where f: "map_of (ad_outbox w) name = Some f" by auto
    obtain w' r where r: "drain_file io send now name f n w = (w', r)" by fastforce
    then have "P w'" using step [OF Cons.prems _ f, of n] False by simp
    then show ?thesis using Cons.IH [of w'] False f r by (auto split: sum.splits bool.splits prod.splits)
  qed
qed simp

lemma drain_outbox_preserves:
  assumes "\<And>w send name f n. P w \<Longrightarrow> is_json_name name \<Longrightarrow> map_of (ad_outbox w) name = Some f \<Longrightarrow> P (fst (drain_file io send now name f n w))"
    and "\<And>w. P w \<Longrightarrow> P (ticked w)" and "P w"
  shows "P (fst (drain_outbox io now max_items w))"
  using assms drain_names_preserves [of P io] by (simp add: drain_outbox_def split: option.splits)

section \<open>Invariants of the commands\<close>

definition day_keys :: "date \<Rightarrow> string list" where
  "day_keys d = map (\<lambda>k. incident_key k d) all_kinds @ map (\<lambda>k. resolved_key k d) all_kinds"

lemma all_kinds_complete [simp]: "kind \<in> set all_kinds"
  by (cases kind) (simp_all add: all_kinds_def)

lemma built_keys [simp]:
  "am_key (build_page words kind d) = incident_key kind d" "am_key (build_resolved words kind d) = resolved_key kind d"
  by (simp_all add: build_page_def build_resolved_def split: prod.splits)

lemma day_keys_built [simp]: "incident_key kind d \<in> set (day_keys d)" "resolved_key kind d \<in> set (day_keys d)"
  by (simp_all add: day_keys_def)

definition same_mail :: "'z alert_dir_scheme \<Rightarrow> 'z alert_dir_scheme \<Rightarrow> bool" where
  "same_mail w w' \<longleftrightarrow> ad_sent w' = ad_sent w \<and> ad_outbox w' = ad_outbox w \<and> ad_mails w' = ad_mails w \<and> ad_asked w' = ad_asked w"

lemma same_mail_saved: "same_mail w (save_open_incidents io opened w)"
  by (simp add: same_mail_def save_open_incidents_def)

lemma same_mail_noted: "same_mail w (record_unit_failure io unit result exit_status cause now w)"
  by (simp add: same_mail_def record_unit_failure_def)

lemma same_mail_heartbeat: "same_mail w (w\<lparr>od_heartbeat := hb\<rparr>)"
  by (simp add: same_mail_def)

locale ops_invariant =
  fixes inv :: "int \<Rightarrow> ops_dir \<Rightarrow> bool" and fit :: "alert_io \<Rightarrow> date \<Rightarrow> bool" and before :: "int \<Rightarrow> int \<Rightarrow> bool"
  assumes inv_dispatch: "inv now w \<Longrightarrow> fit io d \<Longrightarrow> am_key m \<in> set (day_keys d) \<Longrightarrow> inv now (fst (dispatch io m now w))"
    and inv_drain: "inv now w \<Longrightarrow> fit io d \<Longrightarrow> inv now (fst (drain_outbox io now n w))"
    and inv_other: "inv now w \<Longrightarrow> same_mail w w' \<Longrightarrow> inv now w'"
    and inv_later: "inv now w \<Longrightarrow> before now now' \<Longrightarrow> inv now' w"
begin

lemma page_kinds_inv:
  "inv now w \<Longrightarrow> fit (mail_io io) d \<Longrightarrow> inv now (fst (page_kinds io d now kinds queued opened w))"
proof (induction kinds arbitrary: queued opened w)
  case (Cons kind kinds)
  have "inv now (fst (dispatch (mail_io io) (build_page (io_words io) kind d) now w))" using Cons.prems by (intro inv_dispatch) auto
  then show ?case using Cons.IH Cons.prems(2) by (auto split: prod.splits sum.splits)
qed simp

lemma saved_inv: "inv now w \<Longrightarrow> inv now (save_open_incidents io opened w)"
  by (rule inv_other [OF _ same_mail_saved])

lemma page_inv:
  assumes "inv now w" "fit (mail_io io) d"
  shows "inv now (fst (page io kinds d now w))"
proof -
  obtain w' r where r: "page_kinds io d now kinds False (load_open_incidents w) w = (w', r)" by fastforce
  then have "inv now w'" using page_kinds_inv [OF assms] by (metis fst_conv)
  then show ?thesis by (auto simp: page_def r saved_inv split: sum.split)
qed

lemma announce_resolved_inv:
  "inv now w \<Longrightarrow> fit (mail_io io) d \<Longrightarrow> inv now (fst (announce_resolved io d now kinds opened w))"
proof (induction kinds arbitrary: opened w)
  case (Cons kind kinds)
  have "inv now (fst (dispatch (mail_io io) (build_resolved (io_words io) kind d) now w))" using Cons.prems by (intro inv_dispatch) auto
  then show ?case using Cons.IH Cons.prems(2) by (auto split: prod.splits sum.splits)
qed simp

lemma resolve_incidents_inv:
  assumes "inv now w" "fit (mail_io io) d"
  shows "inv now (fst (resolve_incidents io kinds checked d now w))"
proof -
  let ?resolved = "filter (\<lambda>kind. kind \<in> set checked \<and> kind \<notin> set kinds) (dict_keys (load_open_incidents w))"
  obtain w' r where r: "announce_resolved io d now ?resolved (load_open_incidents w) w = (w', r)" by fastforce
  then have "inv now w'" using announce_resolved_inv [OF assms] by (metis fst_conv)
  then show ?thesis by (auto simp: resolve_incidents_def Let_def r saved_inv split: sum.split)
qed

lemma alert_inv:
  assumes "inv now w" "fit (mail_io io) (local_date (io_zone io) now)"
  shows "inv now (fst (alert io ob unit result exit_status tail now w))"
proof -
  obtain w1 r where drained: "drain_outbox (mail_io io) now 20 w = (w1, r)" by fastforce
  let ?w2 = "record_unit_failure io unit result exit_status (io_cause io tail) now w1"
  have one: "inv now w1" using inv_drain [OF assms, of 20] drained by simp
  then have two: "inv now ?w2" by (rule inv_other [OF _ same_mail_noted])
  have "inv now (fst (case page io kinds (local_date (io_zone io) now) now ?w2 of (w3, Inl e) \<Rightarrow> (w3, Inl e)
      | (w3, Inr queued) \<Rightarrow> (w3, Inr (if queued then 1 else 0 :: int))))" for kinds
    using page_inv [OF two assms(2), of kinds] by (auto split: prod.split sum.split)
  then have "inv now (fst (case kinds of Inl e \<Rightarrow> (?w2, Inl e)
      | Inr kinds \<Rightarrow> if kinds = [] then (?w2, Inr 0) else case page io kinds (local_date (io_zone io) now) now ?w2 of (w3, Inl e) \<Rightarrow> (w3, Inl e)
          | (w3, Inr queued) \<Rightarrow> (w3, Inr (if queued then 1 else 0 :: int))))" for kinds
    using two by (cases kinds) simp_all
  then show ?thesis using one unfolding alert_def drained Let_def by (cases r) (simp only: prod.case sum.case fst_conv)+
qed

lemma audited_inv:
  assumes "inv now w" "fit (mail_io io) today"
  shows "inv now (fst (case page io kinds today now w of (w2, Inl e) \<Rightarrow> (w2, Inl e)
    | (w2, Inr queued) \<Rightarrow> (case resolve_incidents io kinds checked today now w2 of (w3, Inl e) \<Rightarrow> (w3, Inl e)
        | (w3, Inr _) \<Rightarrow> (w3, Inr (if queued then 1 else 0 :: int)))))"
proof -
  obtain w2 r where paged: "page io kinds today now w = (w2, r)" by fastforce
  then have "inv now w2" using page_inv [OF assms, of kinds] by simp
  then show ?thesis using resolve_incidents_inv [OF _ assms(2), of now w2 kinds checked] by (auto simp: paged split: prod.split sum.split)
qed

lemma audit_inv:
  assumes "inv now w" "fit (mail_io io) today"
  shows "inv now (fst (audit io ob today now w))"
proof -
  obtain w1 r where drained: "drain_outbox (mail_io io) now 20 w = (w1, r)" by fastforce
  have one: "inv now w1" using inv_drain [OF assms, of 20] drained by simp
  then have "inv now (w1\<lparr>od_heartbeat := hb\<rparr>)" for hb by (rule inv_other [OF _ same_mail_heartbeat])
  then show ?thesis using one audited_inv [OF _ assms(2)] by (simp add: audit_def drained split: sum.split)
qed

lemma run_call_inv: "inv (call_time c) w \<Longrightarrow> fit (call_io c) (call_day c) \<Longrightarrow> inv (call_time c) (run_call w c)"
  by (cases c) (simp_all add: alert_inv audit_inv)

lemma run_inv:
  "inv t w \<Longrightarrow> successively before (t # map call_time calls) \<Longrightarrow> list_all (\<lambda>c. fit (call_io c) (call_day c)) calls
    \<Longrightarrow> \<exists>t'. inv t' (foldl run_call w calls)"
proof (induction calls arbitrary: w t)
  case (Cons c calls)
  have "inv (call_time c) (run_call w c)"
    using Cons.prems inv_later by (intro run_call_inv) (auto simp: successively_Cons)
  then show ?case using Cons.IH [of "call_time c" "run_call w c"] Cons.prems(2,3) by (auto simp: successively_Cons)
qed auto

end

end
