(* ===== verification/AlertProps.thy ===== *)
theory AlertProps
  imports AlertSteps
begin

text \<open>
  Properties of the alert layer and of its commands: the spacing of the mails, the fate of the dispatched messages,
  the streak count and the open incidents.
\<close>

section \<open>The spacing of the mails\<close>

definition spaced :: "mail list \<Rightarrow> bool" where
  "spaced mails \<longleftrightarrow> sorted_wrt (\<lambda>a b. ml_key a = ml_key b \<longrightarrow> ml_at a + suppress_window \<le> ml_at b) mails"

definition mails_recorded :: "int \<Rightarrow> 'z alert_dir_scheme \<Rightarrow> bool" where
  "mails_recorded now w \<longleftrightarrow> spaced (ad_mails w) \<and> (\<exists>lines. ad_sent w = Jsonl lines False \<and>
     (\<forall>m \<in> set (ad_mails w). Some (Aware (ml_at m), ml_key m) \<in> set lines \<and> ml_at m \<le> now))"

definition ledger_works :: "alert_io \<Rightarrow> bool" where
  "ledger_works io \<longleftrightarrow> (\<forall>n. io_readable io n \<and> io_append io n = Appended)"

lemma mails_recorded_cong:
  "ad_mails w' = ad_mails w \<Longrightarrow> ad_sent w' = ad_sent w \<Longrightarrow> mails_recorded now w' \<longleftrightarrow> mails_recorded now w"
  by (simp add: mails_recorded_def)

lemma mails_recorded_sent:
  assumes "mails_recorded now w" "ledger_works io" "is_suppressed io w0 key now \<noteq> Inr True"
    and same: "ad_sent w = ad_sent w0" "ad_mails w = ad_mails w0"
  shows "mails_recorded now (append_ledger io now key (ticked (w\<lparr>ad_mails := ad_mails w @ [\<lparr>ml_at = now, ml_key = key, ml_subject = s, ml_body = b\<rparr>]\<rparr>)))"
proof -
  from assms(1) obtain lines where lines: "ad_sent w = Jsonl lines False" "spaced (ad_mails w)"
    "\<And>m. m \<in> set (ad_mails w) \<Longrightarrow> Some (Aware (ml_at m), ml_key m) \<in> set lines \<and> ml_at m \<le> now" by (auto simp: mails_recorded_def)
  have "\<not> line_suppresses (io_zone io) key now line" if "line \<in> set lines" for line
    using assms(2,3) lines(1) same that by (auto simp: is_suppressed_def ledger_works_def list_ex_iff)
  then have "ml_at m + suppress_window \<le> now" if "m \<in> set (ad_mails w)" "ml_key m = key" for m
    using lines(3) [OF that(1)] that(2) by (fastforce simp: line_suppresses_def elapsed_def)
  then have "spaced (ad_mails w @ [\<lparr>ml_at = now, ml_key = key, ml_subject = s, ml_body = b\<rparr>])"
    using lines(2) by (simp add: spaced_def sorted_wrt_append)
  then show ?thesis using lines(1,3) assms(2) by (auto simp: mails_recorded_def append_ledger_def ledger_works_def)
qed

lemma mails_recorded_simps [simp]:
  "mails_recorded now (ticked w) = mails_recorded now w" "mails_recorded now (w\<lparr>ad_outbox := x\<rparr>) = mails_recorded now w"
  "mails_recorded now (w\<lparr>ad_asked := y\<rparr>) = mails_recorded now w" "mails_recorded now (enqueue io t s b key w) = mails_recorded now w"
  by (simp_all add: mails_recorded_def enqueue_def)

lemma mails_recorded_dispatch:
  assumes "mails_recorded now w" "ledger_works io"
  shows "mails_recorded now (fst (dispatch io m now w))"
  by (rule dispatch_preserves [where P = "\<lambda>v. mails_recorded now v \<and> ad_sent v = ad_sent w \<and> ad_mails v = ad_mails w" and Q = "mails_recorded now" and ?w0.0 = w];
      (rule mails_recorded_sent [where ?w0.0 = w])?; use assms in simp)

lemma mails_recorded_drain_file:
  assumes "mails_recorded now w" "ledger_works io"
  shows "mails_recorded now (fst (drain_file io send now name f n w))"
  by (rule drain_file_preserves [where P = "\<lambda>v. mails_recorded now v \<and> ad_sent v = ad_sent w \<and> ad_mails v = ad_mails w" and Q = "mails_recorded now" and ?w0.0 = w];
      (rule mails_recorded_sent [where ?w0.0 = w])?; use assms in simp)

lemma mails_recorded_drain:
  assumes "mails_recorded now w" "ledger_works io"
  shows "mails_recorded now (fst (drain_outbox io now n w))"
  by (rule drain_outbox_preserves [where P = "mails_recorded now"]) (use assms in \<open>simp_all add: mails_recorded_drain_file\<close>)

interpretation spacing: ops_invariant mails_recorded "\<lambda>io _. ledger_works io" "(\<le>)"
proof
  show "mails_recorded now w \<Longrightarrow> now \<le> now' \<Longrightarrow> mails_recorded now' w" for now now' and w :: ops_dir
    by (fastforce simp: mails_recorded_def)
qed (auto simp: mails_recorded_dispatch mails_recorded_drain same_mail_def intro: mails_recorded_cong [THEN iffD2])

section \<open>The fate of the dispatched messages\<close>

definition waiting :: "'z alert_dir_scheme \<Rightarrow> string \<Rightarrow> bool" where
  "waiting w key \<longleftrightarrow> (\<exists>name s b. is_json_name name \<and> map_of (ad_outbox w) name = Some (QueuedFile s b key))"

definition accounted_for :: "'z alert_dir_scheme \<Rightarrow> string \<Rightarrow> bool" where
  "accounted_for w key \<longleftrightarrow> key \<in> ml_key ` set (ad_mails w) \<or> waiting w key"

fun sent_keys :: "(py_datetime \<times> string) jsonl \<Rightarrow> string set" where
  "sent_keys Undecodable = {}"
| "sent_keys (Jsonl lines _) = {key. \<exists>t. Some (t, key) \<in> set lines}"

definition named_by :: "(string \<Rightarrow> string) \<Rightarrow> string set \<Rightarrow> string \<Rightarrow> outbox_file \<Rightarrow> bool" where
  "named_by sha keys name f \<longleftrightarrow> (\<forall>s b key. f = QueuedFile s b key \<longrightarrow>
     key \<in> keys \<and> (\<exists>t. name = utc_stamp t @ ''-'' @ sha key @ ''.json''))"

definition nothing_lost :: "(string \<Rightarrow> string) \<Rightarrow> string set \<Rightarrow> 'z alert_dir_scheme \<Rightarrow> bool" where
  "nothing_lost sha keys w \<longleftrightarrow> sent_keys (ad_sent w) \<subseteq> ml_key ` set (ad_mails w)
     \<and> (\<forall>key \<in> set (ad_asked w). accounted_for w key)
     \<and> (\<forall>name f. map_of (ad_outbox w) name = Some f \<longrightarrow> named_by sha keys name f)"

definition outbox_works :: "(string \<Rightarrow> string) \<Rightarrow> alert_io \<Rightarrow> bool" where
  "outbox_works sha io \<longleftrightarrow> io_digest io = sha \<and> (\<forall>n. io_enqueue io n)"

lemma length_utc_stamp [simp]: "length (utc_stamp t) = 23"
  by (simp add: utc_stamp_def Let_def)

lemma outbox_name_inj: "utc_stamp t @ ''-'' @ a @ ''.json'' = utc_stamp t' @ ''-'' @ b @ ''.json'' \<Longrightarrow> a = b"
  using append_eq_append_conv [of "utc_stamp t" "utc_stamp t'"] by simp

lemma sent_keys_append: "sent_keys (jsonl_append r (t, key) jl) \<subseteq> insert key (sent_keys jl)"
  by (cases jl; cases r) auto

lemma suppressed_was_sent: "is_suppressed io w key now = Inr True \<Longrightarrow> key \<in> sent_keys (ad_sent w)"
  by (auto simp: is_suppressed_def list_ex_iff line_suppresses_def split: if_splits jsonl.splits option.splits prod.splits)

lemma nothing_lost_simps [simp]: "nothing_lost sha keys (ticked w) = nothing_lost sha keys w" "accounted_for (ticked w) key = accounted_for w key"
  by (simp_all add: nothing_lost_def accounted_for_def waiting_def)

lemma nothing_lost_sent:
  assumes "nothing_lost sha keys w"
  shows "nothing_lost sha keys (append_ledger io now key (ticked (w\<lparr>ad_mails := ad_mails w @ [\<lparr>ml_at = now, ml_key = key, ml_subject = s, ml_body = b\<rparr>]\<rparr>)))"
    "key \<in> ml_key ` set (ad_mails (append_ledger io now key (ticked (w\<lparr>ad_mails := ad_mails w @ [\<lparr>ml_at = now, ml_key = key, ml_subject = s, ml_body = b\<rparr>]\<rparr>))))"
  using assms sent_keys_append [of _ "Aware now" key "ad_sent w"]
  by (fastforce simp: nothing_lost_def append_ledger_def accounted_for_def waiting_def)+

lemma nothing_lost_deleted:
  assumes "nothing_lost sha keys w" "map_of (ad_outbox w) name = Some (QueuedFile s b key)" "key \<in> ml_key ` set (ad_mails w)"
  shows "nothing_lost sha keys (w\<lparr>ad_outbox := AList.delete name (ad_outbox w)\<rparr>)"
proof -
  let ?w = "w\<lparr>ad_outbox := AList.delete name (ad_outbox w)\<rparr>"
  have "waiting ?w k" if "waiting w k" "k \<noteq> key" for k
  proof -
    from that(1) obtain name' s' b' where q: "is_json_name name'" "map_of (ad_outbox w) name' = Some (QueuedFile s' b' k)"
      by (auto simp: waiting_def)
    with that(2) assms(2) have "name' \<noteq> name" by auto
    with q have "map_of (ad_outbox ?w) name' = Some (QueuedFile s' b' k)" by (simp add: delete_conv')
    with q(1) show ?thesis unfolding waiting_def by blast
  qed
  then have "accounted_for ?w k" if "accounted_for w k" for k
    using that assms(3) by (cases "k = key") (auto simp: accounted_for_def)
  then show ?thesis using assms(1) by (auto simp: nothing_lost_def delete_conv')
qed

lemma nothing_lost_enqueued:
  assumes "nothing_lost sha keys w" "outbox_works sha io" "key \<in> keys" "inj_on sha keys"
  shows "nothing_lost sha keys (enqueue io now s b key w)" "accounted_for (enqueue io now s b key w) key"
proof -
  let ?w = "enqueue io now s b key w" and ?name = "outbox_name io now key"
  have box: "map_of (ad_outbox ?w) = (map_of (ad_outbox w))(?name \<mapsto> QueuedFile s b key)"
    using assms(2) by (simp add: enqueue_def outbox_works_def update_conv')
  have name: "?name = utc_stamp now @ ''-'' @ sha key @ ''.json''" using assms(2) by (simp add: outbox_name_def outbox_works_def)
  then have json: "is_json_name ?name" by (simp add: is_json_name_def suffix_def)
  have old: "k = key" if "map_of (ad_outbox w) ?name = Some (QueuedFile s' b' k)" for s' b' k
    using assms(1,3,4) that name outbox_name_inj unfolding nothing_lost_def named_by_def inj_on_def by metis
  show new: "accounted_for ?w key" using box json by (auto simp: accounted_for_def waiting_def)
  have mails: "ad_mails ?w = ad_mails w" by (simp add: enqueue_def)
  have kept: "waiting ?w k" if "waiting w k" "k \<noteq> key" for k
  proof -
    from that(1) obtain name' s' b' where q: "is_json_name name'" "map_of (ad_outbox w) name' = Some (QueuedFile s' b' k)"
      by (auto simp: waiting_def)
    with that(2) old have "name' \<noteq> ?name" by blast
    with q box have "map_of (ad_outbox ?w) name' = Some (QueuedFile s' b' k)" by simp
    with q(1) show ?thesis unfolding waiting_def by blast
  qed
  have "accounted_for ?w k" if "accounted_for w k" for k
    using that new kept [of k] mails by (cases "k = key") (auto simp: accounted_for_def)
  moreover have "named_by sha keys ?name (QueuedFile s b key)" using name assms(3) by (auto simp: named_by_def)
  ultimately show "nothing_lost sha keys ?w" using assms(1) box by (auto simp: nothing_lost_def enqueue_def)
qed

lemma nothing_lost_asked: "nothing_lost sha keys w \<Longrightarrow> accounted_for w key \<Longrightarrow> nothing_lost sha keys (w\<lparr>ad_asked := ad_asked w @ [key]\<rparr>)"
  by (auto simp: nothing_lost_def accounted_for_def waiting_def)

lemma nothing_lost_dispatch:
  assumes "nothing_lost sha keys w" "outbox_works sha io" "am_key m \<in> keys" "inj_on sha keys"
  shows "nothing_lost sha keys (fst (dispatch io m now w))"
proof (rule dispatch_preserves [where P = "nothing_lost sha keys" and Q = "\<lambda>v. nothing_lost sha keys v \<and> accounted_for v (am_key m)" and ?w0.0 = w])
  assume "is_suppressed io w (am_key m) now = Inr True"
  then show "nothing_lost sha keys (ticked w) \<and> accounted_for (ticked w) (am_key m)"
    using assms(1) suppressed_was_sent by (fastforce simp: nothing_lost_def accounted_for_def waiting_def)
next
  fix v :: "'a alert_dir_scheme" assume v: "nothing_lost sha keys v"
  show "nothing_lost sha keys (enqueue io now s b (am_key m) v) \<and> accounted_for (enqueue io now s b (am_key m) v) (am_key m)" for s b
    using nothing_lost_enqueued [OF v assms(2,3,4)] by blast
  let ?v = "append_ledger io now (am_key m) (ticked (v\<lparr>ad_mails := ad_mails v @ [\<lparr>ml_at = now, ml_key = am_key m, ml_subject = io_subject io (am_subject m), ml_body = io_body io (am_body m)\<rparr>]\<rparr>))"
  show "nothing_lost sha keys ?v \<and> accounted_for ?v (am_key m)" using nothing_lost_sent [OF v] unfolding accounted_for_def by blast
qed (use assms(1) in \<open>auto intro: nothing_lost_asked\<close>)

lemma nothing_lost_drain_file:
  assumes "nothing_lost sha keys w" "map_of (ad_outbox w) name = Some f"
  shows "nothing_lost sha keys (fst (drain_file io send now name f n w))"
proof (rule drain_file_preserves [where P = "\<lambda>v. nothing_lost sha keys v \<and> ad_outbox v = ad_outbox w \<and> ad_sent v = ad_sent w \<and> ad_mails v = ad_mails w"
      and Q = "\<lambda>v. nothing_lost sha keys v \<and> ad_outbox v = ad_outbox w \<and> (\<exists>s b key. f = QueuedFile s b key \<and> key \<in> ml_key ` set (ad_mails v))" and ?w0.0 = w])
  fix v :: "'a alert_dir_scheme" and key b s
  assume v: "nothing_lost sha keys v \<and> ad_outbox v = ad_outbox w \<and> ad_sent v = ad_sent w \<and> ad_mails v = ad_mails w" and f: "f = QueuedFile s b key"
  have "key \<in> ml_key ` set (ad_mails v)" if "is_suppressed io w key now = Inr True"
    using v suppressed_was_sent [OF that] by (auto simp: nothing_lost_def)
  then show "nothing_lost sha keys (ticked (v\<lparr>ad_outbox := AList.delete name (ad_outbox v)\<rparr>))" if "is_suppressed io w key now = Inr True"
    using nothing_lost_deleted [of sha keys v name s b key] v f assms(2) that by simp
  let ?v = "append_ledger io now key (ticked (v\<lparr>ad_mails := ad_mails v @ [\<lparr>ml_at = now, ml_key = key, ml_subject = io_subject io s, ml_body = io_body io b\<rparr>]\<rparr>))"
  have "ad_outbox ?v = ad_outbox w" using v by (simp add: append_ledger_def)
  moreover from v have "nothing_lost sha keys v" by blast
  ultimately show "nothing_lost sha keys ?v \<and> ad_outbox ?v = ad_outbox w \<and> (\<exists>s b key. f = QueuedFile s b key \<and> key \<in> ml_key ` set (ad_mails ?v))"
    using nothing_lost_sent [where sha = sha and keys = keys and w = v and io = io and now = now and key = key
        and s = "io_subject io s" and b = "io_body io b"] f by simp
next
  fix v :: "'a alert_dir_scheme"
  assume "nothing_lost sha keys v \<and> ad_outbox v = ad_outbox w \<and> (\<exists>s b key. f = QueuedFile s b key \<and> key \<in> ml_key ` set (ad_mails v))"
  then show "nothing_lost sha keys (ticked (v\<lparr>ad_outbox := AList.delete name (ad_outbox v)\<rparr>))"
    using nothing_lost_deleted [of sha keys v name] assms(2) by auto
qed (use assms(1) in auto)

lemma nothing_lost_drain:
  assumes "nothing_lost sha keys w"
  shows "nothing_lost sha keys (fst (drain_outbox io now n w))"
  by (rule drain_outbox_preserves [where P = "nothing_lost sha keys"]) (use assms in \<open>simp_all add: nothing_lost_drain_file\<close>)

interpretation fate: ops_invariant "\<lambda>_. nothing_lost sha keys" "\<lambda>io d. outbox_works sha io \<and> set (day_keys d) \<subseteq> keys \<and> inj_on sha keys" "\<lambda>_ _. True" for sha keys
proof
  show "nothing_lost sha keys w \<Longrightarrow> same_mail w w' \<Longrightarrow> nothing_lost sha keys w'" for w w' :: ops_dir
    by (simp add: nothing_lost_def accounted_for_def waiting_def same_mail_def)
qed (auto intro: nothing_lost_dispatch nothing_lost_drain)

section \<open>The properties of the alert layer\<close>

text \<open>C36. No mail is repeated within a day. Start with any ledger of whole lines and run any sequence of alert and audit
  commands, one after another at non-decreasing times, whatever their senders, outboxes and observations do. As long as
  the ledger can be read and extended, two accepted mails with the same key are at least twenty-four hours apart.\<close>

theorem mails_with_one_key_are_a_day_apart:
  assumes "ad_sent w = Jsonl lines False" "ad_mails w = []" "sorted (map call_time calls)"
    and "list_all (\<lambda>c. ledger_works (call_io c)) calls"
  shows "spaced (ad_mails (foldl run_call w calls))"
proof -
  let ?t = "Min (insert 0 (set (map call_time calls)))"
  have "mails_recorded ?t w" using assms(1,2) by (simp add: mails_recorded_def spaced_def)
  moreover have "sorted (?t # map call_time calls)" using assms(3) by (simp add: Min_le_iff)
  then have "successively (\<le>) (?t # map call_time calls)" by (simp add: successively_iff_sorted_wrt_strong sorted_wrt_iff_nth_less)
  ultimately show ?thesis using spacing.run_inv [of ?t w calls] assms(4) by (auto simp: mails_recorded_def)
qed

text \<open>C35. No alert is lost. From an empty alert directory run any sequence of alert and audit commands, whatever their senders,
  ledgers, clocks and observations do. As long as the outbox takes files and the digests of the keys of the days concerned differ,
  every message whose dispatch returned has been accepted by a sender or waits in the outbox.\<close>

theorem no_dispatched_alert_is_lost:
  assumes "ad_sent w = Jsonl [] False" "ad_outbox w = []" "ad_asked w = []"
    and "list_all (\<lambda>c. outbox_works sha (call_io c)) calls"
    and "inj_on sha (set (concat (map (\<lambda>c. day_keys (call_day c)) calls)))"
    and "key \<in> set (ad_asked (foldl run_call w calls))"
  shows "accounted_for (foldl run_call w calls) key"
proof -
  let ?keys = "set (concat (map (\<lambda>c. day_keys (call_day c)) calls))"
  have "nothing_lost sha ?keys w" using assms(1-3) by (simp add: nothing_lost_def)
  moreover have "successively (\<lambda>_ _. True) (0 # map call_time calls)" by (simp add: successively_conv_nth)
  ultimately show ?thesis
    using fate.run_inv [where sha = sha and keys = ?keys and t = 0 and w = w and calls = calls] assms(4-6)
    by (fastforce simp: list_all_iff nothing_lost_def)
qed

section \<open>A morning\<close>

text \<open>A late morning run fails while no sender is configured and again an hour later with one, on a day of the first year,
  where the calendar arithmetic is short.\<close>

definition demo_ops_io :: "alert_sender option \<Rightarrow> ops_io" where
  "demo_ops_io sender = \<lparr>io_sender = sender, io_zone = (\<lambda>_. 9 * hour_us), io_digest = (\<lambda>k. k), io_subject = (\<lambda>s. s), io_body = (\<lambda>s. s),
     io_readable = (\<lambda>_. True), io_append = (\<lambda>_. Appended), io_enqueue = (\<lambda>_. True), io_listable = (\<lambda>_. True), io_unlink = (\<lambda>_. True),
     io_words = \<lparr>page_wording = (\<lambda>k _. (kind_value k, ''page'')), resolved_wording = (\<lambda>k _. (kind_value k, ''resolved''))\<rparr>,
     io_cause = (\<lambda>t. t), io_note = (\<lambda>_. Appended), io_save = (\<lambda>_. True)\<rparr>"

definition demo_observed :: observed where
  "demo_observed = \<lparr>ob_events = (\<lambda>_. Events []), ob_calendar = (\<lambda>_ _. demo_calendar), ob_sha = (\<lambda>_ _. []),
     ob_decisions = \<lparr>cd_lines = [], cd_files = []\<rparr>, ob_backup = NoStatus, ob_divergences = 0, ob_loose_bronze = 0, ob_bytes = 0\<rparr>"

definition demo_ops_dir :: ops_dir where
  "demo_ops_dir = \<lparr>ad_sent = Jsonl [] False, ad_outbox = [], ad_mails = [], ad_asked = [], ad_tick = 0,
     od_failures = Jsonl [] False, od_heartbeat = None, od_incidents = None\<rparr>"

definition demo_morning :: int where
  "demo_morning = (toordinal (Date 1 3 3) - 1) * day_us"

definition demo_calls :: "ops_call list" where
  "demo_calls = [AlertCall (demo_ops_io None) demo_observed ''kse-morning-late.service'' ''exit-code'' ''1'' ''KRX'' demo_morning,
     AlertCall (demo_ops_io (Some (\<lambda>_ _ _. Delivered))) demo_observed ''kse-morning-late.service'' ''exit-code'' ''1'' ''KRX'' (demo_morning + hour_us)]"

lemma demo_evaluated:
  "(let w = foldl run_call demo_ops_dir demo_calls in (ad_asked w, map ml_key (ad_mails w), ad_outbox w)) =
    ([''incident|no_seal|0001-03-03'', ''incident|no_seal|0001-03-03''], [''incident|no_seal|0001-03-03''], [])"
  by code_simp

lemma demo_alert_run:
  "ad_asked (foldl run_call demo_ops_dir demo_calls) = [''incident|no_seal|0001-03-03'', ''incident|no_seal|0001-03-03'']"
  "map ml_key (ad_mails (foldl run_call demo_ops_dir demo_calls)) = [''incident|no_seal|0001-03-03'']"
  using demo_evaluated by (simp_all only: Let_def prod.inject)

theorem mails_with_one_key_are_a_day_apart_witness:
  "spaced (ad_mails (foldl run_call demo_ops_dir demo_calls)) \<and> map ml_key (ad_mails (foldl run_call demo_ops_dir demo_calls)) = [''incident|no_seal|0001-03-03'']"
proof -
  have "sorted (map call_time demo_calls)" by (simp add: demo_calls_def hour_us_def)
  moreover have "list_all (\<lambda>c. ledger_works (call_io c)) demo_calls"
    by (simp add: demo_calls_def demo_ops_io_def ledger_works_def alert_io.truncate_def)
  ultimately show ?thesis
    using mails_with_one_key_are_a_day_apart [of demo_ops_dir "[]" demo_calls] demo_alert_run(2) by (simp add: demo_ops_dir_def)
qed

theorem no_dispatched_alert_is_lost_witness:
  "''incident|no_seal|0001-03-03'' \<in> set (ad_asked (foldl run_call demo_ops_dir demo_calls))
    \<and> accounted_for (foldl run_call demo_ops_dir demo_calls) ''incident|no_seal|0001-03-03''"
proof -
  have asked: "''incident|no_seal|0001-03-03'' \<in> set (ad_asked (foldl run_call demo_ops_dir demo_calls))" unfolding demo_alert_run(1) list.set by blast
  have "list_all (\<lambda>c. outbox_works (\<lambda>k. k) (call_io c)) demo_calls"
    by (simp add: demo_calls_def demo_ops_io_def outbox_works_def alert_io.truncate_def)
  then have "accounted_for (foldl run_call demo_ops_dir demo_calls) ''incident|no_seal|0001-03-03''"
    by - (rule no_dispatched_alert_is_lost [where sha = "\<lambda>k. k", OF _ _ _ _ _ asked], simp_all add: demo_ops_dir_def)
  with asked show ?thesis by blast
qed

end
