(* ===== verification/IncidentProps.thy ===== *)
theory IncidentProps
  imports AlertProps "HOL-Library.Multiset"
begin

text \<open>
  What the commands page and remember: the streak of failed days as a count over the calendar, the page of an
  unsealed morning, the open incidents after an audit, and the ledger that stops a command before its page.
\<close>

section \<open>Streaks\<close>

definition outcome_on :: "observed \<Rightarrow> string \<Rightarrow> date \<Rightarrow> string option" where
  "outcome_on ob job d = (case latest_outcome ob d job of Inr outcome \<Rightarrow> outcome | Inl _ \<Rightarrow> None)"

definition failed_on :: "observed \<Rightarrow> string \<Rightarrow> date list \<Rightarrow> date \<Rightarrow> bool" where
  "failed_on ob job failed d \<longleftrightarrow> d \<in> set failed \<and> outcome_on ob job d \<noteq> Some ''OK''"

text \<open>A day ends a streak if it did not fail and has an outcome other than a skip.\<close>

definition ends_streak :: "observed \<Rightarrow> string \<Rightarrow> date list \<Rightarrow> date \<Rightarrow> bool" where
  "ends_streak ob job failed d \<longleftrightarrow> \<not> failed_on ob job failed d \<and> outcome_on ob job d \<notin> {None, Some ''SKIPPED''}"

definition days_back :: "date \<Rightarrow> nat list \<Rightarrow> date list" where
  "days_back today ns = map (\<lambda>n. date_of_ordinal (toordinal today - int n)) ns"

lemma latest_outcome_on: "ob_events ob d \<noteq> EventsUndecodable \<Longrightarrow> latest_outcome ob d job = Inr (outcome_on ob job d)"
  by (cases "ob_events ob d") (simp_all add: latest_outcome_def outcome_on_def)

lemma streak_loop_counts:
  assumes "\<And>d. ob_events ob d \<noteq> EventsUndecodable"
  shows "0 \<notin> set ns \<Longrightarrow> \<forall>n \<in> set ns. int n < toordinal today \<Longrightarrow> streak_loop ob job failed today ns m =
    Inr (m + int (length (filter (failed_on ob job failed) (takeWhile (\<lambda>d. \<not> ends_streak ob job failed d) (days_back today ns)))))"
  by (induction ns arbitrary: m)
    (auto simp: days_back_def day_before_def guard_def latest_outcome_on [OF assms] failed_on_def ends_streak_def)

lemma streak_is_the_count_of_failed_days:
  assumes "failure_days failures unit = Inr failed" "\<And>d. ob_events ob d \<noteq> EventsUndecodable"
    and "valid_date today" "0 < streak_lookback_days p" "streak_lookback_days p \<le> toordinal today"
  shows "consecutive_failure_days p ob failures job unit today = Inr (if failed_on ob job failed today
    then int (length (filter (failed_on ob job failed) (takeWhile (\<lambda>d. \<not> ends_streak ob job failed d) (days_back today [0..<nat (streak_lookback_days p)])))) else 0)"
proof -
  define ns where "ns = [1..<nat (streak_lookback_days p)]"
  have ns: "[0..<nat (streak_lookback_days p)] = 0 # ns" using assms(4) by (simp add: ns_def upt_conv_Cons)
  have "0 \<notin> set ns" "\<forall>n \<in> set ns. int n < toordinal today" using assms(5) by (auto simp: ns_def)
  note loop = streak_loop_counts [OF assms(2) this]
  have today: "date_of_ordinal (toordinal today) = today"
    using assms(3-5) by (intro date_of_ordinal_toordinal) (auto simp: valid_date_def date_in_month_def)
  have "0 < toordinal today" using assms(4,5) by simp
  then show ?thesis unfolding consecutive_failure_days_def assms(1) res_bind_simps ns
    by (simp add: day_before_def guard_def today latest_outcome_on [OF assms(2)] loop days_back_def failed_on_def ends_streak_def)
qed

section \<open>Frames\<close>




section \<open>The open incidents\<close>







lemma saved_heartbeat [simp]: "od_heartbeat (save_open_incidents io incidents w) = od_heartbeat w"
  by (simp add: save_open_incidents_def ticked_def)








section \<open>Single commands\<close>

lemma dispatch_asks: "dispatch io m now w = (w', Inr outcome) \<Longrightarrow> am_key m \<in> set (ad_asked w')"
  by (auto simp: dispatch_def Let_def split: prod.splits sum.splits)

text \<open>A failed late morning run is always paged, whatever the ledgers hold.\<close>

lemma unsealed_morning_is_paged:
  assumes "alert io ob ''kse-morning-late.service'' result exit_status tail now w = (w', Inr code)"
  shows "incident_key NO_SEAL (local_date (io_zone io) now) \<in> set (ad_asked w')"
proof -
  let ?today = "local_date (io_zone io) now"
  have kinds: "unit_incidents DEFAULT_ALERT_POLICY ob failures ''kse-morning-late.service'' ?today critical = Inr [NO_SEAL]" for failures critical
    by (simp add: unit_incidents_def DEFAULT_ALERT_POLICY_def dict_keys_def)
  from assms obtain v queued where paged: "page io [NO_SEAL] ?today now v = (w', Inr queued)"
    by (auto simp: alert_def kinds Let_def split: prod.splits sum.splits)
  then obtain v' outcome where sent: "dispatch (mail_io io) (build_page (io_words io) NO_SEAL ?today) now v = (v', Inr outcome)"
    and saved: "ad_asked w' = ad_asked v'"
    by (auto simp: page_def save_open_incidents_def split: prod.splits sum.splits)
  show ?thesis using dispatch_asks [OF sent] saved by simp
qed

text \<open>A ledger that is not valid UTF-8 stops a drain at the first waiting message, and with it the command.\<close>

lemma drain_stops_on_undecodable:
  assumes "\<And>n. io_readable io n"
  shows "ad_sent w = Undecodable \<Longrightarrow> name \<in> set names \<Longrightarrow> is_json_name name \<Longrightarrow> map_of (ad_outbox w) name = Some (QueuedFile s b key)
    \<Longrightarrow> n < max_items \<Longrightarrow> snd (drain_names io send now max_items names n w) = Inl decode_error"
proof (induction names)
  case (Cons x names)
  then show ?case using assms
    by (cases "map_of (ad_outbox w) x" rule: option.exhaust [case_product outbox_file.exhaust])
      (auto simp: drain_file_def is_suppressed_def split: outbox_file.splits)
qed simp

lemma undecodable_ledger_stops_alerts:
  assumes "ad_sent w = Undecodable" "is_json_name name" "map_of (ad_outbox w) name = Some (QueuedFile s b key)"
    and "io_sender io = Some send" "\<And>n. io_readable io n" "\<And>n. io_listable io n"
  shows "snd (alert io ob unit result exit_status tail now w) = Inl decode_error"
proof -
  have "name \<in> set (sort (dict_keys (ad_outbox w)))" using map_of_SomeD [OF assms(3)] by (force simp: dict_keys_def)
  then have "snd (drain_outbox (mail_io io) now 20 w) = Inl decode_error"
    using drain_stops_on_undecodable [of "mail_io io" "ticked w" name _ s b key 0 20] assms by (simp add: drain_outbox_def alert_io.truncate_def)
  then show ?thesis by (cases "drain_outbox (mail_io io) now 20 w") (simp add: alert_def Let_def)
qed

section \<open>A Saturday\<close>






end
