(* ===== verification/Spec2Isabelle.thy ===== *)
theory Spec2Isabelle
  imports LedgerProps RulesProps SessionTime FillProps EngineProps EngineHedge EngineTimeline RehearsalProps RefreshKeeps QuotaProps LiveProps
    SealProps PruneProps IncidentProps
begin

text \<open>
  k-stock-engine: a verification development.

  The program is a Korean-equity research and execution engine in Python. It collects market data into
  identity-bound datasets, selects a stock book with a scored policy, simulates that book on an exact account
  ledger, and each session advances the same policy over new data, seals the decision and plans, rehearses and
  submits the orders of the next open. This development models the parts that decide, account and persist, and
  proves what the code's documentation promises of them. Paths below are relative to the repository's
  \<open>src/\<close> package.

  \<^bold>\<open>Shared theories.\<close>
  \<^item> \<open>Prelude\<close>: exceptions as values (\<open>py_error\<close>, \<open>'a res\<close>, \<open>res_bind\<close>, \<open>guard\<close>, \<open>mapM\<close>, \<open>foldM\<close>), insertion-ordered
    dictionaries as association lists, and the collections \<open>res_simps\<close> and \<open>dict_simps\<close>.
  \<^item> \<open>PyNum\<close>, \<open>FloatOrder\<close>: unbounded integers, \<open>Decimal\<close> with 28 digits and binary64 as correctly rounded rationals with
    infinities and NaN (a single zero), with the monotonicity laws of rounding.
  \<^item> \<open>Dates\<close>, \<open>PyText\<close>, \<open>IsoText\<close>: the calendar of \<open>datetime.date\<close> and the text readers and writers the code uses.
  \<^item> \<open>Actions\<close>: state-changing code that may raise, with Hoare rules.

  \<^bold>\<open>Accounting and backtest\<close> (\<open>backtest/\<close>, \<open>core/\<close>).
  \<^item> \<open>Costs\<close>, \<open>Overlay\<close>, \<open>MarketRules\<close>, \<open>SessionTime\<close>: cost terms, hedge terms, dated exchange rules with their parser, sessions and
    the exchange calendar. \<open>RulesProps\<close> shows what the parser lets through and where ticks and price limits lie.
  \<^item> \<open>Ledger\<close>: every method of \<open>backtest/ledger.py\<close> on the record \<open>ledger\<close>. \<open>LedgerLaws\<close> states the interface \<open>journaled\<close> (a balance
    is the sum of the journal) and \<open>LedgerInv\<close> interprets it for each account; \<open>LedgerProps\<close> has the contract of the ledger.
  \<^item> \<open>FillPricing\<close>, \<open>FillProps\<close>: pricing and sizing at the auction (\<open>backtest/execution.py\<close>).
  \<^item> \<open>Engine\<close>, \<open>EngineRun\<close>: \<open>backtest/engine.py\<close> from target orders to the whole run. \<open>EngineOps\<close> is the engine as a client of the
    ledger (interface \<open>ledger_client\<close>); \<open>EngineProps\<close>, \<open>EngineHedge\<close> and \<open>EngineTimeline\<close> prove the records against the journal,
    solvency, funding, the absence of look-ahead and that a longer run extends a shorter one. \<open>EngineDemo\<close> is a run evaluated
    by the kernel.

  \<^bold>\<open>Research and daily operation\<close> (\<open>research/\<close>).
  \<^item> \<open>Policy\<close>, \<open>Book\<close>: the universe, the decision rows, the selection of a row, sleeve targets and their combination.
  \<^item> \<open>Operate\<close>: the carried sleeve state, its construction from a research run and the advance through new sessions. \<open>BookProps\<close> and
    \<open>OperateProps\<close> relate the two sides; \<open>LiveProps\<close> proves that the operation decides what the research run decides, for the
    scorer and the arrays both read. The scorer's boosters are a parameter, with the agreement of its rows as a named
    hypothesis; \<open>LiveDemo\<close> shows it can hold.
  \<^item> \<open>Seal\<close>, \<open>SealProps\<close>: the sealed decision chain with crashes between its effects. SHA-256 is a parameter; only the theorem
    on equal last hashes assumes that the decisions at hand do not collide.

  \<^bold>\<open>Execution\<close> (\<open>execution/\<close>).
  \<^item> \<open>Orders\<close>, \<open>StateStore\<close>, \<open>StoreProps\<close>: the domain records and the two stores behind the interface \<open>state_store\<close>, interpreted for both.
  \<^item> \<open>Submit\<close>, \<open>SubmitProps\<close>: validation, gate, sizing and the submission loop; \<open>durable_submission\<close> extends the store interface to
    restarts. \<open>PlanOrders\<close>, \<open>PlanProps\<close>: planning an open from a sealed decision. \<open>Rehearsal\<close>, \<open>RehearsalProps\<close>: rehearsals and the
    evidence that unlocks live mode.

  \<^bold>\<open>Data\<close> (\<open>data/\<close>, \<open>integrations/quota.py\<close>).
  \<^item> \<open>Datasets\<close>, \<open>Registry\<close>: dataset identities, verification and the registry file.
  \<^item> \<open>RefreshGraph\<close>, \<open>RefreshRun\<close>: the build graph, planning, building, registration and the phased refresh of
    \<open>data/pipeline_graph.py\<close>; \<open>RefreshGates\<close>, \<open>RefreshProps\<close> and \<open>RefreshKeeps\<close> prove termination of the validation, the collection gates and
    the consistency of the registry, with \<open>RefreshDemo\<close> as a small lake.
  \<^item> \<open>Prune\<close>, \<open>PruneProps\<close>: dataset maintenance; the plan is exactly the unreachable part of the lineage and only that is deleted.
  \<^item> \<open>Quota\<close>, \<open>QuotaProps\<close>: the provider quota ledger and the interface \<open>metered_call\<close> of its two booking operations.

  \<^bold>\<open>Operations\<close> (\<open>ops/\<close>).
  \<^item> \<open>Alerts\<close>: delivery of operator mails in \<open>ops/alerts.py\<close>, with the ledger of sent mails, the outbox and its drain. Refused reads, appends,
    deletions and deliveries are outcomes of an environment. \<open>AlertPolicy\<close>: the page policy and the failure streaks. \<open>OpsJobs\<close>: the
    daily audit, which reads the sealed chain of \<open>Seal\<close>, and the commands \<open>alert\<close> and \<open>audit\<close> of \<open>ops/jobs.py\<close>.
  \<^item> \<open>AlertSteps\<close> states the interface \<open>ops_invariant\<close> that lifts an invariant of dispatches and drains to sequences of commands;
    \<open>AlertProps\<close> interprets it for the spacing of mails and for the fate of dispatched messages, for commands that run one after
    another. \<open>IncidentProps\<close> has the streak count, the page of an unsealed morning and the open incidents after an audit.

  \<^bold>\<open>Loops and bounds.\<close> Loops are structural recursion or functions with a termination proof (row loop, graph ordering, mark loop, funding
  scan, rounding). The recursion over the gates of the build graph carries Python's recursion limit as its fuel, which the
  graph of sixteen nodes never reaches.

  \<^bold>\<open>Parameters.\<close> The exchange calendar package and zone data, the broker, SHA-256, the gradient boosters, the mail sender, file contents and callbacks are
  functions handed to the definitions. Inter-process locks make an operation one step; a file replacement and the append of
  one line are atomic. Within one order the price provider gives one answer to both of its queries, marking a key in the
  store does not fail, and the progress callback of a prune does not raise. Decimals are finite.

  \<^bold>\<open>Not modelled.\<close> Feature engineering, model fitting, statistics of evaluation reports and the overlay signal values of the research package
  (reductions of numpy arrays and logarithms in binary64); builders and collectors of datasets (polars frames, Parquet,
  HTTP); brokerage and provider clients; command lines, the other operations jobs and developer tools, whose work is starting other
  processes and reading files. Of the alerts, the Korean wording and the redaction of texts by regular expressions.
\<close>

end
